(* ===== verification/Prelude.thy ===== *)
theory Prelude
  imports Complex_Main
begin

text \<open>
  Shared vocabulary of the development: the exceptions a request can meet, the
  state-and-exception programs that model Python code with side effects, the string
  methods of Python that the package calls, and the lemmas the component theories share.
  A Python \<open>str\<close> is a HOL \<open>string\<close>, one \<open>char\<close> per code point, so text is restricted to
  the first 256 code points; a Python \<open>float\<close> is a \<open>rat\<close> (the scores of the package are
  sums of halves, which binary floating point adds exactly).
\<close>

named_theorems py_simps \<open>evaluation of state-and-exception programs\<close>
named_theorems str_simps \<open>laws of the string methods\<close>

section \<open>Exceptions and programs\<close>

datatype py_exc =
    ValueError
  | KeyError
  | TypeError
  | AttributeError
  | JSONDecodeError
  | RedisError
  | DatabaseError
  | IntegrityError
  | MultipleObjectsReturned
  | DoesNotExist
  | NoReverseMatch
  | ImportError
  | HandlerError
  | DisallowedHost
  | ValidationError
  | ChallengeExpiredError
  | ChallengeMismatchError
  | ChallengeInvalidError
  | ZeroDivisionError
  | NotImplementedError
  | CacheError
  | OSError
  | PermissionError
  | OverflowError
  | PermissionDenied
  | Http404

type_synonym ('s, 'a) py = "'s \<Rightarrow> (py_exc + 'a) \<times> 's"

definition ret :: "'a \<Rightarrow> ('s, 'a) py" where
  "ret x s = (Inr x, s)"

definition raise :: "py_exc \<Rightarrow> ('s, 'a) py" where
  "raise e s = (Inl e, s)"

definition andThen :: "('s, 'a) py \<Rightarrow> ('a \<Rightarrow> ('s, 'b) py) \<Rightarrow> ('s, 'b) py" where
  "andThen m f s = (case m s of (Inl e, s') \<Rightarrow> (Inl e, s') | (Inr x, s') \<Rightarrow> f x s')"

definition try_except :: "('s, 'a) py \<Rightarrow> (py_exc \<Rightarrow> ('s, 'a) py) \<Rightarrow> ('s, 'a) py" where
  "try_except m h s = (case m s of (Inl e, s') \<Rightarrow> h e s' | (Inr x, s') \<Rightarrow> (Inr x, s'))"

definition update_state :: "('s \<Rightarrow> 's) \<Rightarrow> ('s, unit) py" where
  "update_state g s = (Inr (), g s)"

definition read_state :: "('s \<Rightarrow> 'a) \<Rightarrow> ('s, 'a) py" where
  "read_state g s = (Inr (g s), s)"

definition returns :: "('s, 'a) py \<Rightarrow> 's \<Rightarrow> bool" where
  "returns m s = (case fst (m s) of Inl _ \<Rightarrow> False | Inr _ \<Rightarrow> True)"

lemma ret_apply [simp, py_simps]: "ret x s = (Inr x, s)"
  by (simp add: ret_def)

lemma raise_apply [simp, py_simps]: "raise e s = (Inl e, s)"
  by (simp add: raise_def)

lemma update_state_apply [simp, py_simps]: "update_state g s = (Inr (), g s)"
  by (simp add: update_state_def)

lemma read_state_apply [simp, py_simps]: "read_state g s = (Inr (g s), s)"
  by (simp add: read_state_def)

lemma andThen_Inr [simp, py_simps]: "m s = (Inr x, s') \<Longrightarrow> andThen m f s = f x s'"
  by (simp add: andThen_def)

lemma andThen_Inl [simp, py_simps]: "m s = (Inl e, s') \<Longrightarrow> andThen m f s = (Inl e, s')"
  by (simp add: andThen_def)

lemma try_except_Inr [simp, py_simps]: "m s = (Inr x, s') \<Longrightarrow> try_except m h s = (Inr x, s')"
  by (simp add: try_except_def)

lemma try_except_Inl [simp, py_simps]: "m s = (Inl e, s') \<Longrightarrow> try_except m h s = h e s'"
  by (simp add: try_except_def)

lemma andThen_ret [simp]: "andThen (ret x) f = f x"
  by (rule ext) simp

lemma andThen_assoc: "andThen (andThen m f) g = andThen m (\<lambda>x. andThen (f x) g)"
  by (rule ext) (simp add: andThen_def split: prod.splits sum.splits)

text \<open>A handler that never raises makes the whole statement return: the shape of every
  fail-open block of the package.\<close>

lemma try_except_returns:
  "(\<And>e s'. returns (h e) s') \<Longrightarrow> returns (try_except m h) s"
  by (cases "m s" rule: prod.exhaust, cases "fst (m s)")
     (auto simp: returns_def try_except_def split: sum.splits)

lemma returns_andThen:
  "returns m s \<Longrightarrow> (\<And>x s'. m s = (Inr x, s') \<Longrightarrow> returns (f x) s') \<Longrightarrow> returns (andThen m f) s"
  by (cases "m s") (auto simp: returns_def andThen_def split: sum.splits)

lemma returns_ret [simp]: "returns (ret x) s"
  by (simp add: returns_def)

lemma returns_update_state [simp]: "returns (update_state g) s"
  by (simp add: returns_def)

lemma returns_read_state [simp]: "returns (read_state g) s"
  by (simp add: returns_def)

lemma returnsE:
  assumes "returns m s" obtains x s' where "m s = (Inr x, s')"
  using assms by (cases "m s") (auto simp: returns_def split: sum.splits)

section \<open>Characters\<close>

definition ord :: "char \<Rightarrow> nat" where
  "ord c = of_char c"

definition chr :: "nat \<Rightarrow> char" where
  "chr n = char_of n"

lemma ord_lt_256 [simp]: "ord c < 256"
  using nat_of_char_less_256 [of c] by (simp add: ord_def)

lemma chr_ord [simp]: "chr (ord c) = c"
  by (simp add: ord_def chr_def)

lemma ord_inject: "ord c = ord d \<longleftrightarrow> c = d"
  by (metis chr_ord)

lemma ord_chr: "n < 256 \<Longrightarrow> ord (chr n) = n"
  by (simp add: ord_def chr_def)

definition is_digit :: "char \<Rightarrow> bool" where
  "is_digit c = (48 \<le> ord c \<and> ord c \<le> 57)"

definition is_space :: "char \<Rightarrow> bool" where
  "is_space c = (let n = ord c in
     (9 \<le> n \<and> n \<le> 13) \<or> (28 \<le> n \<and> n \<le> 32) \<or> n = 133 \<or> n = 160)"

definition is_hexdigit :: "char \<Rightarrow> bool" where
  "is_hexdigit c = (let n = ord c in
     (48 \<le> n \<and> n \<le> 57) \<or> (65 \<le> n \<and> n \<le> 70) \<or> (97 \<le> n \<and> n \<le> 102))"

text \<open>\<open>str.lower\<close> and \<open>str.upper\<close> on the first 256 code points. \<open>lower\<close> is exact there;
  \<open>upper\<close> leaves the three characters alone whose upper case lies outside the range
  (code points 181, 223 and 255).\<close>

definition lower_char :: "char \<Rightarrow> char" where
  "lower_char c = (let n = ord c in
     if (65 \<le> n \<and> n \<le> 90) \<or> (192 \<le> n \<and> n \<le> 222 \<and> n \<noteq> 215) then chr (n + 32) else c)"

definition upper_char :: "char \<Rightarrow> char" where
  "upper_char c = (let n = ord c in
     if (97 \<le> n \<and> n \<le> 122) \<or> (224 \<le> n \<and> n \<le> 254 \<and> n \<noteq> 247) then chr (n - 32) else c)"

definition lower :: "string \<Rightarrow> string" where
  "lower = map lower_char"

definition upper :: "string \<Rightarrow> string" where
  "upper = map upper_char"

lemma ord_lower_char:
  "ord (lower_char c) =
     (if (65 \<le> ord c \<and> ord c \<le> 90) \<or> (192 \<le> ord c \<and> ord c \<le> 222 \<and> ord c \<noteq> 215)
      then ord c + 32 else ord c)"
  by (auto simp: lower_char_def Let_def ord_chr)

lemma lower_char_idem [simp]: "lower_char (lower_char c) = lower_char c"
  using ord_lower_char [of c]
  by (auto simp: lower_char_def [of "lower_char c"] Let_def)

lemma lower_idem [simp, str_simps]: "lower (lower s) = lower s"
  by (simp add: lower_def comp_def)

lemma length_lower [simp, str_simps]: "length (lower s) = length s"
  by (simp add: lower_def)

lemma lower_append [str_simps]: "lower (s @ t) = lower s @ lower t"
  by (simp add: lower_def)

lemma lower_Nil_iff [simp]: "lower s = [] \<longleftrightarrow> s = []"
  by (simp add: lower_def)

section \<open>String methods\<close>

definition startswith :: "string \<Rightarrow> string \<Rightarrow> bool" where
  "startswith s p = (take (length p) s = p)"

definition endswith :: "string \<Rightarrow> string \<Rightarrow> bool" where
  "endswith s p = startswith (rev s) (rev p)"

lemma startswith_iff [str_simps]: "startswith s p \<longleftrightarrow> (\<exists>t. s = p @ t)"
  by (auto simp: startswith_def) (metis append_take_drop_id)

lemma endswith_iff [str_simps]: "endswith s p \<longleftrightarrow> (\<exists>t. s = t @ p)"
  by (auto simp: endswith_def startswith_iff) (metis rev_append rev_rev_ident)

lemma startswith_refl [simp]: "startswith s s"
  by (simp add: startswith_def)

lemma startswith_Nil [simp]: "startswith s []"
  by (simp add: startswith_def)

lemma startswith_append [simp]: "startswith (p @ t) p"
  by (simp add: startswith_def)

lemma startswith_trans: "startswith s p \<Longrightarrow> startswith p q \<Longrightarrow> startswith s q"
  by (auto simp: startswith_iff)

text \<open>\<open>sub in s\<close>.\<close>

fun contains_sub :: "string \<Rightarrow> string \<Rightarrow> bool" where
  "contains_sub sub [] = (sub = [])"
| "contains_sub sub (c # s) = (startswith (c # s) sub \<or> contains_sub sub s)"

lemma contains_sub_iff [str_simps]: "contains_sub sub s \<longleftrightarrow> (\<exists>u v. s = u @ sub @ v)"
proof (induction s)
  case Nil
  then show ?case by auto
next
  case (Cons c s)
  show ?case (is "?L \<longleftrightarrow> ?R")
  proof
    assume ?L
    then consider t where "c # s = sub @ t" | u v where "s = u @ sub @ v"
      using Cons by (auto simp: startswith_iff)
    then show ?R
    proof cases
      case 1
      then have "c # s = [] @ sub @ t" by simp
      then show ?thesis by blast
    next
      case 2
      then have "c # s = (c # u) @ sub @ v" by simp
      then show ?thesis by blast
    qed
  next
    assume ?R
    then obtain u v where uv: "c # s = u @ sub @ v" by blast
    show ?L
    proof (cases u)
      case Nil
      with uv have "startswith (c # s) sub" by (auto simp: startswith_iff)
      then show ?thesis by simp
    next
      case (Cons d u')
      with uv have "s = u' @ sub @ v" by simp
      with \<open>contains_sub sub s \<longleftrightarrow> (\<exists>u v. s = u @ sub @ v)\<close> show ?thesis by auto
    qed
  qed
qed

text \<open>\<open>s.split(c)\<close> for a one-character separator, and \<open>c.join(parts)\<close>.\<close>

fun split :: "char \<Rightarrow> string \<Rightarrow> string list" where
  "split c [] = [[]]"
| "split c (x # s) =
     (if x = c then [] # split c s
      else (case split c s of [] \<Rightarrow> [[x]] | p # ps \<Rightarrow> (x # p) # ps))"

fun join :: "char \<Rightarrow> string list \<Rightarrow> string" where
  "join c [] = []"
| "join c [p] = p"
| "join c (p # q # ps) = p @ c # join c (q # ps)"

lemma split_not_Nil [simp]: "split c s \<noteq> []"
  by (induction s) (auto split: list.splits)

lemma join_Cons: "ps \<noteq> [] \<Longrightarrow> join c (p # ps) = p @ c # join c ps"
  by (cases ps) auto

lemma join_Cons_char: "join c ((x # p) # ps) = x # join c (p # ps)"
  by (cases ps) auto

lemma join_split [simp, str_simps]: "join c (split c s) = s"
proof (induction s)
  case Nil
  then show ?case by simp
next
  case (Cons x s)
  show ?case
  proof (cases "x = c")
    case True
    with Cons show ?thesis by (simp add: join_Cons)
  next
    case False
    obtain p ps where "split c s = p # ps" by (meson list.exhaust split_not_Nil)
    with Cons False show ?thesis by (simp add: join_Cons_char)
  qed
qed

lemma split_free: "p \<in> set (split c s) \<Longrightarrow> c \<notin> set p"
  by (induction s arbitrary: p) (auto split: if_splits list.splits)

lemma split_single [str_simps]: "c \<notin> set p \<Longrightarrow> split c p = [p]"
  by (induction p) auto

lemma split_append [str_simps]: "c \<notin> set p \<Longrightarrow> split c (p @ c # s) = p # split c s"
  by (induction p) auto

lemma split_append_sep: "split c (a @ c # b) = split c a @ split c b"
proof (induction a)
  case Nil
  then show ?case by simp
next
  case (Cons x a)
  obtain p ps where "split c a = p # ps" by (meson list.exhaust split_not_Nil)
  with Cons show ?case by simp
qed

lemma split_join [str_simps]:
  "ps \<noteq> [] \<Longrightarrow> (\<And>p. p \<in> set ps \<Longrightarrow> c \<notin> set p) \<Longrightarrow> split c (join c ps) = ps"
  by (induction c ps rule: join.induct) (auto simp: str_simps)

lemma length_split: "length (split c s) = Suc (count_list s c)"
  by (induction s) (auto split: list.splits)

text \<open>\<open>s.split(sep, 1)\<close> and \<open>s.partition(sep)\<close> cut at the first occurrence of a separator,
  \<open>s.rsplit(c, 1)\<close> and \<open>s.rfind(c)\<close> at the last one; \<open>None\<close> is "no separator".\<close>

fun cut :: "string \<Rightarrow> string \<Rightarrow> (string \<times> string) option" where
  "cut sep [] = (if sep = [] then Some ([], []) else None)"
| "cut sep (c # s) =
     (if startswith (c # s) sep then Some ([], drop (length sep) (c # s))
      else map_option (\<lambda>(a, b). (c # a, b)) (cut sep s))"

definition rcut :: "char \<Rightarrow> string \<Rightarrow> (string \<times> string) option" where
  "rcut c s = (if c \<in> set s
     then Some (rev (tl (dropWhile (\<lambda>x. x \<noteq> c) (rev s))), rev (takeWhile (\<lambda>x. x \<noteq> c) (rev s)))
     else None)"

lemma cut_Some: "cut sep s = Some (a, b) \<Longrightarrow> s = a @ sep @ b"
  by (induction s arbitrary: a b)
     (auto simp: startswith_def split: if_splits, metis append_take_drop_id)

lemma cut_None: "cut sep s = None \<longleftrightarrow> \<not> contains_sub sep s"
  by (induction s) auto

lemma cut_char [str_simps]: "c \<notin> set a \<Longrightarrow> cut [c] (a @ c # b) = Some (a, b)"
  by (induction a) (auto simp: startswith_def)

lemma rcut_append [str_simps]: "c \<notin> set b \<Longrightarrow> rcut c (a @ c # b) = Some (a, b)"
proof -
  assume "c \<notin> set b"
  then have b: "\<And>x. x \<in> set (rev b) \<Longrightarrow> x \<noteq> c" by auto
  have "takeWhile (\<lambda>x. x \<noteq> c) (rev b @ c # rev a) = rev b"
    using b by (subst takeWhile_append2) auto
  moreover have "dropWhile (\<lambda>x. x \<noteq> c) (rev b @ c # rev a) = c # rev a"
    using b by (subst dropWhile_append2) auto
  ultimately
  show ?thesis by (simp add: rcut_def)
qed

lemma rcut_Some: "rcut c s = Some (a, b) \<Longrightarrow> s = a @ c # b \<and> c \<notin> set b"
proof -
  assume r: "rcut c s = Some (a, b)"
  then have c: "c \<in> set s" by (auto simp: rcut_def split: if_splits)
  then obtain x y where xy: "s = x @ c # y" "c \<notin> set y" by (metis split_list_last)
  with r show ?thesis by (simp add: rcut_append)
qed

lemma rcut_None: "rcut c s = None \<longleftrightarrow> c \<notin> set s"
  by (simp add: rcut_def)

text \<open>\<open>s.split(c, n)\<close>: at most \<open>n\<close> cuts, from the left.\<close>

fun split_max :: "char \<Rightarrow> nat \<Rightarrow> string \<Rightarrow> string list" where
  "split_max c 0 s = [s]"
| "split_max c (Suc n) s =
     (case cut [c] s of None \<Rightarrow> [s] | Some (a, b) \<Rightarrow> a # split_max c n b)"

definition lstrip_by :: "(char \<Rightarrow> bool) \<Rightarrow> string \<Rightarrow> string" where
  "lstrip_by P s = dropWhile P s"

definition rstrip_by :: "(char \<Rightarrow> bool) \<Rightarrow> string \<Rightarrow> string" where
  "rstrip_by P s = rev (dropWhile P (rev s))"

definition strip :: "string \<Rightarrow> string" where
  "strip s = rstrip_by is_space (lstrip_by is_space s)"

lemma lstrip_id [str_simps]: "(\<And>c. c \<in> set s \<Longrightarrow> \<not> P c) \<Longrightarrow> lstrip_by P s = s"
  by (cases s) (auto simp: lstrip_by_def)

lemma rstrip_id [str_simps]:
  assumes "\<And>c. c \<in> set s \<Longrightarrow> \<not> P c"
  shows "rstrip_by P s = s"
proof -
  have "dropWhile P (rev s) = rev s"
    using assms by (cases "s = []") (auto simp: dropWhile_eq_self_iff hd_rev)
  then show ?thesis by (simp add: rstrip_by_def)
qed

lemma strip_id [str_simps]: "(\<And>c. c \<in> set s \<Longrightarrow> \<not> is_space c) \<Longrightarrow> strip s = s"
  by (simp add: strip_def lstrip_id rstrip_id)

section \<open>Decimal numbers\<close>

definition digit_char :: "int \<Rightarrow> char" where
  "digit_char d = chr (48 + nat d)"

definition digit_val :: "char \<Rightarrow> int" where
  "digit_val c = int (ord c) - 48"

lemma ord_digit_char: "0 \<le> d \<Longrightarrow> d < 10 \<Longrightarrow> ord (digit_char d) = 48 + nat d"
  by (simp add: digit_char_def ord_chr)

lemma digit_val_char [simp]: "0 \<le> d \<Longrightarrow> d < 10 \<Longrightarrow> digit_val (digit_char d) = d"
  by (simp add: digit_val_def ord_digit_char)

lemma is_digit_char [simp]: "0 \<le> d \<Longrightarrow> d < 10 \<Longrightarrow> is_digit (digit_char d)"
  by (simp add: is_digit_def ord_digit_char)

text \<open>\<open>str(n)\<close> of a non-negative integer, and of any integer.\<close>

function str_nat :: "int \<Rightarrow> string" where
  "str_nat n = (if n < 10 then [digit_char n] else str_nat (n div 10) @ [digit_char (n mod 10)])"
  by pat_completeness auto
termination
  by (relation "measure nat") auto

declare str_nat.simps [simp del]

definition str_int :: "int \<Rightarrow> string" where
  "str_int i = (if i < 0 then CHR ''-'' # str_nat (- i) else str_nat i)"

definition int_of_digits :: "string \<Rightarrow> int" where
  "int_of_digits s = foldl (\<lambda>n c. 10 * n + digit_val c) 0 s"

lemma int_of_digits_snoc: "int_of_digits (s @ [c]) = 10 * int_of_digits s + digit_val c"
  by (simp add: int_of_digits_def)

lemma str_nat_lt10: "n < 10 \<Longrightarrow> str_nat n = [digit_char n]"
  by (simp add: str_nat.simps [of n])

lemma str_nat_ge10: "\<not> n < 10 \<Longrightarrow> str_nat n = str_nat (n div 10) @ [digit_char (n mod 10)]"
  by (simp add: str_nat.simps [of n])

lemma int_of_digits_str_nat [simp, str_simps]: "0 \<le> n \<Longrightarrow> int_of_digits (str_nat n) = n"
proof (induction n rule: str_nat.induct)
  case (1 n)
  show ?case
  proof (cases "n < 10")
    case True
    with 1 show ?thesis by (simp add: str_nat_lt10 int_of_digits_def)
  next
    case False
    with 1 show ?thesis by (simp add: str_nat_ge10 int_of_digits_snoc)
  qed
qed

lemma str_nat_digits: "0 \<le> n \<Longrightarrow> c \<in> set (str_nat n) \<Longrightarrow> is_digit c"
proof (induction n arbitrary: c rule: str_nat.induct)
  case (1 n)
  show ?case
  proof (cases "n < 10")
    case True
    with 1 show ?thesis by (simp add: str_nat_lt10)
  next
    case False
    with 1 show ?thesis by (auto simp: str_nat_ge10)
  qed
qed

lemma str_nat_not_Nil [simp]: "str_nat n \<noteq> []"
  by (subst str_nat.simps) simp

lemma length_str_nat: "n < 10 ^ Suc k \<Longrightarrow> length (str_nat n) \<le> Suc k"
proof (induction k arbitrary: n)
  case 0
  then show ?case by (simp add: str_nat_lt10)
next
  case (Suc k)
  show ?case
  proof (cases "n < 10")
    case True
    then show ?thesis by (simp add: str_nat_lt10)
  next
    case False
    from Suc.prems have "n div 10 < 10 ^ Suc k" by simp
    then have "length (str_nat (n div 10)) \<le> Suc k" by (rule Suc.IH)
    with False show ?thesis by (simp add: str_nat_ge10)
  qed
qed

lemma digit_char_zero: "0 \<le> k \<Longrightarrow> k < 10 \<Longrightarrow> digit_char k = CHR ''0'' \<longleftrightarrow> k = 0"
proof -
  assume "0 \<le> k" "k < 10"
  moreover have "ord CHR ''0'' = 48" by (simp add: ord_def)
  ultimately show ?thesis
    using ord_digit_char [of k] ord_inject [of "digit_char k" "CHR ''0''"] by auto
qed

lemma hd_str_nat: "0 < n \<Longrightarrow> hd (str_nat n) \<noteq> CHR ''0''"
proof (induction n rule: str_nat.induct)
  case (1 n)
  show ?case
  proof (cases "n < 10")
    case True
    with 1 show ?thesis by (simp add: str_nat_lt10 digit_char_zero)
  next
    case False
    with 1 show ?thesis by (simp add: str_nat_ge10)
  qed
qed

text \<open>\<open>int(s)\<close> on a string: surrounding white space is dropped, a sign is allowed, digits
  may be grouped by single underscores; anything else is a \<open>ValueError\<close> (\<open>None\<close>).\<close>

fun digit_groups :: "bool \<Rightarrow> string \<Rightarrow> bool" where
  "digit_groups seen [] = seen"
| "digit_groups seen (c # s) =
     (if is_digit c then digit_groups True s
      else c = CHR ''_'' \<and> seen \<and> digit_groups False s)"

definition py_int :: "string \<Rightarrow> int option" where
  "py_int s = (let t = strip s;
       (neg, u) = (case t of
            c # r \<Rightarrow> if c = CHR ''-'' then (True, r) else if c = CHR ''+'' then (False, r) else (False, t)
          | [] \<Rightarrow> (False, t));
       v = int_of_digits (filter is_digit u)
     in if digit_groups False u then Some (if neg then - v else v) else None)"

text \<open>The interpreter refuses to convert a text of more than 4300 digits
  (\<open>sys.get_int_max_str_digits()\<close>): \<open>int_text\<close> is \<open>int(s)\<close> with that limit, for text that a
  client supplies. Numbers that the package itself wrote are far below it.\<close>

definition INT_MAX_STR_DIGITS :: nat where
  "INT_MAX_STR_DIGITS = 4300"

definition int_text :: "string \<Rightarrow> int option" where
  "int_text s = (if INT_MAX_STR_DIGITS < length (filter is_digit s) then None else py_int s)"

lemma digit_groups_digits: "(\<And>c. c \<in> set s \<Longrightarrow> is_digit c) \<Longrightarrow> digit_groups b s = (b \<or> s \<noteq> [])"
  by (induction s arbitrary: b) auto

lemma digit_not_special:
  assumes "is_digit c"
  shows "\<not> is_space c" "c \<noteq> CHR ''-''" "c \<noteq> CHR ''+''" "c \<noteq> CHR ''|''" "c \<noteq> CHR ''_''"
  using assms by (auto simp: is_digit_def is_space_def Let_def ord_def)

lemma py_int_str_nat [simp, str_simps]: "0 \<le> n \<Longrightarrow> py_int (str_nat n) = Some n"
proof -
  assume n: "0 \<le> n"
  then have d: "\<And>c. c \<in> set (str_nat n) \<Longrightarrow> is_digit c" by (rule str_nat_digits)
  have s: "strip (str_nat n) = str_nat n"
    by (rule strip_id) (use d digit_not_special in blast)
  obtain c r where cr: "str_nat n = c # r" by (meson list.exhaust str_nat_not_Nil)
  have c: "c \<noteq> CHR ''-''" "c \<noteq> CHR ''+''"
    using d [of c] cr digit_not_special by auto
  have f: "filter is_digit (str_nat n) = str_nat n" using d by (simp add: filter_id_conv)
  have g: "digit_groups False (c # r)"
    using digit_groups_digits [of "str_nat n" False] d cr by simp
  have "py_int (str_nat n) = Some (int_of_digits (str_nat n))"
    using s c f g unfolding cr py_int_def Let_def by (simp del: digit_groups.simps filter.simps)
  then show ?thesis using n by simp
qed

lemma py_int_str_int [simp, str_simps]: "py_int (str_int i) = Some i"
proof (cases "i < 0")
  case False
  then show ?thesis by (simp add: str_int_def)
next
  case True
  let ?d = "str_nat (- i)"
  have d: "\<And>c. c \<in> set ?d \<Longrightarrow> is_digit c" using True str_nat_digits [of "- i"] by simp
  have "\<not> is_space CHR ''-''" by (simp add: is_space_def ord_def)
  then have s: "strip (CHR ''-'' # ?d) = CHR ''-'' # ?d"
    by (intro strip_id) (use d digit_not_special in auto)
  have f: "filter is_digit ?d = ?d" using d by (simp add: filter_id_conv)
  have g: "digit_groups False ?d" using digit_groups_digits [of ?d False] d by simp
  show ?thesis using True s f g by (simp add: str_int_def py_int_def)
qed

lemma str_int_inject [simp]: "str_int i = str_int j \<longleftrightarrow> i = j"
  by (metis option.inject py_int_str_int)

lemma notin_str_int: "\<not> is_digit c \<Longrightarrow> c \<noteq> CHR ''-'' \<Longrightarrow> c \<notin> set (str_int i)"
proof -
  assume c: "\<not> is_digit c" "c \<noteq> CHR ''-''"
  then have "0 \<le> n \<Longrightarrow> c \<notin> set (str_nat n)" for n using str_nat_digits [of n c] by blast
  with c show ?thesis by (simp add: str_int_def)
qed

lemma slash_notin_str_int: "CHR ''/'' \<notin> set (str_int i)"
  by (rule notin_str_int) (simp_all add: is_digit_def ord_def)

lemma int_text_small:
  assumes "0 \<le> n" and "n < 10 ^ 18"
  shows "int_text (str_int n) = Some n"
proof -
  have "n < 10 ^ Suc 17" using assms(2) by simp
  from length_str_nat [OF this] have "length (str_int n) \<le> 18" using assms(1) by (simp add: str_int_def)
  then have "length (filter is_digit (str_int n)) \<le> 18" using length_filter_le le_trans by blast
  then show ?thesis by (simp add: int_text_def INT_MAX_STR_DIGITS_def)
qed

section \<open>Dictionaries and lists\<close>

text \<open>A Python dictionary of strings is an association list; \<open>d.get(k, default)\<close>.\<close>

type_synonym strdict = "(string \<times> string) list"

definition dget :: "strdict \<Rightarrow> string \<Rightarrow> string \<Rightarrow> string" where
  "dget d k dflt = (case map_of d k of None \<Rightarrow> dflt | Some v \<Rightarrow> v)"

text \<open>The first element that satisfies a test: the shape of every \<open>for ... if ...: return\<close>
  loop of the package.\<close>

lemma find_Some_split:
  "find P xs = Some x \<longleftrightarrow> (\<exists>ys zs. xs = ys @ x # zs \<and> P x \<and> (\<forall>y \<in> set ys. \<not> P y))"
  (is "?L \<longleftrightarrow> ?R")
proof
  assume ?L
  then show ?R
  proof (induction xs)
    case Nil
    then show ?case by simp
  next
    case (Cons a xs)
    show ?case
    proof (cases "P a")
      case True
      with Cons.prems have "a # xs = [] @ x # xs" and "P x" by auto
      then show ?thesis by fastforce
    next
      case False
      with Cons obtain ys zs where "xs = ys @ x # zs" "P x" "\<forall>y \<in> set ys. \<not> P y" by auto
      with False have "a # xs = (a # ys) @ x # zs" and "\<forall>y \<in> set (a # ys). \<not> P y" by auto
      with \<open>P x\<close> show ?thesis by blast
    qed
  qed
next
  have "\<And>ys zs. P x \<Longrightarrow> \<forall>y \<in> set ys. \<not> P y \<Longrightarrow> find P (ys @ x # zs) = Some x"
    subgoal for ys zs by (induction ys) auto
    done
  moreover assume ?R
  ultimately show ?L by blast
qed

text \<open>Looking up a row by a unique key.\<close>

lemma filter_unique_key:
  assumes "distinct (map f xs)" and "x \<in> set xs"
  shows "filter (\<lambda>y. f y = f x) xs = [x]"
  using assms
proof (induction xs)
  case Nil
  then show ?case by simp
next
  case (Cons a xs)
  show ?case
  proof (cases "x = a")
    case True
    then have "filter (\<lambda>y. f y = f x) xs = []"
      using Cons.prems(1) by (auto simp: filter_empty_conv image_iff)
    with True show ?thesis by simp
  next
    case False
    with Cons.prems have x: "x \<in> set xs" "distinct (map f xs)" by auto
    with Cons.prems(1) have "f a \<noteq> f x" by (auto simp: image_iff)
    with Cons.IH [OF x(2,1)] show ?thesis by simp
  qed
qed

section \<open>Text formats\<close>

text \<open>The contract of a text format: on the values it is meant for, reading back what was
  written gives the value again. The formats of the package (JSON documents, UUIDs, decimal
  numbers, cookies and form tokens) are interpretations.\<close>

locale codec =
  fixes ok :: "'a \<Rightarrow> bool" and enc :: "'a \<Rightarrow> string" and dec :: "string \<Rightarrow> 'a option"
  assumes dec_enc: "ok x \<Longrightarrow> dec (enc x) = Some x"
begin

lemma enc_inject: "ok x \<Longrightarrow> ok y \<Longrightarrow> enc x = enc y \<longleftrightarrow> x = y"
  by (metis dec_enc option.inject)

lemma dec_eq_iff: "ok x \<Longrightarrow> ok y \<Longrightarrow> dec (enc x) = Some y \<longleftrightarrow> x = y"
  by (simp add: dec_enc)

end

interpretation int_codec: codec "\<lambda>_. True" str_int py_int
  by unfold_locales simp

section \<open>Rounding\<close>

text \<open>Python rounds half to even.\<close>

definition round_half_even :: "rat \<Rightarrow> int" where
  "round_half_even q = (let f = \<lfloor>q\<rfloor>; d = q - of_int f in
     if d < 1 / 2 then f else if 1 / 2 < d then f + 1 else if even f then f else f + 1)"

section \<open>Counting\<close>

text \<open>The distinct elements in the order of their first occurrence (the key order of a Python
  dictionary filled in a loop), and the elements with their numbers of occurrences.\<close>

definition firsts :: "'a list \<Rightarrow> 'a list" where
  "firsts xs = rev (remdups (rev xs))"

definition group_counts :: "'a list \<Rightarrow> ('a \<times> int) list" where
  "group_counts xs = map (\<lambda>x. (x, int (count_list xs x))) (firsts xs)"

lemma set_firsts [simp]: "set (firsts xs) = set xs"
  by (simp add: firsts_def)

lemma distinct_firsts [simp]: "distinct (firsts xs)"
  by (simp add: firsts_def)

lemma firsts_Nil [simp]: "firsts [] = []" "firsts xs = [] \<longleftrightarrow> xs = []"
  by (simp_all add: firsts_def)

lemma in_group_counts: "(x, n) \<in> set (group_counts xs) \<longleftrightarrow> x \<in> set xs \<and> n = int (count_list xs x)"
  by (auto simp: group_counts_def)

lemma distinct_group_counts: "distinct (map fst (group_counts xs))"
  by (simp add: group_counts_def comp_def)

end
