(* ===== verification/PyIpaddress.thy ===== *)
theory PyIpaddress
  imports Prelude
begin

text \<open>
  The part of Python's \<open>ipaddress\<close> module the package calls: \<open>ip_address(s)\<close> (an IPv4
  address is tried first, then an IPv6 address), \<open>ip_network(s, strict=False)\<close>, membership
  of an address in a network, and the compressed text form. \<open>None\<close> is the \<open>ValueError\<close> of
  the module. The checks are those of the library: four decimal octets without leading
  zeros, eight hextets with at most one \<open>::\<close>, an optional dotted-quad tail and scope
  identifier, a prefix length or (IPv4 only) a net mask or host mask.
\<close>

datatype ip = V4 int | V6 int "string option"

datatype network = Net4 int nat | Net6 int nat

section \<open>IPv4\<close>

definition parse_octet :: "string \<Rightarrow> int option" where
  "parse_octet s =
     (if s \<noteq> [] \<and> list_all is_digit s \<and> length s \<le> 3 \<and>
         (s = ''0'' \<or> hd s \<noteq> CHR ''0'') \<and> int_of_digits s \<le> 255
      then Some (int_of_digits s) else None)"

fun all_some :: "'a option list \<Rightarrow> 'a list option" where
  "all_some [] = Some []"
| "all_some (None # xs) = None"
| "all_some (Some x # xs) = map_option ((#) x) (all_some xs)"

definition of_digits :: "int \<Rightarrow> int list \<Rightarrow> int" where
  "of_digits b ds = foldl (\<lambda>n d. b * n + d) 0 ds"

definition ipv4_int :: "string \<Rightarrow> int option" where
  "ipv4_int s = (let octets = split CHR ''.'' s in
     if length octets = 4 then map_option (of_digits 256) (all_some (map parse_octet octets))
     else None)"

section \<open>IPv6\<close>

definition hex_val :: "char \<Rightarrow> int" where
  "hex_val c = (if is_digit c then int (ord c) - 48 else int (ord (lower_char c)) - 87)"

definition parse_hextet :: "string \<Rightarrow> int option" where
  "parse_hextet s = (if s \<noteq> [] \<and> list_all is_hexdigit s \<and> length s \<le> 4
     then Some (of_digits 16 (map hex_val s)) else None)"

definition hex_digit :: "int \<Rightarrow> char" where
  "hex_digit d = (if d < 10 then chr (48 + nat d) else chr (87 + nat d))"

definition hex4 :: "int \<Rightarrow> string" where
  "hex4 n = map hex_digit (let ds = dropWhile (\<lambda>d. d = 0)
       [n div 4096 mod 16, n div 256 mod 16, n div 16 mod 16, n mod 16]
     in if ds = [] then [0] else ds)"

text \<open>A dotted-quad tail is rewritten into two hextets.\<close>

definition expand_tail :: "string list \<Rightarrow> string list option" where
  "expand_tail parts =
     (if CHR ''.'' \<in> set (last parts)
      then map_option (\<lambda>v. butlast parts @ [hex4 (v div 65536), hex4 (v mod 65536)])
             (ipv4_int (last parts))
      else Some parts)"

definition skip_positions :: "string list \<Rightarrow> nat list" where
  "skip_positions parts = filter (\<lambda>i. parts ! i = []) [1..<length parts - 1]"

definition hextets_of :: "string list \<Rightarrow> int list option" where
  "hextets_of parts = (case skip_positions parts of
      [] \<Rightarrow> if length parts = 8 \<and> hd parts \<noteq> [] \<and> last parts \<noteq> []
            then all_some (map parse_hextet parts) else None
    | [k] \<Rightarrow>
        (let hi = (if hd parts = [] then k - 1 else k);
             lo = (if last parts = [] then length parts - k - 2 else length parts - k - 1)
         in if (hd parts = [] \<and> hi \<noteq> 0) \<or> (last parts = [] \<and> lo \<noteq> 0) \<or> 8 \<le> hi + lo then None
            else (case (all_some (map parse_hextet (take hi parts)),
                        all_some (map parse_hextet (drop (length parts - lo) parts))) of
                    (Some hs, Some ls) \<Rightarrow> Some (hs @ replicate (8 - (hi + lo)) 0 @ ls)
                  | _ \<Rightarrow> None))
    | _ \<Rightarrow> None)"

definition ipv6_int :: "string \<Rightarrow> int option" where
  "ipv6_int s = (let parts = split CHR '':'' s in
     if length parts < 3 then None
     else (case expand_tail parts of
         None \<Rightarrow> None
       | Some ps \<Rightarrow> if 9 < length ps then None else map_option (of_digits 65536) (hextets_of ps)))"

definition split_scope :: "string \<Rightarrow> (string \<times> string option) option" where
  "split_scope s = (case cut [CHR ''%''] s of
      None \<Rightarrow> Some (s, None)
    | Some (a, sc) \<Rightarrow> if sc = [] \<or> CHR ''%'' \<in> set sc then None else Some (a, Some sc))"

definition parse_ipv6 :: "string \<Rightarrow> ip option" where
  "parse_ipv6 s = (if CHR ''/'' \<in> set s then None
     else (case split_scope s of
         None \<Rightarrow> None
       | Some (a, sc) \<Rightarrow> map_option (\<lambda>n. V6 n sc) (ipv6_int a)))"

section \<open>Addresses and networks\<close>

definition ip_address :: "string \<Rightarrow> ip option" where
  "ip_address s = (case ipv4_int s of Some n \<Rightarrow> Some (V4 n) | None \<Rightarrow> parse_ipv6 s)"

fun trailing_zeros :: "nat \<Rightarrow> int \<Rightarrow> nat" where
  "trailing_zeros 0 n = 0"
| "trailing_zeros (Suc b) n = (if n mod 2 = 0 then Suc (trailing_zeros b (n div 2)) else 0)"

definition prefix_from_ip_int :: "int \<Rightarrow> nat option" where
  "prefix_from_ip_int n = (let z = trailing_zeros 32 n; p = 32 - z in
     if n div 2 ^ z = 2 ^ p - 1 then Some p else None)"

definition prefix_from_string :: "nat \<Rightarrow> string \<Rightarrow> nat option" where
  "prefix_from_string mx s =
     (if s \<noteq> [] \<and> list_all is_digit s \<and> int_of_digits s \<le> int mx then Some (nat (int_of_digits s)) else None)"

definition prefix4 :: "string \<Rightarrow> nat option" where
  "prefix4 s = (case prefix_from_string 32 s of
      Some p \<Rightarrow> Some p
    | None \<Rightarrow> (case ipv4_int s of
        None \<Rightarrow> None
      | Some n \<Rightarrow> (case prefix_from_ip_int n of
          Some p \<Rightarrow> Some p
        | None \<Rightarrow> prefix_from_ip_int (4294967295 - n))))"

definition mask_low :: "nat \<Rightarrow> int \<Rightarrow> int" where
  "mask_low b n = (n div 2 ^ b) * 2 ^ b"

definition net4 :: "string \<Rightarrow> string option \<Rightarrow> network option" where
  "net4 a m = (case (ipv4_int a, (case m of None \<Rightarrow> Some 32 | Some s \<Rightarrow> prefix4 s)) of
      (Some n, Some p) \<Rightarrow> Some (Net4 (mask_low (32 - p) n) p) | _ \<Rightarrow> None)"

definition net6 :: "string \<Rightarrow> string option \<Rightarrow> network option" where
  "net6 a m = (case (parse_ipv6 a, (case m of None \<Rightarrow> Some 128 | Some s \<Rightarrow> prefix_from_string 128 s)) of
      (Some (V6 n _), Some p) \<Rightarrow> Some (Net6 (mask_low (128 - p) n) p) | _ \<Rightarrow> None)"

definition ip_network :: "string \<Rightarrow> network option" where
  "ip_network s = (case split CHR ''/'' s of
      [a] \<Rightarrow> (case net4 a None of Some n \<Rightarrow> Some n | None \<Rightarrow> net6 a None)
    | [a, m] \<Rightarrow> (case net4 a (Some m) of Some n \<Rightarrow> Some n | None \<Rightarrow> net6 a (Some m))
    | _ \<Rightarrow> None)"

fun in_network :: "ip \<Rightarrow> network \<Rightarrow> bool" where
  "in_network (V4 n) (Net4 a p) = (mask_low (32 - p) n = a)"
| "in_network (V6 n sc) (Net6 a p) = (mask_low (128 - p) n = a)"
| "in_network _ _ = False"

section \<open>Text form\<close>

fun base_digits :: "int \<Rightarrow> nat \<Rightarrow> int \<Rightarrow> int list" where
  "base_digits b 0 n = []"
| "base_digits b (Suc k) n = base_digits b k (n div b) @ [n mod b]"

definition octets_of :: "int \<Rightarrow> int list" where
  "octets_of n = base_digits 256 4 n"

definition str_ipv4 :: "int \<Rightarrow> string" where
  "str_ipv4 n = join CHR ''.'' (map str_nat (octets_of n))"

definition hextet_list :: "int \<Rightarrow> int list" where
  "hextet_list n = base_digits 65536 8 n"

text \<open>The longest run of zero hextets, the first one on a tie: (start, length).\<close>

fun best_run :: "nat \<Rightarrow> nat \<Rightarrow> nat \<times> nat \<Rightarrow> int list \<Rightarrow> nat \<times> nat" where
  "best_run i cur best [] = best"
| "best_run i cur best (h # hs) =
     (if h = 0 then
        (let cur' = Suc cur;
             best' = (if snd best < cur' then (Suc i - cur', cur') else best)
         in best_run (Suc i) cur' best' hs)
      else best_run (Suc i) 0 best hs)"

definition compress_hextets :: "int list \<Rightarrow> string list" where
  "compress_hextets hs = (let (st, len) = best_run 0 0 (0, 0) hs; xs = map hex4 hs in
     if 1 < len then
       (if st = 0 then [[]] else []) @ take st xs @ [[]] @ drop (st + len) xs @
       (if st + len = length xs then [[]] else [])
     else xs)"

fun compressed :: "ip \<Rightarrow> string" where
  "compressed (V4 n) = str_ipv4 n"
| "compressed (V6 n sc) = join CHR '':'' (compress_hextets (hextet_list n)) @
     (case sc of None \<Rightarrow> [] | Some x \<Rightarrow> CHR ''%'' # x)"

section \<open>Laws\<close>

lemma all_some_map_Some [simp]: "all_some (map Some xs) = Some xs"
  by (induction xs) auto

lemma all_some_eq_Some: "all_some xs = Some ys \<longleftrightarrow> xs = map Some ys"
  by (induction xs arbitrary: ys rule: all_some.induct) auto

lemma mask_low_idem [simp]: "mask_low b (mask_low b n) = mask_low b n"
  by (simp add: mask_low_def)

lemma mask_low_eq_iff: "mask_low b m = mask_low b n \<longleftrightarrow> m div 2 ^ b = n div 2 ^ b"
  by (simp add: mask_low_def)

lemma mask_low_coarser:
  assumes "b \<le> c" and "mask_low b m = mask_low b n"
  shows "mask_low c m = mask_low c n"
proof -
  have "x div 2 ^ c = (x div 2 ^ b) div 2 ^ (c - b)" for x :: int
  proof -
    have "(2::int) ^ c = 2 ^ b * 2 ^ (c - b)" using assms(1) by (simp add: power_add [symmetric])
    then show ?thesis by (simp add: zdiv_zmult2_eq)
  qed
  then show ?thesis using assms(2) by (simp add: mask_low_eq_iff)
qed

lemma str_nat_octet: "0 \<le> d \<Longrightarrow> d < 256 \<Longrightarrow> parse_octet (str_nat d) = Some d"
proof -
  assume d0: "0 \<le> d" and d: "d < 256"
  have "list_all is_digit (str_nat d)" using d0 by (auto simp: list_all_iff str_nat_digits)
  moreover have "length (str_nat d) \<le> 3" using d length_str_nat [of d 2] by simp
  moreover have "str_nat d = ''0'' \<or> hd (str_nat d) \<noteq> CHR ''0''"
    using d0 hd_str_nat [of d] by (cases "d = 0") (auto simp: str_nat_lt10 digit_char_zero)
  ultimately show ?thesis using d d0 by (simp add: parse_octet_def)
qed

lemma of_digits_snoc: "of_digits b (ds @ [d]) = b * of_digits b ds + d"
  by (simp add: of_digits_def)

lemma length_base_digits [simp]: "length (base_digits b k n) = k"
  by (induction b k n rule: base_digits.induct) auto

lemma base_digits_bound: "0 < b \<Longrightarrow> d \<in> set (base_digits b k n) \<Longrightarrow> 0 \<le> d \<and> d < b"
  by (induction b k n rule: base_digits.induct) auto

lemma of_digits_base_digits: "0 < b \<Longrightarrow> of_digits b (base_digits b k n) = n mod b ^ k"
proof (induction b k n rule: base_digits.induct)
  case (1 b n)
  then show ?case by (simp add: of_digits_def)
next
  case (2 b k n)
  have "n mod b ^ Suc k = b * (n div b mod b ^ k) + n mod b"
    using 2 by (simp add: zmod_zmult2_eq)
  with 2 show ?case by (simp add: of_digits_snoc)
qed

lemma of_digits_bound: "0 < b \<Longrightarrow> (\<And>d. d \<in> set ds \<Longrightarrow> 0 \<le> d \<and> d < b) \<Longrightarrow>
     0 \<le> of_digits b ds \<and> of_digits b ds < b ^ length ds"
proof (induction ds rule: rev_induct)
  case Nil
  then show ?case by (simp add: of_digits_def)
next
  case (snoc d ds)
  then have ih: "0 \<le> of_digits b ds" "of_digits b ds < b ^ length ds" and d: "0 \<le> d" "d < b" by auto
  then have "b * of_digits b ds + d < b * (of_digits b ds + 1)" by (simp add: algebra_simps)
  also have "\<dots> \<le> b * b ^ length ds"
    using ih \<open>0 < b\<close> by (intro mult_left_mono) auto
  finally show ?case using ih d \<open>0 < b\<close> by (simp add: of_digits_snoc)
qed

lemma digit_not_dot: "is_digit c \<Longrightarrow> c \<noteq> CHR ''.''"
  by (auto simp: is_digit_def ord_def)

text \<open>Printing an IPv4 address and parsing it back gives the address.\<close>

lemma ipv4_int_str: "0 \<le> n \<Longrightarrow> n < 4294967296 \<Longrightarrow> ipv4_int (str_ipv4 n) = Some n"
proof -
  assume n: "0 \<le> n" "n < 4294967296"
  let ?ps = "map str_nat (octets_of n)"
  have sp: "split CHR ''.'' (str_ipv4 n) = ?ps"
    unfolding str_ipv4_def
  proof (rule split_join)
    show "?ps \<noteq> []" using length_base_digits [of 256 4 n] unfolding octets_of_def by (metis list.map_disc_iff list.size(3) zero_neq_numeral)
    fix p assume "p \<in> set ?ps"
    then obtain d where "p = str_nat d" "0 \<le> d"
      using base_digits_bound [of 256] by (auto simp: octets_of_def)
    then show "CHR ''.'' \<notin> set p" using str_nat_digits digit_not_dot by fastforce
  qed
  have "map parse_octet ?ps = map Some (octets_of n)"
    using base_digits_bound [of 256] by (simp add: str_nat_octet octets_of_def)
  moreover have "length ?ps = 4" by (simp add: octets_of_def)
  moreover have "of_digits 256 (octets_of n) = n"
    using n by (simp add: octets_of_def of_digits_base_digits)
  ultimately show ?thesis by (simp add: ipv4_int_def sp del: map_map)
qed

lemma int_of_digits_nonneg: "(\<And>c. c \<in> set s \<Longrightarrow> is_digit c) \<Longrightarrow> 0 \<le> int_of_digits s"
proof (induction s rule: rev_induct)
  case Nil
  then show ?case by (simp add: int_of_digits_def)
next
  case (snoc c s)
  then have "is_digit c" and "0 \<le> int_of_digits s" by auto
  then show ?case by (simp add: int_of_digits_snoc digit_val_def is_digit_def)
qed

lemma parse_octet_bound: "parse_octet s = Some d \<Longrightarrow> 0 \<le> d \<and> d < 256"
  using int_of_digits_nonneg [of s] by (auto simp: parse_octet_def list_all_iff split: if_splits)

lemma ipv4_int_bound: "ipv4_int s = Some n \<Longrightarrow> 0 \<le> n \<and> n < 4294967296"
proof -
  assume h: "ipv4_int s = Some n"
  then obtain ds where len: "length (split CHR ''.'' s) = 4"
    and ds: "map parse_octet (split CHR ''.'' s) = map Some ds" and n: "n = of_digits 256 ds"
    by (auto simp: ipv4_int_def Let_def all_some_eq_Some split: if_splits)
  from ds len have l: "length ds = 4" by (metis length_map)
  have "x \<in> set ds \<Longrightarrow> 0 \<le> x \<and> x < 256" for x
  proof -
    assume "x \<in> set ds"
    then have "Some x \<in> set (map parse_octet (split CHR ''.'' s))" by (simp add: ds)
    then obtain y where "parse_octet y = Some x" by auto
    then show ?thesis by (rule parse_octet_bound)
  qed
  then have "0 \<le> of_digits 256 ds \<and> of_digits 256 ds < 256 ^ 4" using of_digits_bound [of 256 ds] l by simp
  then show ?thesis using n by simp
qed

lemma ip_address_compressed_v4:
  "ip_address s = Some (V4 n) \<Longrightarrow> ip_address (compressed (V4 n)) = Some (V4 n)"
  by (auto simp: ip_address_def parse_ipv6_def ipv4_int_bound ipv4_int_str split: option.splits if_splits)

text \<open>Membership in a parsed IPv4 network compares exactly the leading prefix bits, and a
  shorter prefix of the same address covers at least as much.\<close>

lemma in_network_v4_iff:
  "in_network (V4 n) (Net4 (mask_low (32 - p) m) p) \<longleftrightarrow> n div 2 ^ (32 - p) = m div 2 ^ (32 - p)"
  by (simp add: mask_low_eq_iff)

lemma in_network_shorter:
  assumes "q \<le> p" and "in_network (V4 n) (Net4 (mask_low (32 - p) m) p)"
  shows "in_network (V4 n) (Net4 (mask_low (32 - q) m) q)"
  using assms mask_low_coarser [of "32 - p" "32 - q" n m] by simp

lemma in_network_host: "in_network (V4 n) (Net4 (mask_low 0 m) 32) \<longleftrightarrow> n = m"
  by (simp add: mask_low_def)

end
