(* ===== verification/PyRegex.thy ===== *)
theory PyRegex
  imports Prelude
begin

text \<open>
  Python's \<open>re\<close> module as the package uses it. The patterns written in the source are terms
  of the type \<open>re\<close> below, matched by derivatives; \<open>re_search\<close> decides whether
  \<open>Pattern.search\<close> finds a match, which is a question about the language of the pattern
  and does not depend on the order in which a backtracking engine tries alternatives.
  Patterns that an operator writes at run time (rule patterns, rDNS patterns, suspicious
  paths) are strings handled by a regular expression engine that is a parameter of the
  model: \<open>regex_engine\<close> holds whether a string compiles and whether a compiled pattern is
  found in a subject, both with \<open>re.IGNORECASE\<close>.
\<close>

datatype re =
    Never
  | Eps
  | Chr "char \<Rightarrow> bool"
  | Seq re re
  | Alt re re
  | Star re

section \<open>Languages\<close>

inductive_set star_lang :: "string set \<Rightarrow> string set" for A where
  star_Nil: "[] \<in> star_lang A"
| star_step: "u \<in> A \<Longrightarrow> v \<in> star_lang A \<Longrightarrow> u @ v \<in> star_lang A"

fun lang :: "re \<Rightarrow> string set" where
  "lang Never = {}"
| "lang Eps = {[]}"
| "lang (Chr P) = {[c] |c. P c}"
| "lang (Seq r q) = {u @ v |u v. u \<in> lang r \<and> v \<in> lang q}"
| "lang (Alt r q) = lang r \<union> lang q"
| "lang (Star r) = star_lang (lang r)"

section \<open>Matching by derivatives\<close>

fun nullable :: "re \<Rightarrow> bool" where
  "nullable Never = False"
| "nullable Eps = True"
| "nullable (Chr P) = False"
| "nullable (Seq r q) = (nullable r \<and> nullable q)"
| "nullable (Alt r q) = (nullable r \<or> nullable q)"
| "nullable (Star r) = True"

definition mk_seq' :: "re \<Rightarrow> re \<Rightarrow> re" where
  "mk_seq' r q = (case r of Never \<Rightarrow> Never | Eps \<Rightarrow> q | _ \<Rightarrow> (case q of Never \<Rightarrow> Never | _ \<Rightarrow> Seq r q))"

definition mk_alt :: "re \<Rightarrow> re \<Rightarrow> re" where
  "mk_alt r q = (case r of Never \<Rightarrow> q | _ \<Rightarrow> (case q of Never \<Rightarrow> r | _ \<Rightarrow> Alt r q))"

fun deriv :: "char \<Rightarrow> re \<Rightarrow> re" where
  "deriv c Never = Never"
| "deriv c Eps = Never"
| "deriv c (Chr P) = (if P c then Eps else Never)"
| "deriv c (Seq r q) =
     (if nullable r then mk_alt (mk_seq' (deriv c r) q) (deriv c q) else mk_seq' (deriv c r) q)"
| "deriv c (Alt r q) = mk_alt (deriv c r) (deriv c q)"
| "deriv c (Star r) = mk_seq' (deriv c r) (Star r)"

fun re_fullmatch :: "re \<Rightarrow> string \<Rightarrow> bool" where
  "re_fullmatch r [] = nullable r"
| "re_fullmatch r (c # s) = re_fullmatch (deriv c r) s"

definition re_search :: "re \<Rightarrow> string \<Rightarrow> bool" where
  "re_search r s = re_fullmatch (Seq (Star (Chr (\<lambda>_. True))) (Seq r (Star (Chr (\<lambda>_. True))))) s"

lemma lang_mk_seq' [simp]: "lang (mk_seq' r q) = lang (Seq r q)"
  by (auto simp: mk_seq'_def split: re.splits)

lemma lang_mk_alt [simp]: "lang (mk_alt r q) = lang (Alt r q)"
  by (auto simp: mk_alt_def split: re.splits)

lemma nullable_iff: "nullable r \<longleftrightarrow> [] \<in> lang r"
  by (induction r) (auto intro: star_lang.intros)

lemma star_Cons: "c # s \<in> star_lang A \<longleftrightarrow> (\<exists>u v. s = u @ v \<and> c # u \<in> A \<and> v \<in> star_lang A)"
proof
  show "c # s \<in> star_lang A \<Longrightarrow> \<exists>u v. s = u @ v \<and> c # u \<in> A \<and> v \<in> star_lang A"
  proof (induction "c # s" arbitrary: s rule: star_lang.induct)
    case (star_step u v)
    show ?case
    proof (cases u)
      case Nil
      with star_step show ?thesis by auto
    next
      case (Cons d u')
      with star_step show ?thesis by auto
    qed
  qed
next
  assume "\<exists>u v. s = u @ v \<and> c # u \<in> A \<and> v \<in> star_lang A"
  then obtain u v where "s = u @ v" "c # u \<in> A" "v \<in> star_lang A" by blast
  then show "c # s \<in> star_lang A" using star_lang.star_step [of "c # u" A v] by simp
qed

lemma deriv_iff: "s \<in> lang (deriv c r) \<longleftrightarrow> c # s \<in> lang r"
proof (induction r arbitrary: s)
  case (Seq r q)
  have "c # s \<in> lang (Seq r q) \<longleftrightarrow>
      (\<exists>u v. s = u @ v \<and> c # u \<in> lang r \<and> v \<in> lang q) \<or> ([] \<in> lang r \<and> c # s \<in> lang q)"
    by (auto simp: Cons_eq_append_conv)
  then show ?case using Seq by (auto simp: nullable_iff)
next
  case (Star r)
  then show ?case by (auto simp: star_Cons)
qed auto

theorem re_fullmatch_iff: "re_fullmatch r s \<longleftrightarrow> s \<in> lang r"
  by (induction r s rule: re_fullmatch.induct) (auto simp: nullable_iff deriv_iff)

lemma star_any: "star_lang (lang (Chr (\<lambda>_. True))) = UNIV"
proof -
  have "s \<in> star_lang {[c] |c. True}" for s :: string
  proof (induction s)
    case Nil
    show ?case by (rule star_lang.star_Nil)
  next
    case (Cons c s)
    then show ?case using star_lang.star_step [of "[c]" "{[c] |c. True}" s] by simp
  qed
  then show ?thesis by auto
qed

lemma re_search_iff: "re_search r s \<longleftrightarrow> (\<exists>u v w. s = u @ v @ w \<and> v \<in> lang r)"
proof -
  have "re_search r s \<longleftrightarrow> s \<in> lang (Seq (Star (Chr (\<lambda>_. True))) (Seq r (Star (Chr (\<lambda>_. True)))))"
    unfolding re_search_def by (rule re_fullmatch_iff)
  also have "\<dots> \<longleftrightarrow> (\<exists>u v w. s = u @ v @ w \<and> v \<in> lang r)"
    using star_any by auto
  finally show ?thesis .
qed

lemma re_search_Nil: "re_search r [] \<longleftrightarrow> nullable r"
  by (simp add: re_search_def)

section \<open>Building blocks\<close>

text \<open>Literals match without regard to case, as \<open>re.IGNORECASE\<close> does.\<close>

definition ci_char :: "char \<Rightarrow> re" where
  "ci_char c = Chr (\<lambda>x. lower_char x = lower_char c)"

fun ci_lit :: "string \<Rightarrow> re" where
  "ci_lit [] = Eps"
| "ci_lit (c # s) = Seq (ci_char c) (ci_lit s)"

fun alts :: "re list \<Rightarrow> re" where
  "alts [] = Never"
| "alts [r] = r"
| "alts (r # q # rs) = Alt r (alts (q # rs))"

fun seqs :: "re list \<Rightarrow> re" where
  "seqs [] = Eps"
| "seqs [r] = r"
| "seqs (r # q # rs) = Seq r (seqs (q # rs))"

definition plus :: "re \<Rightarrow> re" where
  "plus r = Seq r (Star r)"

definition opt :: "re \<Rightarrow> re" where
  "opt r = Alt Eps r"

definition one_of :: "string \<Rightarrow> re" where
  "one_of cs = Chr (\<lambda>x. x \<in> set cs)"

definition none_of :: "string \<Rightarrow> re" where
  "none_of cs = Chr (\<lambda>x. x \<notin> set cs)"

definition dot :: re where
  "dot = Chr (\<lambda>x. ord x \<noteq> 10)"

definition digit_re :: re where
  "digit_re = Chr is_digit"

definition is_word :: "char \<Rightarrow> bool" where
  "is_word c = (let n = ord c in (48 \<le> n \<and> n \<le> 57) \<or> (65 \<le> n \<and> n \<le> 90) \<or> n = 95 \<or>
     (97 \<le> n \<and> n \<le> 122) \<or> n \<in> {170, 178, 179, 181, 185, 186, 188, 189, 190} \<or>
     (192 \<le> n \<and> n \<le> 255 \<and> n \<noteq> 215 \<and> n \<noteq> 247))"

lemma ci_lit_iff: "s \<in> lang (ci_lit p) \<longleftrightarrow> lower s = lower p"
proof (induction p arbitrary: s)
  case Nil
  then show ?case by (auto simp: lower_def)
next
  case (Cons c p)
  have "s \<in> lang (ci_lit (c # p)) \<longleftrightarrow>
      (\<exists>x t. s = x # t \<and> lower_char x = lower_char c \<and> t \<in> lang (ci_lit p))"
    by (auto simp: ci_char_def) (metis append_Cons append_Nil)
  also have "\<dots> \<longleftrightarrow> lower s = lower (c # p)"
    unfolding Cons.IH by (cases s) (simp_all add: lower_def)
  finally show ?case .
qed

lemma re_search_ci_lit: "re_search (ci_lit p) s \<longleftrightarrow> contains_sub (lower p) (lower s)"
proof
  assume "re_search (ci_lit p) s"
  then obtain u v w where "s = u @ v @ w" "lower v = lower p"
    by (auto simp: re_search_iff ci_lit_iff)
  then have "lower s = lower u @ lower p @ lower w" by (simp add: lower_append)
  then show "contains_sub (lower p) (lower s)" by (auto simp: contains_sub_iff)
next
  assume "contains_sub (lower p) (lower s)"
  then obtain u w where l: "lower s = u @ lower p @ w" by (auto simp: contains_sub_iff)
  let ?u = "take (length u) s" and ?v = "take (length p) (drop (length u) s)"
  let ?w = "drop (length p) (drop (length u) s)"
  have "lower ?v = take (length p) (drop (length u) (lower s))"
    by (simp add: lower_def take_map drop_map)
  then have "?v \<in> lang (ci_lit p)" by (simp add: l ci_lit_iff)
  moreover have "s = ?u @ ?v @ ?w" by (simp only: append_take_drop_id)
  ultimately show "re_search (ci_lit p) s" unfolding re_search_iff by blast
qed

lemma lang_alts: "lang (alts rs) = (\<Union>r \<in> set rs. lang r)"
  by (induction rs rule: alts.induct) auto

lemma re_search_alts: "re_search (alts rs) s \<longleftrightarrow> (\<exists>r \<in> set rs. re_search r s)"
  by (simp add: re_search_iff lang_alts) blast

lemma re_search_literals:
  "re_search (alts (map ci_lit ws)) s \<longleftrightarrow> (\<exists>w \<in> set ws. contains_sub (lower w) (lower s))"
  by (auto simp: re_search_alts re_search_ci_lit)

lemma plus_lang: "lang (plus r) = {u @ v |u v. u \<in> lang r \<and> v \<in> star_lang (lang r)}"
  by (simp add: plus_def)

section \<open>The run-time engine\<close>

text \<open>A compiled pattern is identified with its source text (the attribute \<open>pattern\<close> of
  \<open>re.Pattern\<close>).\<close>

record regex_engine =
  re_compiles :: "string \<Rightarrow> bool"
  re_found :: "string \<Rightarrow> string \<Rightarrow> bool"

definition py_re_search :: "regex_engine \<Rightarrow> string \<Rightarrow> string \<Rightarrow> bool option" where
  "py_re_search E pattern subject =
     (if re_compiles E pattern then Some (re_found E pattern subject) else None)"

text \<open>An engine whose patterns are literal text: the concrete engine at which the
  evaluations of the development run.\<close>

definition literal_engine :: regex_engine where
  "literal_engine = \<lparr>re_compiles = (\<lambda>p. p \<noteq> ''(''),
     re_found = (\<lambda>p s. contains_sub (lower p) (lower s))\<rparr>"

end
