(* ===== verification/PatternValidation.thy ===== *)
theory PatternValidation
  imports PyRegex
begin

text \<open>
  \<open>services/pattern_validation.py\<close>: the write-time check of user-agent regular
  expressions. The two heuristics for catastrophic backtracking are regular expressions in
  the source and terms of type \<open>re\<close> here; \<open>re.compile\<close> is the parameter \<open>re_compiles\<close>. The
  lemmas state what an accepted pattern cannot contain.
\<close>

datatype PatternValidationError =
    EmptyPattern
  | PatternTooLong
  | NotARegularExpression
  | NestedQuantifier
  | QuantifiedAlternation

definition MAX_PATTERN_LENGTH :: nat where
  "MAX_PATTERN_LENGTH = 512"

definition NESTED_QUANTIFIER_RE :: re where
  "NESTED_QUANTIFIER_RE = seqs
     [one_of ''('', opt (Seq (one_of ''?'') (one_of '':'')), Star (none_of ''()''),
      one_of ''+*'', Star (none_of ''()''), one_of '')'', one_of ''+*'']"

definition QUANTIFIED_ALTERNATION_RE :: re where
  "QUANTIFIED_ALTERNATION_RE = seqs
     [one_of ''('', opt (Seq (one_of ''?'') (one_of '':'')), Star (none_of ''()''),
      one_of ''|'', Star (none_of ''()''), one_of '')'', one_of ''+*'']"

definition validate_ua_regex_pattern ::
  "regex_engine \<Rightarrow> string \<Rightarrow> PatternValidationError + unit" where
  "validate_ua_regex_pattern E pattern =
     (if pattern = [] then Inl EmptyPattern
      else if MAX_PATTERN_LENGTH < length pattern then Inl PatternTooLong
      else if \<not> re_compiles E pattern then Inl NotARegularExpression
      else if re_search NESTED_QUANTIFIER_RE pattern then Inl NestedQuantifier
      else if re_search QUANTIFIED_ALTERNATION_RE pattern then Inl QuantifiedAlternation
      else Inr ())"

section \<open>What the heuristics recognise\<close>

lemma star_Chr: "s \<in> star_lang {[c] |c. P c} \<longleftrightarrow> (\<forall>c \<in> set s. P c)"
proof (induction s)
  case Nil
  then show ?case by (simp add: star_lang.star_Nil)
next
  case (Cons c s)
  then show ?case by (auto simp: star_Cons)
qed

lemma lang_star_none_of [simp]: "s \<in> star_lang (lang (none_of cs)) \<longleftrightarrow> set s \<inter> set cs = {}"
  by (auto simp: none_of_def star_Chr)

lemma lang_one_of [simp]: "s \<in> lang (one_of cs) \<longleftrightarrow> (\<exists>c \<in> set cs. s = [c])"
  by (auto simp: one_of_def)

text \<open>A group without inner parentheses that contains \<open>m\<close> and is itself repeated.\<close>

definition repeated_group :: "string \<Rightarrow> string \<Rightarrow> bool" where
  "repeated_group ms s \<longleftrightarrow> (\<exists>x m y q. s = CHR ''('' # x @ m # y @ [CHR '')'', q] \<and>
     m \<in> set ms \<and> q \<in> set ''+*'' \<and> set x \<inter> set ''()'' = {} \<and> set y \<inter> set ''()'' = {})"

lemma lang_SeqI: "u \<in> lang r \<Longrightarrow> v \<in> lang q \<Longrightarrow> u @ v \<in> lang (Seq r q)"
  by auto

lemma lang_SeqE:
  assumes "s \<in> lang (Seq r q)"
  obtains u v where "s = u @ v" "u \<in> lang r" "v \<in> lang q"
  using assms by auto

lemma group_re_iff:
  "s \<in> lang (seqs [one_of ''('', opt (Seq (one_of ''?'') (one_of '':'')),
       Star (none_of ''()''), one_of ms, Star (none_of ''()''), one_of '')'', one_of ''+*''])
     \<longleftrightarrow> repeated_group ms s"
  (is "s \<in> lang ?r \<longleftrightarrow> _")
proof
  assume "s \<in> lang ?r"
  then obtain a p x m y b q where s: "s = a @ p @ x @ m @ y @ b @ q"
    and l: "a \<in> lang (one_of ''('')" "p \<in> lang (opt (Seq (one_of ''?'') (one_of '':'')))"
      "x \<in> lang (Star (none_of ''()''))" "m \<in> lang (one_of ms)"
      "y \<in> lang (Star (none_of ''()''))" "b \<in> lang (one_of '')'')" "q \<in> lang (one_of ''+*'')"
    unfolding seqs.simps by (elim lang_SeqE) blast
  from l(1,4,6,7) obtain m' q' where e: "a = ''(''" "m = [m']" "m' \<in> set ms" "b = '')''"
    "q = [q']" "q' \<in> set ''+*''" by auto
  from l(2) have "p \<in> {[], ''?:''}" by (auto simp: opt_def)
  with l(3) have "set (p @ x) \<inter> set ''()'' = {}" by auto
  moreover from l(5) have "set y \<inter> set ''()'' = {}" by simp
  moreover have "s = CHR ''('' # (p @ x) @ m' # y @ [CHR '')'', q']" using s e by simp
  ultimately show "repeated_group ms s" using e unfolding repeated_group_def by blast
next
  assume "repeated_group ms s"
  then obtain x m y q where s: "s = [CHR ''(''] @ [] @ x @ [m] @ y @ [CHR '')''] @ [q]"
    and q: "m \<in> set ms" "q \<in> set ''+*''" and xy: "set x \<inter> set ''()'' = {}" "set y \<inter> set ''()'' = {}"
    by (auto simp: repeated_group_def)
  have l: "x \<in> lang (Star (none_of ''()''))" "y \<in> lang (Star (none_of ''()''))"
    "[] \<in> lang (opt (Seq (one_of ''?'') (one_of '':'')))"
    using xy by (auto simp: opt_def)
  show "s \<in> lang ?r" unfolding s seqs.simps
    by (intro lang_SeqI l) (use q in auto)
qed

text \<open>
  A pattern is stored exactly when it is non-empty, at
  most 512 characters long, compiles, and contains neither a repeated group with a
  repetition inside nor a repeated group with an alternation inside.
\<close>

theorem validate_ua_regex_pattern_accepts:
  "validate_ua_regex_pattern E pattern = Inr () \<longleftrightarrow>
     pattern \<noteq> [] \<and> length pattern \<le> 512 \<and> re_compiles E pattern \<and>
     \<not> (\<exists>u g v. pattern = u @ g @ v \<and> repeated_group ''+*'' g) \<and>
     \<not> (\<exists>u g v. pattern = u @ g @ v \<and> repeated_group ''|'' g)"
proof -
  have "re_search NESTED_QUANTIFIER_RE pattern \<longleftrightarrow>
      (\<exists>u g v. pattern = u @ g @ v \<and> repeated_group ''+*'' g)"
    unfolding NESTED_QUANTIFIER_RE_def re_search_iff group_re_iff ..
  moreover have "re_search QUANTIFIED_ALTERNATION_RE pattern \<longleftrightarrow>
      (\<exists>u g v. pattern = u @ g @ v \<and> repeated_group ''|'' g)"
    unfolding QUANTIFIED_ALTERNATION_RE_def re_search_iff group_re_iff ..
  ultimately show ?thesis
    by (auto simp: validate_ua_regex_pattern_def MAX_PATTERN_LENGTH_def)
qed

end
