(* ===== verification/Models.thy ===== *)
theory Models
  imports PyIpaddress PatternValidation
begin

text \<open>
  \<open>enums.py\<close> and \<open>models.py\<close>: the enumerations, the database rows as records, the
  querysets of the managers as functions on lists of rows, and the model-level pattern
  check. A date-time is a \<open>rat\<close> (seconds since the epoch); an enumeration field of a row is
  the string stored in the column, as the code compares strings once a rule has been through
  the JSON rule cache. A table is the list of its rows; where the source asks for no order
  the table order stands for whatever order the database returns.
\<close>

section \<open>Enumerations\<close>

datatype RuleAction = BLOCK | CHALLENGE | THROTTLE | LOG_ONLY

fun RuleAction_value :: "RuleAction \<Rightarrow> string" where
  "RuleAction_value BLOCK = ''block''"
| "RuleAction_value CHALLENGE = ''challenge''"
| "RuleAction_value THROTTLE = ''throttle''"
| "RuleAction_value LOG_ONLY = ''log_only''"

datatype RuleType = UA | IP | CIDR | COMPOSITE

fun RuleType_value :: "RuleType \<Rightarrow> string" where
  "RuleType_value UA = ''ua''"
| "RuleType_value IP = ''ip''"
| "RuleType_value CIDR = ''cidr''"
| "RuleType_value COMPOSITE = ''composite''"

datatype MatchType = EXACT | REGEX | CONTAINS | CIDR_MATCH

fun MatchType_value :: "MatchType \<Rightarrow> string" where
  "MatchType_value EXACT = ''exact''"
| "MatchType_value REGEX = ''regex''"
| "MatchType_value CONTAINS = ''contains''"
| "MatchType_value CIDR_MATCH = ''cidr''"

datatype RuleSource = ADMIN | AUTO | FEED

datatype ReviewStatus = NOT_APPLICABLE | PENDING_REVIEW | CONFIRMED | REJECTED | EXPIRED_UNREVIEWED

datatype Verdict = ALLOWED | BLOCKED | CHALLENGED | THROTTLED | PASSED | LOGGED

datatype ChallengeStatus = PENDING | SOLVED | EXPIRED | FAILED

datatype RequestLogSource = MIDDLEWARE | NGINX_LOG

datatype AnomalyType = UA_ROTATION | SUBNET_FLOOD | CHALLENGE_FARM | UNSOLVED_CHALLENGE | CLOUD_SPRAY | SCRAPER_404

section \<open>UUIDs\<close>

text \<open>\<open>uuid.UUID(text)\<close>: the prefixes \<open>urn:\<close> and \<open>uuid:\<close>, braces and hyphens are dropped,
  exactly 32 characters must remain and must be hexadecimal digits. (\<open>int(text, 16)\<close> also
  takes underscores and a sign; a 32-character text with one of those is treated as
  malformed here.) \<open>str(uuid)\<close> is the 8-4-4-4-12 form.\<close>

type_synonym uuid = int

fun drop_all :: "string \<Rightarrow> string \<Rightarrow> string" where
  "drop_all p [] = []"
| "drop_all p (c # s) =
     (if p \<noteq> [] \<and> startswith (c # s) p then drop_all p (drop (length p - 1) s)
      else c # drop_all p s)"

definition parse_uuid :: "string \<Rightarrow> uuid option" where
  "parse_uuid s =
     (let t = drop_all ''uuid:'' (drop_all ''urn:'' s);
          u = rstrip_by (\<lambda>c. c \<in> set ''{}'') (lstrip_by (\<lambda>c. c \<in> set ''{}'') t);
          h = filter (\<lambda>c. c \<noteq> CHR ''-'') u
      in if length h = 32 \<and> list_all is_hexdigit h then Some (of_digits 16 (map hex_val h)) else None)"

definition str_uuid :: "uuid \<Rightarrow> string" where
  "str_uuid u = (let h = map hex_digit (base_digits 16 32 u) in
     take 8 h @ ''-'' @ take 4 (drop 8 h) @ ''-'' @ take 4 (drop 12 h) @ ''-'' @
     take 4 (drop 16 h) @ ''-'' @ drop 20 h)"

definition valid_uuid :: "uuid \<Rightarrow> bool" where
  "valid_uuid u = (0 \<le> u \<and> u < 2 ^ 128)"

section \<open>Rows\<close>

record BlockRule =
  br_id :: uuid
  br_name :: string
  br_rule_type :: string
  br_match_type :: string
  br_pattern :: string
  br_action :: string
  br_priority :: int
  br_is_active :: bool
  br_source :: RuleSource
  br_expires_at :: "rat option"
  br_hit_count :: int
  br_last_hit_at :: "rat option"
  br_confidence :: rat
  br_notes :: string
  br_review_status :: ReviewStatus
  br_reviewed_at :: "rat option"
  br_detectors :: string
  br_created_at :: rat
  br_feed_first_seen :: "int option"
  br_feed_reporters :: int

record AllowRule =
  ar_id :: uuid
  ar_name :: string
  ar_rule_type :: string
  ar_match_type :: string
  ar_pattern :: string
  ar_verify_rdns :: bool
  ar_rdns_pattern :: string
  ar_is_active :: bool
  ar_source :: RuleSource
  ar_expires_at :: "rat option"
  ar_confidence :: rat
  ar_feed_first_seen :: "int option"
  ar_feed_reporters :: int

record RequestLog =
  rl_timestamp :: rat
  rl_ip_address :: string
  rl_user_agent :: string
  rl_path :: string
  rl_method :: string
  rl_verdict :: Verdict
  rl_matched_rule_id :: "uuid option"
  rl_matched_rule_type :: string
  rl_anomaly_score :: "rat option"
  rl_response_code :: int
  rl_referer :: string
  rl_http_fingerprint :: string
  rl_fingerprint_verdict :: string
  rl_country_code :: string
  rl_source :: RequestLogSource
  rl_source_event_id :: string

record IPReputation =
  ip_ip_address :: string
  ip_total_requests :: int
  ip_blocked_requests :: int
  ip_challenged_requests :: int
  ip_challenge_passes :: int
  ip_challenge_failures :: int
  ip_distinct_ua_count :: int
  ip_threat_score :: rat
  ip_last_seen_at :: "rat option"
  ip_window_start :: "rat option"
  ip_window_end :: "rat option"

record ChallengeToken =
  ct_token :: string
  ct_ip_address :: string
  ct_difficulty :: int
  ct_nonce :: string
  ct_status :: ChallengeStatus
  ct_expires_at :: rat
  ct_solved_at :: "rat option"

section \<open>Querysets\<close>

definition not_expired :: "rat \<Rightarrow> rat option \<Rightarrow> bool" where
  "not_expired now e = (case e of None \<Rightarrow> True | Some t \<Rightarrow> now < t)"

text \<open>The default order of the table, \<open>Meta.ordering\<close>.\<close>

definition BlockRule_ordering :: "BlockRule list \<Rightarrow> BlockRule list" where
  "BlockRule_ordering rows = sort_key br_priority (sort_key (\<lambda>r. - br_created_at r) rows)"

definition BlockRule_active :: "rat \<Rightarrow> BlockRule list \<Rightarrow> BlockRule list" where
  "BlockRule_active now rows =
     sort_key br_priority (filter (\<lambda>r. br_is_active r \<and> not_expired now (br_expires_at r)) rows)"

definition BlockRule_for_nginx :: "rat \<Rightarrow> BlockRule list \<Rightarrow> BlockRule list" where
  "BlockRule_for_nginx now rows =
     filter (\<lambda>r. br_rule_type r \<in> RuleType_value ` {IP, CIDR, UA} \<and>
                 br_action r \<in> RuleAction_value ` {BLOCK, THROTTLE})
       (BlockRule_active now rows)"

definition BlockRule_auto_generated :: "rat \<Rightarrow> BlockRule list \<Rightarrow> BlockRule list" where
  "BlockRule_auto_generated now rows = filter (\<lambda>r. br_source r = AUTO) (BlockRule_active now rows)"

definition BlockRule_feed_sourced :: "rat \<Rightarrow> BlockRule list \<Rightarrow> BlockRule list" where
  "BlockRule_feed_sourced now rows = filter (\<lambda>r. br_source r = FEED) (BlockRule_active now rows)"

definition BlockRule_expired :: "rat \<Rightarrow> BlockRule list \<Rightarrow> BlockRule list" where
  "BlockRule_expired now rows =
     filter (\<lambda>r. br_is_active r \<and> (case br_expires_at r of None \<Rightarrow> False | Some t \<Rightarrow> t \<le> now)) rows"

definition BlockRule_stale :: "rat \<Rightarrow> int \<Rightarrow> BlockRule list \<Rightarrow> BlockRule list" where
  "BlockRule_stale now days rows =
     (let cutoff = now - of_int (days * 86400) in
      filter (\<lambda>r. br_source r = AUTO \<and> \<not> br_is_active r \<and>
                  (case br_expires_at r of None \<Rightarrow> False | Some t \<Rightarrow> t < cutoff) \<and>
                  br_review_status r \<in> {NOT_APPLICABLE, EXPIRED_UNREVIEWED}) rows)"

definition AllowRule_active :: "rat \<Rightarrow> AllowRule list \<Rightarrow> AllowRule list" where
  "AllowRule_active now rows =
     filter (\<lambda>r. ar_is_active r \<and> not_expired now (ar_expires_at r)) rows"

definition AllowRule_requiring_rdns :: "rat \<Rightarrow> AllowRule list \<Rightarrow> AllowRule list" where
  "AllowRule_requiring_rdns now rows = filter ar_verify_rdns (AllowRule_active now rows)"

definition AllowRule_feed_sourced :: "rat \<Rightarrow> AllowRule list \<Rightarrow> AllowRule list" where
  "AllowRule_feed_sourced now rows = filter (\<lambda>r. ar_source r = FEED) (AllowRule_active now rows)"

definition AllowRule_expired :: "rat \<Rightarrow> AllowRule list \<Rightarrow> AllowRule list" where
  "AllowRule_expired now rows =
     filter (\<lambda>r. ar_is_active r \<and> (case ar_expires_at r of None \<Rightarrow> False | Some t \<Rightarrow> t \<le> now)) rows"

definition RequestLog_recent :: "rat \<Rightarrow> int \<Rightarrow> RequestLog list \<Rightarrow> RequestLog list" where
  "RequestLog_recent now hours rows =
     filter (\<lambda>r. now - of_int (hours * 3600) \<le> rl_timestamp r) rows"

definition RequestLog_purgeable :: "rat \<Rightarrow> int \<Rightarrow> RequestLog list \<Rightarrow> RequestLog list" where
  "RequestLog_purgeable now days rows =
     filter (\<lambda>r. rl_timestamp r < now - of_int (days * 86400)) rows"

definition RequestLog_for_ip :: "string \<Rightarrow> RequestLog list \<Rightarrow> RequestLog list" where
  "RequestLog_for_ip ip rows = filter (\<lambda>r. rl_ip_address r = ip) rows"

definition RequestLog_blocked :: "RequestLog list \<Rightarrow> RequestLog list" where
  "RequestLog_blocked rows = filter (\<lambda>r. rl_verdict r = BLOCKED) rows"

definition RequestLog_from_middleware :: "RequestLog list \<Rightarrow> RequestLog list" where
  "RequestLog_from_middleware rows = filter (\<lambda>r. rl_source r = MIDDLEWARE) rows"

definition IPReputation_high_threat :: "rat \<Rightarrow> IPReputation list \<Rightarrow> IPReputation list" where
  "IPReputation_high_threat threshold rows = filter (\<lambda>r. threshold \<le> ip_threat_score r) rows"

definition IPReputation_top_offenders :: "nat \<Rightarrow> IPReputation list \<Rightarrow> IPReputation list" where
  "IPReputation_top_offenders limit rows = take limit (sort_key (\<lambda>r. - ip_threat_score r) rows)"

text \<open>\<open>_validate_rule_pattern\<close>, called by \<open>BlockRule.clean\<close> and \<open>AllowRule.clean\<close>.\<close>

definition validate_rule_pattern ::
  "regex_engine \<Rightarrow> string \<Rightarrow> string \<Rightarrow> string \<Rightarrow> PatternValidationError + unit" where
  "validate_rule_pattern E rule_type match_type pattern =
     (if rule_type \<noteq> RuleType_value UA \<or> match_type \<noteq> MatchType_value REGEX then Inr ()
      else validate_ua_regex_pattern E pattern)"

section \<open>Lemmas on UUIDs\<close>

lemma hex_digit_ord: "0 \<le> d \<Longrightarrow> d < 16 \<Longrightarrow> ord (hex_digit d) = (if d < 10 then 48 + nat d else 87 + nat d)"
  by (auto simp: hex_digit_def ord_chr)

lemma hex_digit_ok:
  assumes "0 \<le> d" "d < 16"
  shows "is_hexdigit (hex_digit d)" "hex_val (hex_digit d) = d"
    "hex_digit d \<noteq> CHR ''-''" "hex_digit d \<noteq> CHR '':''" "hex_digit d \<noteq> CHR ''{''" "hex_digit d \<noteq> CHR ''}''"
proof -
  note o = hex_digit_ord [OF assms]
  show "is_hexdigit (hex_digit d)" using assms o by (auto simp: is_hexdigit_def Let_def)
  show "hex_val (hex_digit d) = d"
    using assms o by (auto simp: hex_val_def is_digit_def ord_lower_char)
  have "ord CHR ''-'' = 45" "ord CHR '':'' = 58" "ord CHR ''{'' = 123" "ord CHR ''}'' = 125"
    by (simp_all add: ord_def)
  then show "hex_digit d \<noteq> CHR ''-''" "hex_digit d \<noteq> CHR '':''"
    "hex_digit d \<noteq> CHR ''{''" "hex_digit d \<noteq> CHR ''}''"
    using assms o by (auto split: if_splits)
qed

lemma drop_all_absent: "c \<in> set p \<Longrightarrow> c \<notin> set s \<Longrightarrow> drop_all p s = s"
proof (induction s)
  case Nil
  then show ?case by simp
next
  case (Cons a s)
  have "\<not> startswith (a # s) p"
  proof
    assume "startswith (a # s) p"
    then obtain t where "a # s = p @ t" by (auto simp: startswith_iff)
    with Cons.prems show False by (metis Un_iff set_append)
  qed
  with Cons show ?case by simp
qed

lemma take_drop_pieces:
  "take 8 h @ take 4 (drop 8 h) @ take 4 (drop 12 h) @ take 4 (drop 16 h) @ drop 20 h = h"
proof -
  have "take 4 (drop 16 h) @ drop 20 h = drop 16 h"
    using append_take_drop_id [of 4 "drop 16 h"] by simp
  moreover have "take 4 (drop 12 h) @ drop 16 h = drop 12 h"
    using append_take_drop_id [of 4 "drop 12 h"] by simp
  moreover have "take 4 (drop 8 h) @ drop 12 h = drop 8 h"
    using append_take_drop_id [of 4 "drop 8 h"] by simp
  ultimately show ?thesis by simp
qed

lemma parse_str_uuid [simp]:
  assumes "valid_uuid u"
  shows "parse_uuid (str_uuid u) = Some u"
proof -
  let ?h = "map hex_digit (base_digits 16 32 u)"
  have dig: "\<And>d. d \<in> set (base_digits 16 32 u) \<Longrightarrow> 0 \<le> d \<and> d < 16"
    using base_digits_bound [of 16] by simp
  have hset: "c \<in> set ?h \<Longrightarrow> is_hexdigit c \<and> c \<noteq> CHR ''-'' \<and> c \<noteq> CHR '':'' \<and> c \<noteq> CHR ''{'' \<and> c \<noteq> CHR ''}''"
    for c using dig hex_digit_ok by auto
  have sset: "set (str_uuid u) \<subseteq> insert CHR ''-'' (set ?h)"
    unfolding str_uuid_def Let_def by (auto dest!: in_set_takeD in_set_dropD)
  have colon: "CHR '':'' \<notin> set (str_uuid u)" using sset hset by fastforce
  have brace: "c \<in> set (str_uuid u) \<Longrightarrow> c \<notin> set ''{}''" for c using sset hset by fastforce
  have keep: "filter (\<lambda>c. c \<noteq> CHR ''-'') xs = xs" if "set xs \<subseteq> set ?h" for xs
    using that hset by (auto simp: filter_id_conv)
  have sub: "set (take n (drop m ?h)) \<subseteq> set ?h" "set (drop m ?h) \<subseteq> set ?h" "set (take n ?h) \<subseteq> set ?h"
    for n m by (meson set_drop_subset set_take_subset subset_trans)+
  have flt: "filter (\<lambda>c. c \<noteq> CHR ''-'') (str_uuid u) = ?h"
    unfolding str_uuid_def Let_def filter_append using keep sub take_drop_pieces [of ?h] by simp
  have "map hex_val ?h = base_digits 16 32 u"
    using dig hex_digit_ok(2) by (simp add: map_idI)
  then have val: "of_digits 16 (map hex_val ?h) = u"
    using assms by (simp add: of_digits_base_digits valid_uuid_def)
  have "list_all is_hexdigit ?h" using hset by (auto simp: list_all_iff)
  then show ?thesis unfolding parse_uuid_def Let_def
    using colon brace flt val
    by (simp add: drop_all_absent [of "CHR '':''"] lstrip_id rstrip_id)
qed

interpretation uuid_codec: codec valid_uuid str_uuid parse_uuid
  by unfold_locales simp

end
