(* ===== verification/RedisStore.thy ===== *)
theory RedisStore
  imports Prelude
begin

text \<open>
  Redis is a service outside the repository. A Redis client is therefore a parameter of the
  model: a function that takes a batch of commands (one command for a plain call, several
  for a \<open>pipeline().execute()\<close>) and the state of the server, and either raises or returns
  the replies with the new state. What the package relies on is the documented meaning of
  the commands it sends: \<open>run_cmds\<close> below writes it out on an abstract store, and the locale
  \<open>redis_server\<close> says that a client conforms to it whenever it returns. Nothing is assumed
  about a call that raises. \<open>redis_up\<close> adds that well-formed batches do return.
\<close>

section \<open>Commands and replies\<close>

text \<open>\<open>KEYS p\<close> stands for the pattern \<open>p*\<close> of a prefix without wildcards.\<close>

datatype redis_cmd =
    GET string
  | SETEX string int string
  | SETNX string string int
  | INCR string
  | EXPIRE string int
  | DEL string
  | EXISTS string
  | HINCRBY string string int
  | ZADD string string rat
  | ZREMRANGEBYSCORE string rat rat
  | ZCARD string
  | ZFIRST string
  | ZCOUNT string rat
  | HGETALL string
  | KEYS string

datatype redis_reply =
    NilR
  | OkR
  | IntR int
  | BulkR string
  | ScoredR "(string \<times> rat) list"
  | HashR "(string \<times> int) list"
  | KeysR "string list"
  | ErrR

type_synonym 'r redis = "redis_cmd list \<Rightarrow> 'r \<Rightarrow> (py_exc + redis_reply list) \<times> 'r"

section \<open>Documented meaning on an abstract store\<close>

datatype rval = RStr string | RHash "(string \<times> int) list" | RZSet "(string \<times> rat) list"

record store =
  clock :: rat
  data :: "(string \<times> rval \<times> rat option) list"

definition live :: "store \<Rightarrow> string \<Rightarrow> rval option" where
  "live s k = (case map_of (data s) k of
      None \<Rightarrow> None
    | Some (v, None) \<Rightarrow> Some v
    | Some (v, Some t) \<Rightarrow> (if clock s < t then Some v else None))"

definition expiry :: "store \<Rightarrow> string \<Rightarrow> rat option" where
  "expiry s k = (case map_of (data s) k of None \<Rightarrow> None | Some (_, e) \<Rightarrow> e)"

definition put :: "string \<Rightarrow> rval \<Rightarrow> rat option \<Rightarrow> store \<Rightarrow> store" where
  "put k v e s = s\<lparr>data := (k, v, e) # filter (\<lambda>x. fst x \<noteq> k) (data s)\<rparr>"

definition remove :: "string \<Rightarrow> store \<Rightarrow> store" where
  "remove k s = s\<lparr>data := filter (\<lambda>x. fst x \<noteq> k) (data s)\<rparr>"

definition elapse :: "rat \<Rightarrow> store \<Rightarrow> store" where
  "elapse d s = s\<lparr>clock := clock s + d\<rparr>"

text \<open>A write that keeps the remaining lifetime of a live key and starts a fresh key
  without one.\<close>

definition rewrite :: "string \<Rightarrow> rval \<Rightarrow> store \<Rightarrow> store" where
  "rewrite k v s = put k v (if live s k = None then None else expiry s k) s"

definition zset_of :: "store \<Rightarrow> string \<Rightarrow> (string \<times> rat) list option" where
  "zset_of s k = (case live s k of
      None \<Rightarrow> Some [] | Some (RZSet z) \<Rightarrow> Some z | Some _ \<Rightarrow> None)"

definition zadd :: "string \<Rightarrow> rat \<Rightarrow> (string \<times> rat) list \<Rightarrow> (string \<times> rat) list" where
  "zadd m sc z = (m, sc) # filter (\<lambda>x. fst x \<noteq> m) z"

definition zput :: "string \<Rightarrow> (string \<times> rat) list \<Rightarrow> store \<Rightarrow> store" where
  "zput k z s = (if z = [] then remove k s else rewrite k (RZSet z) s)"

fun zmin :: "(string \<times> rat) list \<Rightarrow> (string \<times> rat) list" where
  "zmin [] = []"
| "zmin (x # z) = (case zmin z of [] \<Rightarrow> [x] | y # _ \<Rightarrow> if snd x \<le> snd y then [x] else [y])"

fun run_cmd :: "redis_cmd \<Rightarrow> store \<Rightarrow> redis_reply \<times> store" where
  "run_cmd (GET k) s = (case live s k of
      None \<Rightarrow> (NilR, s) | Some (RStr v) \<Rightarrow> (BulkR v, s) | Some _ \<Rightarrow> (ErrR, s))"
| "run_cmd (SETEX k ttl v) s =
     (if ttl \<le> 0 then (ErrR, s) else (OkR, put k (RStr v) (Some (clock s + of_int ttl)) s))"
| "run_cmd (SETNX k v ttl) s =
     (if ttl \<le> 0 then (ErrR, s)
      else if live s k = None then (OkR, put k (RStr v) (Some (clock s + of_int ttl)) s)
      else (NilR, s))"
| "run_cmd (INCR k) s = (case live s k of
      None \<Rightarrow> (IntR 1, rewrite k (RStr (str_int 1)) s)
    | Some (RStr v) \<Rightarrow> (case py_int v of
        None \<Rightarrow> (ErrR, s)
      | Some n \<Rightarrow> (IntR (n + 1), rewrite k (RStr (str_int (n + 1))) s))
    | Some _ \<Rightarrow> (ErrR, s))"
| "run_cmd (EXPIRE k ttl) s = (case live s k of
      None \<Rightarrow> (IntR 0, s)
    | Some v \<Rightarrow> (IntR 1, if ttl \<le> 0 then remove k s else put k v (Some (clock s + of_int ttl)) s))"
| "run_cmd (DEL k) s = (IntR (if live s k = None then 0 else 1), remove k s)"
| "run_cmd (EXISTS k) s = (IntR (if live s k = None then 0 else 1), s)"
| "run_cmd (HINCRBY k f n) s = (case live s k of
      None \<Rightarrow> (IntR n, rewrite k (RHash [(f, n)]) s)
    | Some (RHash h) \<Rightarrow>
        (let m = (case map_of h f of None \<Rightarrow> n | Some x \<Rightarrow> x + n)
         in (IntR m, rewrite k (RHash ((f, m) # filter (\<lambda>x. fst x \<noteq> f) h)) s))
    | Some _ \<Rightarrow> (ErrR, s))"
| "run_cmd (ZADD k m sc) s = (case zset_of s k of
      None \<Rightarrow> (ErrR, s)
    | Some z \<Rightarrow> (IntR (if m \<in> fst ` set z then 0 else 1), zput k (zadd m sc z) s))"
| "run_cmd (ZREMRANGEBYSCORE k lo hi) s = (case zset_of s k of
      None \<Rightarrow> (ErrR, s)
    | Some z \<Rightarrow> (let keep = filter (\<lambda>x. \<not> (lo \<le> snd x \<and> snd x \<le> hi)) z
        in (IntR (int (length z) - int (length keep)), zput k keep s)))"
| "run_cmd (ZCARD k) s = (case zset_of s k of
      None \<Rightarrow> (ErrR, s) | Some z \<Rightarrow> (IntR (int (length z)), s))"
| "run_cmd (ZFIRST k) s = (case zset_of s k of
      None \<Rightarrow> (ErrR, s) | Some z \<Rightarrow> (ScoredR (zmin z), s))"
| "run_cmd (ZCOUNT k lo) s = (case zset_of s k of
      None \<Rightarrow> (ErrR, s) | Some z \<Rightarrow> (IntR (int (length (filter (\<lambda>x. lo \<le> snd x) z))), s))"
| "run_cmd (HGETALL k) s = (case live s k of
      None \<Rightarrow> (HashR [], s) | Some (RHash h) \<Rightarrow> (HashR h, s) | Some _ \<Rightarrow> (ErrR, s))"
| "run_cmd (KEYS prefix) s =
     (KeysR (remdups (filter (\<lambda>k. startswith k prefix \<and> live s k \<noteq> None) (map fst (data s)))), s)"

fun run_cmds :: "redis_cmd list \<Rightarrow> store \<Rightarrow> redis_reply list \<times> store" where
  "run_cmds [] s = ([], s)"
| "run_cmds (c # cs) s =
     (let (r, s') = run_cmd c s; (rs, s'') = run_cmds cs s' in (r # rs, s''))"

section \<open>The client library's calls\<close>

definition r_call :: "'r redis \<Rightarrow> redis_cmd \<Rightarrow> ('r, redis_reply) py" where
  "r_call C c r = (case C [c] r of
      (Inl e, r') \<Rightarrow> (Inl e, r')
    | (Inr [rep], r') \<Rightarrow> (Inr rep, r')
    | (Inr _, r') \<Rightarrow> (Inl RedisError, r'))"

definition r_get :: "'r redis \<Rightarrow> string \<Rightarrow> ('r, string option) py" where
  "r_get C k = andThen (r_call C (GET k))
     (\<lambda>rep. case rep of NilR \<Rightarrow> ret None | BulkR v \<Rightarrow> ret (Some v) | _ \<Rightarrow> raise RedisError)"

definition r_exec :: "'r redis \<Rightarrow> redis_cmd \<Rightarrow> ('r, unit) py" where
  "r_exec C c = andThen (r_call C c) (\<lambda>_. ret ())"

definition r_int :: "'r redis \<Rightarrow> redis_cmd \<Rightarrow> ('r, int) py" where
  "r_int C c = andThen (r_call C c) (\<lambda>rep. case rep of IntR n \<Rightarrow> ret n | _ \<Rightarrow> raise RedisError)"

definition r_setnx :: "'r redis \<Rightarrow> string \<Rightarrow> string \<Rightarrow> int \<Rightarrow> ('r, bool) py" where
  "r_setnx C k v ttl = andThen (r_call C (SETNX k v ttl)) (\<lambda>rep. ret (rep = OkR))"

section \<open>Laws of the abstract store\<close>

lemma map_of_filter_neq: "map_of (filter (\<lambda>x. fst x \<noteq> k) xs) j = (if j = k then None else map_of xs j)"
  by (induction xs) auto

lemma map_of_put [simp]:
  "map_of (data (put k v e s)) j = (if j = k then Some (v, e) else map_of (data s) j)"
  by (simp add: put_def map_of_filter_neq)

lemma map_of_remove [simp]:
  "map_of (data (remove k s)) j = (if j = k then None else map_of (data s) j)"
  by (simp add: remove_def map_of_filter_neq)

lemma clock_put [simp]: "clock (put k v e s) = clock s"
  by (simp add: put_def)

lemma clock_remove [simp]: "clock (remove k s) = clock s"
  by (simp add: remove_def)

lemma live_put: "live (put k v e s) j =
   (if j = k then (case e of None \<Rightarrow> Some v | Some t \<Rightarrow> if clock s < t then Some v else None)
    else live s j)"
  by (simp add: live_def split: option.splits)

lemma live_remove: "live (remove k s) j = (if j = k then None else live s j)"
  by (simp add: live_def split: option.splits prod.splits)

lemma expiry_put [simp]: "expiry (put k v e s) j = (if j = k then e else expiry s j)"
  by (simp add: expiry_def)

lemma expiry_remove [simp]: "expiry (remove k s) j = (if j = k then None else expiry s j)"
  by (simp add: expiry_def)

lemma live_rewrite [simp]: "live (rewrite k v s) j = (if j = k then Some v else live s j)"
  unfolding rewrite_def
  by (auto simp: live_put live_def expiry_def split: option.splits if_splits)

lemma clock_rewrite [simp]: "clock (rewrite k v s) = clock s"
  by (simp add: rewrite_def)

lemma clock_zput [simp]: "clock (zput k z s) = clock s"
  by (simp add: zput_def)

lemma zset_of_zput [simp]: "zset_of (zput k z s) j = (if j = k then Some z else zset_of s j)"
  by (simp add: zput_def zset_of_def live_remove)

lemma live_zput_other: "j \<noteq> k \<Longrightarrow> live (zput k z s) j = live s j"
  by (simp add: zput_def live_remove)

lemma live_elapse_None: "0 \<le> d \<Longrightarrow> live s k = None \<Longrightarrow> live (elapse d s) k = None"
  by (auto simp: live_def elapse_def split: option.splits if_splits)

lemma live_put_elapse:
  "live (elapse d (put k v (Some (clock s + ttl)) s)) k = (if d < ttl then Some v else None)"
  by (simp add: live_def elapse_def)

lemma clock_run_cmd [simp]: "clock (snd (run_cmd c s)) = clock s"
  by (cases c) (auto simp: Let_def split: option.splits rval.splits)

lemma zmin_Nil [simp]: "zmin z = [] \<longleftrightarrow> z = []"
  by (induction z) (auto split: list.splits)

lemma zmin_spec: "zmin z = x # ys \<Longrightarrow> ys = [] \<and> x \<in> set z \<and> (\<forall>y \<in> set z. snd x \<le> snd y)"
proof (induction z arbitrary: x ys)
  case Nil
  then show ?case by simp
next
  case (Cons a z)
  show ?case
  proof (cases "zmin z")
    case Nil
    with Cons.prems show ?thesis by auto
  next
    case (Cons b bs)
    from Cons.IH [OF Cons] Cons.prems Cons show ?thesis
      by (auto split: if_splits)
  qed
qed

section \<open>Conforming clients\<close>

locale redis_server =
  fixes exec :: "'r redis" and store_of :: "'r \<Rightarrow> store"
  assumes documented:
    "exec cs r = (Inr reps, r') \<Longrightarrow> run_cmds cs (store_of r) = (reps, store_of r') \<and> ErrR \<notin> set reps"
begin

lemma call_documented:
  assumes "r_call exec c r = (Inr rep, r')"
  shows "run_cmd c (store_of r) = (rep, store_of r') \<and> rep \<noteq> ErrR"
proof -
  from assms have "exec [c] r = (Inr [rep], r')"
    by (auto simp: r_call_def split: prod.splits sum.splits list.splits)
  from documented [OF this] show ?thesis by (auto simp: Let_def split: prod.splits)
qed

lemma get_documented:
  assumes "r_get exec k r = (Inr v, r')"
  shows "store_of r' = store_of r \<and> live (store_of r) k = map_option RStr v"
proof -
  from assms obtain rep where c: "r_call exec (GET k) r = (Inr rep, r')"
    and rep: "(v = None \<and> rep = NilR) \<or> (\<exists>x. v = Some x \<and> rep = BulkR x)"
    by (auto simp: r_get_def andThen_def split: prod.splits sum.splits redis_reply.splits)
  from call_documented [OF c] rep show ?thesis
    by (auto split: option.splits rval.splits)
qed

lemma exec_documented:
  assumes "r_exec exec c r = (Inr u, r')"
  shows "store_of r' = snd (run_cmd c (store_of r)) \<and> fst (run_cmd c (store_of r)) \<noteq> ErrR"
proof -
  from assms obtain rep where "r_call exec c r = (Inr rep, r')"
    by (auto simp: r_exec_def andThen_def split: prod.splits sum.splits)
  from call_documented [OF this] show ?thesis by simp
qed

lemma int_documented:
  assumes "r_int exec c r = (Inr n, r')"
  shows "run_cmd c (store_of r) = (IntR n, store_of r')"
proof -
  from assms have "r_call exec c r = (Inr (IntR n), r')"
    by (auto simp: r_int_def andThen_def split: prod.splits sum.splits redis_reply.splits)
  from call_documented [OF this] show ?thesis by simp
qed

end

locale redis_up = redis_server +
  assumes available:
    "ErrR \<notin> set (fst (run_cmds cs (store_of r))) \<Longrightarrow> \<exists>reps r'. exec cs r = (Inr reps, r')"
begin

lemma up_run:
  assumes "run_cmds cs (store_of r) = (reps, s')" and "ErrR \<notin> set reps"
  shows "\<exists>r'. exec cs r = (Inr reps, r') \<and> store_of r' = s'"
proof -
  from available [of cs r] assms obtain reps' r' where e: "exec cs r = (Inr reps', r')" by auto
  from documented [OF e] assms have "reps' = reps" "store_of r' = s'" by auto
  with e show ?thesis by blast
qed

lemma up_call:
  assumes "run_cmd c (store_of r) = (rep, s')" and "rep \<noteq> ErrR"
  shows "\<exists>r'. r_call exec c r = (Inr rep, r') \<and> store_of r' = s'"
proof -
  from assms have "run_cmds [c] (store_of r) = ([rep], s')" by simp
  from up_run [OF this] assms(2) show ?thesis by (auto simp: r_call_def)
qed

lemma up_get:
  assumes "live (store_of r) k = map_option RStr v"
  shows "\<exists>r'. r_get exec k r = (Inr v, r') \<and> store_of r' = store_of r"
proof (cases v)
  case None
  with assms have "run_cmd (GET k) (store_of r) = (NilR, store_of r)" by simp
  from up_call [OF this] None show ?thesis by (auto simp: r_get_def)
next
  case (Some x)
  with assms have "run_cmd (GET k) (store_of r) = (BulkR x, store_of r)" by simp
  from up_call [OF this] Some show ?thesis by (auto simp: r_get_def)
qed

lemma up_exec:
  assumes "fst (run_cmd c (store_of r)) \<noteq> ErrR"
  shows "\<exists>r'. r_exec exec c r = (Inr (), r') \<and> store_of r' = snd (run_cmd c (store_of r))"
proof -
  have "run_cmd c (store_of r) = (fst (run_cmd c (store_of r)), snd (run_cmd c (store_of r)))" by simp
  from up_call [OF this] assms show ?thesis by (auto simp: r_exec_def)
qed

end

text \<open>The abstract store itself is such a server, and one that is always up; so is a server
  that answers nothing but errors, which conforms vacuously.\<close>

definition mem_exec :: "store redis" where
  "mem_exec cs s = (let (reps, s') = run_cmds cs s
     in (if ErrR \<in> set reps then Inl RedisError else Inr reps, s'))"

definition down_exec :: "store redis" where
  "down_exec cs s = (Inl RedisError, s)"

interpretation mem: redis_up mem_exec "\<lambda>s. s"
  by unfold_locales (auto simp: mem_exec_def Let_def split: prod.splits if_splits)

interpretation down: redis_server down_exec "\<lambda>s. s"
  by unfold_locales (simp add: down_exec_def)

definition fresh_store :: store where
  "fresh_store = \<lparr>clock = 0, data = []\<rparr>"

end
