(* ===== verification/Conf.thy ===== *)
theory Conf
  imports Prelude
begin

text \<open>
  \<open>conf.py\<close>: the settings the modelled components read, as records whose fields carry the
  settings' names, and the documented defaults. Settings are resolved at call time in the
  source, so every operation of the model takes the record as an argument. A
  \<open>DJANGO_WAF_RATE_LIMIT_PATHS\<close> entry is (limit, window) or (limit, window, methods): the
  third component is \<open>None\<close> for the two-item form.
\<close>

type_synonym rate_entry = "int \<times> int \<times> string list option"

record conf =
  DJANGO_WAF_ENABLED :: bool
  DJANGO_WAF_CHALLENGE_DIFFICULTY :: int
  DJANGO_WAF_CHALLENGE_DIFFICULTY_DESKTOP :: "int option"
  DJANGO_WAF_CHALLENGE_DIFFICULTY_MOBILE :: "int option"
  DJANGO_WAF_CHALLENGE_URL :: string
  DJANGO_WAF_VERIFY_URL :: string
  DJANGO_WAF_CHALLENGE_COOKIE_TTL :: int
  DJANGO_WAF_RATE_LIMIT_PER_MINUTE :: int
  DJANGO_WAF_RATE_LIMIT_PER_5MIN :: int
  DJANGO_WAF_RATE_LIMIT_BURST :: int
  DJANGO_WAF_LOG_SAMPLE_RATE :: rat
  DJANGO_WAF_EXEMPT_PATHS :: "string list"
  DJANGO_WAF_EXEMPT_HOSTS :: "string list"
  DJANGO_WAF_RDNS_FAILURE_CACHE_TTL :: int
  DJANGO_WAF_TRUST_X_FORWARDED_FOR :: bool
  DJANGO_WAF_CHALLENGE_NO_REFERER :: bool
  DJANGO_WAF_NO_REFERER_EXEMPT_PATHS :: "string list"
  DJANGO_WAF_ALLOWED_METHODS :: "string list option"
  DJANGO_WAF_SUSPICIOUS_PATH_PATTERNS :: "string list"
  DJANGO_WAF_SCORE_THRESHOLD_LOG :: rat
  DJANGO_WAF_SCORE_THRESHOLD_CHALLENGE :: rat
  DJANGO_WAF_SCORE_THRESHOLD_BLOCK :: rat
  DJANGO_WAF_CHALLENGE_ESCALATION_THRESHOLD :: int
  DJANGO_WAF_SUSPICIOUS_PATH_SCORE :: rat
  DJANGO_WAF_ESCALATION_BLOCK_TTL :: int
  DJANGO_WAF_RATE_LIMIT_PATHS :: "(string \<times> rate_entry) list"
  DJANGO_WAF_BLOCKED_COUNTRIES :: "string list"
  DJANGO_WAF_BLOCK_RESPONSE_HANDLER :: string
  DJANGO_WAF_THROTTLE_RESPONSE_HANDLER :: string
  DJANGO_WAF_SITE_PASSWORD :: string
  DJANGO_WAF_SITE_PASSWORD_ENABLED :: bool
  DJANGO_WAF_SITE_PASSWORD_TTL :: int
  DJANGO_WAF_SITE_PASSWORD_EXEMPT_PATHS :: "string list"
  DJANGO_WAF_SITE_PASSWORD_VERIFY_PATH :: string
  DJANGO_WAF_TRUSTED_PROXIES :: "string list"
  DJANGO_WAF_TRUSTED_UNIX_SOCKET :: bool
  DJANGO_WAF_TRUSTED_COOKIE_ENABLED :: bool
  DJANGO_WAF_TRUSTED_COOKIE_TRUST_LEVEL :: string
  DJANGO_WAF_TRUSTED_COOKIE_TTL :: int
  DJANGO_WAF_VERIFY_RATE_LIMIT_MAX :: int
  DJANGO_WAF_VERIFY_RATE_LIMIT_WINDOW_SECONDS :: int
  DJANGO_WAF_ANOMALY_QUARANTINE_AUTO_RULES :: bool
  DJANGO_WAF_ANOMALY_OBSERVE_ONLY_DETECTORS :: "string list"
  DJANGO_WAF_SIGNING_KEY :: string

record form_conf =
  DJANGO_WAF_FORM_PROTECTION_ENABLED :: bool
  DJANGO_WAF_FORM_FLAG_THRESHOLD :: rat
  DJANGO_WAF_FORM_BLOCK_THRESHOLD :: rat
  DJANGO_WAF_FORM_CHALLENGE_ON_FLAG :: bool
  DJANGO_WAF_FORM_EMIT_PASSED_SIGNAL :: bool
  DJANGO_WAF_FORM_TOKEN_TTL :: int
  DJANGO_WAF_FORM_HONEYPOT_FIELD_NAMES :: "string list"
  DJANGO_WAF_FORM_TIME_TRAP_MIN_SECONDS :: rat
  DJANGO_WAF_FORM_TIME_TRAP_MAX_SECONDS :: rat
  DJANGO_WAF_FORM_CREDENTIAL_THROTTLE_WINDOW :: int
  DJANGO_WAF_FORM_CREDENTIAL_THROTTLE_LIMIT :: int
  DJANGO_WAF_FORM_CREDENTIAL_IP_LIMIT :: int
  DJANGO_WAF_FORM_SIGNUP_VELOCITY_WINDOW :: int
  DJANGO_WAF_FORM_SIGNUP_VELOCITY_LIMIT :: int
  DJANGO_WAF_FORM_POW_DIFFICULTY :: int
  DJANGO_WAF_FORM_DEFENCE_WEIGHTS :: "(string \<times> rat) list"

record detector_conf =
  DJANGO_WAF_ANOMALY_THRESHOLD_DISTINCT_UAS :: int
  DJANGO_WAF_AUTO_RULE_EXPIRY_HOURS :: int
  DJANGO_WAF_CLOUD_SPRAY_MIN_IPS :: int
  DJANGO_WAF_CLOUD_SPRAY_MAX_REQUESTS_PER_IP :: int
  DJANGO_WAF_CLOUD_SPRAY_TOP_N :: int
  DJANGO_WAF_CLOUD_SPRAY_UA_RULE :: bool
  DJANGO_WAF_ANOMALY_THRESHOLD_SUBNET_BURST_MIN_COUNT :: int
  DJANGO_WAF_UNSOLVED_MIN_CHALLENGED :: int
  DJANGO_WAF_UNSOLVED_REFERER_RATIO :: rat
  DJANGO_WAF_UNSOLVED_SOLVE_EXEMPTION_WINDOW_HOURS :: int
  DJANGO_WAF_UNSOLVED_SUBNET_MIN_CHALLENGED :: int
  DJANGO_WAF_UNSOLVED_SUBNET_MIN_IPS :: int
  DJANGO_WAF_UNSOLVED_SUBNET_WINDOW_MINUTES :: int
  DJANGO_WAF_SCRAPER_404_MIN_REQUESTS :: int
  DJANGO_WAF_SCRAPER_404_RATIO :: rat
  DJANGO_WAF_SCRAPER_404_WINDOW_MINUTES :: int
  DJANGO_WAF_SCRAPER_404_ACTION_BLOCK :: bool

record ops_conf =
  DJANGO_WAF_NGINX_BLOCKLIST_PATH :: string
  DJANGO_WAF_ACCESS_LOG_PATH :: string
  DJANGO_WAF_FEED_ENABLED :: bool
  DJANGO_WAF_FEED_URL :: string
  DJANGO_WAF_FEED_MIN_CONFIDENCE :: rat
  DJANGO_WAF_FEED_REPORT :: bool
  DJANGO_WAF_FEED_REPORT_URL :: string
  DJANGO_WAF_FEED_API_KEY :: string
  DJANGO_WAF_LOG_RETENTION_DAYS :: int
  DJANGO_WAF_RULE_RETENTION_DAYS :: int
  DJANGO_WAF_RULE_PRUNE_ENABLED :: bool
  DJANGO_WAF_NGINX_PID_PATH :: "string option"
  DJANGO_WAF_NGINX_RELOAD_COMMAND :: "string list"
  DJANGO_WAF_FEED_QUARANTINE_ALLOW_RULES :: bool
  DJANGO_WAF_NGINX_VALIDATE :: bool
  DJANGO_WAF_NGINX_TEST_COMMAND :: "string list"

text \<open>The regular expressions of suspicious paths; \<open>BS\<close> is the backslash.\<close>

abbreviation BS :: string where
  "BS \<equiv> [CHR 0x5C]"

definition DEFAULT_SUSPICIOUS_PATH_PATTERNS :: "string list" where
  "DEFAULT_SUSPICIOUS_PATH_PATTERNS = [
    BS @ ''.env'', BS @ ''.aws'', BS @ ''.ssh'', ''id_rsa'', ''id_dsa'',
    BS @ ''.pem$'', BS @ ''.key$'', ''credentials'', BS @ ''.bash_history'', BS @ ''.zsh_history'',
    ''wp-config'' @ BS @ ''.php'', ''config'' @ BS @ ''.php'', ''settings'' @ BS @ ''.py'', ''/admin/config'', BS @ ''.yml$'',
    BS @ ''.yaml$'', BS @ ''.git'', BS @ ''.svn'', BS @ ''.hg'', BS @ ''.sql$'',
    BS @ ''.sql'' @ BS @ ''.gz$'', BS @ ''.bak$'', BS @ ''.backup$'', ''dump'' @ BS @ ''.sql'', ''backup'' @ BS @ ''.zip'',
    ''db'' @ BS @ ''.sqlite'', ''wp-admin'', ''wp-login'', ''xmlrpc'' @ BS @ ''.php'', ''shell'' @ BS @ ''.php'',
    ''alfa.*'' @ BS @ ''.php'', ''r57'' @ BS @ ''.php'', ''c99'' @ BS @ ''.php'', ''filemanager'' @ BS @ ''.php'', ''webshell'',
    ''cmd'' @ BS @ ''.php'', ''/eval'' @ BS @ ''.php'', ''phpinfo'', ''phpmyadmin'', ''/server-status'',
    ''/server-info'', ''/onvif/'', ''/boaform/'', ''/HNAP1'', ''/goform/'']"

definition default_conf :: conf where
  "default_conf = \<lparr>
    DJANGO_WAF_ENABLED = True,
    DJANGO_WAF_CHALLENGE_DIFFICULTY = 16,
    DJANGO_WAF_CHALLENGE_DIFFICULTY_DESKTOP = None,
    DJANGO_WAF_CHALLENGE_DIFFICULTY_MOBILE = None,
    DJANGO_WAF_CHALLENGE_URL = [],
    DJANGO_WAF_VERIFY_URL = [],
    DJANGO_WAF_CHALLENGE_COOKIE_TTL = 86400,
    DJANGO_WAF_RATE_LIMIT_PER_MINUTE = 120,
    DJANGO_WAF_RATE_LIMIT_PER_5MIN = 600,
    DJANGO_WAF_RATE_LIMIT_BURST = 10,
    DJANGO_WAF_LOG_SAMPLE_RATE = 1 / 100,
    DJANGO_WAF_EXEMPT_PATHS = [''/static/'', ''/media/'', ''/health/'', ''/favicon.ico''],
    DJANGO_WAF_EXEMPT_HOSTS = [],
    DJANGO_WAF_RDNS_FAILURE_CACHE_TTL = 300,
    DJANGO_WAF_TRUST_X_FORWARDED_FOR = False,
    DJANGO_WAF_CHALLENGE_NO_REFERER = False,
    DJANGO_WAF_NO_REFERER_EXEMPT_PATHS = [''/'', ''/search/'', ''/robots.txt'', ''/sitemap.xml'', ''/favicon.ico''],
    DJANGO_WAF_ALLOWED_METHODS = None,
    DJANGO_WAF_SUSPICIOUS_PATH_PATTERNS = DEFAULT_SUSPICIOUS_PATH_PATTERNS,
    DJANGO_WAF_SCORE_THRESHOLD_LOG = 3,
    DJANGO_WAF_SCORE_THRESHOLD_CHALLENGE = 5,
    DJANGO_WAF_SCORE_THRESHOLD_BLOCK = 7,
    DJANGO_WAF_CHALLENGE_ESCALATION_THRESHOLD = 10,
    DJANGO_WAF_SUSPICIOUS_PATH_SCORE = 3,
    DJANGO_WAF_ESCALATION_BLOCK_TTL = 3600,
    DJANGO_WAF_RATE_LIMIT_PATHS = [],
    DJANGO_WAF_BLOCKED_COUNTRIES = [],
    DJANGO_WAF_BLOCK_RESPONSE_HANDLER = [],
    DJANGO_WAF_THROTTLE_RESPONSE_HANDLER = [],
    DJANGO_WAF_SITE_PASSWORD = [],
    DJANGO_WAF_SITE_PASSWORD_ENABLED = False,
    DJANGO_WAF_SITE_PASSWORD_TTL = 43200,
    DJANGO_WAF_SITE_PASSWORD_EXEMPT_PATHS = [''/health/'', ''/.well-known/'', ''/robots.txt'', ''/waf/challenge/'', ''/waf/verify/''],
    DJANGO_WAF_SITE_PASSWORD_VERIFY_PATH = ''/waf/site-password/'',
    DJANGO_WAF_TRUSTED_PROXIES = [],
    DJANGO_WAF_TRUSTED_UNIX_SOCKET = False,
    DJANGO_WAF_TRUSTED_COOKIE_ENABLED = False,
    DJANGO_WAF_TRUSTED_COOKIE_TRUST_LEVEL = ''staff'',
    DJANGO_WAF_TRUSTED_COOKIE_TTL = 3600,
    DJANGO_WAF_VERIFY_RATE_LIMIT_MAX = 20,
    DJANGO_WAF_VERIFY_RATE_LIMIT_WINDOW_SECONDS = 300,
    DJANGO_WAF_ANOMALY_QUARANTINE_AUTO_RULES = False,
    DJANGO_WAF_ANOMALY_OBSERVE_ONLY_DETECTORS = [],
    DJANGO_WAF_SIGNING_KEY = []\<rparr>"

definition default_form_conf :: form_conf where
  "default_form_conf = \<lparr>
    DJANGO_WAF_FORM_PROTECTION_ENABLED = True,
    DJANGO_WAF_FORM_FLAG_THRESHOLD = 2,
    DJANGO_WAF_FORM_BLOCK_THRESHOLD = 5,
    DJANGO_WAF_FORM_CHALLENGE_ON_FLAG = True,
    DJANGO_WAF_FORM_EMIT_PASSED_SIGNAL = False,
    DJANGO_WAF_FORM_TOKEN_TTL = 3600,
    DJANGO_WAF_FORM_HONEYPOT_FIELD_NAMES = [''url'', ''website'', ''homepage'', ''email_confirm''],
    DJANGO_WAF_FORM_TIME_TRAP_MIN_SECONDS = 3 / 2,
    DJANGO_WAF_FORM_TIME_TRAP_MAX_SECONDS = 3600,
    DJANGO_WAF_FORM_CREDENTIAL_THROTTLE_WINDOW = 900,
    DJANGO_WAF_FORM_CREDENTIAL_THROTTLE_LIMIT = 5,
    DJANGO_WAF_FORM_CREDENTIAL_IP_LIMIT = 20,
    DJANGO_WAF_FORM_SIGNUP_VELOCITY_WINDOW = 86400,
    DJANGO_WAF_FORM_SIGNUP_VELOCITY_LIMIT = 5,
    DJANGO_WAF_FORM_POW_DIFFICULTY = 12,
    DJANGO_WAF_FORM_DEFENCE_WEIGHTS = [(''honeypot'', 5), (''time_trap'', 2), (''render_token'', 5), (''ua_consistency'', 2),
      (''js_touch'', 3 / 2), (''credential_throttle'', 5), (''signup_velocity'', 5), (''pow_gate'', 5)]\<rparr>"

definition default_detector_conf :: detector_conf where
  "default_detector_conf = \<lparr>
    DJANGO_WAF_ANOMALY_THRESHOLD_DISTINCT_UAS = 20,
    DJANGO_WAF_AUTO_RULE_EXPIRY_HOURS = 24,
    DJANGO_WAF_CLOUD_SPRAY_MIN_IPS = 20,
    DJANGO_WAF_CLOUD_SPRAY_MAX_REQUESTS_PER_IP = 3,
    DJANGO_WAF_CLOUD_SPRAY_TOP_N = 5,
    DJANGO_WAF_CLOUD_SPRAY_UA_RULE = False,
    DJANGO_WAF_ANOMALY_THRESHOLD_SUBNET_BURST_MIN_COUNT = 30,
    DJANGO_WAF_UNSOLVED_MIN_CHALLENGED = 3,
    DJANGO_WAF_UNSOLVED_REFERER_RATIO = 4 / 5,
    DJANGO_WAF_UNSOLVED_SOLVE_EXEMPTION_WINDOW_HOURS = 24,
    DJANGO_WAF_UNSOLVED_SUBNET_MIN_CHALLENGED = 30,
    DJANGO_WAF_UNSOLVED_SUBNET_MIN_IPS = 10,
    DJANGO_WAF_UNSOLVED_SUBNET_WINDOW_MINUTES = 360,
    DJANGO_WAF_SCRAPER_404_MIN_REQUESTS = 20,
    DJANGO_WAF_SCRAPER_404_RATIO = 17 / 20,
    DJANGO_WAF_SCRAPER_404_WINDOW_MINUTES = 1440,
    DJANGO_WAF_SCRAPER_404_ACTION_BLOCK = False\<rparr>"

definition default_ops_conf :: ops_conf where
  "default_ops_conf = \<lparr>
    DJANGO_WAF_NGINX_BLOCKLIST_PATH = ''/etc/nginx/conf.d/django-waf-blocklist.conf'',
    DJANGO_WAF_ACCESS_LOG_PATH = ''/var/log/nginx/access.log'',
    DJANGO_WAF_FEED_ENABLED = True,
    DJANGO_WAF_FEED_URL = ''https://threats.drystane.com/v1/feed.json'',
    DJANGO_WAF_FEED_MIN_CONFIDENCE = 4 / 5,
    DJANGO_WAF_FEED_REPORT = False,
    DJANGO_WAF_FEED_REPORT_URL = ''https://threats.drystane.com/v1/report'',
    DJANGO_WAF_FEED_API_KEY = [],
    DJANGO_WAF_LOG_RETENTION_DAYS = 30,
    DJANGO_WAF_RULE_RETENTION_DAYS = 90,
    DJANGO_WAF_RULE_PRUNE_ENABLED = False,
    DJANGO_WAF_NGINX_PID_PATH = Some ''/run/nginx.pid'',
    DJANGO_WAF_NGINX_RELOAD_COMMAND = [''nginx'', ''-s'', ''reload''],
    DJANGO_WAF_FEED_QUARANTINE_ALLOW_RULES = True,
    DJANGO_WAF_NGINX_VALIDATE = True,
    DJANGO_WAF_NGINX_TEST_COMMAND = [''nginx'', ''-t'']\<rparr>"

end
