(* ===== verification/Json.thy ===== *)
theory Json
  imports PyIpaddress
begin

text \<open>
  The part of Python's \<open>json\<close> module that the package uses: \<open>json.dumps\<close> with the default
  separators and \<open>ensure_ascii\<close>, and \<open>json.loads\<close> by recursive descent, on documents of
  null, booleans, integers, strings, lists and dictionaries. Two kinds of input are reported
  as malformed although Python reads them, as text with one \<open>char\<close> per code point cannot hold
  them or the package never stores them: escapes above \<open>\u00ff\<close> and floating point literals.
  The parser takes fuel; the length of the input is always enough (\<open>loads_dumps\<close>).
\<close>

datatype json =
    JNull
  | JBool bool
  | JInt int
  | JStr string
  | JList "json list"
  | JDict "(string \<times> json) list"

section \<open>Writing\<close>

abbreviation DQ :: char where
  "DQ \<equiv> CHR 0x22"

abbreviation BSL :: char where
  "BSL \<equiv> CHR 0x5C"

definition esc_char :: "char \<Rightarrow> string" where
  "esc_char c = (let n = ord c in
     if n = 34 \<or> n = 92 then [BSL, c]
     else if n = 10 then [BSL, CHR ''n'']
     else if n = 13 then [BSL, CHR ''r'']
     else if n = 9 then [BSL, CHR ''t'']
     else if n = 12 then [BSL, CHR ''f'']
     else if n = 8 then [BSL, CHR ''b'']
     else if 32 \<le> n \<and> n \<le> 126 then [c]
     else [BSL, CHR ''u'', CHR ''0'', CHR ''0'', hex_digit (int (n div 16)), hex_digit (int (n mod 16))])"

definition str_text :: "string \<Rightarrow> string" where
  "str_text s = DQ # concat (map esc_char s) @ [DQ]"

fun commas :: "string list \<Rightarrow> string" where
  "commas [] = []"
| "commas [s] = s"
| "commas (s # t # ts) = s @ '', '' @ commas (t # ts)"

fun dumps :: "json \<Rightarrow> string" where
  "dumps JNull = ''null''"
| "dumps (JBool b) = (if b then ''true'' else ''false'')"
| "dumps (JInt i) = str_int i"
| "dumps (JStr s) = str_text s"
| "dumps (JList vs) = ''['' @ commas (map dumps vs) @ '']''"
| "dumps (JDict kvs) = ''{'' @ commas (map (\<lambda>kv. str_text (fst kv) @ '': '' @ dumps (snd kv)) kvs) @ ''}''"

section \<open>Reading\<close>

definition is_ws :: "char \<Rightarrow> bool" where
  "is_ws c = (ord c \<in> {32, 9, 10, 13})"

definition skip_ws :: "string \<Rightarrow> string" where
  "skip_ws = dropWhile is_ws"

fun unescape :: "char \<Rightarrow> char option" where
  "unescape e = (let n = ord e in
     if n = 34 \<or> n = 92 \<or> n = 47 then Some e
     else if e = CHR ''n'' then Some (chr 10)
     else if e = CHR ''r'' then Some (chr 13)
     else if e = CHR ''t'' then Some (chr 9)
     else if e = CHR ''f'' then Some (chr 12)
     else if e = CHR ''b'' then Some (chr 8)
     else None)"

declare unescape.simps [simp del]

definition onto :: "char \<Rightarrow> (string \<times> string) option \<Rightarrow> (string \<times> string) option" where
  "onto c = map_option (\<lambda>(a, b). (c # a, b))"

fun parse_string :: "string \<Rightarrow> (string \<times> string) option" where
  "parse_string [] = None"
| "parse_string (c # s) =
     (if c = DQ then Some ([], s)
      else if c = BSL then
        (case s of
           [] \<Rightarrow> None
         | e # r \<Rightarrow>
             if e = CHR ''u'' then
               (case r of
                  a # b # c' # d # q \<Rightarrow>
                    (let n = of_digits 16 (map hex_val [a, b, c', d]) in
                     if list_all is_hexdigit [a, b, c', d] \<and> n < 256 then onto (chr (nat n)) (parse_string q)
                     else None)
                | _ \<Rightarrow> None)
             else (case unescape e of None \<Rightarrow> None | Some x \<Rightarrow> onto x (parse_string r)))
      else if ord c < 32 then None
      else onto c (parse_string s))"

definition parse_num :: "string \<Rightarrow> (json \<times> string) option" where
  "parse_num s =
     (let (neg, t) = (case s of [] \<Rightarrow> (False, s) | c # r \<Rightarrow> if c = CHR ''-'' then (True, r) else (False, s));
          d = takeWhile is_digit t; r = dropWhile is_digit t; v = int_of_digits d
      in if d = [] \<or> (hd d = CHR ''0'' \<and> tl d \<noteq> []) \<or> (r \<noteq> [] \<and> hd r \<in> set ''.eE'') then None
         else Some (JInt (if neg then - v else v), r))"

fun parse_value :: "nat \<Rightarrow> string \<Rightarrow> (json \<times> string) option"
and parse_items :: "nat \<Rightarrow> string \<Rightarrow> (json list \<times> string) option"
and parse_members :: "nat \<Rightarrow> string \<Rightarrow> ((string \<times> json) list \<times> string) option" where
  "parse_value 0 s = None"
| "parse_value (Suc n) s =
     (case skip_ws s of
        [] \<Rightarrow> None
      | c # r \<Rightarrow>
          if c = DQ then map_option (\<lambda>(t, q). (JStr t, q)) (parse_string r)
          else if c = CHR ''['' then
            (case skip_ws r of
               [] \<Rightarrow> None
             | d # q \<Rightarrow> if d = CHR '']'' then Some (JList [], q)
                 else map_option (\<lambda>(vs, q). (JList vs, q)) (parse_items n r))
          else if c = CHR ''{'' then
            (case skip_ws r of
               [] \<Rightarrow> None
             | d # q \<Rightarrow> if d = CHR ''}'' then Some (JDict [], q)
                 else map_option (\<lambda>(vs, q). (JDict vs, q)) (parse_members n r))
          else if startswith (c # r) ''null'' then Some (JNull, drop 4 (c # r))
          else if startswith (c # r) ''true'' then Some (JBool True, drop 4 (c # r))
          else if startswith (c # r) ''false'' then Some (JBool False, drop 5 (c # r))
          else parse_num (c # r))"
| "parse_items 0 s = None"
| "parse_items (Suc n) s =
     (case parse_value n s of
        None \<Rightarrow> None
      | Some (v, r) \<Rightarrow>
          (case skip_ws r of
             [] \<Rightarrow> None
           | c # q \<Rightarrow> if c = CHR '','' then map_option (\<lambda>(vs, q). (v # vs, q)) (parse_items n q)
               else if c = CHR '']'' then Some ([v], q) else None))"
| "parse_members 0 s = None"
| "parse_members (Suc n) s =
     (case skip_ws s of
        [] \<Rightarrow> None
      | c # r \<Rightarrow> if c \<noteq> DQ then None
          else (case parse_string r of
             None \<Rightarrow> None
           | Some (k, q) \<Rightarrow>
               (case skip_ws q of
                  [] \<Rightarrow> None
                | d # q' \<Rightarrow> if d \<noteq> CHR '':'' then None
                    else (case parse_value n q' of
                       None \<Rightarrow> None
                     | Some (v, r') \<Rightarrow>
                         (case skip_ws r' of
                            [] \<Rightarrow> None
                          | e # q'' \<Rightarrow>
                              if e = CHR '','' then map_option (\<lambda>(vs, q). ((k, v) # vs, q)) (parse_members n q'')
                              else if e = CHR ''}'' then Some ([(k, v)], q'') else None)))))"

definition loads :: "string \<Rightarrow> json option" where
  "loads s = (case parse_value (Suc (length s)) s of
      None \<Rightarrow> None
    | Some (v, r) \<Rightarrow> if skip_ws r = [] then Some v else None)"

text \<open>\<open>d[k]\<close> of a decoded document: the last occurrence of a repeated key wins, a missing key
  or a value that is no dictionary gives \<open>None\<close>.\<close>

fun jget :: "json \<Rightarrow> string \<Rightarrow> json option" where
  "jget (JDict kvs) k = map_of (rev kvs) k"
| "jget _ k = None"

section \<open>Round trip\<close>

declare parse_string.simps(2) [simp del]

lemma ord_DQ: "ord DQ = 34" and ord_BSL: "ord BSL = 92"
  by (simp_all add: ord_def)

lemma ord_special: "ord c = 34 \<longleftrightarrow> c = DQ" "ord c = 92 \<longleftrightarrow> c = BSL"
  using ord_inject [of c DQ] ord_inject [of c BSL] ord_DQ ord_BSL by auto

lemma hex_digit_facts:
  assumes "0 \<le> d" "d < 16"
  shows "is_hexdigit (hex_digit d)" "hex_val (hex_digit d) = d"
proof -
  have o: "ord (hex_digit d) = (if d < 10 then 48 + nat d else 87 + nat d)"
    using assms by (auto simp: hex_digit_def ord_chr)
  show "is_hexdigit (hex_digit d)" using assms o by (auto simp: is_hexdigit_def Let_def)
  show "hex_val (hex_digit d) = d"
    using assms o by (auto simp: hex_val_def is_digit_def ord_lower_char)
qed

lemma parse_string_plain: "c \<noteq> DQ \<Longrightarrow> c \<noteq> BSL \<Longrightarrow> \<not> ord c < 32 \<Longrightarrow> parse_string (c # s) = onto c (parse_string s)"
  by (simp add: parse_string.simps(2))

lemma parse_string_short: "e \<noteq> CHR ''u'' \<Longrightarrow> unescape e = Some x \<Longrightarrow>
    parse_string (BSL # e # s) = onto x (parse_string s)"
  by (simp add: parse_string.simps(2))

lemma parse_string_unicode:
  assumes "n < 256"
  shows "parse_string (BSL # CHR ''u'' # CHR ''0'' # CHR ''0'' # hex_digit (int (n div 16)) #
     hex_digit (int (n mod 16)) # s) = onto (chr n) (parse_string s)"
proof -
  have h: "int (n div 16) < 16" "int (n mod 16) < 16" using assms by auto
  have z: "is_hexdigit CHR ''0''" "hex_val CHR ''0'' = 0" by code_simp+
  have "of_digits 16 (map hex_val [CHR ''0'', CHR ''0'', hex_digit (int (n div 16)), hex_digit (int (n mod 16))]) = int n"
    using hex_digit_facts(2) [OF _ h(1)] hex_digit_facts(2) [OF _ h(2)] z
    by (simp add: of_digits_def) (metis div_mult_mod_eq of_nat_add of_nat_mult of_nat_numeral mult.commute)
  moreover have "BSL \<noteq> DQ" by simp
  ultimately show ?thesis
    using hex_digit_facts(1) [OF _ h(1)] hex_digit_facts(1) [OF _ h(2)] z assms
    by (subst parse_string.simps(2)) (simp add: Let_def)
qed

lemma parse_string_esc: "parse_string (esc_char c @ s) = onto c (parse_string s)"
proof -
  let ?n = "ord c"
  have c: "chr ?n = c" by simp
  have u: "unescape CHR ''n'' = Some (chr 10)" "unescape CHR ''r'' = Some (chr 13)"
    "unescape CHR ''t'' = Some (chr 9)" "unescape CHR ''f'' = Some (chr 12)" "unescape CHR ''b'' = Some (chr 8)"
    by code_simp+
  consider "?n = 34 \<or> ?n = 92" | "?n = 10" | "?n = 13" | "?n = 9" | "?n = 12" | "?n = 8"
    | "?n \<notin> {34, 92, 10, 13, 9, 12, 8}" by blast
  then show ?thesis
  proof cases
    case 1
    then have "unescape c = Some c" and "c \<noteq> CHR ''u''" by (auto simp: unescape.simps ord_def)
    with 1 show ?thesis by (simp add: esc_char_def parse_string_short)
  next
    case 7
    show ?thesis
    proof (cases "32 \<le> ?n \<and> ?n \<le> 126")
      case True
      with 7 show ?thesis using ord_special [of c] by (simp add: esc_char_def parse_string_plain)
    next
      case False
      with 7 have "esc_char c = [BSL, CHR ''u'', CHR ''0'', CHR ''0'', hex_digit (int (?n div 16)), hex_digit (int (?n mod 16))]"
        by (auto simp: esc_char_def Let_def)
      with parse_string_unicode [of ?n s] show ?thesis by simp
    qed
  qed (use c u in \<open>simp_all add: esc_char_def parse_string_short\<close>)
qed

lemma parse_string_text: "parse_string (concat (map esc_char s) @ DQ # r) = Some (s, r)"
proof (induction s)
  case Nil
  then show ?case by (simp add: parse_string.simps(2))
next
  case (Cons c s)
  then show ?case by (simp add: parse_string_esc onto_def)
qed

text \<open>The text after a number must not continue it.\<close>

definition stops :: "string \<Rightarrow> bool" where
  "stops r = (r = [] \<or> (\<not> is_digit (hd r) \<and> hd r \<notin> set ''.eE''))"

lemma takeWhile_digits:
  assumes "\<forall>c \<in> set d. is_digit c" and "r = [] \<or> \<not> is_digit (hd r)"
  shows "takeWhile is_digit (d @ r) = d" "dropWhile is_digit (d @ r) = r"
  using assms by (induction d) (cases r; simp)+

lemma str_nat_no_leading_zero: "0 \<le> n \<Longrightarrow> \<not> (hd (str_nat n) = CHR ''0'' \<and> tl (str_nat n) \<noteq> [])"
  using hd_str_nat [of n] by (cases "n = 0") (simp_all add: str_nat_lt10)

lemma parse_num_nat:
  assumes "0 \<le> n" and "stops r"
  shows "takeWhile is_digit (str_nat n @ r) = str_nat n" "dropWhile is_digit (str_nat n @ r) = r"
  using takeWhile_digits [of "str_nat n" r] str_nat_digits [OF assms(1)] assms(2)
  by (auto simp: stops_def)

lemma parse_num_text:
  assumes "stops r"
  shows "parse_num (str_int i @ r) = Some (JInt i, r)"
proof (cases "i < 0")
  case True
  then have n: "0 \<le> - i" by simp
  note p = parse_num_nat [OF n assms] str_nat_no_leading_zero [OF n]
  show ?thesis using True assms p by (auto simp: str_int_def parse_num_def Let_def stops_def)
next
  case False
  then have n: "0 \<le> i" by simp
  note p = parse_num_nat [OF n assms] str_nat_no_leading_zero [OF n]
  obtain c t where ct: "str_nat i = c # t" by (meson list.exhaust str_nat_not_Nil)
  have "c \<noteq> CHR ''-''" using str_nat_digits [OF n, of c] digit_not_special(2) ct by auto
  then have sgn: "(case str_nat i @ r of [] \<Rightarrow> (False, str_nat i @ r)
      | c # q \<Rightarrow> if c = CHR ''-'' then (True, q) else (False, str_nat i @ r)) = (False, str_nat i @ r)"
    by (simp add: ct)
  show ?thesis unfolding parse_num_def str_int_def using False assms p
    by (auto simp: sgn Let_def stops_def)
qed

lemma skip_ws_keep: "\<not> is_ws c \<Longrightarrow> skip_ws (c # s) = c # s"
  by (simp add: skip_ws_def)

lemma skip_ws_space: "skip_ws (CHR '' '' # s) = skip_ws s"
  by (simp add: skip_ws_def is_ws_def ord_def)

lemma punctuation_not_ws:
  "\<not> is_ws CHR '',''" "\<not> is_ws CHR '']''" "\<not> is_ws CHR ''}''" "\<not> is_ws CHR '':''" "\<not> is_ws DQ"
  "\<not> is_ws CHR ''[''" "\<not> is_ws CHR ''{''"
  by (simp_all add: is_ws_def ord_def)

lemma stops_punctuation: "stops (CHR '','' # r)" "stops (CHR '']'' # r)" "stops (CHR ''}'' # r)" "stops []"
  by (simp_all add: stops_def is_digit_def ord_def)

lemmas json_lex = skip_ws_keep [OF punctuation_not_ws(1)] skip_ws_keep [OF punctuation_not_ws(2)]
  skip_ws_keep [OF punctuation_not_ws(3)] skip_ws_keep [OF punctuation_not_ws(4)]
  skip_ws_keep [OF punctuation_not_ws(5)] skip_ws_keep [OF punctuation_not_ws(6)]
  skip_ws_keep [OF punctuation_not_ws(7)] stops_punctuation

lemma parse_value_space: "parse_value n (CHR '' '' # s) = parse_value n s"
  by (cases n) (simp_all add: skip_ws_space)

lemma parse_items_space: "parse_items n (CHR '' '' # s) = parse_items n s"
  by (cases n) (simp_all add: parse_value_space)

lemma parse_members_space: "parse_members n (CHR '' '' # s) = parse_members n s"
  by (cases n) (simp_all add: skip_ws_space)

lemma str_int_head: "\<exists>c t. str_int i = c # t \<and> (c = CHR ''-'' \<or> is_digit c)"
proof (cases "i < 0")
  case True
  then show ?thesis by (simp add: str_int_def)
next
  case False
  obtain c t where ct: "str_nat i = c # t" by (meson list.exhaust str_nat_not_Nil)
  with False str_nat_digits [of i c] show ?thesis by (simp add: str_int_def)
qed

lemma number_head:
  assumes "c = CHR ''-'' \<or> is_digit c"
  shows "\<not> is_ws c" "c \<noteq> DQ" "c \<noteq> CHR ''[''" "c \<noteq> CHR '']''" "c \<noteq> CHR ''{''" "c \<noteq> CHR ''}''"
    "c \<noteq> CHR ''n''" "c \<noteq> CHR ''t''" "c \<noteq> CHR ''f''"
  using assms by (auto simp: is_ws_def is_digit_def ord_def)

lemma dumps_head: "\<exists>c t. dumps v = c # t \<and> \<not> is_ws c \<and> c \<noteq> CHR '']'' \<and> c \<noteq> CHR ''}''"
proof (cases v)
  case (JInt i)
  obtain c t where "str_int i = c # t" "c = CHR ''-'' \<or> is_digit c" using str_int_head by blast
  with number_head [of c] JInt show ?thesis by auto
qed (auto simp: str_text_def is_ws_def ord_def)

lemma dumps_not_Nil [simp]: "dumps v \<noteq> []" "[] \<noteq> dumps v"
  using dumps_head [of v] by auto

lemma parse_value_int:
  assumes "stops r"
  shows "parse_value (Suc n) (str_int i @ r) = Some (JInt i, r)"
proof -
  obtain c t where ct: "str_int i = c # t" "c = CHR ''-'' \<or> is_digit c" using str_int_head by blast
  note h = number_head [OF ct(2)]
  have "parse_num (c # t @ r) = Some (JInt i, r)" using parse_num_text [OF assms, of i] ct by simp
  then show ?thesis using h by (simp add: ct skip_ws_keep startswith_def)
qed

lemma commas_Cons: "ts \<noteq> [] \<Longrightarrow> commas (s # ts) = s @ '', '' @ commas ts"
  by (cases ts) auto

lemma parse_items_text:
  assumes "\<And>v n r. v \<in> set vs \<Longrightarrow> length (dumps v) < n \<Longrightarrow> stops r \<Longrightarrow> parse_value n (dumps v @ r) = Some (v, r)"
    and "vs \<noteq> []" and "Suc (length (commas (map dumps vs))) < n"
  shows "parse_items n (commas (map dumps vs) @ CHR '']'' # r) = Some (vs, r)"
  using assms
proof (induction vs arbitrary: n)
  case Nil
  then show ?case by simp
next
  case (Cons v vs)
  then obtain m where m: "n = Suc m" by (cases n) auto
  show ?case
  proof (cases "vs = []")
    case True
    have "parse_value m (dumps v @ CHR '']'' # r) = Some (v, CHR '']'' # r)"
      using Cons.prems m True by (intro Cons.prems(1)) (simp_all add: json_lex)
    then show ?thesis using True m by (simp add: json_lex)
  next
    case False
    let ?rest = "commas (map dumps vs)"
    have c: "commas (map dumps (v # vs)) = dumps v @ '', '' @ ?rest" using False by (simp add: commas_Cons)
    have "parse_value m (dumps v @ CHR '','' # CHR '' '' # ?rest @ CHR '']'' # r) =
        Some (v, CHR '','' # CHR '' '' # ?rest @ CHR '']'' # r)"
      using Cons.prems m c by (intro Cons.prems(1)) (simp_all add: json_lex)
    moreover have "parse_items m (?rest @ CHR '']'' # r) = Some (vs, r)"
      using Cons.prems m c False by (intro Cons.IH) auto
    ultimately show ?thesis unfolding c m by (simp add: json_lex parse_items_space)
  qed
qed

abbreviation member_text :: "string \<times> json \<Rightarrow> string" where
  "member_text kv \<equiv> str_text (fst kv) @ '': '' @ dumps (snd kv)"

lemma parse_members_text:
  assumes "\<And>k v n r. (k, v) \<in> set kvs \<Longrightarrow> length (dumps v) < n \<Longrightarrow> stops r \<Longrightarrow> parse_value n (dumps v @ r) = Some (v, r)"
    and "kvs \<noteq> []" and "Suc (length (commas (map member_text kvs))) < n"
  shows "parse_members n (commas (map member_text kvs) @ CHR ''}'' # r) = Some (kvs, r)"
  using assms
proof (induction kvs arbitrary: n)
  case Nil
  then show ?case by simp
next
  case (Cons kv kvs)
  obtain k v where kv: "kv = (k, v)" by (cases kv)
  from Cons obtain m where m: "n = Suc m" by (cases n) auto
  have key: "str_text k @ q = DQ # concat (map esc_char k) @ DQ # q" for q by (simp add: str_text_def)
  have ih: "parse_value m (dumps v @ q) = Some (v, q)" if "stops q" "length (dumps v) < m" for q
    using Cons.prems(1) [of k v m q] kv that by simp
  show ?case
  proof (cases "kvs = []")
    case True
    have "parse_value m (dumps v @ CHR ''}'' # r) = Some (v, CHR ''}'' # r)"
      using Cons.prems(3) m True kv by (intro ih) (simp_all add: json_lex str_text_def)
    then show ?thesis using True m kv
      by (simp add: key json_lex parse_string_text parse_value_space)
  next
    case False
    let ?rest = "commas (map member_text kvs)"
    have c: "commas (map member_text (kv # kvs)) = member_text kv @ '', '' @ ?rest"
      using False by (simp add: commas_Cons)
    have "parse_value m (dumps v @ CHR '','' # CHR '' '' # ?rest @ CHR ''}'' # r) =
        Some (v, CHR '','' # CHR '' '' # ?rest @ CHR ''}'' # r)"
      using Cons.prems(3) m c kv by (intro ih) (simp_all add: json_lex)
    moreover have "parse_members m (?rest @ CHR ''}'' # r) = Some (kvs, r)"
      using Cons.prems m c False by (intro Cons.IH) auto
    ultimately show ?thesis unfolding c unfolding m kv
      by (simp add: key json_lex parse_string_text parse_value_space parse_members_space)
  qed
qed

lemma commas_head: "vs \<noteq> [] \<Longrightarrow> [] \<notin> set vs \<Longrightarrow> \<exists>t. commas vs = hd (hd vs) # t"
  by (cases vs; cases "tl vs"; cases "hd vs") auto

lemma parse_dumps: "length (dumps v) < n \<Longrightarrow> stops r \<Longrightarrow> parse_value n (dumps v @ r) = Some (v, r)"
proof (induction v arbitrary: n r)
  case JNull
  then show ?case by (cases n) (simp_all add: skip_ws_def is_ws_def ord_def startswith_def)
next
  case (JBool b)
  then show ?case by (cases n; cases b) (simp_all add: skip_ws_def is_ws_def ord_def startswith_def)
next
  case (JInt i)
  then show ?case by (cases n) (simp_all add: parse_value_int del: parse_value.simps(2))
next
  case (JStr s)
  then show ?case by (cases n) (simp_all add: str_text_def json_lex parse_string_text)
next
  case (JList vs)
  then obtain m where m: "n = Suc m" by (cases n) auto
  show ?case
  proof (cases "vs = []")
    case True
    then show ?thesis by (simp add: m json_lex)
  next
    case False
    then obtain t where t: "commas (map dumps vs) = hd (dumps (hd vs)) # t"
      using commas_head [of "map dumps vs"] dumps_not_Nil by (auto simp: hd_map image_iff)
    obtain c u where "dumps (hd vs) = c # u" "\<not> is_ws c" "c \<noteq> CHR '']''" using dumps_head by blast
    then have h: "\<not> is_ws (hd (dumps (hd vs)))" "hd (dumps (hd vs)) \<noteq> CHR '']''" by auto
    have "parse_items m (commas (map dumps vs) @ CHR '']'' # r) = Some (vs, r)"
      using JList False m by (intro parse_items_text) auto
    then show ?thesis using h by (simp add: m t json_lex skip_ws_keep)
  qed
next
  case (JDict kvs)
  then obtain m where m: "n = Suc m" by (cases n) auto
  show ?case
  proof (cases "kvs = []")
    case True
    then show ?thesis by (simp add: m json_lex)
  next
    case False
    then obtain t where t: "commas (map member_text kvs) = DQ # t"
      using commas_head [of "map member_text kvs"] by (auto simp: hd_map str_text_def)
    have "parse_members m (commas (map member_text kvs) @ CHR ''}'' # r) = Some (kvs, r)"
      using JDict False m by (intro parse_members_text) (auto intro: JDict.IH)
    then show ?thesis using t by (simp add: m json_lex)
  qed
qed

lemma loads_dumps [simp]: "loads (dumps v) = Some v"
proof -
  have "parse_value (Suc (length (dumps v))) (dumps v @ []) = Some (v, [])"
    by (rule parse_dumps) (simp_all add: json_lex)
  then show ?thesis by (simp add: loads_def skip_ws_def)
qed

interpretation json: codec "\<lambda>_. True" dumps loads
  by unfold_locales simp

end
