(* ===== verification/FormBase.thy ===== *)
theory FormBase
  imports Prelude
begin

text \<open>
  \<open>forms/defences/base.py\<close>: the outcome of one defence and its shorthands. A score is a \<open>rat\<close>.
\<close>

datatype outcome_verdict = Pass | Flag | Block

record Outcome =
  o_verdict :: outcome_verdict
  o_score :: rat
  o_reason :: string
  o_public_message :: string

definition passed :: Outcome where
  "passed = \<lparr>o_verdict = Pass, o_score = 0, o_reason = [], o_public_message = []\<rparr>"

definition flagged :: "rat \<Rightarrow> string \<Rightarrow> Outcome" where
  "flagged s r = \<lparr>o_verdict = Flag, o_score = s, o_reason = r, o_public_message = []\<rparr>"

definition blocked :: "string \<Rightarrow> rat \<Rightarrow> Outcome" where
  "blocked r s = \<lparr>o_verdict = Block, o_score = s, o_reason = r, o_public_message = []\<rparr>"

lemma outcome_shorthands [simp]:
  "o_verdict passed = Pass" "o_verdict (flagged s r) = Flag" "o_verdict (blocked r s) = Block"
  "o_score passed = 0" "o_score (flagged s r) = s" "o_score (blocked r s) = s"
  "o_reason passed = []" "o_reason (flagged s r) = r" "o_reason (blocked r s) = r"
  by (simp_all add: passed_def flagged_def blocked_def)

text \<open>One structured log entry of \<open>forms/logging.py\<close>; a defence is logged by name, verdict, score and
  reason.\<close>

record form_log_entry =
  fl_form_id :: string
  fl_verdict :: string
  fl_ip :: string
  fl_user_agent :: string
  fl_user_id :: "string option"
  fl_total_score :: rat
  fl_defences :: "(string \<times> outcome_verdict \<times> rat \<times> string) list"

end
