(* ===== verification/World.thy ===== *)
theory World
  imports Models RedisStore Conf Json FormBase
begin

text \<open>
  The state of a running deployment and the code outside the repository.

  \<open>world\<close> is everything the package reads and changes: the Redis server's state, the database
  tables, the module globals that cache rules in the process (\<open>_process_cache\<close>,
  \<open>_process_cache_version\<close>, \<open>_ua_pattern_cache\<close> of \<open>services/rule_engine.py\<close>), the plain
  Django cache that \<open>handlers.py\<close> falls back to, the signals sent so far and the log of form submissions. \<open>env\<close> collects
  what is not under the package's control: the Redis client, the hash functions (of a text's UTF-8 bytes), the regular
  expression engine, DNS, the text form of date-times, the random source of UUIDs, the
  outcome of each database operation and what other processes commit to the rule table
  between two of them, the receivers of signals, and the clock, which stands still while one
  request is handled.
\<close>

section \<open>Cached rules\<close>

text \<open>A cached rule is the dictionary that goes through JSON, so it is a \<open>json\<close> value and a
  missing key is a \<open>KeyError\<close>; a value of another type than the one the package writes is a
  \<open>TypeError\<close>. In \<open>ua_regex_set\<close> a compiled pattern is its source text.\<close>

record RuleCache =
  version :: int
  cache_allow_rules :: "json list"
  cache_block_rules :: "json list"
  ua_regex_set :: "(string \<times> json) list"

definition item_str :: "json \<Rightarrow> string \<Rightarrow> ('w, string) py" where
  "item_str d k = (case jget d k of
      None \<Rightarrow> raise KeyError
    | Some (JStr s) \<Rightarrow> ret s
    | Some _ \<Rightarrow> raise TypeError)"

definition truthy :: "json option \<Rightarrow> bool" where
  "truthy j = (case j of
      None \<Rightarrow> False
    | Some JNull \<Rightarrow> False
    | Some (JBool b) \<Rightarrow> b
    | Some (JInt i) \<Rightarrow> i \<noteq> 0
    | Some (JStr s) \<Rightarrow> s \<noteq> []
    | Some (JList vs) \<Rightarrow> vs \<noteq> []
    | Some (JDict kvs) \<Rightarrow> kvs \<noteq> [])"

section \<open>State\<close>

datatype signal =
    Rule_saved uuid "bool option"
  | Request_blocked string string string "uuid option" Verdict
  | Request_throttled string string "string option" "int option"
  | Challenge_issued string string
  | Challenge_failed string string string
  | Challenge_solved string string
  | Form_submission_passed string string string "string option"
  | Form_submission_flagged string string string "string option" rat "Outcome list"
  | Form_submission_blocked string string string "string option" rat "Outcome list" string
  | Credential_attack_observed string int int string
  | Anomaly_detected uuid AnomalyType strdict
  | Feed_synced int int int int

datatype cache_backend = Redis_backend | Other_backend | Unreachable

record 'r world =
  server :: 'r
  BlockRules :: "BlockRule list"
  AllowRules :: "AllowRule list"
  RequestLogs :: "RequestLog list"
  ChallengeTokens :: "ChallengeToken list"
  IPReputations :: "IPReputation list"
  db_ops :: nat
  uuids_used :: nat
  process_cache :: "RuleCache option"
  process_cache_version :: int
  ua_pattern_cache :: "(string \<times> string option) list"
  django_cache :: "(string \<times> int) list"
  signals :: "signal list"
  form_log :: "form_log_entry list"

record 'r env =
  redis :: "'r redis"
  backend :: cache_backend
  time_now :: rat
  sha1 :: "string \<Rightarrow> string"
  sha256 :: "string \<Rightarrow> string"
  regex :: regex_engine
  gethostbyaddr :: "string \<Rightarrow> string option"
  getaddrinfo :: "string \<Rightarrow> string list option"
  isoformat :: "rat \<Rightarrow> string"
  fromisoformat :: "string \<Rightarrow> rat option"
  uuid4 :: "nat \<Rightarrow> uuid"
  db_ok :: "nat \<Rightarrow> bool"
  rivals :: "nat \<Rightarrow> BlockRule list \<Rightarrow> BlockRule list"
  receivers_ok :: "signal \<Rightarrow> bool"

section \<open>Effects\<close>

definition on_redis :: "('r, 'a) py \<Rightarrow> ('r world, 'a) py" where
  "on_redis m w = (case m (server w) of (x, r') \<Rightarrow> (x, w\<lparr>server := r'\<rparr>))"

text \<open>One database operation: the rows other processes have committed become visible, then
  the operation runs, unless the database fails.\<close>

definition db :: "'r env \<Rightarrow> ('r world, 'a) py \<Rightarrow> ('r world, 'a) py" where
  "db E m w = (let n = db_ops w;
       w1 = w\<lparr>BlockRules := rivals E n (BlockRules w), db_ops := Suc n\<rparr>
     in if db_ok E n then m w1 else (Inl DatabaseError, w1))"

definition send :: "'r env \<Rightarrow> signal \<Rightarrow> ('r world, unit) py" where
  "send E sig w = (let w' = w\<lparr>signals := signals w @ [sig]\<rparr>
     in if receivers_ok E sig then (Inr (), w') else (Inl HandlerError, w'))"

definition swallow :: "('w, unit) py \<Rightarrow> ('w, unit) py" where
  "swallow m = try_except m (\<lambda>_. ret ())"

definition get_redis_client :: "'r env \<Rightarrow> 'r redis option" where
  "get_redis_client E = (case backend E of
      Redis_backend \<Rightarrow> Some (redis E) | Other_backend \<Rightarrow> None | Unreachable \<Rightarrow> None)"

section \<open>Lemmas\<close>

lemma on_redis_Inr [simp, py_simps]: "m (server w) = (x, r') \<Longrightarrow> on_redis m w = (x, w\<lparr>server := r'\<rparr>)"
  by (simp add: on_redis_def)

lemma returns_swallow [simp]: "returns (swallow m) w"
  unfolding swallow_def by (rule try_except_returns) simp

lemma swallow_result: "fst (swallow m w) = Inr ()"
  by (simp add: swallow_def try_except_def split: prod.splits sum.splits)

lemma swallow_state: "snd (swallow m w) = snd (m w)"
  by (simp add: swallow_def try_except_def split: prod.splits sum.splits)

lemma swallow_apply: "swallow m w = (Inr (), snd (m w))"
  using swallow_result swallow_state by (metis prod.collapse)

lemma andThen_swallow [simp]: "andThen (swallow m) f w = f () (snd (m w))"
  by (simp add: andThen_def swallow_apply)

lemma returns_on_redis: "returns (on_redis m) w \<longleftrightarrow> returns m (server w)"
  by (simp add: returns_def on_redis_def split: prod.splits)

text \<open>An operation frames a part of the state when it leaves it alone on every outcome. The
  combinators keep frames, which is how the component theories show that evaluation does not
  write the database, that matching does not touch Redis, and the like.\<close>

definition frames :: "('w \<Rightarrow> 'b) \<Rightarrow> ('w, 'a) py \<Rightarrow> bool" where
  "frames g m = (\<forall>w. g (snd (m w)) = g w)"

named_theorems frame_intros \<open>operations that leave a part of the state alone\<close>

lemma framesD: "frames g m \<Longrightarrow> m w = (x, w') \<Longrightarrow> g w' = g w"
  by (metis frames_def snd_conv)

lemma frames_ret [frame_intros]: "frames g (ret x)"
  by (simp add: frames_def)

lemma frames_raise [frame_intros]: "frames g (raise e)"
  by (simp add: frames_def)

lemma frames_andThen [frame_intros]:
  "frames g m \<Longrightarrow> (\<And>x. frames g (f x)) \<Longrightarrow> frames g (andThen m f)"
  by (simp add: frames_def andThen_def split: prod.splits sum.splits) (metis snd_conv)

lemma frames_try [frame_intros]:
  "frames g m \<Longrightarrow> (\<And>e. frames g (h e)) \<Longrightarrow> frames g (try_except m h)"
  by (simp add: frames_def try_except_def split: prod.splits sum.splits) (metis snd_conv)

lemma frames_swallow [frame_intros]: "frames g m \<Longrightarrow> frames g (swallow m)"
  by (simp add: frames_def swallow_state)

lemma frames_if [frame_intros]: "frames g m \<Longrightarrow> frames g k \<Longrightarrow> frames g (if b then m else k)"
  by simp

lemma frames_option [frame_intros]:
  "frames g m \<Longrightarrow> (\<And>x. frames g (f x)) \<Longrightarrow> frames g (case v of None \<Rightarrow> m | Some x \<Rightarrow> f x)"
  by (cases v) simp_all

lemma frames_sum [frame_intros]:
  "(\<And>x. frames g (a x)) \<Longrightarrow> (\<And>x. frames g (b x)) \<Longrightarrow> frames g (case s of Inl x \<Rightarrow> a x | Inr x \<Rightarrow> b x)"
  by (cases s) simp_all

lemma frames_prod [frame_intros]: "(\<And>x y. frames g (a x y)) \<Longrightarrow> frames g (case p of (x, y) \<Rightarrow> a x y)"
  by (cases p) simp

lemma frames_read [frame_intros]: "frames g (read_state f)"
  by (simp add: frames_def)

lemma frames_update [frame_intros]: "(\<And>w. g (f w) = g w) \<Longrightarrow> frames g (update_state f)"
  by (simp add: frames_def)

lemma frames_item_str [frame_intros]: "frames g (item_str d k)"
  by (simp add: frames_def item_str_def split: option.splits json.splits)

lemma frames_on_redis [frame_intros]: "(\<And>w r. g (w\<lparr>server := r\<rparr>) = g w) \<Longrightarrow> frames g (on_redis m)"
  by (simp add: frames_def on_redis_def split: prod.splits)

lemma frames_send [frame_intros]: "(\<And>w s. g (w\<lparr>signals := s\<rparr>) = g w) \<Longrightarrow> frames g (send E sig)"
  by (simp add: frames_def send_def Let_def)

lemma frames_db [frame_intros]:
  "(\<And>w x n. g (w\<lparr>BlockRules := x, db_ops := n\<rparr>) = g w) \<Longrightarrow> frames g m \<Longrightarrow> frames g (db E m)"
  by (simp add: frames_def db_def Let_def)

text \<open>An operation keeps a predicate when the predicate holds after it, on every outcome,
  whenever it held before.\<close>

definition keeps :: "('w \<Rightarrow> bool) \<Rightarrow> ('w, 'a) py \<Rightarrow> bool" where
  "keeps P m = (\<forall>w. P w \<longrightarrow> P (snd (m w)))"

named_theorems keep_intros \<open>operations that keep a predicate\<close>

lemma keepsD: "keeps P m \<Longrightarrow> P w \<Longrightarrow> m w = (x, w') \<Longrightarrow> P w'"
  by (metis keeps_def snd_conv)

lemma frames_keeps: "frames g m \<Longrightarrow> keeps (\<lambda>w. P (g w)) m"
  by (simp add: frames_def keeps_def)

lemma keeps_ret [keep_intros]: "keeps P (ret x)"
  by (simp add: keeps_def)

lemma keeps_raise [keep_intros]: "keeps P (raise e)"
  by (simp add: keeps_def)

lemma keeps_read [keep_intros]: "keeps P (read_state f)"
  by (simp add: keeps_def)

lemma keeps_andThen [keep_intros]: "keeps P m \<Longrightarrow> (\<And>x. keeps P (f x)) \<Longrightarrow> keeps P (andThen m f)"
  by (simp add: keeps_def andThen_def split: prod.splits sum.splits) (metis snd_conv)

lemma keeps_try [keep_intros]: "keeps P m \<Longrightarrow> (\<And>e. keeps P (h e)) \<Longrightarrow> keeps P (try_except m h)"
  by (simp add: keeps_def try_except_def split: prod.splits sum.splits) (metis snd_conv)

lemma keeps_if [keep_intros]: "keeps P m \<Longrightarrow> keeps P k \<Longrightarrow> keeps P (if b then m else k)"
  by simp

lemma keeps_option [keep_intros]:
  "keeps P m \<Longrightarrow> (\<And>x. keeps P (f x)) \<Longrightarrow> keeps P (case v of None \<Rightarrow> m | Some x \<Rightarrow> f x)"
  by (cases v) simp_all

lemma andThen_after: "P (snd (m w)) \<Longrightarrow> (\<And>x. keeps P (f x)) \<Longrightarrow> P (snd (andThen m f w))"
  by (cases "m w") (auto simp: andThen_def keeps_def split: sum.splits)

lemma try_after:
  "P (snd (m w)) \<Longrightarrow> (\<And>e w'. P w' \<Longrightarrow> P (snd (h e w'))) \<Longrightarrow> P (snd (try_except m h w))"
  by (cases "m w") (auto simp: try_except_def split: sum.splits)

section \<open>A concrete deployment\<close>

text \<open>The instance at which the evaluations of the development run: the abstract store as Redis
  server, the identity as hash, literal patterns, no DNS, numerators and denominators as the
  text of date-times, a database that never fails and is written by nobody else.\<close>

definition demo_isoformat :: "rat \<Rightarrow> string" where
  "demo_isoformat t = (case quotient_of t of (a, b) \<Rightarrow> str_int a @ CHR ''/'' # str_int b)"

definition demo_fromisoformat :: "string \<Rightarrow> rat option" where
  "demo_fromisoformat s = (case cut ''/'' s of
      None \<Rightarrow> None
    | Some (a, b) \<Rightarrow> (case (py_int a, py_int b) of
          (Some x, Some y) \<Rightarrow> Some (of_int x / of_int y) | _ \<Rightarrow> None))"

definition demo_env :: "store env" where
  "demo_env = \<lparr>redis = mem_exec, backend = Redis_backend, time_now = 1000, sha1 = (\<lambda>s. s), sha256 = (\<lambda>s. s),
     regex = literal_engine, gethostbyaddr = (\<lambda>_. None), getaddrinfo = (\<lambda>_. None),
     isoformat = demo_isoformat, fromisoformat = demo_fromisoformat, uuid4 = int,
     db_ok = (\<lambda>_. True), rivals = (\<lambda>_ rows. rows), receivers_ok = (\<lambda>_. True)\<rparr>"

definition empty_world :: "store world" where
  "empty_world = \<lparr>server = fresh_store, BlockRules = [], AllowRules = [], RequestLogs = [], ChallengeTokens = [], IPReputations = [],
     db_ops = 0, uuids_used = 0, process_cache = None, process_cache_version = -1, ua_pattern_cache = [],
     django_cache = [], signals = [], form_log = []\<rparr>"

interpretation demo_time: codec "\<lambda>_. True" demo_isoformat demo_fromisoformat
proof
  fix t :: rat
  obtain a b where ab: "quotient_of t = (a, b)" by (cases "quotient_of t")
  have "t = of_int a / of_int b" using quotient_of_div [OF ab] .
  then show "demo_fromisoformat (demo_isoformat t) = Some t"
    using ab cut_char [OF slash_notin_str_int, of a "str_int b"]
    by (simp add: demo_isoformat_def demo_fromisoformat_def)
qed

definition example_rule :: BlockRule where
  "example_rule = \<lparr>br_id = 7, br_name = ''auto'', br_rule_type = ''ip'', br_match_type = ''exact'',
     br_pattern = ''203.0.113.9'', br_action = ''block'', br_priority = 100, br_is_active = True, br_source = AUTO,
     br_expires_at = None, br_hit_count = 0, br_last_hit_at = None, br_confidence = 1, br_notes = [],
     br_review_status = NOT_APPLICABLE, br_reviewed_at = None, br_detectors = [], br_created_at = 0,
     br_feed_first_seen = None, br_feed_reporters = 0\<rparr>"

end
