(* ===== verification/Handlers.thy ===== *)
theory Handlers
  imports World
begin

text \<open>
  \<open>handlers.py\<close>: the receivers of \<open>post_save\<close> and \<open>post_delete\<close> that invalidate the rule cache
  by incrementing the version key, and the rule writes that fire them. \<open>redis_client.py\<close>'s
  \<open>get_redis_client\<close> is in theory \<open>World\<close>.
\<close>

definition RULES_VERSION_KEY :: string where
  "RULES_VERSION_KEY = ''waf:rules:version''"

text \<open>The Django cache API on a backend other than Redis: \<open>incr\<close> of a missing key raises
  \<open>ValueError\<close>, \<open>set\<close> stores.\<close>

definition cache_incr :: "string \<Rightarrow> ('r world, unit) py" where
  "cache_incr k w = (case map_of (django_cache w) k of
      None \<Rightarrow> (Inl ValueError, w)
    | Some n \<Rightarrow> (Inr (), w\<lparr>django_cache := (k, n + 1) # django_cache w\<rparr>))"

definition cache_set :: "string \<Rightarrow> int \<Rightarrow> ('r world, unit) py" where
  "cache_set k v = update_state (\<lambda>w. w\<lparr>django_cache := (k, v) # django_cache w\<rparr>)"

definition invalidate_rule_cache :: "'r env \<Rightarrow> ('r world, unit) py" where
  "invalidate_rule_cache E = swallow
     (case backend E of
        Redis_backend \<Rightarrow> on_redis (r_exec (redis E) (INCR RULES_VERSION_KEY))
      | Other_backend \<Rightarrow> try_except (cache_incr RULES_VERSION_KEY)
          (\<lambda>e. if e = ValueError then cache_set RULES_VERSION_KEY 1 else raise e)
      | Unreachable \<Rightarrow> raise RedisError)"

definition emit_rule_saved :: "'r env \<Rightarrow> uuid \<Rightarrow> bool option \<Rightarrow> ('r world, unit) py" where
  "emit_rule_saved E instance_id created = swallow (send E (Rule_saved instance_id created))"

definition on_block_rule_save :: "'r env \<Rightarrow> uuid \<Rightarrow> bool \<Rightarrow> ('r world, unit) py" where
  "on_block_rule_save E instance_id created =
     andThen (invalidate_rule_cache E) (\<lambda>_. emit_rule_saved E instance_id (Some created))"

definition on_block_rule_delete :: "'r env \<Rightarrow> uuid \<Rightarrow> ('r world, unit) py" where
  "on_block_rule_delete E instance_id =
     andThen (invalidate_rule_cache E) (\<lambda>_. emit_rule_saved E instance_id None)"

definition on_allow_rule_save :: "'r env \<Rightarrow> uuid \<Rightarrow> bool \<Rightarrow> ('r world, unit) py" where
  "on_allow_rule_save E instance_id created =
     andThen (invalidate_rule_cache E) (\<lambda>_. emit_rule_saved E instance_id (Some created))"

definition on_allow_rule_delete :: "'r env \<Rightarrow> uuid \<Rightarrow> ('r world, unit) py" where
  "on_allow_rule_delete E instance_id =
     andThen (invalidate_rule_cache E) (\<lambda>_. emit_rule_saved E instance_id None)"

section \<open>Lemmas\<close>

lemma returns_invalidate: "returns (invalidate_rule_cache E) w"
  by (simp add: invalidate_rule_cache_def)

lemma returns_emit_rule_saved: "returns (emit_rule_saved E i c) w"
  by (simp add: emit_rule_saved_def)

lemma handlers_return:
  "returns (on_block_rule_save E i c) w" "returns (on_block_rule_delete E i) w"
  "returns (on_allow_rule_save E i c) w" "returns (on_allow_rule_delete E i) w"
  unfolding on_block_rule_save_def on_block_rule_delete_def on_allow_rule_save_def on_allow_rule_delete_def
  by (auto intro!: returns_andThen returns_invalidate returns_emit_rule_saved)

lemma frames_cache_ops [frame_intros]:
  assumes "\<And>w c. g (w\<lparr>django_cache := c\<rparr>) = g w"
  shows "frames g (cache_incr k)" "frames g (cache_set k v)"
  using assms by (auto simp: frames_def cache_incr_def cache_set_def split: option.splits)

lemma frames_invalidate [frame_intros]:
  assumes "\<And>w r. g (w\<lparr>server := r\<rparr>) = g w" "\<And>w c. g (w\<lparr>django_cache := c\<rparr>) = g w"
  shows "frames g (invalidate_rule_cache E)"
  unfolding invalidate_rule_cache_def using assms
  by (cases "backend E") (auto intro!: frame_intros)

lemma frames_emit [frame_intros]:
  "(\<And>w s. g (w\<lparr>signals := s\<rparr>) = g w) \<Longrightarrow> frames g (emit_rule_saved E i c)"
  unfolding emit_rule_saved_def by (auto intro!: frame_intros)

lemma frames_handlers [frame_intros]:
  assumes "\<And>w r. g (w\<lparr>server := r\<rparr>) = g w" "\<And>w c. g (w\<lparr>django_cache := c\<rparr>) = g w"
    "\<And>w s. g (w\<lparr>signals := s\<rparr>) = g w"
  shows "frames g (on_block_rule_save E i c)" "frames g (on_block_rule_delete E i)"
    "frames g (on_allow_rule_save E i c)" "frames g (on_allow_rule_delete E i)"
  unfolding on_block_rule_save_def on_block_rule_delete_def on_allow_rule_save_def on_allow_rule_delete_def
  using assms by (auto intro!: frame_intros)

text \<open>The version number the rule engine compares, \<open>0\<close> when the key is absent.\<close>

definition rules_version :: "store \<Rightarrow> int option" where
  "rules_version s = (case live s RULES_VERSION_KEY of
      None \<Rightarrow> Some 0
    | Some (RStr v) \<Rightarrow> (if v = [] then Some 0 else py_int v)
    | Some _ \<Rightarrow> None)"

definition counter_key :: "store \<Rightarrow> string \<Rightarrow> bool" where
  "counter_key s k = (case live s k of None \<Rightarrow> True | Some v \<Rightarrow> \<exists>n. v = RStr (str_int n))"

lemma str_int_not_Nil [simp]: "str_int i \<noteq> []"
  by (simp add: str_int_def)

lemma run_INCR:
  assumes "counter_key s k"
  shows "\<exists>n. run_cmd (INCR k) s = (IntR (n + 1), rewrite k (RStr (str_int (n + 1))) s) \<and>
     (live s k = None \<and> n = 0 \<or> live s k = Some (RStr (str_int n)))"
  using assms by (auto simp: counter_key_def split: option.splits)

context redis_up
begin

lemma up_incr:
  assumes "counter_key (store_of r) k"
  shows "\<exists>r' n. r_exec exec (INCR k) r = (Inr (), r') \<and>
     store_of r' = rewrite k (RStr (str_int (n + 1))) (store_of r) \<and>
     (live (store_of r) k = None \<and> n = 0 \<or> live (store_of r) k = Some (RStr (str_int n)))"
proof -
  from run_INCR [OF assms] obtain n where n: "run_cmd (INCR k) (store_of r) =
      (IntR (n + 1), rewrite k (RStr (str_int (n + 1))) (store_of r))"
    "live (store_of r) k = None \<and> n = 0 \<or> live (store_of r) k = Some (RStr (str_int n))" by blast
  from n(1) have "fst (run_cmd (INCR k) (store_of r)) \<noteq> ErrR" by simp
  from up_exec [OF this] obtain r' where "r_exec exec (INCR k) r = (Inr (), r')"
    "store_of r' = rewrite k (RStr (str_int (n + 1))) (store_of r)" unfolding n(1) by auto
  with n(2) show ?thesis by blast
qed

end

end
