(* ===== verification/RuleCaching.thy ===== *)
theory RuleCaching
  imports Handlers
begin

text \<open>
  The rule cache of \<open>services/rule_engine.py\<close>: \<open>load_rule_cache\<close> with its three levels (the
  process, the JSON document in Redis under the current version, the database), the rebuild
  lock, and the pre-compilation of User-Agent patterns. \<open>_rebuild_rule_cache_from_db\<close> reads
  the active rules through the querysets of theory \<open>Models\<close>. Waiting between two attempts on
  the lock is not visible in the model, as the clock stands still.
\<close>

section \<open>Operations\<close>

definition rules_cache_key :: "int \<Rightarrow> string" where
  "rules_cache_key v = ''waf:rules:cache:'' @ str_int v"

definition CACHE_TTL :: int where
  "CACHE_TTL = 600"

definition REBUILD_LOCK_KEY :: string where
  "REBUILD_LOCK_KEY = ''waf:rule_cache:lock''"

definition REBUILD_LOCK_TTL :: int where
  "REBUILD_LOCK_TTL = 5"

definition REBUILD_LOCK_RETRIES :: nat where
  "REBUILD_LOCK_RETRIES = 3"

definition finally_do :: "('w, 'a) py \<Rightarrow> ('w, unit) py \<Rightarrow> ('w, 'a) py" where
  "finally_do m f w = (case m w of (x, w1) \<Rightarrow> (case f w1 of (Inl e, w2) \<Rightarrow> (Inl e, w2) | (Inr _, w2) \<Rightarrow> (x, w2)))"

text \<open>\<open>re.escape\<close>: a backslash before each character with a meaning in a pattern.\<close>

definition re_special :: "char \<Rightarrow> bool" where
  "re_special c = (c \<in> set ''()[]{}?*+-|^$.&~# '' \<or> ord c \<in> {92, 9, 10, 13, 11, 12})"

definition re_escape :: "string \<Rightarrow> string" where
  "re_escape s = concat (map (\<lambda>c. if re_special c then [CHR 0x5C, c] else [c]) s)"

definition memo_ua_pattern :: "string \<Rightarrow> string option \<Rightarrow> ('r world, unit) py" where
  "memo_ua_pattern pattern compiled =
     update_state (\<lambda>w. w\<lparr>ua_pattern_cache := (pattern, compiled) # ua_pattern_cache w\<rparr>)"

definition invalid_ua_pattern :: "json \<Rightarrow> string \<Rightarrow> ('r world, (string \<times> json) list) py" where
  "invalid_ua_pattern rule pattern =
     andThen (item_str rule ''id'') (\<lambda>_. andThen (memo_ua_pattern pattern None) (\<lambda>_. ret []))"

definition compile_ua_rule ::
  "'r env \<Rightarrow> json \<Rightarrow> string \<Rightarrow> string \<Rightarrow> ('r world, (string \<times> json) list) py" where
  "compile_ua_rule E rule pattern match_type =
     (if match_type = ''regex'' then
        (if re_compiles (regex E) pattern
         then andThen (memo_ua_pattern pattern (Some pattern)) (\<lambda>_. ret [(pattern, rule)])
         else invalid_ua_pattern rule pattern)
      else if match_type = ''contains'' then
        (if re_compiles (regex E) (re_escape pattern) then ret [(re_escape pattern, rule)]
         else invalid_ua_pattern rule pattern)
      else if match_type = ''exact'' then
        (if re_compiles (regex E) (''^'' @ re_escape pattern @ ''$'')
         then ret [(''^'' @ re_escape pattern @ ''$'', rule)]
         else invalid_ua_pattern rule pattern)
      else ret [])"

fun compile_ua_patterns :: "'r env \<Rightarrow> json list \<Rightarrow> ('r world, (string \<times> json) list) py" where
  "compile_ua_patterns E [] = ret []"
| "compile_ua_patterns E (rule # rules) =
     andThen (item_str rule ''rule_type'')
       (\<lambda>rule_type. if rule_type \<noteq> ''ua'' then compile_ua_patterns E rules
          else andThen (item_str rule ''pattern'')
            (\<lambda>pattern. andThen (item_str rule ''match_type'')
              (\<lambda>match_type. andThen (compile_ua_rule E rule pattern match_type)
                (\<lambda>compiled. andThen (compile_ua_patterns E rules)
                  (\<lambda>rest. ret (compiled @ rest))))))"

definition expires_json :: "'r env \<Rightarrow> rat option \<Rightarrow> json" where
  "expires_json E e = (case e of None \<Rightarrow> JNull | Some t \<Rightarrow> JStr (isoformat E t))"

definition block_dict :: "'r env \<Rightarrow> BlockRule \<Rightarrow> json" where
  "block_dict E r = JDict [(''id'', JStr (str_uuid (br_id r))), (''rule_type'', JStr (br_rule_type r)),
     (''match_type'', JStr (br_match_type r)), (''pattern'', JStr (br_pattern r)),
     (''action'', JStr (br_action r)), (''priority'', JInt (br_priority r)),
     (''expires_at'', expires_json E (br_expires_at r))]"

definition allow_dict :: "'r env \<Rightarrow> AllowRule \<Rightarrow> json" where
  "allow_dict E r = JDict [(''id'', JStr (str_uuid (ar_id r))), (''rule_type'', JStr (ar_rule_type r)),
     (''match_type'', JStr (ar_match_type r)), (''pattern'', JStr (ar_pattern r)),
     (''verify_rdns'', JBool (ar_verify_rdns r)), (''rdns_pattern'', JStr (ar_rdns_pattern r)),
     (''expires_at'', expires_json E (ar_expires_at r))]"

definition cache_document :: "json list \<Rightarrow> json list \<Rightarrow> json" where
  "cache_document allow block = JDict [(''allow_rules'', JList allow), (''block_rules'', JList block)]"

definition rebuild_rule_cache_from_db :: "'r env \<Rightarrow> int \<Rightarrow> string \<Rightarrow> ('r world, RuleCache) py" where
  "rebuild_rule_cache_from_db E v cache_key =
     andThen (db E (read_state (\<lambda>w. map (block_dict E) (BlockRule_active (time_now E) (BlockRules w)))))
       (\<lambda>block. andThen (db E (read_state (\<lambda>w. map (allow_dict E) (AllowRule_active (time_now E) (AllowRules w)))))
         (\<lambda>allow. andThen (on_redis (r_exec (redis E) (SETEX cache_key CACHE_TTL (dumps (cache_document allow block)))))
           (\<lambda>_. andThen (compile_ua_patterns E block)
             (\<lambda>compiled. ret \<lparr>version = v, cache_allow_rules = allow, cache_block_rules = block,
                ua_regex_set = compiled\<rparr>))))"

fun acquire_attempts :: "'r env \<Rightarrow> nat \<Rightarrow> ('r world, bool) py" where
  "acquire_attempts E 0 = ret False"
| "acquire_attempts E (Suc n) =
     andThen (try_except
         (andThen (on_redis (r_setnx (redis E) REBUILD_LOCK_KEY ''1'' REBUILD_LOCK_TTL)) (\<lambda>a. ret (Some a)))
         (\<lambda>_. ret None))
       (\<lambda>acquired. case acquired of
            None \<Rightarrow> ret False
          | Some True \<Rightarrow> ret True
          | Some False \<Rightarrow> acquire_attempts E n)"

definition acquire_rebuild_lock :: "'r env \<Rightarrow> ('r world, bool) py" where
  "acquire_rebuild_lock E = acquire_attempts E (REBUILD_LOCK_RETRIES + 1)"

definition release_rebuild_lock :: "'r env \<Rightarrow> ('r world, unit) py" where
  "release_rebuild_lock E = swallow (on_redis (r_exec (redis E) (DEL REBUILD_LOCK_KEY)))"

definition rebuild_rule_cache :: "'r env \<Rightarrow> int \<Rightarrow> string \<Rightarrow> ('r world, RuleCache) py" where
  "rebuild_rule_cache E v cache_key =
     andThen (acquire_rebuild_lock E)
       (\<lambda>lock_acquired. finally_do (rebuild_rule_cache_from_db E v cache_key)
          (if lock_acquired then release_rebuild_lock E else ret ()))"

definition as_list :: "json option \<Rightarrow> ('w, json list) py" where
  "as_list j = (case j of None \<Rightarrow> ret [] | Some (JList vs) \<Rightarrow> ret vs | Some _ \<Rightarrow> raise TypeError)"

definition decode_cached_rules :: "'r env \<Rightarrow> int \<Rightarrow> string \<Rightarrow> ('r world, RuleCache) py" where
  "decode_cached_rules E v cached = (case loads cached of
      None \<Rightarrow> raise JSONDecodeError
    | Some (JDict kvs) \<Rightarrow>
        andThen (as_list (jget (JDict kvs) ''allow_rules''))
          (\<lambda>allow. andThen (as_list (jget (JDict kvs) ''block_rules''))
            (\<lambda>block. andThen (compile_ua_patterns E block)
              (\<lambda>compiled. ret \<lparr>version = v, cache_allow_rules = allow, cache_block_rules = block,
                 ua_regex_set = compiled\<rparr>)))
    | Some _ \<Rightarrow> raise AttributeError)"

definition remember :: "int \<Rightarrow> RuleCache \<Rightarrow> ('r world, RuleCache) py" where
  "remember v result = andThen (update_state (\<lambda>w. w\<lparr>process_cache := Some result, process_cache_version := v\<rparr>))
     (\<lambda>_. ret result)"

definition fetch_rule_cache :: "'r env \<Rightarrow> int \<Rightarrow> ('r world, RuleCache) py" where
  "fetch_rule_cache E v =
     (let cache_key = rules_cache_key v;
          rebuild = andThen (rebuild_rule_cache E v cache_key) (remember v)
      in andThen (on_redis (r_get (redis E) cache_key))
        (\<lambda>cached. case cached of
            None \<Rightarrow> rebuild
          | Some text \<Rightarrow> if text = [] then rebuild
              else try_except (andThen (decode_cached_rules E v text) (remember v))
                (\<lambda>e. if e = JSONDecodeError \<or> e = KeyError then rebuild else raise e)))"

definition load_rule_cache :: "'r env \<Rightarrow> ('r world, RuleCache) py" where
  "load_rule_cache E =
     andThen (on_redis (r_get (redis E) RULES_VERSION_KEY))
       (\<lambda>raw. case (case raw of None \<Rightarrow> Some 0 | Some s \<Rightarrow> if s = [] then Some 0 else py_int s) of
          None \<Rightarrow> raise ValueError
        | Some v \<Rightarrow>
            andThen (read_state (\<lambda>w. (process_cache w, process_cache_version w)))
              (\<lambda>(pc, pv). case pc of
                  Some result \<Rightarrow> if pv = v then ret result else fetch_rule_cache E v
                | None \<Rightarrow> fetch_rule_cache E v))"

section \<open>Lemmas\<close>

lemma block_dict_items [simp]:
  "jget (block_dict E r) ''id'' = Some (JStr (str_uuid (br_id r)))"
  "jget (block_dict E r) ''rule_type'' = Some (JStr (br_rule_type r))"
  "jget (block_dict E r) ''match_type'' = Some (JStr (br_match_type r))"
  "jget (block_dict E r) ''pattern'' = Some (JStr (br_pattern r))"
  "jget (block_dict E r) ''action'' = Some (JStr (br_action r))"
  "jget (block_dict E r) ''expires_at'' = Some (expires_json E (br_expires_at r))"
  by (simp_all add: block_dict_def)

lemma allow_dict_items [simp]:
  "jget (allow_dict E r) ''id'' = Some (JStr (str_uuid (ar_id r)))"
  "jget (allow_dict E r) ''rule_type'' = Some (JStr (ar_rule_type r))"
  "jget (allow_dict E r) ''match_type'' = Some (JStr (ar_match_type r))"
  "jget (allow_dict E r) ''pattern'' = Some (JStr (ar_pattern r))"
  "jget (allow_dict E r) ''verify_rdns'' = Some (JBool (ar_verify_rdns r))"
  "jget (allow_dict E r) ''rdns_pattern'' = Some (JStr (ar_rdns_pattern r))"
  "jget (allow_dict E r) ''expires_at'' = Some (expires_json E (ar_expires_at r))"
  by (simp_all add: allow_dict_def)

lemma item_str_Some [simp]: "jget d k = Some (JStr s) \<Longrightarrow> item_str d k = ret s"
  by (simp add: item_str_def)

text \<open>Two states of a process that differ at most in the memoised patterns.\<close>

definition ua_cache_only :: "'r world \<Rightarrow> 'r world \<Rightarrow> bool" where
  "ua_cache_only w w' = (\<exists>c. w' = w\<lparr>ua_pattern_cache := c\<rparr>)"

lemma ua_cache_only_refl [simp]: "ua_cache_only w w"
  unfolding ua_cache_only_def by (rule exI [of _ "ua_pattern_cache w"]) simp

lemma ua_cache_only_update [simp]: "ua_cache_only w (w\<lparr>ua_pattern_cache := c\<rparr>)"
  unfolding ua_cache_only_def by (rule exI) (rule refl)

lemma ua_cache_only_trans: "ua_cache_only w w1 \<Longrightarrow> ua_cache_only w1 w2 \<Longrightarrow> ua_cache_only w w2"
  unfolding ua_cache_only_def by auto

lemma ua_cache_only_same:
  assumes "ua_cache_only w w'"
  shows "server w' = server w" "BlockRules w' = BlockRules w" "AllowRules w' = AllowRules w"
    "process_cache w' = process_cache w" "process_cache_version w' = process_cache_version w"
  using assms by (auto simp: ua_cache_only_def)

lemma compile_ua_rule_returns:
  assumes "jget d ''id'' = Some (JStr i)"
  shows "\<exists>cs w'. compile_ua_rule E d p mt w = (Inr cs, w') \<and> ua_cache_only w w'"
  unfolding compile_ua_rule_def invalid_ua_pattern_def memo_ua_pattern_def using assms by simp

lemma compile_returns:
  "\<exists>cs w'. compile_ua_patterns E (map (block_dict F) rows) w = (Inr cs, w') \<and> ua_cache_only w w'"
proof (induction rows arbitrary: w)
  case Nil
  show ?case by simp
next
  case (Cons r rows)
  show ?case
  proof (cases "br_rule_type r = ''ua''")
    case False
    with Cons.IH [of w] show ?thesis by simp
  next
    case True
    from compile_ua_rule_returns [OF block_dict_items(1), where E = E and p = "br_pattern r" and mt = "br_match_type r"]
    obtain cs w1 where c: "compile_ua_rule E (block_dict F r) (br_pattern r) (br_match_type r) w = (Inr cs, w1)"
      "ua_cache_only w w1" by blast
    from Cons.IH [of w1] obtain ds w2 where
      "compile_ua_patterns E (map (block_dict F) rows) w1 = (Inr ds, w2)" "ua_cache_only w1 w2" by blast
    with True c ua_cache_only_trans show ?thesis by (simp, blast)
  qed
qed

text \<open>A deployment in good order: Redis answers, the database answers, and no other process
  writes rules while the operation runs.\<close>

definition calm :: "'r env \<Rightarrow> ('r \<Rightarrow> store) \<Rightarrow> bool" where
  "calm E store_of = (redis_up (redis E) store_of \<and> (\<forall>n. db_ok E n) \<and> (\<forall>n rows. rivals E n rows = rows))"

lemma calm_db: "calm E store_of \<Longrightarrow> db E m w = m (w\<lparr>db_ops := Suc (db_ops w)\<rparr>)"
  by (simp add: calm_def db_def Let_def)

lemma calm_up: "calm E store_of \<Longrightarrow> redis_up (redis E) store_of"
  by (simp add: calm_def)

lemma key_facts [simp]:
  "rules_cache_key v \<noteq> REBUILD_LOCK_KEY" "rules_cache_key v \<noteq> RULES_VERSION_KEY"
  "REBUILD_LOCK_KEY \<noteq> RULES_VERSION_KEY" "rules_cache_key v = rules_cache_key u \<longleftrightarrow> v = u"
  "REBUILD_LOCK_KEY \<noteq> rules_cache_key v" "RULES_VERSION_KEY \<noteq> rules_cache_key v"
  "RULES_VERSION_KEY \<noteq> REBUILD_LOCK_KEY"
  by (auto simp: rules_cache_key_def REBUILD_LOCK_KEY_def RULES_VERSION_KEY_def)

text \<open>Two stores that differ at most in the rebuild lock.\<close>

definition same_but_lock :: "store \<Rightarrow> store \<Rightarrow> bool" where
  "same_but_lock s t = (clock s = clock t \<and> (\<forall>k. k \<noteq> REBUILD_LOCK_KEY \<longrightarrow> live s k = live t k \<and> map_of (data s) k = map_of (data t) k))"

lemma acquire_returns:
  assumes "redis_up (redis E) store_of"
  shows "\<exists>b w'. acquire_attempts E n w = (Inr b, w') \<and> same_but_lock (store_of (server w')) (store_of (server w)) \<and>
     w' = w\<lparr>server := server w'\<rparr>"
proof (induction n arbitrary: w)
  case 0
  show ?case by (intro exI [of _ False] exI [of _ w]) (simp add: same_but_lock_def)
next
  case (Suc n)
  let ?cmd = "SETNX REBUILD_LOCK_KEY ''1'' REBUILD_LOCK_TTL"
  have "fst (run_cmd ?cmd (store_of (server w))) \<noteq> ErrR" by (simp add: REBUILD_LOCK_TTL_def)
  then obtain r' where c: "r_call (redis E) ?cmd (server w) = (Inr (fst (run_cmd ?cmd (store_of (server w)))), r')"
    "store_of r' = snd (run_cmd ?cmd (store_of (server w)))"
    using redis_up.up_call [OF assms, of ?cmd "server w"] by (metis prod.collapse)
  have same: "same_but_lock (store_of r') (store_of (server w))"
    by (auto simp: c(2) same_but_lock_def live_put)
  let ?a = "fst (run_cmd ?cmd (store_of (server w))) = OkR"
  have s: "on_redis (r_setnx (redis E) REBUILD_LOCK_KEY ''1'' REBUILD_LOCK_TTL) w = (Inr ?a, w\<lparr>server := r'\<rparr>)"
    using c(1) by (simp add: r_setnx_def)
  show ?case
  proof (cases ?a)
    case True
    with s same show ?thesis by (intro exI [of _ True] exI [of _ "w\<lparr>server := r'\<rparr>"]) simp
  next
    case False
    from Suc.IH [of "w\<lparr>server := r'\<rparr>"] obtain b w' where
      "acquire_attempts E n (w\<lparr>server := r'\<rparr>) = (Inr b, w')" "same_but_lock (store_of (server w')) (store_of r')"
      "w' = w\<lparr>server := server w'\<rparr>" by auto
    with False s same show ?thesis
      by (intro exI [of _ b] exI [of _ w']) (auto simp: same_but_lock_def)
  qed
qed

lemma live_cong: "map_of (data s) k = map_of (data t) k \<Longrightarrow> clock s = clock t \<Longrightarrow> live s k = live t k"
  by (simp only: live_def)

definition cached_text :: "'r env \<Rightarrow> 'r world \<Rightarrow> string" where
  "cached_text E w = dumps (cache_document (map (allow_dict E) (AllowRule_active (time_now E) (AllowRules w)))
     (map (block_dict E) (BlockRule_active (time_now E) (BlockRules w))))"

definition current_rules :: "'r env \<Rightarrow> 'r world \<Rightarrow> RuleCache \<Rightarrow> bool" where
  "current_rules E w c = (cache_allow_rules c = map (allow_dict E) (AllowRule_active (time_now E) (AllowRules w)) \<and>
     cache_block_rules c = map (block_dict E) (BlockRule_active (time_now E) (BlockRules w)))"

lemma rebuild_from_db_spec:
  assumes "calm E store_of"
  shows "\<exists>c w'. rebuild_rule_cache_from_db E v k w = (Inr c, w') \<and> version c = v \<and> current_rules E w c \<and>
     store_of (server w') = put k (RStr (cached_text E w))
       (Some (clock (store_of (server w)) + of_int CACHE_TTL)) (store_of (server w))"
proof -
  let ?B = "map (block_dict E) (BlockRule_active (time_now E) (BlockRules w))"
  let ?A = "map (allow_dict E) (AllowRule_active (time_now E) (AllowRules w))"
  let ?cmd = "SETEX k CACHE_TTL (dumps (cache_document ?A ?B))"
  have "fst (run_cmd ?cmd (store_of (server w))) \<noteq> ErrR" by (simp add: CACHE_TTL_def)
  from redis_up.up_exec [OF calm_up [OF assms] this] obtain r' where
    r': "r_exec (redis E) ?cmd (server w) = (Inr (), r')"
    "store_of r' = snd (run_cmd ?cmd (store_of (server w)))" by blast
  let ?w = "w\<lparr>db_ops := Suc (Suc (db_ops w)), server := r'\<rparr>"
  from compile_returns [of E E "BlockRule_active (time_now E) (BlockRules w)" ?w] obtain cs w' where
    c: "compile_ua_patterns E ?B ?w = (Inr cs, w')" "ua_cache_only ?w w'" by blast
  have "rebuild_rule_cache_from_db E v k w =
      (Inr \<lparr>version = v, cache_allow_rules = ?A, cache_block_rules = ?B, ua_regex_set = cs\<rparr>, w')"
    unfolding rebuild_rule_cache_from_db_def using c(1) r'(1) by (simp add: calm_db [OF assms])
  moreover have "store_of (server w') = put k (RStr (cached_text E w))
       (Some (clock (store_of (server w)) + of_int CACHE_TTL)) (store_of (server w))"
    using ua_cache_only_same(1) [OF c(2)] r'(2) by (simp add: cached_text_def CACHE_TTL_def)
  ultimately show ?thesis by (auto simp: current_rules_def)
qed

lemma release_spec:
  assumes "redis_up (redis E) store_of"
  shows "\<exists>w'. release_rebuild_lock E w = (Inr (), w') \<and> same_but_lock (store_of (server w')) (store_of (server w))"
proof -
  have "fst (run_cmd (DEL REBUILD_LOCK_KEY) (store_of (server w))) \<noteq> ErrR" by simp
  from redis_up.up_exec [OF assms this] obtain r' where "r_exec (redis E) (DEL REBUILD_LOCK_KEY) (server w) = (Inr (), r')"
    "store_of r' = remove REBUILD_LOCK_KEY (store_of (server w))" by auto
  then show ?thesis by (simp add: release_rebuild_lock_def swallow_apply same_but_lock_def live_remove)
qed

lemma rebuild_spec:
  assumes E: "calm E store_of" and k: "k \<noteq> REBUILD_LOCK_KEY"
  shows "\<exists>c w'. rebuild_rule_cache E v k w = (Inr c, w') \<and> version c = v \<and> current_rules E w c \<and>
     same_but_lock (store_of (server w')) (put k (RStr (cached_text E w))
       (Some (clock (store_of (server w)) + of_int CACHE_TTL)) (store_of (server w)))"
proof -
  note up = calm_up [OF E]
  from acquire_returns [OF up] obtain b w1 where a: "acquire_rebuild_lock E w = (Inr b, w1)"
    "same_but_lock (store_of (server w1)) (store_of (server w))" "w1 = w\<lparr>server := server w1\<rparr>"
    unfolding acquire_rebuild_lock_def by blast
  have tab: "BlockRules w1 = BlockRules w" "AllowRules w1 = AllowRules w"
    using a(3) by (metis world.select_convs(2) world.surjective world.update_convs(1),
      metis world.select_convs(3) world.surjective world.update_convs(1))
  from rebuild_from_db_spec [OF E, of v k w1] obtain c w2 where
    d: "rebuild_rule_cache_from_db E v k w1 = (Inr c, w2)" "version c = v" "current_rules E w1 c"
      "store_of (server w2) = put k (RStr (cached_text E w1))
         (Some (clock (store_of (server w1)) + of_int CACHE_TTL)) (store_of (server w1))" by blast
  have same2: "same_but_lock (store_of (server w2)) (put k (RStr (cached_text E w))
       (Some (clock (store_of (server w)) + of_int CACHE_TTL)) (store_of (server w)))"
    using a(2) k tab unfolding d(4) by (auto simp: same_but_lock_def live_put cached_text_def)
  have cur: "current_rules E w c" using d(3) tab by (simp add: current_rules_def)
  show ?thesis
  proof (cases b)
    case False
    with a(1) d(1,2) same2 cur show ?thesis
      by (intro exI [of _ c] exI [of _ w2]) (simp add: rebuild_rule_cache_def finally_do_def)
  next
    case True
    from release_spec [OF up, of w2] obtain w3 where
      "release_rebuild_lock E w2 = (Inr (), w3)" "same_but_lock (store_of (server w3)) (store_of (server w2))" by blast
    with True a(1) d(1,2) same2 cur show ?thesis
      by (intro exI [of _ c] exI [of _ w3]) (auto simp: rebuild_rule_cache_def finally_do_def same_but_lock_def)
  qed
qed

lemma get_version:
  assumes "redis_up exec store_of" and "rules_version (store_of r) = Some v"
  shows "\<exists>raw r'. r_get exec RULES_VERSION_KEY r = (Inr raw, r') \<and> store_of r' = store_of r \<and>
     (case raw of None \<Rightarrow> Some 0 | Some s \<Rightarrow> if s = [] then Some 0 else py_int s) = Some v"
proof -
  from assms(2) obtain raw where l: "live (store_of r) RULES_VERSION_KEY = map_option RStr raw"
    and v: "(case raw of None \<Rightarrow> Some 0 | Some s \<Rightarrow> if s = [] then Some 0 else py_int s) = Some v"
    by (cases "live (store_of r) RULES_VERSION_KEY")
       (auto simp: rules_version_def intro: that [of None] that [of "Some _"] split: rval.splits)
  from redis_up.up_get [OF assms(1) l] v show ?thesis by blast
qed

lemma load_by_version:
  assumes "redis_up (redis E) store_of" and "rules_version (store_of (server w)) = Some v"
  shows "\<exists>r'. store_of r' = store_of (server w) \<and> load_rule_cache E w =
     (if process_cache w \<noteq> None \<and> process_cache_version w = v then (Inr (the (process_cache w)), w\<lparr>server := r'\<rparr>)
      else fetch_rule_cache E v (w\<lparr>server := r'\<rparr>))"
proof -
  from get_version [OF assms] obtain raw r' where
    "r_get (redis E) RULES_VERSION_KEY (server w) = (Inr raw, r')" "store_of r' = store_of (server w)"
    "(case raw of None \<Rightarrow> Some 0 | Some s \<Rightarrow> if s = [] then Some 0 else py_int s) = Some v" by blast
  then show ?thesis
    by (intro exI [of _ r']) (cases "process_cache w"; simp add: load_rule_cache_def)
qed

lemma load_from_database:
  assumes E: "calm E store_of" and v: "rules_version (store_of (server w)) = Some v"
    and stale: "process_cache w = None \<or> process_cache_version w \<noteq> v"
    and absent: "live (store_of (server w)) (rules_cache_key v) = None"
  shows "\<exists>c w'. load_rule_cache E w = (Inr c, w') \<and> version c = v \<and> current_rules E w c \<and>
     process_cache w' = Some c \<and> process_cache_version w' = v \<and>
     same_but_lock (store_of (server w')) (put (rules_cache_key v) (RStr (cached_text E w))
       (Some (clock (store_of (server w)) + of_int CACHE_TTL)) (store_of (server w)))"
proof -
  note up = calm_up [OF E]
  from load_by_version [OF up v] stale obtain r1 where r1: "store_of r1 = store_of (server w)"
    "load_rule_cache E w = fetch_rule_cache E v (w\<lparr>server := r1\<rparr>)" by auto
  from absent r1(1) have "live (store_of r1) (rules_cache_key v) = map_option RStr None" by simp
  from redis_up.up_get [OF up this] obtain r2 where
    g: "r_get (redis E) (rules_cache_key v) r1 = (Inr None, r2)" "store_of r2 = store_of r1" by blast
  from rebuild_spec [OF E key_facts(1) [of v], where v = v and w = "w\<lparr>server := r2\<rparr>"] obtain c w' where
    b: "rebuild_rule_cache E v (rules_cache_key v) (w\<lparr>server := r2\<rparr>) = (Inr c, w')" "version c = v"
      "current_rules E (w\<lparr>server := r2\<rparr>) c"
      "same_but_lock (store_of (server w')) (put (rules_cache_key v) (RStr (cached_text E (w\<lparr>server := r2\<rparr>)))
         (Some (clock (store_of r2) + of_int CACHE_TTL)) (store_of r2))" by auto
  have "load_rule_cache E w = (Inr c, w'\<lparr>process_cache := Some c, process_cache_version := v\<rparr>)"
    unfolding r1(2) fetch_rule_cache_def Let_def using g(1) b(1) by (simp add: remember_def)
  with b g(2) r1(1) show ?thesis by (auto simp: current_rules_def cached_text_def)
qed

lemma decode_cached_spec:
  "\<exists>cs w'. decode_cached_rules E v (dumps (cache_document allow (map (block_dict F) rows))) w =
     (Inr \<lparr>version = v, cache_allow_rules = allow, cache_block_rules = map (block_dict F) rows,
        ua_regex_set = cs\<rparr>, w') \<and> ua_cache_only w w'"
proof -
  from compile_returns [of E F rows w] obtain cs w' where
    "compile_ua_patterns E (map (block_dict F) rows) w = (Inr cs, w')" "ua_cache_only w w'" by blast
  then show ?thesis unfolding decode_cached_rules_def loads_dumps
    by (simp add: cache_document_def as_list_def)
qed

lemma load_from_redis:
  assumes up: "redis_up (redis E) store_of" and v: "rules_version (store_of (server w)) = Some v"
    and stale: "process_cache w = None \<or> process_cache_version w \<noteq> v"
    and doc: "live (store_of (server w)) (rules_cache_key v) =
      Some (RStr (dumps (cache_document allow (map (block_dict F) rows))))"
  shows "\<exists>c w'. load_rule_cache E w = (Inr c, w') \<and> cache_allow_rules c = allow \<and>
     cache_block_rules c = map (block_dict F) rows"
proof -
  let ?t = "dumps (cache_document allow (map (block_dict F) rows))"
  from load_by_version [OF up v] stale obtain r1 where r1: "store_of r1 = store_of (server w)"
    "load_rule_cache E w = fetch_rule_cache E v (w\<lparr>server := r1\<rparr>)" by auto
  from doc r1(1) have "live (store_of r1) (rules_cache_key v) = map_option RStr (Some ?t)" by simp
  from redis_up.up_get [OF up this] obtain r2 where
    g: "r_get (redis E) (rules_cache_key v) r1 = (Inr (Some ?t), r2)" by blast
  from decode_cached_spec [of E v allow F rows "w\<lparr>server := r2\<rparr>"] obtain cs w' where
    d: "decode_cached_rules E v ?t (w\<lparr>server := r2\<rparr>) = (Inr \<lparr>version = v, cache_allow_rules = allow,
        cache_block_rules = map (block_dict F) rows, ua_regex_set = cs\<rparr>, w')" by blast
  show ?thesis unfolding r1(2) fetch_rule_cache_def Let_def using g d by (simp add: remember_def)
qed

lemma save_bumps_version:
  fixes i :: uuid and created :: bool
  assumes up: "redis_up (redis E) store_of" and be: "backend E = Redis_backend"
    and cnt: "counter_key (store_of (server w)) RULES_VERSION_KEY"
    and v: "rules_version (store_of (server w)) = Some v"
  defines "w1 \<equiv> snd (on_block_rule_save E i created w)"
  shows "store_of (server w1) = rewrite RULES_VERSION_KEY (RStr (str_int (v + 1))) (store_of (server w))"
    and "BlockRules w1 = BlockRules w" "AllowRules w1 = AllowRules w"
    "process_cache w1 = process_cache w" "process_cache_version w1 = process_cache_version w"
proof -
  from redis_up.up_incr [OF up cnt] obtain r' n where
    r': "r_exec (redis E) (INCR RULES_VERSION_KEY) (server w) = (Inr (), r')"
      "store_of r' = rewrite RULES_VERSION_KEY (RStr (str_int (n + 1))) (store_of (server w))"
    and n: "live (store_of (server w)) RULES_VERSION_KEY = None \<and> n = 0 \<or>
      live (store_of (server w)) RULES_VERSION_KEY = Some (RStr (str_int n))" by blast
  from n v have "n = v" by (auto simp: rules_version_def)
  moreover have "w1 = snd (emit_rule_saved E i (Some created) (w\<lparr>server := r'\<rparr>))"
    unfolding w1_def on_block_rule_save_def invalidate_rule_cache_def be using r'(1) by simp
  moreover have "frames server (emit_rule_saved E i (Some created))" "frames BlockRules (emit_rule_saved E i (Some created))"
    "frames AllowRules (emit_rule_saved E i (Some created))" "frames process_cache (emit_rule_saved E i (Some created))"
    "frames process_cache_version (emit_rule_saved E i (Some created))" by (auto intro: frames_emit)
  ultimately show "store_of (server w1) = rewrite RULES_VERSION_KEY (RStr (str_int (v + 1))) (store_of (server w))"
    and "BlockRules w1 = BlockRules w" "AllowRules w1 = AllowRules w"
    "process_cache w1 = process_cache w" "process_cache_version w1 = process_cache_version w"
    using r'(2) by (simp_all add: frames_def)
qed

section \<open>Properties\<close>

text \<open>
  C34. A rule change is enforced by the next evaluation: after the \<open>post_save\<close> receiver has run,
  \<open>load_rule_cache\<close> does not answer from the process cache but returns the rules that are
  active in the database, in order of priority, under the next version number.
\<close>

theorem rule_change_reaches_next_load:
  assumes E: "calm E store_of" and be: "backend E = Redis_backend"
    and cnt: "counter_key (store_of (server w)) RULES_VERSION_KEY"
    and v: "rules_version (store_of (server w)) = Some v" and old: "process_cache_version w \<le> v"
    and absent: "live (store_of (server w)) (rules_cache_key (v + 1)) = None"
  shows "\<exists>c w'. load_rule_cache E (snd (on_block_rule_save E i created w)) = (Inr c, w') \<and> version c = v + 1 \<and>
     cache_block_rules c = map (block_dict E) (BlockRule_active (time_now E) (BlockRules w)) \<and>
     cache_allow_rules c = map (allow_dict E) (AllowRule_active (time_now E) (AllowRules w))"
proof -
  let ?w = "snd (on_block_rule_save E i created w)"
  note b = save_bumps_version [OF calm_up [OF E] be cnt v]
  have "rules_version (store_of (server ?w)) = Some (v + 1)" unfolding b(1) by (simp add: rules_version_def)
  moreover have "process_cache ?w = None \<or> process_cache_version ?w \<noteq> v + 1" using b(5) old by simp
  moreover have "live (store_of (server ?w)) (rules_cache_key (v + 1)) = None" unfolding b(1) using absent by simp
  ultimately obtain c w' where "load_rule_cache E ?w = (Inr c, w')" "version c = v + 1" "current_rules E ?w c"
    using load_from_database [OF E] by blast
  then show ?thesis using b by (auto simp: current_rules_def)
qed

lemma demo_calm: "calm demo_env (\<lambda>s. s)"
  using mem.redis_up_axioms by (simp add: calm_def demo_env_def)

lemma empty_world_facts:
  "live (server empty_world) k = None" "rules_version (server empty_world) = Some 0"
  "counter_key (server empty_world) k"
  by (simp_all add: live_def empty_world_def fresh_store_def rules_version_def counter_key_def)

theorem rule_change_reaches_next_load_witness:
  "\<exists>c w'. load_rule_cache demo_env (snd (on_block_rule_save demo_env 7 True (empty_world\<lparr>BlockRules := [example_rule]\<rparr>)))
     = (Inr c, w') \<and> cache_block_rules c = [block_dict demo_env example_rule]"
proof -
  have "BlockRule_active 1000 [example_rule] = [example_rule]"
    by (simp add: BlockRule_active_def example_rule_def not_expired_def)
  moreover have "server (empty_world\<lparr>BlockRules := [example_rule]\<rparr>) = server empty_world" by simp
  ultimately show ?thesis
    using rule_change_reaches_next_load [OF demo_calm, where w = "empty_world\<lparr>BlockRules := [example_rule]\<rparr>"
        and v = 0 and i = 7 and created = True] empty_world_facts
    by (auto simp: demo_env_def empty_world_def)
qed

text \<open>
  The JSON document in Redis carries the rules unchanged: once one process has rebuilt the
  cache, any other process that loads within the ten minutes the document lives gets the same
  allow and block rules, without the database.
\<close>

theorem cached_rules_shared_between_processes:
  assumes E: "calm E store_of" and v: "rules_version (store_of (server w)) = Some v"
    and stale: "process_cache w = None" and absent: "live (store_of (server w)) (rules_cache_key v) = None"
    and load: "load_rule_cache E w = (Inr c, w')"
    and up2: "redis_up (redis E2) store_of" and stale2: "process_cache w2 = None"
    and later: "store_of (server w2) = elapse d (store_of (server w'))" "d < 600"
    and v2: "rules_version (store_of (server w2)) = Some v"
  shows "\<exists>c2 w3. load_rule_cache E2 w2 = (Inr c2, w3) \<and> cache_allow_rules c2 = cache_allow_rules c \<and>
     cache_block_rules c2 = cache_block_rules c"
proof -
  let ?k = "rules_cache_key v"
  from load_from_database [OF E v _ absent] stale load
  have c: "current_rules E w c" and s: "same_but_lock (store_of (server w')) (put ?k (RStr (cached_text E w))
      (Some (clock (store_of (server w)) + of_int CACHE_TTL)) (store_of (server w)))" by auto
  have m: "map_of (data (store_of (server w2))) ?k = Some (RStr (cached_text E w), Some (clock (store_of (server w)) + 600))"
    and ck: "clock (store_of (server w2)) = clock (store_of (server w)) + d"
    using s later(1) by (auto simp: same_but_lock_def elapse_def CACHE_TTL_def)
  have "live (store_of (server w2)) ?k = Some (RStr (cached_text E w))"
    unfolding live_def m using ck later(2) by simp
  then have doc: "live (store_of (server w2)) ?k = Some (RStr (dumps (cache_document (cache_allow_rules c)
      (map (block_dict E) (BlockRule_active (time_now E) (BlockRules w))))))"
    using c unfolding cached_text_def current_rules_def by simp
  from load_from_redis [OF up2 v2 _ doc] stale2 c show ?thesis by (simp add: current_rules_def)
qed

theorem cached_rules_shared_between_processes_witness:
  "\<exists>c w' c2 w3. load_rule_cache demo_env (empty_world\<lparr>BlockRules := [example_rule]\<rparr>) = (Inr c, w') \<and>
     load_rule_cache (demo_env\<lparr>db_ok := \<lambda>_. False\<rparr>) (empty_world\<lparr>server := elapse 60 (server w')\<rparr>) = (Inr c2, w3) \<and>
     cache_block_rules c2 = cache_block_rules c \<and> cache_block_rules c = [block_dict demo_env example_rule]"
proof -
  let ?w = "empty_world\<lparr>BlockRules := [example_rule]\<rparr>" and ?E2 = "demo_env\<lparr>db_ok := \<lambda>_. False\<rparr>"
  have w: "rules_version (server ?w) = Some 0" "process_cache ?w = None" "live (server ?w) (rules_cache_key 0) = None"
    using empty_world_facts by (simp_all add: empty_world_def)
  from load_from_database [OF demo_calm w(1) disjI1 [OF w(2)] w(3)] obtain c w' where
    c: "load_rule_cache demo_env ?w = (Inr c, w')" "current_rules demo_env ?w c"
      "same_but_lock (server w') (put (rules_cache_key 0) (RStr (cached_text demo_env ?w))
        (Some (clock (server ?w) + of_int CACHE_TTL)) (server ?w))" by auto
  let ?w2 = "empty_world\<lparr>server := elapse 60 (server w')\<rparr>"
  have "map_of (data (server ?w2)) RULES_VERSION_KEY = None"
    using c(3) by (simp add: same_but_lock_def elapse_def empty_world_def fresh_store_def)
  then have v2: "rules_version (server ?w2) = Some 0" by (simp add: rules_version_def live_def)
  have up2: "redis_up (redis ?E2) (\<lambda>s. s)" using mem.redis_up_axioms by (simp add: demo_env_def)
  have p2: "process_cache ?w2 = None" by (simp add: empty_world_def)
  have "\<exists>c2 w3. load_rule_cache ?E2 ?w2 = (Inr c2, w3) \<and> cache_allow_rules c2 = cache_allow_rules c \<and>
      cache_block_rules c2 = cache_block_rules c"
    by (rule cached_rules_shared_between_processes [OF demo_calm w c(1) up2 p2 _ _ v2, of 60]) simp_all
  moreover have "cache_block_rules c = [block_dict demo_env example_rule]"
    using c(2) by (simp add: current_rules_def BlockRule_active_def not_expired_def example_rule_def demo_env_def)
  ultimately show ?thesis using c(1) by blast
qed

end
