(* ===== verification/RuleMatching.thy ===== *)
theory RuleMatching
  imports RuleCaching
begin

text \<open>
  Matching of \<open>services/rule_engine.py\<close>: one rule against an address and a User-Agent, the
  memoised patterns, forward-confirmed reverse DNS with its cached verdict, and the two
  scans over the cached rules.
\<close>

section \<open>Operations\<close>

definition is_cached_rule_expired :: "'r env \<Rightarrow> json \<Rightarrow> ('r world, bool) py" where
  "is_cached_rule_expired E rule =
     (if \<not> truthy (jget rule ''expires_at'') then ret False
      else (case jget rule ''expires_at'' of
          Some (JStr s) \<Rightarrow> (case fromisoformat E s of None \<Rightarrow> raise ValueError | Some t \<Rightarrow> ret (t \<le> time_now E))
        | _ \<Rightarrow> raise TypeError))"

definition get_compiled_ua_regex :: "'r env \<Rightarrow> string \<Rightarrow> ('r world, string option) py" where
  "get_compiled_ua_regex E pattern =
     andThen (read_state (\<lambda>w. map_of (ua_pattern_cache w) pattern))
       (\<lambda>hit. case hit of
            Some compiled \<Rightarrow> ret compiled
          | None \<Rightarrow> (let compiled = (if re_compiles (regex E) pattern then Some pattern else None)
              in andThen (memo_ua_pattern pattern compiled) (\<lambda>_. ret compiled)))"

definition match_ua :: "'r env \<Rightarrow> string \<Rightarrow> string \<Rightarrow> string \<Rightarrow> ('r world, bool) py" where
  "match_ua E user_agent pattern match_type =
     (if match_type = ''exact'' then ret (user_agent = pattern)
      else if match_type = ''contains'' then ret (contains_sub (lower pattern) (lower user_agent))
      else if match_type = ''regex'' then
        andThen (get_compiled_ua_regex E pattern)
          (\<lambda>compiled. ret (case compiled of None \<Rightarrow> False | Some p \<Rightarrow> re_found (regex E) p user_agent))
      else ret False)"

definition match_ip :: "string \<Rightarrow> string \<Rightarrow> string \<Rightarrow> bool" where
  "match_ip ip pattern match_type = (match_type \<in> {''exact'', ''cidr''} \<and> ip = pattern)"

definition match_cidr :: "string \<Rightarrow> string \<Rightarrow> bool" where
  "match_cidr ip cidr_pattern = (case (ip_address ip, ip_network cidr_pattern) of
      (Some a, Some n) \<Rightarrow> in_network a n | _ \<Rightarrow> False)"

definition rule_matches :: "'r env \<Rightarrow> json \<Rightarrow> string \<Rightarrow> string \<Rightarrow> ('r world, bool) py" where
  "rule_matches E rule ip user_agent =
     andThen (item_str rule ''rule_type'') (\<lambda>rule_type.
     andThen (item_str rule ''match_type'') (\<lambda>match_type.
     andThen (item_str rule ''pattern'') (\<lambda>pattern.
       if rule_type = ''ua'' then match_ua E user_agent pattern match_type
       else if rule_type = ''ip'' then ret (match_ip ip pattern match_type)
       else if rule_type = ''cidr'' then ret (match_cidr ip pattern)
       else if rule_type = ''composite'' then
         (case cut ''||'' pattern of
            Some (ua_part, ip_part) \<Rightarrow>
              andThen (match_ua E user_agent (strip ua_part) match_type)
                (\<lambda>ua_match. ret (ua_match \<and>
                   (match_ip ip (strip ip_part) match_type \<or> match_cidr ip (strip ip_part))))
          | None \<Rightarrow> ret False)
       else ret False)))"

definition fcrdns_cache_key :: "'r env \<Rightarrow> string \<Rightarrow> string \<Rightarrow> string" where
  "fcrdns_cache_key E ip rdns_pattern = ''waf:bot_fcrdns:'' @ ip @ '':'' @ take 12 (sha1 E rdns_pattern)"

definition FCRDNS_POSITIVE_CACHE_TTL :: int where
  "FCRDNS_POSITIVE_CACHE_TTL = 86400"

definition resolve_and_confirm_rdns :: "'r env \<Rightarrow> string \<Rightarrow> string \<Rightarrow> bool" where
  "resolve_and_confirm_rdns E ip rdns_pattern =
     (case gethostbyaddr E ip of
        None \<Rightarrow> False
      | Some hostname \<Rightarrow>
          if hostname = [] then False
          else (case py_re_search (regex E) rdns_pattern hostname of
              Some True \<Rightarrow> (case getaddrinfo E hostname of
                  None \<Rightarrow> False
                | Some forward_addresses \<Rightarrow> (case ip_address ip of
                      None \<Rightarrow> False
                    | Some target \<Rightarrow> list_ex (\<lambda>candidate. ip_address candidate = Some target) forward_addresses))
            | _ \<Rightarrow> False))"

definition verify_rdns :: "conf \<Rightarrow> 'r env \<Rightarrow> string \<Rightarrow> string \<Rightarrow> ('r world, bool) py" where
  "verify_rdns cf E ip rdns_pattern =
     (let cache_key = fcrdns_cache_key E ip rdns_pattern
      in andThen (on_redis (r_get (redis E) cache_key))
        (\<lambda>cached_verdict. case cached_verdict of
            Some v \<Rightarrow> ret (v = ''1'')
          | None \<Rightarrow>
              (let verdict = resolve_and_confirm_rdns E ip rdns_pattern;
                   ttl = (if verdict then FCRDNS_POSITIVE_CACHE_TTL else DJANGO_WAF_RDNS_FAILURE_CACHE_TTL cf)
               in andThen (on_redis (r_exec (redis E) (SETEX cache_key ttl (if verdict then ''1'' else ''0''))))
                 (\<lambda>_. ret verdict))))"

definition rule_hits_key :: "string \<Rightarrow> string" where
  "rule_hits_key rule_id = ''waf:rule_hits:'' @ rule_id"

definition record_rule_hit :: "'r env \<Rightarrow> string \<Rightarrow> ('r world, unit) py" where
  "record_rule_hit E rule_id = swallow
     (andThen (on_redis (r_exec (redis E) (INCR (rule_hits_key rule_id))))
        (\<lambda>_. on_redis (r_exec (redis E) (EXPIRE (rule_hits_key rule_id) (86400 * 2)))))"

text \<open>The rDNS condition of an allow rule; \<open>True\<close> is "treat as no match".\<close>

definition rdns_rejects :: "conf \<Rightarrow> 'r env \<Rightarrow> json \<Rightarrow> string \<Rightarrow> ('r world, bool) py" where
  "rdns_rejects cf E rule ip =
     (if truthy (jget rule ''verify_rdns'') \<and> truthy (jget rule ''rdns_pattern'')
      then andThen (item_str rule ''rdns_pattern'')
        (\<lambda>p. andThen (verify_rdns cf E ip p) (\<lambda>ok. ret (\<not> ok)))
      else ret False)"

fun check_allow_rules ::
  "conf \<Rightarrow> 'r env \<Rightarrow> string \<Rightarrow> string \<Rightarrow> json list \<Rightarrow> ('r world, (string \<times> json) option) py" where
  "check_allow_rules cf E ip user_agent [] = ret None"
| "check_allow_rules cf E ip user_agent (rule # rules) =
     andThen (is_cached_rule_expired E rule) (\<lambda>expired.
       if expired then check_allow_rules cf E ip user_agent rules
       else andThen (rule_matches E rule ip user_agent) (\<lambda>matches.
         if \<not> matches then check_allow_rules cf E ip user_agent rules
         else andThen (rdns_rejects cf E rule ip) (\<lambda>rejected.
           if rejected then check_allow_rules cf E ip user_agent rules
           else andThen (item_str rule ''id'') (\<lambda>rule_id. ret (Some (rule_id, rule))))))"

fun check_block_rules ::
  "'r env \<Rightarrow> string \<Rightarrow> string \<Rightarrow> json list \<Rightarrow> ('r world, (string \<times> json) option) py" where
  "check_block_rules E ip user_agent [] = ret None"
| "check_block_rules E ip user_agent (rule # rules) =
     andThen (is_cached_rule_expired E rule) (\<lambda>expired.
       if expired then check_block_rules E ip user_agent rules
       else andThen (rule_matches E rule ip user_agent) (\<lambda>matches.
         if \<not> matches then check_block_rules E ip user_agent rules
         else andThen (item_str rule ''id'') (\<lambda>rule_id.
           andThen (record_rule_hit E rule_id) (\<lambda>_. ret (Some (rule_id, rule))))))"

section \<open>Specification\<close>

text \<open>What a rule means, without dictionaries, memoisation or exceptions.\<close>

definition ua_matches :: "regex_engine \<Rightarrow> string \<Rightarrow> string \<Rightarrow> string \<Rightarrow> bool" where
  "ua_matches X user_agent pattern match_type =
     (match_type = ''exact'' \<and> user_agent = pattern \<or>
      match_type = ''contains'' \<and> contains_sub (lower pattern) (lower user_agent) \<or>
      match_type = ''regex'' \<and> re_compiles X pattern \<and> re_found X pattern user_agent)"

definition pattern_matches :: "regex_engine \<Rightarrow> string \<Rightarrow> string \<Rightarrow> string \<Rightarrow> string \<Rightarrow> string \<Rightarrow> bool" where
  "pattern_matches X rule_type match_type pattern ip user_agent =
     (rule_type = ''ua'' \<and> ua_matches X user_agent pattern match_type \<or>
      rule_type = ''ip'' \<and> match_ip ip pattern match_type \<or>
      rule_type = ''cidr'' \<and> match_cidr ip pattern \<or>
      rule_type = ''composite'' \<and> (case cut ''||'' pattern of None \<Rightarrow> False
        | Some (u, i) \<Rightarrow> ua_matches X user_agent (strip u) match_type \<and>
            (match_ip ip (strip i) match_type \<or> match_cidr ip (strip i))))"

definition block_rule_applies :: "'r env \<Rightarrow> string \<Rightarrow> string \<Rightarrow> BlockRule \<Rightarrow> bool" where
  "block_rule_applies E ip user_agent r = (not_expired (time_now E) (br_expires_at r) \<and>
     pattern_matches (regex E) (br_rule_type r) (br_match_type r) (br_pattern r) ip user_agent)"

definition allow_rule_applies :: "'r env \<Rightarrow> string \<Rightarrow> string \<Rightarrow> AllowRule \<Rightarrow> bool" where
  "allow_rule_applies E ip user_agent r = (not_expired (time_now E) (ar_expires_at r) \<and>
     pattern_matches (regex E) (ar_rule_type r) (ar_match_type r) (ar_pattern r) ip user_agent)"

text \<open>The memoised patterns agree with the engine.\<close>

definition compiled_of :: "'r env \<Rightarrow> string \<Rightarrow> string option" where
  "compiled_of E p = (if re_compiles (regex E) p then Some p else None)"

definition ua_cache_ok :: "'r env \<Rightarrow> 'r world \<Rightarrow> bool" where
  "ua_cache_ok E w = (\<forall>p c. map_of (ua_pattern_cache w) p = Some c \<longrightarrow>
     c = compiled_of E p)"

text \<open>Date-times survive the text form the cache stores.\<close>

definition iso_ok :: "'r env \<Rightarrow> bool" where
  "iso_ok E = (codec (\<lambda>_. True) (isoformat E) (fromisoformat E) \<and> (\<forall>t. isoformat E t \<noteq> []))"

section \<open>Lemmas\<close>

lemma iso_round [simp]: "iso_ok E \<Longrightarrow> fromisoformat E (isoformat E t) = Some t"
  using codec.dec_enc [of "\<lambda>_. True"] by (auto simp: iso_ok_def)

lemma iso_not_Nil [simp]: "iso_ok E \<Longrightarrow> isoformat E t \<noteq> []"
  by (simp add: iso_ok_def)

lemma expired_spec:
  assumes "iso_ok E" and "jget d ''expires_at'' = Some (expires_json E e)"
  shows "is_cached_rule_expired E d = ret (\<not> not_expired (time_now E) e)"
  using assms by (cases e) (auto simp: is_cached_rule_expired_def expires_json_def truthy_def not_expired_def not_less)

lemma memo_ok:
  assumes "ua_cache_ok E w" and "c = compiled_of E p"
  shows "ua_cache_ok E (w\<lparr>ua_pattern_cache := (p, c) # ua_pattern_cache w\<rparr>)"
  using assms unfolding ua_cache_ok_def by simp

lemma get_compiled_spec:
  assumes "ua_cache_ok E w"
  shows "\<exists>w'. get_compiled_ua_regex E p w = (Inr (compiled_of E p), w') \<and>
     ua_cache_ok E w' \<and> w' = w\<lparr>ua_pattern_cache := ua_pattern_cache w'\<rparr>"
proof (cases "map_of (ua_pattern_cache w) p")
  case None
  have "ua_cache_ok E (w\<lparr>ua_pattern_cache := (p, compiled_of E p) # ua_pattern_cache w\<rparr>)"
    by (rule memo_ok [OF assms refl])
  with None show ?thesis
    by (auto simp: get_compiled_ua_regex_def memo_ua_pattern_def Let_def compiled_of_def)
next
  case (Some c)
  with assms show ?thesis by (auto simp: get_compiled_ua_regex_def ua_cache_ok_def)
qed

lemma match_ua_spec:
  assumes "ua_cache_ok E w"
  shows "\<exists>w'. match_ua E ua p mt w = (Inr (ua_matches (regex E) ua p mt), w') \<and>
     ua_cache_ok E w' \<and> w' = w\<lparr>ua_pattern_cache := ua_pattern_cache w'\<rparr>"
proof -
  from get_compiled_spec [OF assms, of p] obtain w' where
    w': "get_compiled_ua_regex E p w = (Inr (compiled_of E p), w')"
    "ua_cache_ok E w'" "w' = w\<lparr>ua_pattern_cache := ua_pattern_cache w'\<rparr>" by blast
  show ?thesis
  proof (cases "mt = ''regex''")
    case True
    then have "match_ua E ua p mt w = (Inr (ua_matches (regex E) ua p mt), w')"
      using w'(1) by (simp add: match_ua_def ua_matches_def compiled_of_def)
    with w'(2,3) show ?thesis by blast
  next
    case False
    then have "match_ua E ua p mt w = (Inr (ua_matches (regex E) ua p mt), w)"
      by (simp add: match_ua_def ua_matches_def)
    with assms show ?thesis by auto
  qed
qed

lemma rule_matches_spec:
  assumes "ua_cache_ok E w" and "jget d ''rule_type'' = Some (JStr rt)"
    and "jget d ''match_type'' = Some (JStr mt)" and "jget d ''pattern'' = Some (JStr p)"
  shows "\<exists>w'. rule_matches E d ip ua w = (Inr (pattern_matches (regex E) rt mt p ip ua), w') \<and>
     ua_cache_ok E w' \<and> w' = w\<lparr>ua_pattern_cache := ua_pattern_cache w'\<rparr>"
proof -
  have pure: ?thesis if "rule_matches E d ip ua w = (Inr (pattern_matches (regex E) rt mt p ip ua), w)"
    using that assms(1) by auto
  note unf = rule_matches_def item_str_Some [OF assms(2)] item_str_Some [OF assms(3)] item_str_Some [OF assms(4)]
    pattern_matches_def
  consider "rt = ''ua''" | u i where "rt = ''composite''" "cut ''||'' p = Some (u, i)"
    | "rt \<noteq> ''ua''" "rt \<noteq> ''composite'' \<or> cut ''||'' p = None" by (cases "cut ''||'' p") auto
  then show ?thesis
  proof cases
    case 1
    with match_ua_spec [OF assms(1), of ua p mt] show ?thesis by (simp add: unf)
  next
    case 2
    from match_ua_spec [OF assms(1), of ua "strip u" mt] obtain w' where
      m: "match_ua E ua (strip u) mt w = (Inr (ua_matches (regex E) ua (strip u) mt), w')"
      "ua_cache_ok E w'" "w' = w\<lparr>ua_pattern_cache := ua_pattern_cache w'\<rparr>" by blast
    have "rule_matches E d ip ua w = (Inr (pattern_matches (regex E) rt mt p ip ua), w')"
      using 2 m(1) by (simp add: unf)
    with m(2,3) show ?thesis by blast
  next
    case 3
    then show ?thesis by (intro pure) (auto simp: unf)
  qed
qed

lemma block_rule_step:
  fixes E :: "'a env"
  assumes "iso_ok E" and "ua_cache_ok E w"
  shows "\<exists>w'. ua_cache_ok E w' \<and> w' = w\<lparr>ua_pattern_cache := ua_pattern_cache w'\<rparr> \<and>
     check_block_rules E ip ua (block_dict E r # ds) w =
       (if block_rule_applies E ip ua r
        then (Inr (Some (str_uuid (br_id r), block_dict E r)), snd (record_rule_hit E (str_uuid (br_id r)) w'))
        else check_block_rules E ip ua ds w')"
proof (cases "not_expired (time_now E) (br_expires_at r)")
  case False
  with expired_spec [OF assms(1) block_dict_items(6)] assms(2) show ?thesis
    by (intro exI [of _ w]) (simp add: block_rule_applies_def)
next
  case True
  from rule_matches_spec [OF assms(2) block_dict_items(2-4), where ip = ip and ua = ua] obtain w' where
    m: "rule_matches E (block_dict E r) ip ua w = (Inr (pattern_matches (regex E) (br_rule_type r)
        (br_match_type r) (br_pattern r) ip ua), w')"
    "ua_cache_ok E w'" "w' = w\<lparr>ua_pattern_cache := ua_pattern_cache w'\<rparr>" by blast
  have hit: "andThen (record_rule_hit E i) f w' = f () (snd (record_rule_hit E i w'))"
    for i and f :: "unit \<Rightarrow> ('a world, (string \<times> json) option) py"
    by (simp add: record_rule_hit_def swallow_state)
  have "check_block_rules E ip ua (block_dict E r # ds) w =
       (if block_rule_applies E ip ua r
        then (Inr (Some (str_uuid (br_id r), block_dict E r)), snd (record_rule_hit E (str_uuid (br_id r)) w'))
        else check_block_rules E ip ua ds w')"
    using True m(1)
    by (simp add: hit expired_spec [OF assms(1) block_dict_items(6)] block_rule_applies_def)
  with m(2,3) show ?thesis by blast
qed

lemma frames_record_rule_hit [frame_intros]:
  "(\<And>w r. g (w\<lparr>server := r\<rparr>) = g w) \<Longrightarrow> frames g (record_rule_hit E i)"
  unfolding record_rule_hit_def by (auto intro!: frame_intros)

lemma check_block_rules_spec:
  assumes "iso_ok E" and "ua_cache_ok E w"
  shows "fst (check_block_rules E ip ua (map (block_dict E) rows) w) =
     Inr (map_option (\<lambda>r. (str_uuid (br_id r), block_dict E r)) (find (block_rule_applies E ip ua) rows))"
  using assms(2)
proof (induction rows arbitrary: w)
  case Nil
  then show ?case by simp
next
  case (Cons r rows)
  from block_rule_step [OF assms(1) Cons.prems, where ip = ip and ua = ua and r = r and ds = "map (block_dict E) rows"]
  obtain w' where
    w': "ua_cache_ok E w'" "check_block_rules E ip ua (block_dict E r # map (block_dict E) rows) w =
       (if block_rule_applies E ip ua r
        then (Inr (Some (str_uuid (br_id r), block_dict E r)), snd (record_rule_hit E (str_uuid (br_id r)) w'))
        else check_block_rules E ip ua (map (block_dict E) rows) w')" by blast
  show ?case
  proof (cases "block_rule_applies E ip ua r")
    case True
    with w'(2) show ?thesis by (simp del: check_block_rules.simps)
  next
    case False
    with w'(2) Cons.IH [OF w'(1)] show ?thesis by (simp del: check_block_rules.simps)
  qed
qed

subsection \<open>The memoised patterns stay in agreement\<close>

text \<open>Escaped text always compiles, with or without anchors.\<close>

definition escapes_ok :: "regex_engine \<Rightarrow> bool" where
  "escapes_ok X = (\<forall>p. re_compiles X (re_escape p) \<and> re_compiles X (''^'' @ re_escape p @ ''$''))"

lemma frames_ua_ok: "frames ua_pattern_cache m \<Longrightarrow> keeps (ua_cache_ok E) m"
  by (simp add: frames_def keeps_def ua_cache_ok_def)

lemma keeps_memo: "c = compiled_of E p \<Longrightarrow> keeps (ua_cache_ok E) (memo_ua_pattern p c)"
  by (simp add: keeps_def memo_ua_pattern_def memo_ok)

lemma keeps_compile_rule:
  assumes "escapes_ok (regex E)"
  shows "keeps (ua_cache_ok E) (compile_ua_rule E rule p mt)"
proof -
  have "\<not> re_compiles (regex E) p \<Longrightarrow> keeps (ua_cache_ok E) (invalid_ua_pattern rule p)"
    unfolding invalid_ua_pattern_def
    by (intro keep_intros keeps_memo frames_ua_ok frame_intros) (simp add: compiled_of_def)
  moreover have "re_compiles (regex E) p \<Longrightarrow> keeps (ua_cache_ok E) (andThen (memo_ua_pattern p (Some p)) (\<lambda>_. ret [(p, rule)]))"
    by (intro keep_intros keeps_memo) (simp add: compiled_of_def)
  ultimately show ?thesis using assms by (auto simp: compile_ua_rule_def escapes_ok_def intro: keep_intros)
qed

lemma keeps_compile: "escapes_ok (regex E) \<Longrightarrow> keeps (ua_cache_ok E) (compile_ua_patterns E rules)"
proof (induction rules)
  case Nil
  show ?case unfolding compile_ua_patterns.simps by (rule keeps_ret)
next
  case (Cons rule rules)
  then show ?case
    by (auto intro!: keep_intros keeps_compile_rule frames_ua_ok [OF frames_item_str])
qed

lemma keeps_finally: "keeps P m \<Longrightarrow> keeps P f \<Longrightarrow> keeps P (finally_do m f)"
  by (simp add: keeps_def finally_do_def split: prod.splits sum.splits) (metis snd_conv)

lemma keeps_ua_on_redis: "keeps (ua_cache_ok E) (on_redis m)"
  by (intro frames_ua_ok frames_on_redis) simp

lemma keeps_acquire: "keeps (ua_cache_ok E) (acquire_attempts F n)"
proof (induction n)
  case 0
  show ?case unfolding acquire_attempts.simps by (rule keeps_ret)
next
  case (Suc n)
  have "keeps (ua_cache_ok E) (case a of True \<Rightarrow> ret True | False \<Rightarrow> acquire_attempts F n)" for a
    using Suc by (auto intro: keep_intros split: bool.split)
  then show ?case by (auto intro!: keep_intros keeps_ua_on_redis)
qed

lemma keeps_load_rule_cache:
  assumes "escapes_ok (regex E)"
  shows "keeps (ua_cache_ok E) (load_rule_cache E)"
proof -
  have r: "keeps (ua_cache_ok E) (remember v c)" for v c
    unfolding remember_def by (intro keep_intros frames_ua_ok frames_update) simp
  have b: "keeps (ua_cache_ok E) (rebuild_rule_cache_from_db E v k)" for v k
    unfolding rebuild_rule_cache_from_db_def
    by (intro keep_intros keeps_compile assms keeps_ua_on_redis frames_ua_ok frames_db frames_read) simp_all
  have l: "keeps (ua_cache_ok E) (release_rebuild_lock E)"
    unfolding release_rebuild_lock_def by (intro frames_ua_ok frame_intros) simp
  have "keeps (ua_cache_ok E) (rebuild_rule_cache E v k)" for v k
    unfolding rebuild_rule_cache_def acquire_rebuild_lock_def
    by (intro keep_intros keeps_acquire keeps_finally b l)
  then have rb: "keeps (ua_cache_ok E) (andThen (rebuild_rule_cache E v k) (remember v))" for v k
    by (intro keep_intros r)
  have li: "keeps (ua_cache_ok E) (as_list j)" for j
    unfolding as_list_def by (auto intro: keep_intros split: option.split json.split)
  have d: "keeps (ua_cache_ok E) (decode_cached_rules E v t)" for v t
    unfolding decode_cached_rules_def
    by (auto intro!: keep_intros keeps_compile assms li split: option.split json.split)
  have "keeps (ua_cache_ok E) (fetch_rule_cache E v)" for v
    unfolding fetch_rule_cache_def Let_def
    by (intro keep_intros keeps_ua_on_redis rb d r)
  then show ?thesis unfolding load_rule_cache_def
    by (auto intro!: keep_intros keeps_ua_on_redis split: option.split)
qed

subsection \<open>Reverse DNS\<close>

definition forward_confirmed :: "'r env \<Rightarrow> string \<Rightarrow> string \<Rightarrow> bool" where
  "forward_confirmed E ip pattern \<longleftrightarrow> (\<exists>host addrs a. gethostbyaddr E ip = Some host \<and> host \<noteq> [] \<and>
     re_compiles (regex E) pattern \<and> re_found (regex E) pattern host \<and>
     getaddrinfo E host = Some addrs \<and> a \<in> set addrs \<and> ip_address a = ip_address ip \<and> ip_address ip \<noteq> None)"

lemma resolve_iff: "resolve_and_confirm_rdns E ip p \<longleftrightarrow> forward_confirmed E ip p"
  by (auto simp: resolve_and_confirm_rdns_def forward_confirmed_def py_re_search_def list_ex_iff
      split: option.splits bool.splits)

definition cached_positive :: "'r env \<Rightarrow> store \<Rightarrow> string \<Rightarrow> string \<Rightarrow> bool" where
  "cached_positive E s ip p \<longleftrightarrow> live s (fcrdns_cache_key E ip p) = Some (RStr ''1'')"

lemma verify_rdns_cases:
  assumes "redis_server (redis E) store_of" and "verify_rdns cf E ip p w = (Inr b, w')"
    and "\<not> cached_positive E (store_of (server w)) ip p"
  shows "b \<longrightarrow> forward_confirmed E ip p" and
    "\<not> b \<longrightarrow> cached_positive E (store_of (server w')) ip q \<longrightarrow> cached_positive E (store_of (server w)) ip q"
proof -
  let ?k = "fcrdns_cache_key E ip p"
  obtain v r1 where g: "r_get (redis E) ?k (server w) = (Inr v, r1)"
    using assms(2) by (cases "r_get (redis E) ?k (server w)")
       (auto simp: verify_rdns_def on_redis_def andThen_def Let_def split: sum.splits)
  from redis_server.get_documented [OF assms(1) g]
  have s1: "store_of r1 = store_of (server w)" and l: "live (store_of (server w)) ?k = map_option RStr v" by auto
  have "(b \<longrightarrow> forward_confirmed E ip p) \<and> (\<not> b \<longrightarrow> cached_positive E (store_of (server w')) ip q \<longrightarrow>
      cached_positive E (store_of (server w)) ip q)"
  proof (cases v)
    case (Some x)
    with g assms(2) have "b = (x = ''1'')" "w' = w\<lparr>server := r1\<rparr>" by (auto simp: verify_rdns_def Let_def)
    with assms(3) l Some s1 show ?thesis by (auto simp: cached_positive_def)
  next
    case None
    let ?verdict = "resolve_and_confirm_rdns E ip p"
    let ?ttl = "if ?verdict then FCRDNS_POSITIVE_CACHE_TTL else DJANGO_WAF_RDNS_FAILURE_CACHE_TTL cf"
    let ?cmd = "SETEX ?k ?ttl (if ?verdict then ''1'' else ''0'')"
    obtain x r2 where e: "r_exec (redis E) ?cmd r1 = (x, r2)" by (cases "r_exec (redis E) ?cmd r1")
    with g None assms(2) have x: "x = Inr ()" "b = ?verdict" "w' = w\<lparr>server := r2\<rparr>"
      by (auto simp: verify_rdns_def Let_def andThen_def on_redis_def split: sum.splits)
    from redis_server.exec_documented [OF assms(1) e [unfolded x(1)]]
    have s2: "store_of r2 = put ?k (RStr (if ?verdict then ''1'' else ''0''))
        (Some (clock (store_of r1) + of_int ?ttl)) (store_of r1)" by (auto split: if_splits)
    show ?thesis
    proof (cases b)
      case True
      with x(2) show ?thesis by (simp add: resolve_iff)
    next
      case False
      with x s2 s1 show ?thesis by (auto simp: cached_positive_def live_put split: if_splits)
    qed
  qed
  then show "b \<longrightarrow> forward_confirmed E ip p" and
    "\<not> b \<longrightarrow> cached_positive E (store_of (server w')) ip q \<longrightarrow> cached_positive E (store_of (server w)) ip q"
    by blast+
qed

lemma rdns_rejects_cases:
  assumes "redis_server (redis E) store_of" and "rdns_rejects cf E (allow_dict E r) ip w = (Inr rejected, w')"
    and "\<not> cached_positive E (store_of (server w)) ip (ar_rdns_pattern r)"
  shows "(\<not> rejected \<longrightarrow> ar_verify_rdns r \<and> ar_rdns_pattern r \<noteq> [] \<longrightarrow> forward_confirmed E ip (ar_rdns_pattern r)) \<and>
    (rejected \<longrightarrow> (\<forall>q. cached_positive E (store_of (server w')) ip q \<longrightarrow> cached_positive E (store_of (server w)) ip q)) \<and>
    (ua_pattern_cache w' = ua_pattern_cache w)"
proof (cases "ar_verify_rdns r \<and> ar_rdns_pattern r \<noteq> []")
  case False
  with assms(2) have "rejected = False" "w' = w" by (auto simp: rdns_rejects_def truthy_def)
  with False show ?thesis by auto
next
  case True
  then have run: "rdns_rejects cf E (allow_dict E r) ip w =
      andThen (verify_rdns cf E ip (ar_rdns_pattern r)) (\<lambda>ok. ret (\<not> ok)) w"
    by (simp add: rdns_rejects_def truthy_def)
  with assms(2) obtain b where v: "verify_rdns cf E ip (ar_rdns_pattern r) w = (Inr b, w')" "rejected = (\<not> b)"
    by (cases "verify_rdns cf E ip (ar_rdns_pattern r) w") (auto simp: andThen_def split: sum.splits)
  have "frames ua_pattern_cache (verify_rdns cf E ip (ar_rdns_pattern r))"
    unfolding verify_rdns_def Let_def by (auto intro!: frame_intros)
  from framesD [OF this v(1)] verify_rdns_cases [OF assms(1) v(1) assms(3)] v(2) show ?thesis by blast
qed

lemma allow_rules_sound:
  assumes "redis_server (redis E) store_of" and "iso_ok E" and "ua_cache_ok E w"
    and "\<forall>r \<in> set rows. \<not> cached_positive E (store_of (server w)) ip (ar_rdns_pattern r)"
    and "check_allow_rules cf E ip ua (map (allow_dict E) rows) w = (Inr (Some (i, d)), w')"
  shows "\<exists>r \<in> set rows. i = str_uuid (ar_id r) \<and> allow_rule_applies E ip ua r \<and>
     (ar_verify_rdns r \<and> ar_rdns_pattern r \<noteq> [] \<longrightarrow> forward_confirmed E ip (ar_rdns_pattern r))"
  using assms(3-5)
proof (induction rows arbitrary: w)
  case Nil
  then show ?case by simp
next
  case (Cons r rows)
  let ?rest = "check_allow_rules cf E ip ua (map (allow_dict E) rows)"
  show ?case
  proof (cases "not_expired (time_now E) (ar_expires_at r)")
    case False
    then have "?rest w = (Inr (Some (i, d)), w')"
      using Cons.prems(3) by (simp add: expired_spec [OF assms(2) allow_dict_items(7)])
    with Cons.IH [OF Cons.prems(1)] Cons.prems(2) show ?thesis by auto
  next
    case True
    from rule_matches_spec [OF Cons.prems(1) allow_dict_items(2-4), where ip = ip and ua = ua] obtain w1 where
      m: "rule_matches E (allow_dict E r) ip ua w = (Inr (pattern_matches (regex E) (ar_rule_type r)
          (ar_match_type r) (ar_pattern r) ip ua), w1)"
      "ua_cache_ok E w1" "w1 = w\<lparr>ua_pattern_cache := ua_pattern_cache w1\<rparr>" by blast
    have sv: "server w1 = server w" by (subst m(3)) simp
    show ?thesis
    proof (cases "pattern_matches (regex E) (ar_rule_type r) (ar_match_type r) (ar_pattern r) ip ua")
      case False
      then have "?rest w1 = (Inr (Some (i, d)), w')"
        using Cons.prems(3) True m(1) by (simp add: expired_spec [OF assms(2) allow_dict_items(7)])
      with Cons.IH [OF m(2)] Cons.prems(2) sv show ?thesis by auto
    next
      case match: True
      let ?next = "\<lambda>rejected. if rejected then ?rest
          else andThen (item_str (allow_dict E r) ''id'') (\<lambda>rule_id. ret (Some (rule_id, allow_dict E r)))"
      have run: "andThen (rdns_rejects cf E (allow_dict E r) ip) ?next w1 = (Inr (Some (i, d)), w')"
        using Cons.prems(3) True m(1) match by (simp add: expired_spec [OF assms(2) allow_dict_items(7)])
      then obtain rejected w2 where j: "rdns_rejects cf E (allow_dict E r) ip w1 = (Inr rejected, w2)"
        and n: "?next rejected w2 = (Inr (Some (i, d)), w')"
        by (cases "rdns_rejects cf E (allow_dict E r) ip w1") (auto simp: andThen_def split: sum.splits)
      have "\<not> cached_positive E (store_of (server w1)) ip (ar_rdns_pattern r)" using Cons.prems(2) sv by simp
      note c = rdns_rejects_cases [OF assms(1) j this]
      show ?thesis
      proof (cases rejected)
        case True
        with c Cons.prems(2) sv have "\<forall>r \<in> set rows. \<not> cached_positive E (store_of (server w2)) ip (ar_rdns_pattern r)"
          by auto
        moreover have "ua_cache_ok E w2" using c m(2) by (simp add: ua_cache_ok_def)
        ultimately show ?thesis using Cons.IH n True by auto
      next
        case False
        with n have "i = str_uuid (ar_id r)" by simp
        with False c True match show ?thesis by (auto simp: allow_rule_applies_def)
      qed
    qed
  qed
qed

lemma allow_skip:
  assumes "iso_ok E" and "ua_cache_ok E w" and "\<not> allow_rule_applies E ip ua r"
  shows "\<exists>w'. check_allow_rules cf E ip ua (allow_dict E r # ds) w = check_allow_rules cf E ip ua ds w' \<and>
     ua_cache_ok E w' \<and> ua_cache_only w w'"
proof (cases "not_expired (time_now E) (ar_expires_at r)")
  case False
  with assms(2) show ?thesis
    by (intro exI [of _ w]) (simp add: expired_spec [OF assms(1) allow_dict_items(7)])
next
  case True
  from rule_matches_spec [OF assms(2) allow_dict_items(2-4), where ip = ip and ua = ua] obtain w1 where
    m: "rule_matches E (allow_dict E r) ip ua w = (Inr (pattern_matches (regex E) (ar_rule_type r)
        (ar_match_type r) (ar_pattern r) ip ua), w1)"
    "ua_cache_ok E w1" "w1 = w\<lparr>ua_pattern_cache := ua_pattern_cache w1\<rparr>" by blast
  have "check_allow_rules cf E ip ua (allow_dict E r # ds) w = check_allow_rules cf E ip ua ds w1"
    using True m(1) assms(3) by (simp add: expired_spec [OF assms(1) allow_dict_items(7)] allow_rule_applies_def)
  moreover have "ua_cache_only w w1" unfolding ua_cache_only_def using m(3) by blast
  ultimately show ?thesis using m(2) by blast
qed

lemma allow_skip_all:
  assumes "iso_ok E" and "ua_cache_ok E w" and "\<forall>r \<in> set rows. \<not> allow_rule_applies E ip ua r"
  shows "\<exists>w'. check_allow_rules cf E ip ua (map (allow_dict E) rows @ ds) w = check_allow_rules cf E ip ua ds w' \<and>
     ua_cache_ok E w' \<and> ua_cache_only w w'"
  using assms(2,3)
proof (induction rows arbitrary: w)
  case Nil
  then show ?case by (intro exI [of _ w]) simp
next
  case (Cons r rows)
  from allow_skip [OF assms(1) Cons.prems(1), where ip = ip and ua = ua and r = r and cf = cf
      and ds = "map (allow_dict E) rows @ ds"] Cons.prems(2)
  obtain w1 where w1: "check_allow_rules cf E ip ua (allow_dict E r # map (allow_dict E) rows @ ds) w =
      check_allow_rules cf E ip ua (map (allow_dict E) rows @ ds) w1" "ua_cache_ok E w1" "ua_cache_only w w1" by auto
  from Cons.IH [OF w1(2)] Cons.prems(2) obtain w2 where
    "check_allow_rules cf E ip ua (map (allow_dict E) rows @ ds) w1 = check_allow_rules cf E ip ua ds w2"
    "ua_cache_ok E w2" "ua_cache_only w1 w2" by auto
  with w1 ua_cache_only_trans show ?case by (simp del: check_allow_rules.simps) blast
qed

lemma allow_first:
  assumes "iso_ok E" and "ua_cache_ok E w" and "find (allow_rule_applies E ip ua) rows = Some r"
    and "\<not> (ar_verify_rdns r \<and> ar_rdns_pattern r \<noteq> [])"
  shows "\<exists>w'. check_allow_rules cf E ip ua (map (allow_dict E) rows) w =
     (Inr (Some (str_uuid (ar_id r), allow_dict E r)), w') \<and> ua_cache_only w w'"
proof -
  from assms(3) obtain ys zs where rows: "rows = ys @ r # zs" "allow_rule_applies E ip ua r"
    "\<forall>y \<in> set ys. \<not> allow_rule_applies E ip ua y" unfolding find_Some_split by blast
  from allow_skip_all [OF assms(1,2) rows(3), where cf = cf and ds = "map (allow_dict E) (r # zs)"] obtain w1 where
    w1: "check_allow_rules cf E ip ua (map (allow_dict E) rows) w =
      check_allow_rules cf E ip ua (map (allow_dict E) (r # zs)) w1" "ua_cache_ok E w1" "ua_cache_only w w1"
    unfolding rows(1) by auto
  from rule_matches_spec [OF w1(2) allow_dict_items(2-4), where ip = ip and ua = ua] obtain w2 where
    m: "rule_matches E (allow_dict E r) ip ua w1 = (Inr (pattern_matches (regex E) (ar_rule_type r)
        (ar_match_type r) (ar_pattern r) ip ua), w2)" "w2 = w1\<lparr>ua_pattern_cache := ua_pattern_cache w2\<rparr>" by blast
  have "rdns_rejects cf E (allow_dict E r) ip = ret False"
    using assms(4) by (auto simp: rdns_rejects_def truthy_def)
  then have "check_allow_rules cf E ip ua (map (allow_dict E) rows) w =
     (Inr (Some (str_uuid (ar_id r), allow_dict E r)), w2)"
    unfolding w1(1) using rows(2) m(1)
    by (simp add: expired_spec [OF assms(1) allow_dict_items(7)] allow_rule_applies_def)
  moreover have "ua_cache_only w1 w2" unfolding ua_cache_only_def using m(2) by blast
  ultimately show ?thesis using w1(3) ua_cache_only_trans by blast
qed

section \<open>Properties\<close>

text \<open>
  The scan of the cached block rules finds the first rule, in the order of the list, that
  has not expired and whose pattern matches, and always returns: memoisation and the passage
  through dictionaries change nothing about which rule decides.
\<close>

theorem check_block_rules_first_match:
  assumes "iso_ok E" and "ua_cache_ok E w"
  shows "fst (check_block_rules E ip ua (map (block_dict E) rows) w) =
     Inr (map_option (\<lambda>r. (str_uuid (br_id r), block_dict E r)) (find (block_rule_applies E ip ua) rows))"
  using check_block_rules_spec [OF assms] .

lemma demo_env_ok: "iso_ok demo_env" "ua_cache_ok demo_env empty_world"
proof -
  have "demo_isoformat t \<noteq> []" for t by (simp add: demo_isoformat_def split: prod.splits)
  then show "iso_ok demo_env" using demo_time.codec_axioms by (simp add: iso_ok_def demo_env_def)
  show "ua_cache_ok demo_env empty_world" by (simp add: ua_cache_ok_def empty_world_def)
qed

theorem check_block_rules_first_match_witness:
  "fst (check_block_rules demo_env ''203.0.113.9'' ''curl/8'' (map (block_dict demo_env)
       [example_rule\<lparr>br_pattern := ''203.0.113.8''\<rparr>, example_rule]) empty_world) =
     Inr (Some (str_uuid 7, block_dict demo_env example_rule))"
proof -
  have "find (block_rule_applies demo_env ''203.0.113.9'' ''curl/8'')
      [example_rule\<lparr>br_pattern := ''203.0.113.8''\<rparr>, example_rule] = Some example_rule"
    by (simp add: block_rule_applies_def example_rule_def not_expired_def pattern_matches_def match_ip_def)
  then show ?thesis
    unfolding check_block_rules_first_match [OF demo_env_ok] by (simp add: example_rule_def)
qed

text \<open>
  An allow rule that asks for reverse DNS only matches an address whose host name matches
  the rule's pattern and whose host name resolves back to that address, unless an earlier
  positive verdict is still cached. A PTR record alone is never enough.
\<close>

theorem allow_rule_needs_forward_confirmation:
  assumes "redis_server (redis E) store_of" and "iso_ok E" and "ua_cache_ok E w"
    and "\<forall>r \<in> set rows. \<not> cached_positive E (store_of (server w)) ip (ar_rdns_pattern r)"
    and "check_allow_rules cf E ip ua (map (allow_dict E) rows) w = (Inr (Some (i, d)), w')"
  shows "\<exists>r \<in> set rows. i = str_uuid (ar_id r) \<and> allow_rule_applies E ip ua r \<and>
     (ar_verify_rdns r \<and> ar_rdns_pattern r \<noteq> [] \<longrightarrow> forward_confirmed E ip (ar_rdns_pattern r))"
  using allow_rules_sound [OF assms] .

definition example_allow :: AllowRule where
  "example_allow = \<lparr>ar_id = 9, ar_name = ''googlebot'', ar_rule_type = ''ua'', ar_match_type = ''contains'',
     ar_pattern = ''googlebot'', ar_verify_rdns = True, ar_rdns_pattern = ''.googlebot.com'',
     ar_is_active = True, ar_source = ADMIN, ar_expires_at = None,
     ar_confidence = 1, ar_feed_first_seen = None, ar_feed_reporters = 0\<rparr>"

definition crawler_env :: "store env" where
  "crawler_env = demo_env\<lparr>gethostbyaddr := (\<lambda>_. Some ''c.googlebot.com''),
     getaddrinfo := (\<lambda>_. Some [''66.249.66.1''])\<rparr>"

theorem allow_rule_needs_forward_confirmation_witness:
  "allow_rule_applies crawler_env ''66.249.66.1'' ''Googlebot/2.1'' example_allow \<and>
   forward_confirmed crawler_env ''66.249.66.1'' ''.googlebot.com''"
proof -
  let ?run = "check_allow_rules default_conf crawler_env ''66.249.66.1'' ''Googlebot/2.1''
      (map (allow_dict crawler_env) [example_allow]) empty_world"
  have f: "fst ?run = Inr (Some (str_uuid 9, allow_dict crawler_env example_allow))" by code_simp
  then obtain w' where run: "?run = (Inr (Some (str_uuid 9, allow_dict crawler_env example_allow)), w')"
    by (metis prod.collapse)
  have srv: "redis_server (redis crawler_env) (\<lambda>s. s)"
    using mem.redis_server_axioms by (simp add: crawler_env_def demo_env_def)
  have ok: "iso_ok crawler_env" "ua_cache_ok crawler_env empty_world"
    using demo_env_ok by (simp_all add: iso_ok_def ua_cache_ok_def crawler_env_def compiled_of_def)
  have neg: "\<forall>r \<in> set [example_allow]. \<not> cached_positive crawler_env (server empty_world) ''66.249.66.1'' (ar_rdns_pattern r)"
    by (simp add: cached_positive_def live_def empty_world_def fresh_store_def)
  from allow_rule_needs_forward_confirmation [OF srv ok neg run] show ?thesis
    by (simp add: example_allow_def)
qed

end
