(* ===== verification/AutoRules.thy ===== *)
theory AutoRules
  imports Handlers "HOL-Library.List_Lexorder" "HOL-Library.Char_ord"
begin

text \<open>
  The guarded write path for automatic block rules of \<open>services/anomaly_detector.py\<close>
  (\<open>_get_or_create_auto_rule\<close> and its helpers), which the detectors and the escalation gate
  share, with \<open>_get_subnet_prefix\<close> and \<open>_scaled_confidence\<close>. The ORM calls are written out on
  the list of rows: \<open>update_or_create\<close> reads, then inserts or updates; an insert meets the
  primary key and the partial unique constraint on (rule type, pattern, action) of automatic rules,
  which rows committed by other processes in between can violate. Every write fires \<open>post_save\<close>. A
  transaction block changes nothing here, as each one holds a single write that either takes
  effect or does not, and the receivers of \<open>handlers.py\<close> never raise.
\<close>

section \<open>Keys and values\<close>

record auto_lookup =
  lk_rule_type :: string
  lk_pattern :: string
  lk_action :: string

text \<open>\<open>None\<close> in \<open>df_is_active\<close> and \<open>df_review_status\<close> is a key popped from the defaults, in
  \<open>df_confidence\<close> and \<open>df_notes\<close> one that was never put there.\<close>

record auto_defaults =
  df_name :: string
  df_match_type :: string
  df_is_active :: "bool option"
  df_review_status :: "ReviewStatus option"
  df_expires_at :: rat
  df_confidence :: "rat option"
  df_notes :: "string option"
  df_detectors :: string

definition has_key :: "auto_lookup \<Rightarrow> BlockRule \<Rightarrow> bool" where
  "has_key lookup r = (br_rule_type r = lk_rule_type lookup \<and> br_pattern r = lk_pattern lookup \<and>
     br_source r = AUTO \<and> br_action r = lk_action lookup)"

definition apply_defaults :: "auto_defaults \<Rightarrow> BlockRule \<Rightarrow> BlockRule" where
  "apply_defaults d r = r\<lparr>
     br_name := df_name d,
     br_match_type := df_match_type d,
     br_is_active := (case df_is_active d of None \<Rightarrow> br_is_active r | Some b \<Rightarrow> b),
     br_review_status := (case df_review_status d of None \<Rightarrow> br_review_status r | Some s \<Rightarrow> s),
     br_expires_at := Some (df_expires_at d),
     br_confidence := (case df_confidence d of None \<Rightarrow> br_confidence r | Some c \<Rightarrow> c),
     br_notes := (case df_notes d of None \<Rightarrow> br_notes r | Some n \<Rightarrow> n),
     br_detectors := df_detectors d\<rparr>"

text \<open>\<open>BlockRule(**lookup, **defaults)\<close> with the field defaults of the model.\<close>

definition new_rule :: "uuid \<Rightarrow> rat \<Rightarrow> auto_lookup \<Rightarrow> auto_defaults \<Rightarrow> BlockRule" where
  "new_rule u now lookup d = apply_defaults d \<lparr>br_id = u, br_name = [], br_rule_type = lk_rule_type lookup,
     br_match_type = [], br_pattern = lk_pattern lookup, br_action = lk_action lookup, br_priority = 100,
     br_is_active = True, br_source = AUTO, br_expires_at = None, br_hit_count = 0, br_last_hit_at = None,
     br_confidence = 1, br_notes = [], br_review_status = NOT_APPLICABLE, br_reviewed_at = None,
     br_detectors = [], br_created_at = now, br_feed_first_seen = None, br_feed_reporters = 0\<rparr>"

section \<open>Helpers\<close>

definition detector_names :: "string \<Rightarrow> string list" where
  "detector_names value = filter (\<lambda>name. name \<noteq> []) (split CHR '','' value)"

definition merge_detector_names :: "string \<Rightarrow> string \<Rightarrow> string" where
  "merge_detector_names existing_value detector_name =
     (let names = detector_names existing_value @ (if detector_name \<noteq> [] then [detector_name] else [])
      in join CHR '','' (sort (remdups names)))"

text \<open>\<open>Decimal.quantize(0.01, ROUND_HALF_UP)\<close> of a number that is not negative.\<close>

definition quantize_2 :: "rat \<Rightarrow> rat" where
  "quantize_2 x = of_int (floor (x * 100 + 1 / 2)) / 100"

definition scaled_confidence :: "rat \<Rightarrow> rat \<Rightarrow> rat \<Rightarrow> rat" where
  "scaled_confidence observed threshold margin_span =
     (let safe_span = (if 0 < margin_span then margin_span else 1);
          raw = 1 / 2 + (observed - threshold) / safe_span;
          clamped = min (984 / 1000) (max (1 / 2) raw)
      in quantize_2 clamped)"

fun str_network :: "network \<Rightarrow> string" where
  "str_network (Net4 a p) = compressed (V4 a) @ ''/'' @ str_nat (int p)"
| "str_network (Net6 a p) = compressed (V6 a None) @ ''/'' @ str_nat (int p)"

definition get_subnet_prefix :: "string \<Rightarrow> py_exc + string" where
  "get_subnet_prefix ip = (case ip_address ip of
      None \<Rightarrow> Inl ValueError
    | Some parsed \<Rightarrow>
        (let prefix_length = (case parsed of V4 _ \<Rightarrow> ''24'' | V6 _ _ \<Rightarrow> ''48'')
         in (case ip_network (ip @ ''/'' @ prefix_length) of
               None \<Rightarrow> Inl ValueError | Some n \<Rightarrow> Inr (str_network n))))"

section \<open>Reads and writes\<close>

definition first_matching :: "auto_lookup \<Rightarrow> BlockRule list \<Rightarrow> BlockRule option" where
  "first_matching lookup rows =
     (case BlockRule_ordering (filter (has_key lookup) rows) of [] \<Rightarrow> None | r # _ \<Rightarrow> Some r)"

definition auto_rule_write_defaults ::
  "'r env \<Rightarrow> auto_lookup \<Rightarrow> auto_defaults \<Rightarrow> string \<Rightarrow> ('r world, BlockRule option \<times> auto_defaults) py" where
  "auto_rule_write_defaults E lookup defaults detector_name =
     andThen (db E (read_state (\<lambda>w. first_matching lookup (BlockRules w))))
       (\<lambda>existing.
          let reviewed = (case existing of None \<Rightarrow> False
                | Some r \<Rightarrow> br_review_status r \<in> {CONFIRMED, REJECTED});
              write_defaults = (if reviewed then defaults\<lparr>df_is_active := None, df_review_status := None\<rparr>
                else defaults)
          in ret (existing, write_defaults\<lparr>df_detectors :=
               merge_detector_names (case existing of None \<Rightarrow> [] | Some r \<Rightarrow> br_detectors r) detector_name\<rparr>))"

definition insert_rule :: "'r env \<Rightarrow> auto_lookup \<Rightarrow> auto_defaults \<Rightarrow> ('r world, BlockRule) py" where
  "insert_rule E lookup d = db E (\<lambda>w.
     let r = new_rule (uuid4 E (uuids_used w)) (time_now E) lookup d; w' = w\<lparr>uuids_used := Suc (uuids_used w)\<rparr>
     in if list_ex (\<lambda>q. has_key lookup q \<or> br_id q = br_id r) (BlockRules w) then (Inl IntegrityError, w')
        else (Inr r, w'\<lparr>BlockRules := BlockRules w @ [r]\<rparr>))"

definition save_rule :: "'r env \<Rightarrow> BlockRule \<Rightarrow> ('r world, unit) py" where
  "save_rule E r = db E (update_state (\<lambda>w. w\<lparr>BlockRules :=
     map (\<lambda>q. if br_id q = br_id r then r else q) (BlockRules w)\<rparr>))"

definition create_rule :: "'r env \<Rightarrow> auto_lookup \<Rightarrow> auto_defaults \<Rightarrow> ('r world, BlockRule \<times> bool) py" where
  "create_rule E lookup d = andThen (insert_rule E lookup d)
     (\<lambda>r. andThen (on_block_rule_save E (br_id r) True) (\<lambda>_. ret (r, True)))"

definition refresh_rule :: "'r env \<Rightarrow> auto_defaults \<Rightarrow> BlockRule \<Rightarrow> ('r world, BlockRule \<times> bool) py" where
  "refresh_rule E d old = andThen (save_rule E (apply_defaults d old))
     (\<lambda>_. andThen (on_block_rule_save E (br_id old) False) (\<lambda>_. ret (apply_defaults d old, False)))"

text \<open>\<open>QuerySet.update_or_create\<close>: a row that is found is refreshed; otherwise a row is created, and when the
  database refuses it the row is looked up once more (the look-up of \<open>get_or_create\<close> after an
  \<open>IntegrityError\<close>) and refreshed with the same defaults; only if it is still missing does the error escape.\<close>

definition refresh_found ::
  "'r env \<Rightarrow> auto_lookup \<Rightarrow> auto_defaults \<Rightarrow> ('r world, BlockRule \<times> bool) py \<Rightarrow> ('r world, BlockRule \<times> bool) py" where
  "refresh_found E lookup d missing =
     andThen (db E (read_state (\<lambda>w. filter (has_key lookup) (BlockRules w))))
       (\<lambda>found. case found of
            [] \<Rightarrow> missing
          | [old] \<Rightarrow> refresh_rule E d old
          | _ \<Rightarrow> raise MultipleObjectsReturned)"

definition update_or_create ::
  "'r env \<Rightarrow> auto_lookup \<Rightarrow> auto_defaults \<Rightarrow> ('r world, BlockRule \<times> bool) py" where
  "update_or_create E lookup d =
     refresh_found E lookup d (try_except (create_rule E lookup d)
       (\<lambda>e. if e = IntegrityError then refresh_found E lookup d (raise e) else raise e))"

text \<open>The second half of \<open>_update_or_create_auto_rule\<close>: the insert lost a race.\<close>

definition merge_into_winner ::
  "'r env \<Rightarrow> auto_lookup \<Rightarrow> auto_defaults \<Rightarrow> string \<Rightarrow> ('r world, BlockRule \<times> bool) py" where
  "merge_into_winner E lookup defaults detector_name =
     andThen (auto_rule_write_defaults E lookup defaults detector_name)
       (\<lambda>(winner, retry_defaults).
          case winner of
            None \<Rightarrow> raise DoesNotExist
          | Some _ \<Rightarrow> update_or_create E lookup retry_defaults)"

definition update_or_create_auto_rule ::
  "'r env \<Rightarrow> auto_lookup \<Rightarrow> auto_defaults \<Rightarrow> string \<Rightarrow> ('r world, BlockRule \<times> bool) py" where
  "update_or_create_auto_rule E lookup defaults detector_name =
     andThen (auto_rule_write_defaults E lookup defaults detector_name)
       (\<lambda>(_, write_defaults).
          try_except (update_or_create E lookup write_defaults)
            (\<lambda>e. if e = IntegrityError then merge_into_winner E lookup defaults detector_name else raise e))"

text \<open>\<open>order_by("-created_at")\<close> replaces the default order; the newest row is kept, and each
  deleted row fires \<open>post_delete\<close>.\<close>

fun delete_each :: "'r env \<Rightarrow> BlockRule list \<Rightarrow> ('r world, unit) py" where
  "delete_each E [] = ret ()"
| "delete_each E (r # rs) = andThen (on_block_rule_delete E (br_id r)) (\<lambda>_. delete_each E rs)"

definition deduplicate_block_rules :: "'r env \<Rightarrow> auto_lookup \<Rightarrow> ('r world, int) py" where
  "deduplicate_block_rules E lookup =
     andThen (db E (read_state (\<lambda>w. length (filter (has_key lookup) (BlockRules w)))))
       (\<lambda>count. if count \<le> 1 then ret 0
          else andThen (db E (read_state (\<lambda>w.
                 sort_key (\<lambda>r. - br_created_at r) (filter (has_key lookup) (BlockRules w)))))
            (\<lambda>qs. case qs of
                 [] \<Rightarrow> ret 0
               | newest # _ \<Rightarrow>
                   andThen (db E (\<lambda>w. let doomed = filter (\<lambda>r. has_key lookup r \<and> br_id r \<noteq> br_id newest) (BlockRules w)
                        in (Inr doomed, w\<lparr>BlockRules :=
                             filter (\<lambda>r. \<not> (has_key lookup r \<and> br_id r \<noteq> br_id newest)) (BlockRules w)\<rparr>)))
                     (\<lambda>doomed. andThen (delete_each E doomed) (\<lambda>_. ret (int (length doomed))))))"

text \<open>One "key: value" line per entry of the evidence, whose values are given as text.\<close>

definition evidence_notes :: "strdict \<Rightarrow> string" where
  "evidence_notes evidence = join (chr 10) (map (\<lambda>(key, value). key @ '': '' @ value) evidence)"

definition auto_rule_defaults ::
  "conf \<Rightarrow> string \<Rightarrow> string \<Rightarrow> rat \<Rightarrow> string \<Rightarrow> rat option \<Rightarrow> strdict option \<Rightarrow> auto_defaults" where
  "auto_rule_defaults cf name match_type expires detector_name confidence evidence =
     (let is_active_on_create = (\<not> (DJANGO_WAF_ANOMALY_QUARANTINE_AUTO_RULES cf \<or>
            detector_name \<in> set (DJANGO_WAF_ANOMALY_OBSERVE_ONLY_DETECTORS cf)));
          review_status_on_create = (if is_active_on_create then NOT_APPLICABLE else PENDING_REVIEW)
      in \<lparr>df_name = name, df_match_type = match_type, df_is_active = Some is_active_on_create,
            df_review_status = Some review_status_on_create, df_expires_at = expires,
            df_confidence = confidence, df_notes = map_option evidence_notes evidence, df_detectors = []\<rparr>)"

text \<open>The dry run: a read and an unsaved instance.\<close>

definition preview_auto_rule ::
  "'r env \<Rightarrow> auto_lookup \<Rightarrow> auto_defaults \<Rightarrow> string \<Rightarrow> bool \<Rightarrow> ('r world, BlockRule \<times> bool) py" where
  "preview_auto_rule E lookup defaults detector_name count_refresh_as_created =
     andThen (db E (read_state (\<lambda>w. first_matching lookup (BlockRules w))))
       (\<lambda>existing. case existing of
            Some r \<Rightarrow> ret (r, count_refresh_as_created)
          | None \<Rightarrow> (\<lambda>w. (Inr (new_rule (uuid4 E (uuids_used w)) (time_now E) lookup
               (defaults\<lparr>df_detectors := merge_detector_names [] detector_name\<rparr>), True),
               w\<lparr>uuids_used := Suc (uuids_used w)\<rparr>)))"

definition write_auto_rule ::
  "'r env \<Rightarrow> auto_lookup \<Rightarrow> auto_defaults \<Rightarrow> string \<Rightarrow> ('r world, BlockRule \<times> bool) py" where
  "write_auto_rule E lookup defaults detector_name =
     try_except (update_or_create_auto_rule E lookup defaults detector_name)
       (\<lambda>e. if e = MultipleObjectsReturned
            then andThen (deduplicate_block_rules E lookup)
              (\<lambda>_. update_or_create_auto_rule E lookup defaults detector_name)
            else raise e)"

definition get_or_create_auto_rule ::
  "conf \<Rightarrow> 'r env \<Rightarrow> string \<Rightarrow> string \<Rightarrow> string \<Rightarrow> string \<Rightarrow> string \<Rightarrow> rat \<Rightarrow> bool \<Rightarrow> string \<Rightarrow>
   rat option \<Rightarrow> strdict option \<Rightarrow> bool \<Rightarrow> ('r world, BlockRule \<times> bool) py" where
  "get_or_create_auto_rule cf E name rule_type match_type pattern action expires dry_run detector_name
       confidence evidence count_refresh_as_created =
     (let lookup = \<lparr>lk_rule_type = rule_type, lk_pattern = pattern, lk_action = action\<rparr>;
          defaults = auto_rule_defaults cf name match_type expires detector_name confidence evidence
      in if dry_run then preview_auto_rule E lookup defaults detector_name count_refresh_as_created
         else write_auto_rule E lookup defaults detector_name)"

section \<open>Lemmas\<close>

lemma has_key_apply [simp]: "has_key lookup (apply_defaults d r) = has_key lookup r"
  by (simp add: has_key_def apply_defaults_def)

lemma id_apply [simp]: "br_id (apply_defaults d r) = br_id r"
  by (simp add: apply_defaults_def)

lemma has_key_new [simp]: "has_key lookup (new_rule u now lookup d)"
  by (simp add: new_rule_def) (simp add: has_key_def)

subsection \<open>Tables that satisfy the constraints\<close>

definition auto_key :: "BlockRule \<Rightarrow> string \<times> string \<times> string" where
  "auto_key r = (br_rule_type r, br_pattern r, br_action r)"

text \<open>Primary keys are distinct and the partial unique constraint holds.\<close>

definition wf_table :: "BlockRule list \<Rightarrow> bool" where
  "wf_table rows = (distinct (map br_id rows) \<and> distinct (map auto_key (filter (\<lambda>r. br_source r = AUTO) rows)))"

text \<open>What other processes may do while a request runs: insert rows the database accepts. The
  rows a transaction has locked stay as they are.\<close>

definition rivals_insert :: "'r env \<Rightarrow> bool" where
  "rivals_insert E = (\<forall>n rows. wf_table rows \<longrightarrow> (\<exists>new. rivals E n rows = rows @ new \<and> wf_table (rows @ new)))"

lemma filter_key_le1:
  assumes "wf_table rows" and "r \<in> set rows" and "has_key lookup r"
  shows "filter (has_key lookup) rows = [r]"
proof -
  have key: "has_key lookup q \<longleftrightarrow> br_source q = AUTO \<and> auto_key q = auto_key r" for q
    using assms(3) by (auto simp: has_key_def auto_key_def)
  let ?auto = "filter (\<lambda>r. br_source r = AUTO) rows"
  have "filter (has_key lookup) rows = filter (\<lambda>q. auto_key q = auto_key r) ?auto"
    unfolding filter_filter by (rule filter_cong) (simp_all add: key conj_commute)
  also have "\<dots> = [r]"
    using assms by (intro filter_unique_key) (auto simp: wf_table_def has_key_def)
  finally show ?thesis .
qed

lemma save_rule_map:
  assumes "distinct (map br_id rows)" and "r \<in> set rows" and "br_id r' = br_id r"
  shows "map (\<lambda>q. if br_id q = br_id r' then r' else q) rows = map (\<lambda>q. if q = r then r' else q) rows"
  using assms by (auto simp: distinct_map inj_on_def)

lemma wf_table_save:
  assumes "wf_table rows" and "r \<in> set rows"
  shows "wf_table (map (\<lambda>q. if br_id q = br_id r then apply_defaults d r else q) rows)"
proof -
  let ?f = "\<lambda>q. if br_id q = br_id r then apply_defaults d r else q"
  have same: "?f q = (if q = r then apply_defaults d r else q)" if "q \<in> set rows" for q
    using assms that by (auto simp: wf_table_def distinct_map inj_on_def)
  have src: "br_source (apply_defaults d r) = br_source r" "auto_key (apply_defaults d r) = auto_key r"
    by (simp_all add: apply_defaults_def auto_key_def)
  have ids: "map br_id (map ?f rows) = map br_id rows" by (auto simp: same)
  have "filter (\<lambda>r. br_source r = AUTO) (map ?f rows) = map ?f (filter (\<lambda>r. br_source r = AUTO) rows)"
    unfolding filter_map by (rule arg_cong [where f = "map ?f"], rule filter_cong) (auto simp: same src)
  then have "map auto_key (filter (\<lambda>r. br_source r = AUTO) (map ?f rows)) =
      map auto_key (filter (\<lambda>r. br_source r = AUTO) rows)"
    by (auto simp: same src)
  with ids assms(1) show ?thesis by (simp only: wf_table_def)
qed

text \<open>The state of an operator's decision about one automatic rule.\<close>

definition decided :: "auto_lookup \<Rightarrow> uuid \<Rightarrow> bool \<Rightarrow> ReviewStatus \<Rightarrow> 'r world \<Rightarrow> bool" where
  "decided lookup i a s w = (wf_table (BlockRules w) \<and> s \<in> {CONFIRMED, REJECTED} \<and>
     (\<exists>q. filter (has_key lookup) (BlockRules w) = [q] \<and> br_id q = i \<and> br_is_active q = a \<and> br_review_status q = s))"

lemma decided_rivals:
  assumes "rivals_insert E" and "decided lookup i a s w"
  shows "decided lookup i a s (w\<lparr>BlockRules := rivals E n (BlockRules w), db_ops := m\<rparr>)"
proof -
  from assms(2) obtain q where q: "filter (has_key lookup) (BlockRules w) = [q]" "br_id q = i"
    "br_is_active q = a" "br_review_status q = s" "wf_table (BlockRules w)" "s \<in> {CONFIRMED, REJECTED}"
    by (auto simp: decided_def)
  from assms(1) q(5) obtain new where n: "rivals E n (BlockRules w) = BlockRules w @ new"
    "wf_table (BlockRules w @ new)" by (auto simp: rivals_insert_def)
  have "q \<in> set (filter (has_key lookup) (BlockRules w))" using q(1) by simp
  then have "filter (has_key lookup) (BlockRules w @ new) = [q]"
    by (intro filter_key_le1 [OF n(2)]) auto
  with q n show ?thesis by (simp add: decided_def)
qed

lemma keeps_decided_db:
  fixes E :: "'a env"
  assumes "rivals_insert E" and "keeps (decided lookup i a s) m"
  shows "keeps (decided lookup i a s) (db E m)"
  unfolding keeps_def
proof (intro allI impI)
  fix w :: "'a world" assume "decided lookup i a s w"
  from decided_rivals [OF assms(1) this] assms(2)
  show "decided lookup i a s (snd (db E m w))" by (simp add: db_def Let_def keeps_def)
qed

lemma keeps_decided_handler: "keeps (decided lookup i a s) (on_block_rule_save E j c)"
proof -
  have "frames BlockRules (on_block_rule_save E j c)" by (rule frames_handlers) simp_all
  then show ?thesis by (auto simp: keeps_def frames_def decided_def)
qed

lemma keeps_decided_save:
  assumes "rivals_insert E" and "df_is_active d = None" and "df_review_status d = None"
  shows "decided lookup i a s w \<Longrightarrow> filter (has_key lookup) (BlockRules w) = [q] \<Longrightarrow>
    decided lookup i a s (snd (save_rule E (apply_defaults d q) w))"
proof -
  assume w: "decided lookup i a s w" and q: "filter (has_key lookup) (BlockRules w) = [q]"
  let ?w1 = "w\<lparr>BlockRules := rivals E (db_ops w) (BlockRules w), db_ops := Suc (db_ops w)\<rparr>"
  have d1: "decided lookup i a s ?w1" by (rule decided_rivals [OF assms(1) w])
  then obtain q' where q': "filter (has_key lookup) (BlockRules ?w1) = [q']" "br_id q' = i"
    "br_is_active q' = a" "br_review_status q' = s" "wf_table (BlockRules ?w1)" by (auto simp: decided_def)
  have "wf_table (BlockRules w)" using w by (simp add: decided_def)
  with assms(1) obtain new where "BlockRules ?w1 = BlockRules w @ new" by (auto simp: rivals_insert_def)
  with q q'(1) have same: "q' = q" by simp
  have mem: "q \<in> set (BlockRules ?w1)" "has_key lookup q" using q'(1) same by (auto dest: filter_eq_ConsD)
  let ?rows = "map (\<lambda>x. if br_id x = br_id q then apply_defaults d q else x) (BlockRules ?w1)"
  have wf: "wf_table ?rows" by (rule wf_table_save [OF q'(5) mem(1)])
  have "apply_defaults d q \<in> set ?rows" using mem(1) by force
  from filter_key_le1 [OF wf this, of lookup] mem(2)
  have "filter (has_key lookup) ?rows = [apply_defaults d q]" by simp
  then have "decided lookup i a s (?w1\<lparr>BlockRules := ?rows\<rparr>)"
    using wf w q' same assms(2,3) by (auto simp: decided_def apply_defaults_def)
  then show ?thesis using d1 by (simp add: save_rule_def db_def Let_def)
qed

lemma db_read: "db E (read_state f) w = (Inr x, w') \<Longrightarrow>
   w' = w\<lparr>BlockRules := rivals E (db_ops w) (BlockRules w), db_ops := Suc (db_ops w)\<rparr> \<and> x = f w'"
  by (auto simp: db_def Let_def split: if_splits)

lemma decided_db_read:
  assumes "rivals_insert E" and "decided lookup i a s w" and "db E (read_state f) w = (x, w')"
  shows "decided lookup i a s w'"
  using keepsD [OF keeps_decided_db [OF assms(1) keeps_read] assms(2,3)] .

lemma decided_found: "decided lookup i a s w \<Longrightarrow> \<exists>q. filter (has_key lookup) (BlockRules w) = [q] \<and>
    br_id q = i \<and> br_is_active q = a \<and> br_review_status q = s"
  by (auto simp: decided_def)

lemma refresh_decided:
  assumes E: "rivals_insert E" and d: "df_is_active d = None" "df_review_status d = None"
    and w: "decided lookup i a s w" "filter (has_key lookup) (BlockRules w) = [q]"
  shows "decided lookup i a s (snd (refresh_rule E d q w))"
  unfolding refresh_rule_def
proof (rule andThen_after [where P = "decided lookup i a s"])
  show "decided lookup i a s (snd (save_rule E (apply_defaults d q) w))"
    by (rule keeps_decided_save [OF E d w])
qed (intro keep_intros keeps_decided_handler)

lemma update_or_create_decided:
  assumes E: "rivals_insert E" and d: "df_is_active d = None" "df_review_status d = None"
    and w: "decided lookup i a s w"
  shows "decided lookup i a s (snd (update_or_create E lookup d w))"
proof (cases "db E (read_state (\<lambda>w. filter (has_key lookup) (BlockRules w))) w")
  case (Pair y w1)
  note d1 = decided_db_read [OF E w Pair]
  then obtain q where q: "filter (has_key lookup) (BlockRules w1) = [q]" by (auto simp: decided_def)
  show ?thesis
  proof (cases y)
    case (Inl e)
    with Pair d1 show ?thesis by (simp add: update_or_create_def refresh_found_def)
  next
    case (Inr found)
    have "found = filter (has_key lookup) (BlockRules w1)"
      using db_read [OF Pair [unfolded Inr]] by (rule conjunct2)
    then have "update_or_create E lookup d w = refresh_rule E d q w1"
      unfolding update_or_create_def refresh_found_def andThen_def Pair Inr q by simp
    with refresh_decided [OF E d d1 q] show ?thesis by simp
  qed
qed

lemma write_defaults_decided:
  assumes E: "rivals_insert E" and w: "decided lookup i a s w"
    and r: "auto_rule_write_defaults E lookup defaults dn w = (x, w')"
  shows "decided lookup i a s w' \<and> (\<forall>p. x = Inr p \<longrightarrow>
     df_is_active (snd p) = None \<and> df_review_status (snd p) = None \<and> fst p \<noteq> None)"
proof (cases "db E (read_state (\<lambda>w. first_matching lookup (BlockRules w))) w")
  case (Pair y w1)
  note d1 = decided_db_read [OF E w Pair]
  then obtain q where q: "filter (has_key lookup) (BlockRules w1) = [q]" "br_review_status q \<in> {CONFIRMED, REJECTED}"
    by (auto simp: decided_def)
  show ?thesis
  proof (cases y)
    case (Inl e)
    then have "auto_rule_write_defaults E lookup defaults dn w = (Inl e, w1)"
      using Pair by (simp add: auto_rule_write_defaults_def)
    with r d1 show ?thesis by auto
  next
    case (Inr existing)
    have "existing = first_matching lookup (BlockRules w1)"
      using db_read [OF Pair [unfolded Inr]] by (rule conjunct2)
    then have "existing = Some q" using q(1) by (simp add: first_matching_def BlockRule_ordering_def)
    then have "auto_rule_write_defaults E lookup defaults dn w = (Inr (Some q,
        defaults\<lparr>df_is_active := None, df_review_status := None,
          df_detectors := merge_detector_names (br_detectors q) dn\<rparr>), w1)"
      using Pair Inr q(2) by (auto simp: auto_rule_write_defaults_def Let_def)
    with r d1 show ?thesis by auto
  qed
qed

lemma merge_decided:
  assumes E: "rivals_insert E" and w: "decided lookup i a s w"
  shows "decided lookup i a s (snd (merge_into_winner E lookup defaults dn w))"
proof (cases "auto_rule_write_defaults E lookup defaults dn w")
  case (Pair x w1)
  note f = write_defaults_decided [OF E w Pair]
  show ?thesis
  proof (cases x)
    case (Inl e)
    with Pair f show ?thesis by (simp add: merge_into_winner_def)
  next
    case (Inr p)
    with f update_or_create_decided [OF E, of "snd p" lookup i a s w1] Pair show ?thesis
      by (cases p) (auto simp: merge_into_winner_def)
  qed
qed

lemma update_auto_decided:
  assumes E: "rivals_insert E" and w: "decided lookup i a s w"
  shows "decided lookup i a s (snd (update_or_create_auto_rule E lookup defaults dn w))"
proof (cases "auto_rule_write_defaults E lookup defaults dn w")
  case (Pair x w1)
  note f = write_defaults_decided [OF E w Pair]
  show ?thesis
  proof (cases x)
    case (Inl e)
    with Pair f show ?thesis by (simp add: update_or_create_auto_rule_def)
  next
    case (Inr p)
    have "decided lookup i a s (snd (try_except (update_or_create E lookup (snd p))
       (\<lambda>e. if e = IntegrityError then merge_into_winner E lookup defaults dn else raise e) w1))"
      by (rule try_after [where P = "decided lookup i a s"])
         (use f Inr update_or_create_decided [OF E] merge_decided [OF E] in auto)
    moreover have "update_or_create_auto_rule E lookup defaults dn w =
       try_except (update_or_create E lookup (snd p))
         (\<lambda>e. if e = IntegrityError then merge_into_winner E lookup defaults dn else raise e) w1"
      unfolding update_or_create_auto_rule_def andThen_def Pair Inr by (simp add: split_beta)
    ultimately show ?thesis by simp
  qed
qed

lemma dedup_decided:
  assumes E: "rivals_insert E" and w: "decided lookup i a s w"
  shows "decided lookup i a s (snd (deduplicate_block_rules E lookup w))"
proof (cases "db E (read_state (\<lambda>w. length (filter (has_key lookup) (BlockRules w)))) w")
  case (Pair y w1)
  note d1 = decided_db_read [OF E w Pair]
  then obtain q where q: "filter (has_key lookup) (BlockRules w1) = [q]" by (auto simp: decided_def)
  have "c = 1" if "y = Inr c" for c
    using conjunct2 [OF db_read [OF Pair [unfolded that]]] q by simp
  with Pair d1 show ?thesis by (cases y) (auto simp: deduplicate_block_rules_def)
qed

lemma decided_start:
  assumes "wf_table (BlockRules w)" and "r \<in> set (BlockRules w)" and "has_key lookup r"
    and "br_review_status r \<in> {CONFIRMED, REJECTED}"
  shows "decided lookup (br_id r) (br_is_active r) (br_review_status r) w"
  using filter_key_le1 [OF assms(1-3)] assms(1,4) by (simp add: decided_def)

lemma decided_row: "decided lookup i a s w \<Longrightarrow>
    \<exists>q \<in> set (BlockRules w). br_id q = i \<and> br_is_active q = a \<and> br_review_status q = s"
  by (auto simp: decided_def dest: filter_eq_ConsD)

lemma preview_decided:
  assumes "rivals_insert E"
  shows "keeps (decided lookup i a s) (preview_auto_rule E lk d n c)"
proof -
  have "keeps (decided lookup i a s) (\<lambda>w. (f w, w\<lparr>uuids_used := Suc (uuids_used w)\<rparr>))"
    for f :: "'a world \<Rightarrow> py_exc + BlockRule \<times> bool"
    by (simp add: keeps_def decided_def)
  then show ?thesis unfolding preview_auto_rule_def
    by (intro keep_intros keeps_decided_db assms)
qed

lemma write_decided:
  fixes E :: "'a env"
  assumes E: "rivals_insert E" and w: "decided lookup i a s w"
  shows "decided lookup i a s (snd (write_auto_rule E lookup d n w))"
  unfolding write_auto_rule_def
proof (rule try_after [where P = "decided lookup i a s"])
  show "decided lookup i a s (snd (update_or_create_auto_rule E lookup d n w))"
    by (rule update_auto_decided [OF E w])
  fix e and w' :: "'a world" assume w': "decided lookup i a s w'"
  have "keeps (decided lookup i a s) (andThen (deduplicate_block_rules E lookup)
      (\<lambda>_. update_or_create_auto_rule E lookup d n))"
    using dedup_decided [OF E] update_auto_decided [OF E]
    by (intro keep_intros) (auto simp: keeps_def)
  with w' show "decided lookup i a s (snd ((if e = MultipleObjectsReturned
      then andThen (deduplicate_block_rules E lookup) (\<lambda>_. update_or_create_auto_rule E lookup d n)
      else raise e) w'))" by (simp add: keeps_def)
qed

subsection \<open>Rules under other keys\<close>

text \<open>The constraints hold, and the given rows are in the table as they are.\<close>

definition undisturbed :: "BlockRule set \<Rightarrow> 'r world \<Rightarrow> bool" where
  "undisturbed K w = (wf_table (BlockRules w) \<and> K \<subseteq> set (BlockRules w))"

lemma has_key_unique: "has_key lk r \<Longrightarrow> has_key lookup r \<Longrightarrow> lk = lookup"
  by (cases lk; cases lookup) (simp add: has_key_def)

lemma wf_table_snoc:
  assumes "wf_table rows" and "has_key lk r" and "\<not> list_ex (\<lambda>q. has_key lk q \<or> br_id q = br_id r) rows"
  shows "wf_table (rows @ [r])"
proof -
  have new: "\<not> has_key lk q" "br_id q \<noteq> br_id r" if "q \<in> set rows" for q using assms(3) that by (auto simp: list_ex_iff)
  have src: "br_source r = AUTO" using assms(2) by (simp add: has_key_def)
  have "auto_key r \<notin> auto_key ` set (filter (\<lambda>r. br_source r = AUTO) rows)"
    using assms(2) new(1) by (fastforce simp: has_key_def auto_key_def)
  moreover have "br_id r \<notin> br_id ` set rows" using new(2) by fastforce
  ultimately show ?thesis using assms(1) src by (simp add: wf_table_def)
qed

lemma wf_table_filter: "wf_table rows \<Longrightarrow> wf_table (filter P rows)"
proof -
  assume "wf_table rows"
  moreover have "filter (\<lambda>r. br_source r = AUTO) (filter P rows) = filter P (filter (\<lambda>r. br_source r = AUTO) rows)"
    by (simp add: conj_commute)
  ultimately show ?thesis unfolding wf_table_def by (simp only: distinct_map_filter simp_thms)
qed

lemma undisturbed_rivals:
  assumes "rivals_insert E" and "undisturbed K w"
  shows "undisturbed K (w\<lparr>BlockRules := rivals E n (BlockRules w), db_ops := m\<rparr>)"
proof -
  have "wf_table (BlockRules w)" using assms(2) by (simp add: undisturbed_def)
  with assms(1) obtain new where "rivals E n (BlockRules w) = BlockRules w @ new" "wf_table (BlockRules w @ new)"
    by (auto simp: rivals_insert_def)
  with assms(2) show ?thesis by (auto simp: undisturbed_def)
qed

lemma keeps_undisturbed_db [keep_intros]:
  fixes E :: "'a env"
  assumes "rivals_insert E" and "keeps (undisturbed K) m"
  shows "keeps (undisturbed K) (db E m)"
  unfolding keeps_def
proof (intro allI impI)
  fix w :: "'a world" assume "undisturbed K w"
  from undisturbed_rivals [OF assms(1) this] assms(2)
  show "undisturbed K (snd (db E m w))" by (simp add: db_def Let_def keeps_def)
qed

lemma keeps_undisturbed_frame: "frames BlockRules m \<Longrightarrow> keeps (undisturbed K) m"
  by (simp add: keeps_def frames_def undisturbed_def)

lemma keeps_undisturbed_handlers [keep_intros]:
  "keeps (undisturbed K) (on_block_rule_save E j c)" "keeps (undisturbed K) (on_block_rule_delete E j)"
  by (rule keeps_undisturbed_frame, rule frames_handlers; simp)+

lemma undisturbed_update [simp]:
  "undisturbed K (w\<lparr>uuids_used := n\<rparr>) = undisturbed K w"
  by (simp add: undisturbed_def)

text \<open>Writing under a key leaves alone the rows that do not have it.\<close>

lemma keeps_undisturbed_insert:
  assumes E: "rivals_insert E"
  shows "keeps (undisturbed K) (insert_rule E lk d)"
  unfolding insert_rule_def
proof (rule keeps_undisturbed_db [OF E], unfold keeps_def, intro allI impI)
  fix w assume u: "undisturbed K w"
  let ?r = "new_rule (uuid4 E (uuids_used w)) (time_now E) lk d" and ?w = "w\<lparr>uuids_used := Suc (uuids_used w)\<rparr>"
  have "wf_table (BlockRules w @ [?r])" if "\<not> list_ex (\<lambda>q. has_key lk q \<or> br_id q = br_id ?r) (BlockRules w)"
    by (rule wf_table_snoc [OF _ _ that]) (use u in \<open>simp_all add: undisturbed_def\<close>)
  then show "undisturbed K (snd (let r = ?r; w' = ?w
      in if list_ex (\<lambda>q. has_key lk q \<or> br_id q = br_id r) (BlockRules w) then (Inl IntegrityError, w')
         else (Inr r, w'\<lparr>BlockRules := BlockRules w @ [r]\<rparr>)))"
    using u by (auto simp: Let_def undisturbed_def)
qed

lemma undisturbed_save:
  assumes E: "rivals_insert E" and other: "\<forall>q \<in> K. \<not> has_key lk q" and u: "undisturbed K w"
    and old: "old \<in> set (BlockRules w)" "has_key lk old"
  shows "undisturbed K (snd (save_rule E (apply_defaults d old) w))"
proof -
  let ?w1 = "w\<lparr>BlockRules := rivals E (db_ops w) (BlockRules w), db_ops := Suc (db_ops w)\<rparr>"
  have "undisturbed (insert old K) w" using u old(1) by (simp add: undisturbed_def)
  from undisturbed_rivals [OF E this] have u1: "undisturbed K ?w1" and old1: "old \<in> set (BlockRules ?w1)"
    by (auto simp: undisturbed_def)
  have wf: "wf_table (BlockRules ?w1)" using u1 by (simp add: undisturbed_def)
  let ?f = "\<lambda>q. if br_id q = br_id old then apply_defaults d old else q"
  have "wf_table (map ?f (BlockRules ?w1))" by (rule wf_table_save [OF wf old1])
  moreover have "q \<in> set (map ?f (BlockRules ?w1))" if q: "q \<in> K" for q
  proof -
    have mem: "q \<in> set (BlockRules ?w1)" using u1 q by (auto simp: undisturbed_def)
    have "q \<noteq> old" using other old(2) q by auto
    then have "br_id q \<noteq> br_id old" using wf mem old1 by (auto simp: wf_table_def distinct_map inj_on_def)
    then have "q = ?f q" by simp
    with mem have "q \<in> ?f ` set (BlockRules ?w1)" by (rule rev_image_eqI)
    then show ?thesis by simp
  qed
  ultimately have "undisturbed K (?w1\<lparr>BlockRules := map ?f (BlockRules ?w1)\<rparr>)" by (auto simp: undisturbed_def)
  then show ?thesis using u1 by (simp add: save_rule_def db_def Let_def)
qed

lemma keeps_undisturbed_found:
  fixes E :: "'a env"
  assumes E: "rivals_insert E" and other: "\<forall>q \<in> K. \<not> has_key lk q" and missing: "keeps (undisturbed K) missing"
  shows "keeps (undisturbed K) (refresh_found E lk d missing)"
  unfolding keeps_def
proof (intro allI impI)
  fix w :: "'a world" assume u: "undisturbed K w"
  obtain y w1 where r: "db E (read_state (\<lambda>w. filter (has_key lk) (BlockRules w))) w = (y, w1)"
    by (cases "db E (read_state (\<lambda>w. filter (has_key lk) (BlockRules w))) w")
  have u1: "undisturbed K w1" using keepsD [OF keeps_undisturbed_db [OF E keeps_read] u r] .
  have refresh: "undisturbed K (snd (refresh_rule E d old w1))"
    if "old \<in> set (BlockRules w1)" "has_key lk old" for old
    unfolding refresh_rule_def
    by (rule andThen_after [where P = "undisturbed K"], rule undisturbed_save [OF E other u1 that]) (intro keep_intros)
  show "undisturbed K (snd (refresh_found E lk d missing w))"
  proof (cases y)
    case (Inl e)
    with r u1 show ?thesis by (simp add: refresh_found_def)
  next
    case (Inr found)
    have f: "found = filter (has_key lk) (BlockRules w1)" using db_read [OF r [unfolded Inr]] by (rule conjunct2)
    have "old \<in> set (BlockRules w1)" "has_key lk old" if "found = [old]" for old
      using arg_cong [OF that, of set] unfolding f by auto
    then show ?thesis using Inr r u1 missing refresh
      by (cases found rule: remdups_adj.cases) (auto simp: refresh_found_def keeps_def)
  qed
qed

lemma keeps_undisturbed_update:
  assumes E: "rivals_insert E" and other: "\<forall>q \<in> K. \<not> has_key lk q"
  shows "keeps (undisturbed K) (update_or_create E lk d)"
  unfolding update_or_create_def create_rule_def
  by (intro keeps_undisturbed_found [OF E other] keep_intros keeps_undisturbed_insert [OF E])

lemma keeps_undisturbed_write:
  fixes E :: "'a env"
  assumes E: "rivals_insert E" and other: "\<forall>q \<in> K. \<not> has_key lk q"
  shows "keeps (undisturbed K) (write_auto_rule E lk d n)"
proof -
  note uc = keeps_undisturbed_update [OF E other] and rd = keeps_undisturbed_db [OF E keeps_read]
  have pair: "keeps P (case p of (a, b) \<Rightarrow> f a b)" if "\<And>a b. keeps P (f a b)" for P :: "'a world \<Rightarrow> bool" and p and f :: "'b \<Rightarrow> 'c \<Rightarrow> ('a world, 'd) py"
    using that by (cases p) simp
  have wd: "keeps (undisturbed K) (auto_rule_write_defaults E lk dd n)" for dd
    unfolding auto_rule_write_defaults_def Let_def by (intro keep_intros rd)
  have mw: "keeps (undisturbed K) (merge_into_winner E lk dd n)" for dd
    unfolding merge_into_winner_def by (intro keep_intros wd pair uc)
  have ua: "keeps (undisturbed K) (update_or_create_auto_rule E lk dd n)" for dd
    unfolding update_or_create_auto_rule_def by (intro keep_intros wd pair uc mw)
  have del: "keeps (undisturbed K) (delete_each E rs)" for rs
  proof (induction rs)
    case (Cons r rs)
    then show ?case unfolding delete_each.simps by (intro keep_intros)
  qed (unfold delete_each.simps, rule keeps_ret)
  have "undisturbed K (w\<lparr>BlockRules := filter (\<lambda>r. \<not> (has_key lk r \<and> br_id r \<noteq> i)) (BlockRules w)\<rparr>)"
    if "undisturbed K w" for w :: "'a world" and i
    using that other wf_table_filter by (auto simp: undisturbed_def)
  then have "keeps (undisturbed K) (\<lambda>w :: 'a world. let doomed = filter (\<lambda>r. has_key lk r \<and> br_id r \<noteq> i) (BlockRules w)
      in (Inr doomed, w\<lparr>BlockRules := filter (\<lambda>r. \<not> (has_key lk r \<and> br_id r \<noteq> i)) (BlockRules w)\<rparr>))" for i
    by (simp add: keeps_def Let_def)
  then have dd: "keeps (undisturbed K) (deduplicate_block_rules E lk)"
    unfolding deduplicate_block_rules_def
    by (intro keep_intros rd, split list.split, intro conjI allI impI keep_intros keeps_undisturbed_db [OF E] del)
  show ?thesis unfolding write_auto_rule_def by (intro keep_intros ua dd)
qed

text \<open>The guarded write path never touches a rule that is not automatic.\<close>

lemma keeps_undisturbed_guarded:
  assumes E: "rivals_insert E" and src: "\<forall>q \<in> K. br_source q \<noteq> AUTO"
  shows "keeps (undisturbed K) (get_or_create_auto_rule cf E n rt mt p a ex dry dn co ev cr)"
proof -
  let ?lk = "\<lparr>lk_rule_type = rt, lk_pattern = p, lk_action = a\<rparr>"
  have "keeps (undisturbed K) (\<lambda>w. (f w, w\<lparr>uuids_used := Suc (uuids_used w)\<rparr>))"
    for f :: "'a world \<Rightarrow> py_exc + BlockRule \<times> bool" by (simp add: keeps_def)
  then have "keeps (undisturbed K) (preview_auto_rule E ?lk d dn cr)" for d
    unfolding preview_auto_rule_def by (intro keep_intros E)
  moreover have "\<forall>q \<in> K. \<not> has_key ?lk q" using src by (simp add: has_key_def)
  ultimately show ?thesis
    unfolding get_or_create_auto_rule_def Let_def using keeps_undisturbed_write [OF E, of K ?lk] by simp
qed

lemma keeps_wf_table:
  assumes "rivals_insert E"
  shows "keeps (\<lambda>w. wf_table (BlockRules w)) (get_or_create_auto_rule cf E n rt mt p a ex dry dn co ev cr)"
  using keeps_undisturbed_guarded [OF assms, of "{}"] by (simp add: keeps_def undisturbed_def)

lemma decided_iff: "decided lookup i a s w \<longleftrightarrow> s \<in> {CONFIRMED, REJECTED} \<and>
   (\<exists>q. has_key lookup q \<and> undisturbed {q} w \<and> br_id q = i \<and> br_is_active q = a \<and> br_review_status q = s)"
proof -
  have "filter (has_key lookup) (BlockRules w) = [q] \<longleftrightarrow> has_key lookup q \<and> q \<in> set (BlockRules w)"
    if "wf_table (BlockRules w)" for q
    using filter_key_le1 [OF that] by (auto dest: filter_eq_ConsD)
  then show ?thesis by (auto simp: decided_def undisturbed_def)
qed

text \<open>Any run of \<open>_get_or_create_auto_rule\<close>, under whatever key, keeps every decision.\<close>

lemma keeps_decided [keep_intros]:
  assumes E: "rivals_insert E"
  shows "keeps (decided lookup i a s) (get_or_create_auto_rule cf E n rt mt p act ex dry dn co ev cr)"
proof (cases "\<lparr>lk_rule_type = rt, lk_pattern = p, lk_action = act\<rparr> = lookup")
  case True
  then show ?thesis using preview_decided [OF E] write_decided [OF E]
    by (simp add: get_or_create_auto_rule_def Let_def keeps_def)
next
  case False
  let ?lk = "\<lparr>lk_rule_type = rt, lk_pattern = p, lk_action = act\<rparr>"
  have "keeps (undisturbed {q}) (write_auto_rule E ?lk d dn)" if "has_key lookup q" for q d
    using keeps_undisturbed_write [OF E, of "{q}" ?lk] has_key_unique [OF _ that, of ?lk] False by blast
  then have "keeps (decided lookup i a s) (write_auto_rule E ?lk d dn)" for d
    unfolding keeps_def decided_iff by blast
  then show ?thesis using preview_decided [OF E] by (simp add: get_or_create_auto_rule_def Let_def)
qed

subsection \<open>When nothing interferes\<close>

text \<open>The database works, nobody else writes rules, and identifiers are fresh. \<open>others\<close> is the part
  of the state that writing a rule leaves alone.\<close>

definition calm_db :: "'r env \<Rightarrow> bool" where
  "calm_db E = ((\<forall>n. db_ok E n) \<and> (\<forall>n rows. rivals E n rows = rows))"

definition fresh_ids :: "'r env \<Rightarrow> 'r world \<Rightarrow> bool" where
  "fresh_ids E w = (inj (uuid4 E) \<and> (\<forall>n \<ge> uuids_used w. uuid4 E n \<notin> br_id ` set (BlockRules w)))"

definition others :: "'r world \<Rightarrow> RequestLog list \<times> ChallengeToken list \<times> IPReputation list \<times> AllowRule list" where
  "others w = (RequestLogs w, ChallengeTokens w, IPReputations w, AllowRules w)"

lemma db_calm: "calm_db E \<Longrightarrow> db E m w = m (w\<lparr>db_ops := Suc (db_ops w)\<rparr>)"
  by (simp add: calm_db_def db_def Let_def)

lemma saved_handler_calm:
  "\<exists>w'. on_block_rule_save E j c w = (Inr (), w') \<and> BlockRules w' = BlockRules w \<and> uuids_used w' = uuids_used w \<and> others w' = others w"
proof -
  have "frames (\<lambda>w. (BlockRules w, uuids_used w, others w)) (on_block_rule_save E j c)"
    by (rule frames_handlers) (simp_all add: others_def)
  moreover obtain w' where w': "on_block_rule_save E j c w = (Inr (), w')"
    using handlers_return(1) [of E j c w] by (cases "on_block_rule_save E j c w") (auto simp: returns_def split: sum.splits)
  ultimately have "(BlockRules w', uuids_used w', others w') = (BlockRules w, uuids_used w, others w)" by (rule framesD)
  with w' show ?thesis by simp
qed

lemma write_new_calm:
  assumes E: "calm_db E" and ids: "fresh_ids E w" and none: "filter (has_key lk) (BlockRules w) = []"
  shows "\<exists>w'. write_auto_rule E lk d n w = (Inr (new_rule (uuid4 E (uuids_used w)) (time_now E) lk
       (d\<lparr>df_detectors := merge_detector_names [] n\<rparr>), True), w') \<and>
     BlockRules w' = BlockRules w @ [new_rule (uuid4 E (uuids_used w)) (time_now E) lk (d\<lparr>df_detectors := merge_detector_names [] n\<rparr>)] \<and>
     uuids_used w' = Suc (uuids_used w) \<and> others w' = others w"
proof -
  let ?d = "d\<lparr>df_detectors := merge_detector_names [] n\<rparr>"
  let ?r = "new_rule (uuid4 E (uuids_used w)) (time_now E) lk ?d"
  let ?w3 = "w\<lparr>db_ops := Suc (Suc (Suc (db_ops w))), uuids_used := Suc (uuids_used w), BlockRules := BlockRules w @ [?r]\<rparr>"
  have id: "br_id ?r = uuid4 E (uuids_used w)" by (simp add: new_rule_def)
  have "br_id ?r \<notin> br_id ` set (BlockRules w)" using ids unfolding id by (auto simp: fresh_ids_def)
  then have new: "\<not> list_ex (\<lambda>q. has_key lk q \<or> br_id q = br_id ?r) (BlockRules w)"
    using none unfolding list_ex_iff filter_empty_conv by (metis image_eqI)
  have wd: "auto_rule_write_defaults E lk d n w = (Inr (None, ?d), w\<lparr>db_ops := Suc (db_ops w)\<rparr>)"
    using none by (simp add: auto_rule_write_defaults_def db_calm [OF E] first_matching_def BlockRule_ordering_def)
  have ins: "insert_rule E lk ?d (w\<lparr>db_ops := Suc (Suc (db_ops w))\<rparr>) = (Inr ?r, ?w3)"
    using new by (simp add: insert_rule_def db_calm [OF E] Let_def)
  from saved_handler_calm [of E "br_id ?r" True ?w3] obtain w' where
    w': "on_block_rule_save E (br_id ?r) True ?w3 = (Inr (), w')" "BlockRules w' = BlockRules ?w3"
      "uuids_used w' = uuids_used ?w3" "others w' = others ?w3" by blast
  have "write_auto_rule E lk d n w = (Inr (?r, True), w')"
    using wd ins w'(1) none
    by (simp add: write_auto_rule_def update_or_create_auto_rule_def update_or_create_def refresh_found_def db_calm [OF E] create_rule_def)
  with w' show ?thesis by (simp add: others_def)
qed

lemma write_known_calm:
  assumes E: "calm_db E" and one: "filter (has_key lk) (BlockRules w) = [q]"
  shows "\<exists>d' w'. write_auto_rule E lk d n w = (Inr (apply_defaults d' q, False), w') \<and>
     BlockRules w' = map (\<lambda>x. if br_id x = br_id q then apply_defaults d' q else x) (BlockRules w) \<and>
     uuids_used w' = uuids_used w \<and> others w' = others w"
proof -
  let ?d = "(if br_review_status q \<in> {CONFIRMED, REJECTED} then d\<lparr>df_is_active := None, df_review_status := None\<rparr> else d)
    \<lparr>df_detectors := merge_detector_names (br_detectors q) n\<rparr>"
  let ?rows = "map (\<lambda>x. if br_id x = br_id q then apply_defaults ?d q else x) (BlockRules w)"
  let ?w3 = "w\<lparr>db_ops := Suc (Suc (Suc (db_ops w))), BlockRules := ?rows\<rparr>"
  have wd: "auto_rule_write_defaults E lk d n w = (Inr (Some q, ?d), w\<lparr>db_ops := Suc (db_ops w)\<rparr>)"
    using one by (simp add: auto_rule_write_defaults_def db_calm [OF E] first_matching_def BlockRule_ordering_def Let_def)
  have sv: "save_rule E (apply_defaults ?d q) (w\<lparr>db_ops := Suc (Suc (db_ops w))\<rparr>) = (Inr (), ?w3)"
    by (simp add: save_rule_def db_calm [OF E])
  from saved_handler_calm [of E "br_id q" False ?w3] obtain w' where
    w': "on_block_rule_save E (br_id q) False ?w3 = (Inr (), w')" "BlockRules w' = BlockRules ?w3"
      "uuids_used w' = uuids_used ?w3" "others w' = others ?w3" by blast
  have "write_auto_rule E lk d n w = (Inr (apply_defaults ?d q, False), w')"
    using wd sv w'(1) one
    by (simp add: write_auto_rule_def update_or_create_auto_rule_def update_or_create_def refresh_found_def db_calm [OF E] refresh_rule_def)
  with w' show ?thesis by (intro exI [of _ ?d] exI [of _ w']) (simp add: others_def)
qed

subsection \<open>A lost race\<close>

text \<open>The second half of \<open>_update_or_create_auto_rule\<close> is meant for the run that loses the race to insert a
  key. But the look-up that \<open>update_or_create\<close> repeats after the \<open>IntegrityError\<close> finds the winner and
  writes the defaults that were derived before the winner existed: here the name of the detector that
  made the winning row is overwritten, where the merge would have kept both.\<close>

definition race_key :: auto_lookup where
  "race_key = \<lparr>lk_rule_type = ''ip'', lk_pattern = ''203.0.113.9'', lk_action = ''block''\<rparr>"

definition race_defaults :: "string \<Rightarrow> auto_defaults" where
  "race_defaults names = \<lparr>df_name = ''rule'', df_match_type = ''exact'', df_is_active = Some True, df_review_status = Some NOT_APPLICABLE,
     df_expires_at = 5000, df_confidence = None, df_notes = None, df_detectors = names\<rparr>"

definition race_env :: "store env" where
  "race_env = demo_env\<lparr>rivals := \<lambda>n rows. if n = 2 then rows @ [new_rule 7 900 race_key (race_defaults ''request_burst'')] else rows\<rparr>"

theorem lost_race_forgets_the_winner:
  "\<exists>rule w'. write_auto_rule race_env race_key (race_defaults []) ''ua_rotation'' (empty_world :: store world) = (Inr (rule, False), w') \<and>
     map (\<lambda>r. (br_id r, br_detectors r)) (BlockRules w') = [(7, ''ua_rotation'')]"
proof -
  let ?run = "write_auto_rule race_env race_key (race_defaults []) ''ua_rotation'' (empty_world :: store world)"
  have "(case fst ?run of Inl _ \<Rightarrow> True | Inr x \<Rightarrow> snd x) = False \<and>
      map (\<lambda>r. (br_id r, br_detectors r)) (BlockRules (snd ?run)) = [(7, ''ua_rotation'')]" by code_simp
  then show ?thesis by (cases ?run; cases "fst ?run") auto
qed

subsection \<open>Names and confidence\<close>

lemma detector_names_join:
  assumes "\<And>n. n \<in> set ns \<Longrightarrow> n \<noteq> [] \<and> CHR '','' \<notin> set n"
  shows "detector_names (join CHR '','' ns) = ns"
proof (cases "ns = []")
  case True
  then show ?thesis by (simp add: detector_names_def)
next
  case False
  then have "split CHR '','' (join CHR '','' ns) = ns" using assms by (intro split_join) auto
  with assms show ?thesis by (simp add: detector_names_def filter_id_conv)
qed

lemma detector_names_ok: "n \<in> set (detector_names v) \<Longrightarrow> n \<noteq> [] \<and> CHR '','' \<notin> set n"
  by (auto simp: detector_names_def split_free)

lemma quantize_2_bounds:
  assumes "1 / 2 \<le> x" and "x \<le> 984 / 1000"
  shows "1 / 2 \<le> quantize_2 x" "quantize_2 x \<le> 98 / 100"
proof -
  have "50 \<le> floor (x * 100 + 1 / 2)" using assms(1) by (simp add: le_floor_iff)
  then have "(50 :: rat) \<le> of_int (floor (x * 100 + 1 / 2))" by (metis of_int_le_iff of_int_numeral)
  then show "1 / 2 \<le> quantize_2 x" by (simp add: quantize_2_def)
  have "floor (x * 100 + 1 / 2) \<le> 98" using assms(2) by (simp add: floor_le_iff)
  then have "of_int (floor (x * 100 + 1 / 2)) \<le> (98 :: rat)" by (metis of_int_le_iff of_int_numeral)
  then show "quantize_2 x \<le> 98 / 100" by (simp add: quantize_2_def)
qed

lemma quantize_2_mono: "x \<le> y \<Longrightarrow> quantize_2 x \<le> quantize_2 y"
  by (simp add: quantize_2_def divide_right_mono floor_mono)

section \<open>Properties\<close>

text \<open>
  C19. Automatic detection never undoes an operator's decision: whatever a run of
  \<open>_get_or_create_auto_rule\<close> meets on the way (database errors, inserts by concurrent
  processes), a rule under its key that was confirmed or rejected is still there afterwards
  with the same review status and the same active flag.
\<close>

theorem auto_rule_respects_review:
  assumes "rivals_insert E" and "wf_table (BlockRules w)" and "r \<in> set (BlockRules w)"
    and "br_source r = AUTO" and "br_review_status r \<in> {CONFIRMED, REJECTED}"
  shows "\<exists>q \<in> set (BlockRules (snd (get_or_create_auto_rule cf E name (br_rule_type r) match_type
           (br_pattern r) (br_action r) expires dry_run detector_name confidence evidence refresh w))).
     br_id q = br_id r \<and> br_is_active q = br_is_active r \<and> br_review_status q = br_review_status r"
proof -
  let ?lk = "\<lparr>lk_rule_type = br_rule_type r, lk_pattern = br_pattern r, lk_action = br_action r\<rparr>"
  let ?D = "decided ?lk (br_id r) (br_is_active r) (br_review_status r)"
  have w: "?D w" using assms by (intro decided_start) (simp_all add: has_key_def)
  have "?D (snd (get_or_create_auto_rule cf E name (br_rule_type r) match_type (br_pattern r) (br_action r)
      expires dry_run detector_name confidence evidence refresh w))"
    using preview_decided [OF assms(1)] write_decided [OF assms(1) w] w
    by (simp add: get_or_create_auto_rule_def Let_def keeps_def)
  then show ?thesis by (rule decided_row)
qed

theorem auto_rule_respects_review_witness:
  "\<exists>q \<in> set (BlockRules (snd (get_or_create_auto_rule default_conf demo_env ''again'' ''ip'' ''exact''
       ''203.0.113.9'' ''block'' 5000 False ''challenge_escalation'' None None False
       (empty_world\<lparr>BlockRules := [example_rule\<lparr>br_is_active := False, br_review_status := REJECTED\<rparr>]\<rparr>)))).
     br_id q = 7 \<and> br_is_active q = False \<and> br_review_status q = REJECTED"
proof -
  let ?r = "example_rule\<lparr>br_is_active := False, br_review_status := REJECTED\<rparr>"
  let ?w = "empty_world\<lparr>BlockRules := [?r]\<rparr>"
  have "rivals_insert demo_env" by (simp add: rivals_insert_def demo_env_def)
  moreover have "wf_table (BlockRules ?w)" by (simp add: wf_table_def)
  moreover have "?r \<in> set (BlockRules ?w)" "br_source ?r = AUTO" "br_review_status ?r \<in> {CONFIRMED, REJECTED}"
    by (simp_all add: example_rule_def)
  ultimately have "\<exists>q \<in> set (BlockRules (snd (get_or_create_auto_rule default_conf demo_env ''again''
       (br_rule_type ?r) ''exact'' (br_pattern ?r) (br_action ?r) 5000 False ''challenge_escalation'' None None False ?w))).
     br_id q = br_id ?r \<and> br_is_active q = br_is_active ?r \<and> br_review_status q = br_review_status ?r"
    by (rule auto_rule_respects_review)
  then show ?thesis by (simp add: example_rule_def)
qed

text \<open>
  Provenance only grows: merging a detector's name into a stored value keeps every name
  the value held, adds the new one, and leaves the names sorted and without repetition.
\<close>

theorem merge_detector_names_additive:
  assumes "CHR '','' \<notin> set detector_name"
  shows "set (detector_names (merge_detector_names existing detector_name)) =
      set (detector_names existing) \<union> (if detector_name = [] then {} else {detector_name}) \<and>
    sorted (detector_names (merge_detector_names existing detector_name)) \<and>
    distinct (detector_names (merge_detector_names existing detector_name))"
proof -
  let ?ns = "detector_names existing @ (if detector_name \<noteq> [] then [detector_name] else [])"
  have "detector_names (merge_detector_names existing detector_name) = sort (remdups ?ns)"
    unfolding merge_detector_names_def Let_def
    by (rule detector_names_join) (use assms detector_names_ok in \<open>auto split: if_splits\<close>)
  then show ?thesis by auto
qed

theorem merge_detector_names_additive_witness:
  "set (detector_names (merge_detector_names ''ua_rotation'' ''cloud_spray'')) =
     set (detector_names ''ua_rotation'') \<union> {''cloud_spray''}"
  using merge_detector_names_additive [of "''cloud_spray''" "''ua_rotation''"] by simp

text \<open>
  The confidence of an automatic rule lies between 0.50 and 0.98, so it never reaches
  0.99, and it does not fall when the measured value rises, whatever the thresholds and even
  for a span that is zero or negative.
\<close>

theorem scaled_confidence_bounds:
  "1 / 2 \<le> scaled_confidence observed threshold margin_span \<and>
   scaled_confidence observed threshold margin_span \<le> 98 / 100 \<and>
   scaled_confidence (min observed observed') threshold margin_span
     \<le> scaled_confidence observed' threshold margin_span"
proof -
  let ?c = "\<lambda>x. min (984 / 1000) (max (1 / 2) (1 / 2 + (x - threshold) / (if 0 < margin_span then margin_span else 1)))"
  have "1 / 2 \<le> ?c x \<and> ?c x \<le> 984 / 1000" for x by (intro conjI min.cobounded1) simp
  moreover have "?c (min observed observed') \<le> ?c observed'"
    by (intro min.mono max.mono add_left_mono divide_right_mono) auto
  moreover have eq: "scaled_confidence x threshold margin_span = quantize_2 (?c x)" for x
    by (simp add: scaled_confidence_def Let_def)
  ultimately show ?thesis unfolding eq using quantize_2_bounds quantize_2_mono by blast
qed

end
