(* ===== verification/RateLimiter.thy ===== *)
theory RateLimiter
  imports Conf RedisStore
begin

text \<open>
  \<open>services/rate_limiter.py\<close>: the Redis sliding windows. The five pipelined commands of a
  window are sent as one batch (\<open>window_hit\<close>); the three callers differ in the key, the
  limit and the result. \<open>sha1\<close> (the hexadecimal digest that shortens a path prefix in a key)
  is a parameter. The specification at the end of the file works on the set of time stamps
  recorded under each key; the refinement lemmas connect it to the Redis commands.
\<close>

record RateLimitResult =
  exceeded :: bool
  window :: "string option"
  retry_after :: "int option"

definition not_exceeded :: RateLimitResult where
  "not_exceeded = \<lparr>exceeded = False, window = None, retry_after = None\<rparr>"

definition WINDOWS :: "(string \<times> int) list" where
  "WINDOWS = [(''1s'', 1), (''1m'', 60), (''5m'', 300)]"

section \<open>Operations\<close>

definition py_trunc :: "rat \<Rightarrow> int" where
  "py_trunc q = (if 0 \<le> q then floor q else ceiling q)"

text \<open>\<open>str(now)\<close> of a float: only used as the member name of a time stamp, so any
  injective text will do; here numerator and denominator.\<close>

definition float_text :: "rat \<Rightarrow> string" where
  "float_text q = (case quotient_of q of (a, b) \<Rightarrow> str_int a @ CHR ''/'' # str_int b)"

definition retry_after_from_oldest :: "(string \<times> rat) list \<Rightarrow> int \<Rightarrow> rat \<Rightarrow> int" where
  "retry_after_from_oldest oldest_in_window window_seconds now =
     (case oldest_in_window of
        [] \<Rightarrow> max 1 window_seconds
      | (_, oldest_timestamp) # _ \<Rightarrow>
          max 1 (py_trunc (oldest_timestamp + of_int window_seconds - now)))"

fun entry_applies_to_method :: "rate_entry \<Rightarrow> string \<Rightarrow> bool" where
  "entry_applies_to_method (_, _, None) http_method = True"
| "entry_applies_to_method (_, _, Some methods) http_method =
     (if http_method = [] then False else http_method \<in> set (map upper methods))"

definition window_hit :: "'r redis \<Rightarrow> string \<Rightarrow> rat \<Rightarrow> int \<Rightarrow> int \<Rightarrow> ('r, int \<times> (string \<times> rat) list) py" where
  "window_hit C key now window_seconds ttl r =
     (case C [ZADD key (float_text now) now,
              ZREMRANGEBYSCORE key 0 (now - of_int window_seconds),
              ZCARD key, ZFIRST key, EXPIRE key ttl] r of
        (Inl e, r') \<Rightarrow> (Inl e, r')
      | (Inr [_, _, IntR count, ScoredR oldest, _], r') \<Rightarrow> (Inr (count, oldest), r')
      | (Inr _, r') \<Rightarrow> (Inl RedisError, r'))"

definition candidate_prefixes :: "(string \<times> rate_entry) list \<Rightarrow> string \<Rightarrow> string list" where
  "candidate_prefixes rate_limit_paths path =
     sort_key (\<lambda>p. - int (length p)) (filter (startswith path) (map fst rate_limit_paths))"

definition match_rate_path ::
  "(string \<times> rate_entry) list \<Rightarrow> string \<Rightarrow> string \<Rightarrow> (string \<times> rate_entry) option" where
  "match_rate_path rate_limit_paths path http_method =
     (case find (\<lambda>p. case map_of rate_limit_paths p of
                     None \<Rightarrow> False | Some e \<Rightarrow> entry_applies_to_method e http_method)
             (candidate_prefixes rate_limit_paths path) of
        None \<Rightarrow> None
      | Some p \<Rightarrow> map_option (\<lambda>e. (p, e)) (map_of rate_limit_paths p))"

definition path_key :: "(string \<Rightarrow> string) \<Rightarrow> string \<Rightarrow> string \<Rightarrow> string" where
  "path_key sha1 ip_address prefix = ''waf:rate:'' @ ip_address @ '':path:'' @ take 12 (sha1 prefix)"

definition check_path_rate_limit ::
  "conf \<Rightarrow> (string \<Rightarrow> string) \<Rightarrow> 'r redis \<Rightarrow> string \<Rightarrow> string \<Rightarrow> rat \<Rightarrow> string \<Rightarrow>
   ('r, RateLimitResult option) py" where
  "check_path_rate_limit cf sha1 C ip_address path now http_method =
     (if path = [] \<or> DJANGO_WAF_RATE_LIMIT_PATHS cf = [] then ret None
      else (case match_rate_path (DJANGO_WAF_RATE_LIMIT_PATHS cf) path (upper http_method) of
          None \<Rightarrow> ret None
        | Some (prefix, max_requests, window_seconds, _) \<Rightarrow>
            andThen (window_hit C (path_key sha1 ip_address prefix) now window_seconds (window_seconds + 10))
              (\<lambda>(count, oldest).
                 if max_requests < count
                 then ret (Some \<lparr>exceeded = True, window = Some ''path'',
                        retry_after = Some (retry_after_from_oldest oldest window_seconds now)\<rparr>)
                 else ret None)))"

definition verify_key :: "string \<Rightarrow> string" where
  "verify_key ip_address = ''waf:rate:verify:'' @ ip_address"

definition check_verify_rate_limit ::
  "conf \<Rightarrow> 'r redis \<Rightarrow> rat \<Rightarrow> string \<Rightarrow> ('r, RateLimitResult) py" where
  "check_verify_rate_limit cf C now ip_address =
     (let max_requests = DJANGO_WAF_VERIFY_RATE_LIMIT_MAX cf;
          window_seconds = DJANGO_WAF_VERIFY_RATE_LIMIT_WINDOW_SECONDS cf
      in andThen (window_hit C (verify_key ip_address) now window_seconds (window_seconds + 10))
           (\<lambda>(count, oldest).
              if max_requests < count
              then ret \<lparr>exceeded = True, window = Some ''verify'',
                     retry_after = Some (retry_after_from_oldest oldest window_seconds now)\<rparr>
              else ret not_exceeded))"

definition threshold_of :: "conf \<Rightarrow> string \<Rightarrow> int" where
  "threshold_of cf name = (if name = ''1s'' then DJANGO_WAF_RATE_LIMIT_BURST cf
     else if name = ''1m'' then DJANGO_WAF_RATE_LIMIT_PER_MINUTE cf
     else DJANGO_WAF_RATE_LIMIT_PER_5MIN cf)"

definition ttl_buffer :: "string \<Rightarrow> int" where
  "ttl_buffer name = (if name = ''1s'' then 2 else 10)"

definition window_key :: "string \<Rightarrow> string \<Rightarrow> string" where
  "window_key ip_address name = ''waf:rate:'' @ ip_address @ '':'' @ name"

fun check_windows ::
  "conf \<Rightarrow> 'r redis \<Rightarrow> string \<Rightarrow> rat \<Rightarrow> (string \<times> int) list \<Rightarrow> ('r, RateLimitResult) py" where
  "check_windows cf C ip_address now [] = ret not_exceeded"
| "check_windows cf C ip_address now ((window_name, window_seconds) # ws) =
     andThen (window_hit C (window_key ip_address window_name) now window_seconds
                (window_seconds + ttl_buffer window_name))
       (\<lambda>(count, oldest).
          if threshold_of cf window_name < count
          then ret \<lparr>exceeded = True, window = Some window_name,
                 retry_after = Some (retry_after_from_oldest oldest window_seconds now)\<rparr>
          else check_windows cf C ip_address now ws)"

definition check_rate_limit ::
  "conf \<Rightarrow> (string \<Rightarrow> string) \<Rightarrow> 'r redis \<Rightarrow> rat \<Rightarrow> string \<Rightarrow> string \<Rightarrow> string \<Rightarrow>
   ('r, RateLimitResult) py" where
  "check_rate_limit cf sha1 C now ip_address path http_method =
     andThen (check_path_rate_limit cf sha1 C ip_address path now http_method)
       (\<lambda>path_result. case path_result of
            Some result \<Rightarrow> ret result
          | None \<Rightarrow> check_windows cf C ip_address now WINDOWS)"

definition get_request_count :: "'r redis \<Rightarrow> rat \<Rightarrow> string \<Rightarrow> string \<Rightarrow> ('r, int) py" where
  "get_request_count C now ip_address name =
     (let window_seconds = (case map_of WINDOWS name of None \<Rightarrow> 60 | Some w \<Rightarrow> w)
      in r_int C (ZCOUNT (window_key ip_address name) (now - of_int window_seconds)))"

section \<open>Choosing the path entry\<close>

definition applicable :: "(string \<times> rate_entry) list \<Rightarrow> string \<Rightarrow> string \<Rightarrow> string \<Rightarrow> bool" where
  "applicable paths path m p \<longleftrightarrow> startswith path p \<and>
     (\<exists>e. map_of paths p = Some e \<and> entry_applies_to_method e m)"

lemma set_candidate_prefixes:
  "p \<in> set (candidate_prefixes paths path) \<longleftrightarrow> p \<in> fst ` set paths \<and> startswith path p"
  by (auto simp: candidate_prefixes_def)

lemma map_of_in_fst: "map_of xs k = Some v \<Longrightarrow> k \<in> fst ` set xs"
  by (metis map_of_eq_None_iff option.distinct(1))

lemma applicable_candidate:
  "applicable paths path m p \<Longrightarrow> p \<in> set (candidate_prefixes paths path)"
  unfolding applicable_def set_candidate_prefixes by (auto intro: map_of_in_fst)

lemma match_rate_path_None:
  "match_rate_path paths path m = None \<longleftrightarrow> (\<forall>p. \<not> applicable paths path m p)"
proof -
  have "match_rate_path paths path m = None \<longleftrightarrow>
      (\<forall>p \<in> set (candidate_prefixes paths path).
         \<not> (case map_of paths p of None \<Rightarrow> False | Some e \<Rightarrow> entry_applies_to_method e m))"
    by (auto simp: match_rate_path_def find_None_iff find_Some_split split: option.splits)
  also have "\<dots> \<longleftrightarrow> (\<forall>p. \<not> applicable paths path m p)"
  proof
    assume h: "\<forall>p \<in> set (candidate_prefixes paths path).
         \<not> (case map_of paths p of None \<Rightarrow> False | Some e \<Rightarrow> entry_applies_to_method e m)"
    show "\<forall>p. \<not> applicable paths path m p"
    proof (intro allI notI)
      fix p assume "applicable paths path m p"
      from applicable_candidate [OF this] this h show False by (auto simp: applicable_def)
    qed
  next
    assume "\<forall>p. \<not> applicable paths path m p"
    then show "\<forall>p \<in> set (candidate_prefixes paths path).
         \<not> (case map_of paths p of None \<Rightarrow> False | Some e \<Rightarrow> entry_applies_to_method e m)"
      by (auto simp: applicable_def set_candidate_prefixes split: option.splits)
  qed
  finally show ?thesis .
qed

lemma match_rate_path_Some:
  assumes "match_rate_path paths path m = Some (p, e)"
  shows "applicable paths path m p \<and> map_of paths p = Some e \<and>
     (\<forall>q. applicable paths path m q \<longrightarrow> length q \<le> length p)"
proof -
  let ?ok = "\<lambda>p. case map_of paths p of None \<Rightarrow> False | Some e \<Rightarrow> entry_applies_to_method e m"
  let ?cs = "candidate_prefixes paths path"
  from assms obtain e' where f: "find ?ok ?cs = Some p" and e: "map_of paths p = Some e"
    by (auto simp: match_rate_path_def split: option.splits)
  from f obtain ys zs where cs: "?cs = ys @ p # zs" "?ok p" "\<forall>y \<in> set ys. \<not> ?ok y"
    by (auto simp: find_Some_split)
  have ap: "applicable paths path m p"
    using cs e set_candidate_prefixes [of p paths path] by (auto simp: applicable_def)
  have "length q \<le> length p" if "applicable paths path m q" for q
  proof -
    from that have q: "q \<in> set ?cs" "?ok q"
      using applicable_candidate [OF that] by (auto simp: applicable_def)
    with cs have "q \<in> set (p # zs)" by auto
    moreover have "sorted (map (\<lambda>p. - int (length p)) (ys @ p # zs))"
      using cs(1) unfolding candidate_prefixes_def by (metis sorted_sort_key)
    ultimately show ?thesis by (auto simp: sorted_append)
  qed
  with ap e show ?thesis by blast
qed

text \<open>
  The per-path limit that applies is the one of the longest configured prefix whose
  method scope covers the request: a longer prefix scoped to other methods is skipped, and
  no path limit applies only when no prefix is applicable at all.
\<close>

theorem match_rate_path_longest_applicable:
  "(match_rate_path paths path m = None \<and> (\<forall>p. \<not> applicable paths path m p)) \<or>
   (\<exists>p e. match_rate_path paths path m = Some (p, e) \<and> applicable paths path m p \<and>
      map_of paths p = Some e \<and> length p = Max (length ` {q. applicable paths path m q}))"
proof (cases "match_rate_path paths path m")
  case None
  then show ?thesis by (simp add: match_rate_path_None)
next
  case (Some a)
  then obtain p e where pe: "match_rate_path paths path m = Some (p, e)" by (cases a) auto
  note s = match_rate_path_Some [OF pe]
  have "finite {q. applicable paths path m q}"
    by (rule finite_subset [of _ "fst ` set paths"]) (auto simp: applicable_def intro: map_of_in_fst)
  then have "length p = Max (length ` {q. applicable paths path m q})"
    using s by (intro Max_eqI [symmetric]) auto
  with s pe show ?thesis by blast
qed

section \<open>Specification on time stamps\<close>

type_synonym history = "string \<Rightarrow> rat set"

definition hit :: "rat \<Rightarrow> int \<Rightarrow> rat set \<Rightarrow> rat set" where
  "hit now w T = {t \<in> insert now T. now - of_int w < t}"

definition retry_spec :: "rat set \<Rightarrow> int \<Rightarrow> rat \<Rightarrow> int" where
  "retry_spec T w now = max 1 (py_trunc (Min T + of_int w - now))"

fun windows_spec :: "conf \<Rightarrow> string \<Rightarrow> rat \<Rightarrow> (string \<times> int) list \<Rightarrow> history \<Rightarrow> RateLimitResult \<times> history" where
  "windows_spec cf ip now [] H = (not_exceeded, H)"
| "windows_spec cf ip now ((name, w) # ws) H =
     (let k = window_key ip name; T = hit now w (H k); H' = H(k := T)
      in if threshold_of cf name < int (card T)
         then (\<lparr>exceeded = True, window = Some name, retry_after = Some (retry_spec T w now)\<rparr>, H')
         else windows_spec cf ip now ws H')"

definition rate_limit_spec ::
  "conf \<Rightarrow> (string \<Rightarrow> string) \<Rightarrow> rat \<Rightarrow> string \<Rightarrow> string \<Rightarrow> string \<Rightarrow> history \<Rightarrow> RateLimitResult \<times> history" where
  "rate_limit_spec cf sha1 now ip path m H =
     (case (if path = [] then None else match_rate_path (DJANGO_WAF_RATE_LIMIT_PATHS cf) path (upper m)) of
        None \<Rightarrow> windows_spec cf ip now WINDOWS H
      | Some (p, limit, w, _) \<Rightarrow>
          (let k = path_key sha1 ip p; T = hit now w (H k); H' = H(k := T)
           in if limit < int (card T)
              then (\<lparr>exceeded = True, window = Some ''path'', retry_after = Some (retry_spec T w now)\<rparr>, H')
              else windows_spec cf ip now WINDOWS H'))"

section \<open>Refinement\<close>

definition wf_window :: "(string \<times> rat) list \<Rightarrow> bool" where
  "wf_window z \<longleftrightarrow> distinct (map snd z) \<and> (\<forall>(m, t) \<in> set z. m = float_text t \<and> 0 \<le> t)"

definition history_of :: "store \<Rightarrow> history" where
  "history_of s k = (case zset_of s k of None \<Rightarrow> {} | Some z \<Rightarrow> snd ` set z)"

text \<open>Every rate-limit key is absent or a sorted set of time stamps named by themselves.\<close>

definition rate_store :: "store \<Rightarrow> bool" where
  "rate_store s \<longleftrightarrow> (\<forall>k. startswith k ''waf:rate:'' \<longrightarrow> (\<exists>z. zset_of s k = Some z \<and> wf_window z))"

lemma float_text_inject [simp]: "float_text a = float_text b \<longleftrightarrow> a = b"
proof
  obtain n d n' d' where q: "quotient_of a = (n, d)" "quotient_of b = (n', d')"
    by (meson prod.exhaust)
  assume "float_text a = float_text b"
  then have "str_int n @ CHR ''/'' # str_int d = str_int n' @ CHR ''/'' # str_int d'"
    by (simp add: float_text_def q)
  then have "cut ''/'' (str_int n @ CHR ''/'' # str_int d) = cut ''/'' (str_int n' @ CHR ''/'' # str_int d')"
    by simp
  then have "n = n' \<and> d = d'" by (simp add: cut_char slash_notin_str_int)
  then show "a = b" using q by (metis quotient_of_inject)
qed simp

lemma snd_zadd:
  assumes "wf_window z"
  shows "snd ` set (zadd (float_text now) now z) = insert now (snd ` set z)"
  using assms by (auto simp: zadd_def wf_window_def image_iff)

lemma wf_zadd: "wf_window z \<Longrightarrow> 0 \<le> now \<Longrightarrow> wf_window (zadd (float_text now) now z)"
  by (auto simp: wf_window_def zadd_def distinct_map inj_on_def image_iff split: prod.splits)

lemma wf_filter: "wf_window z \<Longrightarrow> wf_window (filter P z)"
  by (auto simp: wf_window_def distinct_map_filter)

lemma wf_length: "wf_window z \<Longrightarrow> length z = card (snd ` set z)"
  by (metis distinct_card length_map list.set_map wf_window_def)

lemma zset_of_put:
  "zset_of (put k (RZSet z) (Some t) s) j =
     (if j = k then Some (if clock s < t then z else []) else zset_of s j)"
  by (simp add: zset_of_def live_put)

lemma zmin_Min: "z \<noteq> [] \<Longrightarrow> \<exists>m. zmin z = [(m, Min (snd ` set z))]"
proof -
  assume "z \<noteq> []"
  then obtain x ys where x: "zmin z = x # ys" by (meson list.exhaust zmin_Nil)
  from zmin_spec [OF x] have "ys = []" "x \<in> set z" "\<forall>y \<in> set z. snd x \<le> snd y" by auto
  then have "Min (snd ` set z) = snd x" by (intro Min_eqI) auto
  with x \<open>ys = []\<close> show ?thesis by (cases x) auto
qed

definition trim :: "rat \<Rightarrow> int \<Rightarrow> (string \<times> rat) list \<Rightarrow> (string \<times> rat) list" where
  "trim now w z = filter (\<lambda>x. \<not> (0 \<le> snd x \<and> snd x \<le> now - of_int w)) (zadd (float_text now) now z)"

lemma trim_facts:
  assumes wf: "wf_window z" and now: "0 \<le> now" and w: "0 < w"
  shows "wf_window (trim now w z)" and "trim now w z \<noteq> []"
    and "snd ` set (trim now w z) = hit now w (snd ` set z)"
proof -
  show wf': "wf_window (trim now w z)"
    unfolding trim_def by (intro wf_filter wf_zadd wf now)
  have nn: "0 \<le> t" if "t \<in> snd ` set (zadd (float_text now) now z)" for t
    using that wf_zadd [OF wf now] by (auto simp: wf_window_def)
  have "snd ` set (trim now w z) = {t \<in> snd ` set (zadd (float_text now) now z). now - of_int w < t}"
    unfolding trim_def using nn by (auto simp: image_iff)
  then show s: "snd ` set (trim now w z) = hit now w (snd ` set z)"
    by (simp add: snd_zadd [OF wf] hit_def)
  have "now \<in> snd ` set (trim now w z)" unfolding s using w by (simp add: hit_def)
  then show "trim now w z \<noteq> []" by auto
qed

context redis_up
begin

lemma window_hit_refines:
  assumes ok: "rate_store (store_of r)" and k: "startswith k ''waf:rate:''"
    and now: "0 \<le> now" and w: "0 < w" and ttl: "0 < ttl"
  defines "T \<equiv> hit now w (history_of (store_of r) k)"
  shows "\<exists>r' m. window_hit exec k now w ttl r = (Inr (int (card T), [(m, Min T)]), r') \<and>
     rate_store (store_of r') \<and> history_of (store_of r') = (history_of (store_of r))(k := T)"
proof -
  let ?s = "store_of r"
  from ok k obtain z where z: "zset_of ?s k = Some z" and wf: "wf_window z"
    by (auto simp: rate_store_def)
  define s1 where "s1 = zput k (zadd (float_text now) now z) ?s"
  define s2 where "s2 = zput k (trim now w z) s1"
  define s3 where "s3 = put k (RZSet (trim now w z)) (Some (clock s2 + of_int ttl)) s2"
  note tf = trim_facts [OF wf now w]
  have T: "T = snd ` set (trim now w z)" unfolding T_def using tf(3) z by (simp add: history_of_def)
  obtain m where m: "zmin (trim now w z) = [(m, Min T)]" using zmin_Min [OF tf(2)] T by auto
  have z2: "zset_of s2 k = Some (trim now w z)" by (simp add: s2_def)
  have l2: "live s2 k = Some (RZSet (trim now w z))"
    using tf(2) by (simp add: s2_def zput_def)
  obtain a b where run: "run_cmds [ZADD k (float_text now) now,
       ZREMRANGEBYSCORE k 0 (now - of_int w), ZCARD k, ZFIRST k, EXPIRE k ttl] ?s =
     ([IntR a, IntR b, IntR (int (card T)), ScoredR [(m, Min T)], IntR 1], s3)"
    using z z2 l2 m ttl wf_length [OF tf(1)] T
    by (simp add: Let_def s1_def s2_def s3_def trim_def split: if_splits)
  from up_run [OF run] obtain r' where e: "window_hit exec k now w ttl r = (Inr (int (card T), [(m, Min T)]), r')"
    and s': "store_of r' = s3" by (auto simp: window_hit_def)
  have zs: "zset_of s3 j = (if j = k then Some (trim now w z) else zset_of ?s j)" for j
    using ttl by (simp add: s3_def zset_of_put s2_def s1_def)
  have "rate_store s3" using ok tf(1) by (auto simp: rate_store_def zs)
  moreover have "history_of s3 = (history_of ?s)(k := T)"
    by (auto simp: history_of_def zs T fun_eq_iff)
  ultimately show ?thesis using e s' by blast
qed

lemma check_windows_refines:
  assumes "rate_store (store_of r)" and "0 \<le> now" and "\<forall>(n, w) \<in> set ws. 0 < w"
  shows "\<exists>r'. check_windows cf exec ip now ws r =
       (Inr (fst (windows_spec cf ip now ws (history_of (store_of r)))), r') \<and>
     rate_store (store_of r') \<and>
     history_of (store_of r') = snd (windows_spec cf ip now ws (history_of (store_of r)))"
  using assms
proof (induction ws arbitrary: r)
  case Nil
  then show ?case by simp
next
  case (Cons a ws)
  obtain name w where a: "a = (name, w)" by (cases a)
  let ?k = "window_key ip name" and ?H = "history_of (store_of r)"
  let ?T = "hit now w (?H ?k)"
  have k: "startswith ?k ''waf:rate:''" by (simp add: window_key_def startswith_def)
  have w: "0 < w" and ttl: "0 < w + ttl_buffer name" using Cons.prems a by (auto simp: ttl_buffer_def)
  define H' where "H' = ?H(?k := ?T)"
  from window_hit_refines [OF Cons.prems(1) k Cons.prems(2) w ttl]
  obtain r1 m where h: "window_hit exec ?k now w (w + ttl_buffer name) r =
      (Inr (int (card ?T), [(m, Min ?T)]), r1)" and r1: "rate_store (store_of r1)"
    and H1: "history_of (store_of r1) = H'" unfolding H'_def by blast
  have spec: "windows_spec cf ip now (a # ws) ?H = (if threshold_of cf name < int (card ?T)
      then (\<lparr>exceeded = True, window = Some name, retry_after = Some (retry_spec ?T w now)\<rparr>, H')
      else windows_spec cf ip now ws H')"
    by (simp add: a H'_def Let_def)
  show ?case
  proof (cases "threshold_of cf name < int (card ?T)")
    case True
    with h r1 H1 show ?thesis unfolding spec
      by (simp add: a retry_after_from_oldest_def retry_spec_def)
  next
    case False
    from Cons.IH [OF r1 Cons.prems(2)] Cons.prems(3) obtain r' where
      "check_windows cf exec ip now ws r1 = (Inr (fst (windows_spec cf ip now ws H')), r')"
      "rate_store (store_of r')"
      "history_of (store_of r') = snd (windows_spec cf ip now ws H')"
      unfolding H1 by auto
    with False h show ?thesis unfolding spec by (simp add: a)
  qed
qed

lemma check_rate_limit_refines:
  assumes ok: "rate_store (store_of r)" and now: "0 \<le> now"
    and cfg: "\<forall>(p, l, w, ms) \<in> set (DJANGO_WAF_RATE_LIMIT_PATHS cf). 0 < w"
  shows "\<exists>r'. check_rate_limit cf sha1 exec now ip path m r =
       (Inr (fst (rate_limit_spec cf sha1 now ip path m (history_of (store_of r)))), r') \<and>
     rate_store (store_of r') \<and>
     history_of (store_of r') = snd (rate_limit_spec cf sha1 now ip path m (history_of (store_of r)))"
proof -
  let ?paths = "DJANGO_WAF_RATE_LIMIT_PATHS cf"
  let ?match = "if path = [] then None else match_rate_path ?paths path (upper m)"
  have ws: "\<forall>(n, w) \<in> set WINDOWS. 0 < w" by (simp add: WINDOWS_def)
  note win = check_windows_refines [OF _ now ws, of _ cf ip]
  have nil: "match_rate_path [] path (upper m) = None"
    by (simp add: match_rate_path_def candidate_prefixes_def)
  show ?thesis
  proof (cases ?match)
    case None
    then have "check_path_rate_limit cf sha1 exec ip path now m r = (Inr None, r)"
      by (auto simp: check_path_rate_limit_def split: if_splits)
    with win [OF ok] None show ?thesis
      by (auto simp: check_rate_limit_def rate_limit_spec_def simp del: check_windows.simps windows_spec.simps)
  next
    case (Some x)
    then obtain p l w ms where x: "x = (p, l, w, ms)" by (cases x)
    with Some have pm: "path \<noteq> []" "match_rate_path ?paths path (upper m) = Some (p, l, w, ms)"
      by (auto split: if_splits)
    from match_rate_path_Some [OF pm(2)] have "map_of ?paths p = Some (l, w, ms)" by blast
    then have w: "0 < w" using cfg by (auto dest: map_of_SomeD)
    let ?k = "path_key sha1 ip p" and ?H = "history_of (store_of r)"
    let ?T = "hit now w (?H ?k)"
    define H' where "H' = ?H(?k := ?T)"
    have k: "startswith ?k ''waf:rate:''" by (simp add: path_key_def startswith_def)
    from w have ttl: "0 < w + 10" by simp
    from window_hit_refines [OF ok k now w ttl] obtain r1 mm where
      h: "window_hit exec ?k now w (w + 10) r = (Inr (int (card ?T), [(mm, Min ?T)]), r1)"
      and r1: "rate_store (store_of r1)" and H1: "history_of (store_of r1) = H'"
      unfolding H'_def by blast
    have spec: "rate_limit_spec cf sha1 now ip path m ?H = (if l < int (card ?T)
        then (\<lparr>exceeded = True, window = Some ''path'', retry_after = Some (retry_spec ?T w now)\<rparr>, H')
        else windows_spec cf ip now WINDOWS H')"
      using pm by (simp add: rate_limit_spec_def H'_def Let_def)
    have ne: "?paths \<noteq> []" using pm(2) nil by auto
    show ?thesis
    proof (cases "l < int (card ?T)")
      case True
      then have "check_path_rate_limit cf sha1 exec ip path now m r = (Inr (Some \<lparr>exceeded = True,
          window = Some ''path'', retry_after = Some (retry_spec ?T w now)\<rparr>), r1)"
        using h pm ne by (simp add: check_path_rate_limit_def retry_after_from_oldest_def retry_spec_def)
      with True r1 H1 show ?thesis unfolding spec by (simp add: check_rate_limit_def)
    next
      case False
      then have c: "check_path_rate_limit cf sha1 exec ip path now m r = (Inr None, r1)"
        using h pm ne by (simp add: check_path_rate_limit_def)
      from win [OF r1] False c show ?thesis unfolding spec H1
        by (auto simp: check_rate_limit_def simp del: check_windows.simps windows_spec.simps)
    qed
  qed
qed

end

section \<open>Properties\<close>

lemma window_key_inject [simp]: "window_key ip a = window_key ip b \<longleftrightarrow> a = b"
  by (simp add: window_key_def)

lemma path_key_neq_window_key: "n \<in> fst ` set WINDOWS \<Longrightarrow> path_key sha1 ip p \<noteq> window_key ip n"
  by (auto simp: path_key_def window_key_def WINDOWS_def)

definition over_windows :: "conf \<Rightarrow> string \<Rightarrow> rat \<Rightarrow> (string \<times> int) list \<Rightarrow> history \<Rightarrow> bool" where
  "over_windows cf ip now ws H \<longleftrightarrow>
     (\<exists>(n, w) \<in> set ws. threshold_of cf n < int (card (hit now w (H (window_key ip n)))))"

definition over_path :: "conf \<Rightarrow> (string \<Rightarrow> string) \<Rightarrow> rat \<Rightarrow> string \<Rightarrow> string \<Rightarrow> string \<Rightarrow> history \<Rightarrow> bool" where
  "over_path cf sha1 now ip path m H \<longleftrightarrow> path \<noteq> [] \<and>
     (case match_rate_path (DJANGO_WAF_RATE_LIMIT_PATHS cf) path (upper m) of
        None \<Rightarrow> False
      | Some (p, l, w, _) \<Rightarrow> l < int (card (hit now w (H (path_key sha1 ip p)))))"

definition window_length :: "conf \<Rightarrow> string \<Rightarrow> string \<Rightarrow> string \<Rightarrow> int" where
  "window_length cf path m name =
     (case map_of WINDOWS name of
        Some w \<Rightarrow> w
      | None \<Rightarrow> (case match_rate_path (DJANGO_WAF_RATE_LIMIT_PATHS cf) path (upper m) of
          None \<Rightarrow> 0 | Some (p, l, w, _) \<Rightarrow> w))"

lemma over_windows_cong:
  assumes "\<And>n. n \<in> fst ` set ws \<Longrightarrow> H (window_key ip n) = G (window_key ip n)"
  shows "over_windows cf ip now ws H = over_windows cf ip now ws G"
  unfolding over_windows_def
proof (rule bex_cong [OF refl])
  fix x assume "x \<in> set ws"
  then have "H (window_key ip (fst x)) = G (window_key ip (fst x))" by (simp add: assms)
  then show "(case x of (n, w) \<Rightarrow> threshold_of cf n < int (card (hit now w (H (window_key ip n))))) =
      (case x of (n, w) \<Rightarrow> threshold_of cf n < int (card (hit now w (G (window_key ip n)))))"
    by (simp add: split_beta)
qed

lemma windows_spec_exceeded:
  "distinct (map fst ws) \<Longrightarrow>
   exceeded (fst (windows_spec cf ip now ws H)) \<longleftrightarrow> over_windows cf ip now ws H"
proof (induction ws arbitrary: H)
  case Nil
  then show ?case by (simp add: over_windows_def not_exceeded_def)
next
  case (Cons a ws)
  obtain n w where a: "a = (n, w)" by (cases a)
  have "over_windows cf ip now ws (H(window_key ip n := T)) = over_windows cf ip now ws H" for T
    using Cons.prems a by (intro over_windows_cong) auto
  with Cons show ?case by (simp add: a Let_def) (simp add: over_windows_def)
qed

lemma rate_limit_spec_exceeded:
  "exceeded (fst (rate_limit_spec cf sha1 now ip path m H)) \<longleftrightarrow>
     over_path cf sha1 now ip path m H \<or> over_windows cf ip now WINDOWS H"
proof -
  have d: "distinct (map fst WINDOWS)" by (simp add: WINDOWS_def)
  have "over_windows cf ip now WINDOWS (H(path_key sha1 ip p := T)) = over_windows cf ip now WINDOWS H" for p T
    by (rule over_windows_cong) (metis fun_upd_other path_key_neq_window_key)
  then show ?thesis
    by (auto simp: rate_limit_spec_def over_path_def Let_def windows_spec_exceeded [OF d]
        simp del: windows_spec.simps split: option.splits)
qed

lemma hit_Min:
  assumes "finite T" and "0 < w"
  shows "finite (hit now w T)" "now \<in> hit now w T" "Min (hit now w T) \<le> now"
proof -
  show f: "finite (hit now w T)" using assms(1) by (simp add: hit_def)
  show n: "now \<in> hit now w T" using assms(2) by (simp add: hit_def)
  show "Min (hit now w T) \<le> now" using f n by (rule Min_le)
qed

lemma retry_spec_bounds:
  assumes "finite T" and "0 < w"
  shows "1 \<le> retry_spec (hit now w T) w now \<and> retry_spec (hit now w T) w now \<le> w"
proof -
  let ?q = "Min (hit now w T) + of_int w - now"
  have "?q \<le> of_int w" using hit_Min(3) [OF assms] by simp
  then have "py_trunc ?q \<le> w" unfolding py_trunc_def by (auto simp: floor_le_iff ceiling_le_iff)
  then show ?thesis using assms(2) by (simp add: retry_spec_def)
qed

lemma windows_spec_retry:
  assumes "\<forall>k. finite (H k)" and "\<forall>(n, w) \<in> set ws. 0 < w" and "distinct (map fst ws)"
    and "exceeded (fst (windows_spec cf ip now ws H))"
  shows "\<exists>n ra. window (fst (windows_spec cf ip now ws H)) = Some n \<and>
     retry_after (fst (windows_spec cf ip now ws H)) = Some ra \<and> n \<in> fst ` set ws \<and>
     1 \<le> ra \<and> ra \<le> the (map_of ws n)"
  using assms
proof (induction ws arbitrary: H)
  case Nil
  then show ?case by (simp add: not_exceeded_def)
next
  case (Cons a ws)
  obtain n w where a: "a = (n, w)" by (cases a)
  have w: "0 < w" using Cons.prems a by auto
  define H' where "H' = H(window_key ip n := hit now w (H (window_key ip n)))"
  have spec: "windows_spec cf ip now (a # ws) H =
      (if threshold_of cf n < int (card (hit now w (H (window_key ip n))))
       then (\<lparr>exceeded = True, window = Some n,
              retry_after = Some (retry_spec (hit now w (H (window_key ip n))) w now)\<rparr>, H')
       else windows_spec cf ip now ws H')"
    by (simp add: a H'_def Let_def)
  have fin: "\<forall>k. finite (H' k)" using Cons.prems(1) by (auto simp: H'_def hit_def)
  show ?case
  proof (cases "threshold_of cf n < int (card (hit now w (H (window_key ip n))))")
    case True
    with retry_spec_bounds [of "H (window_key ip n)" w now] Cons.prems(1) w show ?thesis
      unfolding spec by (simp add: a)
  next
    case False
    then have eq: "windows_spec cf ip now (a # ws) H = windows_spec cf ip now ws H'"
      by (simp only: spec if_False)
    with Cons.prems(4) have "exceeded (fst (windows_spec cf ip now ws H'))" by metis
    with Cons.IH [OF fin] Cons.prems(2,3) obtain n' ra where
      "window (fst (windows_spec cf ip now ws H')) = Some n'"
      "retry_after (fst (windows_spec cf ip now ws H')) = Some ra" "n' \<in> fst ` set ws"
      "1 \<le> ra" "ra \<le> the (map_of ws n')" by auto
    moreover have "n' \<noteq> n" using Cons.prems(3) a \<open>n' \<in> fst ` set ws\<close> by auto
    ultimately have "window (fst (windows_spec cf ip now ws H')) = Some n' \<and>
       retry_after (fst (windows_spec cf ip now ws H')) = Some ra \<and> n' \<in> fst ` set (a # ws) \<and>
       1 \<le> ra \<and> ra \<le> the (map_of (a # ws) n')" by (simp add: a)
    then show ?thesis unfolding eq by blast
  qed
qed

lemma rate_limit_spec_retry:
  assumes fin: "\<forall>k. finite (H k)"
    and cfg: "\<forall>(p, l, w, ms) \<in> set (DJANGO_WAF_RATE_LIMIT_PATHS cf). 0 < w"
    and ex: "exceeded (fst (rate_limit_spec cf sha1 now ip path m H))"
  shows "\<exists>n ra. window (fst (rate_limit_spec cf sha1 now ip path m H)) = Some n \<and>
     retry_after (fst (rate_limit_spec cf sha1 now ip path m H)) = Some ra \<and>
     1 \<le> ra \<and> ra \<le> window_length cf path m n"
proof -
  let ?R = "rate_limit_spec cf sha1 now ip path m H"
  let ?match = "if path = [] then None else match_rate_path (DJANGO_WAF_RATE_LIMIT_PATHS cf) path (upper m)"
  have ws: "\<forall>(n, w) \<in> set WINDOWS. 0 < w" and d: "distinct (map fst WINDOWS)" by (simp_all add: WINDOWS_def)
  have win: "\<exists>n ra. window (fst W) = Some n \<and> retry_after (fst W) = Some ra \<and> 1 \<le> ra \<and> ra \<le> window_length cf path m n"
    if "W = windows_spec cf ip now WINDOWS H'" "exceeded (fst W)" "\<forall>k. finite (H' k)" for W H'
  proof -
    from windows_spec_retry [OF that(3) ws d, of cf ip now, folded that(1), OF that(2)] obtain n ra where
      n: "window (fst W) = Some n" "retry_after (fst W) = Some ra" "n \<in> fst ` set WINDOWS"
         "1 \<le> ra" "ra \<le> the (map_of WINDOWS n)" by blast
    then obtain w where "map_of WINDOWS n = Some w"
      by (metis map_of_eq_None_iff not_None_eq)
    with n show ?thesis by (simp add: window_length_def)
  qed
  show ?thesis
  proof (cases ?match)
    case None
    then have "?R = windows_spec cf ip now WINDOWS H" by (simp add: rate_limit_spec_def del: windows_spec.simps)
    with win fin ex show ?thesis by simp
  next
    case (Some x)
    then obtain p l w ms where x: "?match = Some (p, l, w, ms)" by (cases x) auto
    then have pm: "match_rate_path (DJANGO_WAF_RATE_LIMIT_PATHS cf) path (upper m) = Some (p, l, w, ms)"
      by (auto split: if_splits)
    have "map_of (DJANGO_WAF_RATE_LIMIT_PATHS cf) p = Some (l, w, ms)"
      using match_rate_path_Some [OF pm] by blast
    then have w: "0 < w" using cfg by (auto dest: map_of_SomeD)
    define T where "T = hit now w (H (path_key sha1 ip p))"
    define H' where "H' = H(path_key sha1 ip p := T)"
    have R: "?R = (if l < int (card T) then (\<lparr>exceeded = True, window = Some ''path'',
        retry_after = Some (retry_spec T w now)\<rparr>, H') else windows_spec cf ip now WINDOWS H')"
      using x by (simp add: rate_limit_spec_def Let_def T_def H'_def del: windows_spec.simps)
    have fin': "\<forall>k. finite (H' k)" using fin by (auto simp: H'_def T_def hit_def)
    have wl: "window_length cf path m ''path'' = w" using pm by (simp add: window_length_def WINDOWS_def)
    show ?thesis
    proof (cases "l < int (card T)")
      case True
      with retry_spec_bounds [of "H (path_key sha1 ip p)" w now] fin w wl show ?thesis
        by (simp add: R T_def)
    next
      case False
      with win [OF refl _ fin'] ex show ?thesis by (simp add: R del: windows_spec.simps)
    qed
  qed
qed

lemma hit_empty: "0 < w \<Longrightarrow> hit now w {} = {now}"
  by (auto simp: hit_def)

lemma history_of_fresh_store: "history_of fresh_store = (\<lambda>k. {})"
  by (simp add: fun_eq_iff history_of_def zset_of_def live_def fresh_store_def)

lemma rate_store_fresh_store: "rate_store fresh_store"
  by (simp add: rate_store_def fresh_store_def zset_of_def live_def wf_window_def)

lemma over_windows_fresh_store:
  "over_windows (default_conf\<lparr>DJANGO_WAF_RATE_LIMIT_BURST := 0\<rparr>) ip now WINDOWS (history_of fresh_store)"
  by (simp add: over_windows_def WINDOWS_def threshold_of_def history_of_fresh_store hit_empty)

lemma history_of_finite: "finite (history_of s k)"
  by (simp add: history_of_def split: option.splits)

text \<open>
  C35. The Redis pipelines implement the sliding-window specification: on a conforming and
  reachable server the rate limiter always returns, its answer is the one computed from the
  sets of request time stamps, and it leaves exactly the specified sets behind.
\<close>

theorem check_rate_limit_implements_spec:
  assumes "redis_up exec store_of" and "rate_store (store_of r)" and "0 \<le> now"
    and "\<forall>(p, l, w, ms) \<in> set (DJANGO_WAF_RATE_LIMIT_PATHS cf). 0 < w"
  shows "\<exists>r'. check_rate_limit cf sha1 exec now ip path m r =
       (Inr (fst (rate_limit_spec cf sha1 now ip path m (history_of (store_of r)))), r') \<and>
     rate_store (store_of r') \<and>
     history_of (store_of r') = snd (rate_limit_spec cf sha1 now ip path m (history_of (store_of r)))"
  using redis_up.check_rate_limit_refines [OF assms] .

theorem check_rate_limit_implements_spec_witness:
  "\<exists>r'. check_rate_limit default_conf (\<lambda>p. p) mem_exec 100 ''203.0.113.9'' ''/'' ''GET'' fresh_store =
       (Inr (fst (rate_limit_spec default_conf (\<lambda>p. p) 100 ''203.0.113.9'' ''/'' ''GET'' (history_of fresh_store))), r') \<and>
     rate_store r' \<and>
     history_of r' = snd (rate_limit_spec default_conf (\<lambda>p. p) 100 ''203.0.113.9'' ''/'' ''GET'' (history_of fresh_store))"
proof (rule check_rate_limit_implements_spec [where store_of = "\<lambda>s. s"])
  show "redis_up mem_exec (\<lambda>s. s)" by (rule mem.redis_up_axioms)
  show "rate_store fresh_store" by (rule rate_store_fresh_store)
qed (simp_all add: default_conf_def)

text \<open>
  A request is throttled exactly when the number of distinct request times inside the
  applicable path window, or inside one of the global windows of one second, one minute
  and five minutes, this request included, is above the configured limit.
\<close>

theorem check_rate_limit_throttles_iff:
  assumes "redis_up exec store_of" and "rate_store (store_of r)" and "0 \<le> now"
    and "\<forall>(p, l, w, ms) \<in> set (DJANGO_WAF_RATE_LIMIT_PATHS cf). 0 < w"
  shows "\<exists>res r'. check_rate_limit cf sha1 exec now ip path m r = (Inr res, r') \<and>
     (exceeded res \<longleftrightarrow> over_path cf sha1 now ip path m (history_of (store_of r)) \<or>
        over_windows cf ip now WINDOWS (history_of (store_of r)))"
  using redis_up.check_rate_limit_refines [OF assms, of sha1 ip path m]
  by (metis rate_limit_spec_exceeded)

theorem check_rate_limit_throttles_iff_witness:
  "\<exists>res r'. check_rate_limit (default_conf\<lparr>DJANGO_WAF_RATE_LIMIT_BURST := 0\<rparr>) (\<lambda>p. p) mem_exec 100
       ''203.0.113.9'' ''/'' ''GET'' fresh_store = (Inr res, r') \<and> exceeded res"
proof -
  let ?cf = "default_conf\<lparr>DJANGO_WAF_RATE_LIMIT_BURST := 0\<rparr>"
  have cfg: "\<forall>(p, l, w, ms) \<in> set (DJANGO_WAF_RATE_LIMIT_PATHS ?cf). 0 < w" by (simp add: default_conf_def)
  have "(0::rat) \<le> 100" by simp
  from check_rate_limit_throttles_iff [OF mem.redis_up_axioms rate_store_fresh_store this cfg,
      of "\<lambda>p. p" "''203.0.113.9''" "''/''" "''GET''"]
  show ?thesis using over_windows_fresh_store by blast
qed

text \<open>
  C36. The \<open>Retry-After\<close> value of a throttled request is the name of the window that tripped
  and a number of seconds between one and the length of that window.
\<close>

theorem check_rate_limit_retry_after_bounds:
  assumes "redis_up exec store_of" and "rate_store (store_of r)" and "0 \<le> now"
    and cfg: "\<forall>(p, l, w, ms) \<in> set (DJANGO_WAF_RATE_LIMIT_PATHS cf). 0 < w"
    and run: "check_rate_limit cf sha1 exec now ip path m r = (Inr res, r')" and ex: "exceeded res"
  shows "\<exists>name ra. window res = Some name \<and> retry_after res = Some ra \<and>
     1 \<le> ra \<and> ra \<le> window_length cf path m name"
proof -
  let ?S = "rate_limit_spec cf sha1 now ip path m (history_of (store_of r))"
  have res: "res = fst ?S"
    using redis_up.check_rate_limit_refines [OF assms(1-4), of sha1 ip path m] run by auto
  have "\<forall>k. finite (history_of (store_of r) k)" by (simp add: history_of_finite)
  then show ?thesis using rate_limit_spec_retry [OF _ cfg, of _ sha1 now ip path m] ex
    unfolding res by blast
qed

theorem check_rate_limit_retry_after_bounds_witness:
  "\<exists>res r' name ra. check_rate_limit (default_conf\<lparr>DJANGO_WAF_RATE_LIMIT_BURST := 0\<rparr>) (\<lambda>p. p) mem_exec 100
       ''203.0.113.9'' ''/'' ''GET'' fresh_store = (Inr res, r') \<and> window res = Some name \<and>
     retry_after res = Some ra \<and> 1 \<le> ra"
proof -
  let ?cf = "default_conf\<lparr>DJANGO_WAF_RATE_LIMIT_BURST := 0\<rparr>"
  let ?run = "check_rate_limit ?cf (\<lambda>p. p) mem_exec 100 ''203.0.113.9'' ''/'' ''GET'' fresh_store"
  note st = rate_store_fresh_store
  have ex: "exceeded (fst (rate_limit_spec ?cf (\<lambda>p. p) 100 ''203.0.113.9'' ''/'' ''GET'' (history_of fresh_store)))"
    unfolding rate_limit_spec_exceeded using over_windows_fresh_store by blast
  have cfg: "\<forall>(p, l, w, ms) \<in> set (DJANGO_WAF_RATE_LIMIT_PATHS ?cf). 0 < w" by (simp add: default_conf_def)
  obtain res r' where run: "?run = (Inr res, r')" "exceeded res"
    using mem.check_rate_limit_refines [OF st _ cfg, of 100 "\<lambda>p. p" "''203.0.113.9''" "''/''" "''GET''"] ex by auto
  have "\<exists>name ra. window res = Some name \<and> retry_after res = Some ra \<and> 1 \<le> ra \<and>
      ra \<le> window_length ?cf ''/'' ''GET'' name"
    by (rule check_rate_limit_retry_after_bounds [OF mem.redis_up_axioms st _ cfg run]) simp
  with run show ?thesis by blast
qed

end
