(* ===== verification/Fingerprint.thy ===== *)
theory Fingerprint
  imports PyRegex RedisStore
begin

text \<open>
  \<open>services/fingerprint.py\<close>: the header fingerprint, the mismatch score of a User-Agent that
  claims to be a browser, its classification, and the registry of fingerprints seen on
  solved challenges. \<open>sha256\<close> (the hexadecimal digest) is a parameter. The two operations
  that convert a client's version number with \<open>int\<close> can raise, so they return a sum.
\<close>

section \<open>Hash\<close>

definition FINGERPRINT_HEADERS :: "string list" where
  "FINGERPRINT_HEADERS = [''HTTP_ACCEPT'', ''HTTP_ACCEPT_LANGUAGE'', ''HTTP_ACCEPT_ENCODING'',
     ''HTTP_SEC_CH_UA'', ''HTTP_SEC_CH_UA_MOBILE'', ''HTTP_SEC_CH_UA_PLATFORM'',
     ''HTTP_SEC_FETCH_SITE'', ''HTTP_SEC_FETCH_MODE'', ''HTTP_SEC_FETCH_DEST'',
     ''HTTP_SEC_FETCH_USER'', ''HTTP_CONNECTION'', ''HTTP_UPGRADE_INSECURE_REQUESTS'']"

definition normalised :: "strdict \<Rightarrow> string list" where
  "normalised meta = map (\<lambda>header. let value = dget meta header []
     in if value \<noteq> [] then lower (strip value) else []) FINGERPRINT_HEADERS"

definition compute_fingerprint :: "(string \<Rightarrow> string) \<Rightarrow> strdict \<Rightarrow> string" where
  "compute_fingerprint sha256 meta = sha256 (join CHR ''|'' (normalised meta))"

section \<open>Mismatch score\<close>

definition CHROMIUM_UA_RE :: re where
  "CHROMIUM_UA_RE = seqs [ci_lit ''Chrome/'', plus digit_re]"

definition CHROMIUM_MIN_VERSION_FOR_CH :: int where
  "CHROMIUM_MIN_VERSION_FOR_CH = 89"

definition SEC_FETCH_BROWSERS_RE :: re where
  "SEC_FETCH_BROWSERS_RE =
     seqs [alts (map ci_lit [''Chrome'', ''Firefox'', ''Safari'', ''Edge'', ''Opera'']), one_of ''/'', plus digit_re]"

text \<open>\<open>_CHROMIUM_UA_RE.search(ua).group(1)\<close>: the digits of the leftmost match.\<close>

fun chromium_match :: "string \<Rightarrow> string option" where
  "chromium_match [] = None"
| "chromium_match (c # s) =
     (let digits = takeWhile is_digit (drop 7 (c # s)) in
      if startswith (lower (c # s)) ''chrome/'' \<and> digits \<noteq> [] then Some digits else chromium_match s)"

definition has_header :: "strdict \<Rightarrow> string \<Rightarrow> bool" where
  "has_header meta h = (dget meta h [] \<noteq> [])"

definition chromium_check :: "string \<Rightarrow> strdict \<Rightarrow> py_exc + rat" where
  "chromium_check user_agent meta =
     (case chromium_match user_agent of
        None \<Rightarrow> Inr 0
      | Some digits \<Rightarrow> (case int_text digits of
          None \<Rightarrow> Inl ValueError
        | Some chrome_version \<Rightarrow>
            Inr (if CHROMIUM_MIN_VERSION_FOR_CH \<le> chrome_version \<and> \<not> has_header meta ''HTTP_SEC_CH_UA''
                 then 2 else 0)))"

definition score_fingerprint_mismatch :: "string \<Rightarrow> strdict \<Rightarrow> py_exc + rat" where
  "score_fingerprint_mismatch user_agent meta =
     (if user_agent = [] then Inr 0
      else (case chromium_check user_agent meta of
        Inl e \<Rightarrow> Inl e
      | Inr score \<Rightarrow>
          (let browser = re_search SEC_FETCH_BROWSERS_RE user_agent;
               has_sec_fetch = list_ex (has_header meta)
                 [''HTTP_SEC_FETCH_SITE'', ''HTTP_SEC_FETCH_MODE'', ''HTTP_SEC_FETCH_DEST''];
               score = (if browser \<and> \<not> has_sec_fetch then score + 3 / 2 else score);
               accept_lang = strip (dget meta ''HTTP_ACCEPT_LANGUAGE'' []);
               score = (if browser \<and> (accept_lang = [] \<or> accept_lang = ''*'') then score + 1 else score);
               accept = strip (dget meta ''HTTP_ACCEPT'' []);
               score = (if browser \<and> (accept = ''*/*'' \<or> accept = []) then score + 1 / 2 else score)
           in Inr (min score 5))))"

definition classify_fingerprint :: "string \<Rightarrow> strdict \<Rightarrow> py_exc + string" where
  "classify_fingerprint user_agent meta =
     (case score_fingerprint_mismatch user_agent meta of
        Inl e \<Rightarrow> Inl e
      | Inr mismatch \<Rightarrow>
          Inr (if 3 \<le> mismatch then ''bot''
               else if 3 / 2 \<le> mismatch then ''suspicious''
               else if user_agent = [] then ''unknown''
               else if \<not> (re_search CHROMIUM_UA_RE user_agent \<or> re_search SEC_FETCH_BROWSERS_RE user_agent)
               then ''unknown''
               else ''browser''))"

section \<open>Registry of known fingerprints\<close>

definition known_fp_key :: "string \<Rightarrow> string" where
  "known_fp_key fp = ''waf:known_fp:'' @ fp"

definition KNOWN_FP_TTL :: int where
  "KNOWN_FP_TTL = 86400 * 30"

definition register_known_fingerprint :: "'r redis \<Rightarrow> string \<Rightarrow> ('r, unit) py" where
  "register_known_fingerprint C fp_hash =
     (if fp_hash = [] then ret ()
      else try_except
        (andThen (r_exec C (INCR (known_fp_key fp_hash)))
           (\<lambda>_. r_exec C (EXPIRE (known_fp_key fp_hash) KNOWN_FP_TTL)))
        (\<lambda>_. ret ()))"

definition is_known_fingerprint :: "'r redis \<Rightarrow> string \<Rightarrow> ('r, bool) py" where
  "is_known_fingerprint C fp_hash =
     (if fp_hash = [] then ret False
      else try_except
        (andThen (r_get C (known_fp_key fp_hash))
           (\<lambda>v. ret (case v of None \<Rightarrow> False | Some x \<Rightarrow> x \<noteq> [])))
        (\<lambda>_. ret False))"

section \<open>Lemmas\<close>

lemma digits_lang: "s \<in> star_lang (lang digit_re) \<longleftrightarrow> (\<forall>c \<in> set s. is_digit c)"
proof (induction s)
  case Nil
  then show ?case by (simp add: star_lang.star_Nil)
next
  case (Cons c s)
  have "c # s \<in> star_lang (lang digit_re) \<longleftrightarrow> is_digit c \<and> s \<in> star_lang (lang digit_re)"
    unfolding star_Cons by (auto simp: digit_re_def)
  with Cons show ?case by simp
qed

lemma chromium_lang: "v \<in> lang CHROMIUM_UA_RE \<longleftrightarrow>
   (\<exists>a d. v = a @ d \<and> lower a = ''chrome/'' \<and> d \<noteq> [] \<and> (\<forall>c \<in> set d. is_digit c))"
proof -
  have p: "d \<in> lang (plus digit_re) \<longleftrightarrow> d \<noteq> [] \<and> (\<forall>c \<in> set d. is_digit c)" for d
  proof -
    have "d \<in> lang (plus digit_re) \<longleftrightarrow> (\<exists>c t. d = c # t \<and> is_digit c \<and> t \<in> star_lang (lang digit_re))"
    proof
      assume "\<exists>c t. d = c # t \<and> is_digit c \<and> t \<in> star_lang (lang digit_re)"
      then obtain c t where "d = [c] @ t" "[c] \<in> lang digit_re" "t \<in> star_lang (lang digit_re)"
        by (auto simp: digit_re_def)
      then show "d \<in> lang (plus digit_re)" unfolding plus_lang by blast
    qed (auto simp: plus_lang digit_re_def)
    then show ?thesis unfolding digits_lang by (cases d) auto
  qed
  have l: "lower ''Chrome/'' = ''chrome/''" by code_simp
  show ?thesis unfolding CHROMIUM_UA_RE_def seqs.simps lang.simps
    using p ci_lit_iff [of _ "''Chrome/''", unfolded l] by blast
qed

lemma chromium_match_iff: "chromium_match s \<noteq> None \<longleftrightarrow> re_search CHROMIUM_UA_RE s"
proof -
  have here: "(startswith (lower s) ''chrome/'' \<and> takeWhile is_digit (drop 7 s) \<noteq> []) \<longleftrightarrow>
      (\<exists>v w. s = v @ w \<and> v \<in> lang CHROMIUM_UA_RE)" for s
  proof
    assume a: "startswith (lower s) ''chrome/'' \<and> takeWhile is_digit (drop 7 s) \<noteq> []"
    let ?d = "takeWhile is_digit (drop 7 s)"
    have "lower (take 7 s) = ''chrome/''" using a by (simp add: startswith_def lower_def take_map eval_nat_numeral)
    moreover have "s = (take 7 s @ ?d) @ dropWhile is_digit (drop 7 s)"
      by (simp add: takeWhile_dropWhile_id)
    moreover have "\<forall>c \<in> set ?d. is_digit c" by (auto dest: set_takeWhileD)
    ultimately show "\<exists>v w. s = v @ w \<and> v \<in> lang CHROMIUM_UA_RE"
      unfolding chromium_lang using a by metis
  next
    assume "\<exists>v w. s = v @ w \<and> v \<in> lang CHROMIUM_UA_RE"
    then obtain a d w where s: "s = a @ d @ w" "lower a = ''chrome/''" "d \<noteq> []" "\<forall>c \<in> set d. is_digit c"
      unfolding chromium_lang by auto
    have "length a = 7" using s(2) length_lower [of a] by simp
    moreover from s have "takeWhile is_digit (d @ w) \<noteq> []" by (cases d) auto
    ultimately show "startswith (lower s) ''chrome/'' \<and> takeWhile is_digit (drop 7 s) \<noteq> []"
      using s(1,2) by (simp add: lower_append startswith_def)
  qed
  have step: "re_search CHROMIUM_UA_RE (c # t) \<longleftrightarrow>
      (\<exists>v w. c # t = v @ w \<and> v \<in> lang CHROMIUM_UA_RE) \<or> re_search CHROMIUM_UA_RE t" for c t
  proof
    assume "re_search CHROMIUM_UA_RE (c # t)"
    then obtain u v w where "c # t = u @ v @ w" "v \<in> lang CHROMIUM_UA_RE" by (auto simp: re_search_iff)
    then show "(\<exists>v w. c # t = v @ w \<and> v \<in> lang CHROMIUM_UA_RE) \<or> re_search CHROMIUM_UA_RE t"
      unfolding re_search_iff by (cases u) auto
  next
    assume "(\<exists>v w. c # t = v @ w \<and> v \<in> lang CHROMIUM_UA_RE) \<or> re_search CHROMIUM_UA_RE t"
    then have "\<exists>u v w. c # t = u @ v @ w \<and> v \<in> lang CHROMIUM_UA_RE"
      unfolding re_search_iff by (metis append_Cons append_Nil)
    then show "re_search CHROMIUM_UA_RE (c # t)" unfolding re_search_iff .
  qed
  show ?thesis
  proof (induction s)
    case Nil
    have "\<not> nullable CHROMIUM_UA_RE" by (simp add: CHROMIUM_UA_RE_def ci_char_def)
    then show ?case by (simp add: re_search_Nil)
  next
    case (Cons c t)
    then show ?case unfolding step [of c t] here [of "c # t", symmetric] chromium_match.simps Let_def
      by simp blast
  qed
qed

lemma score_fingerprint_bounds:
  assumes "score_fingerprint_mismatch ua meta = Inr s"
  shows "0 \<le> s" "s \<le> 5"
  using assms
  by (auto simp: score_fingerprint_mismatch_def chromium_check_def Let_def split: if_splits option.splits sum.splits)

lemma chromium_match_digits: "chromium_match s = Some d \<Longrightarrow> d \<noteq> [] \<and> (\<forall>c \<in> set d. is_digit c)"
proof (induction s)
  case Nil
  then show ?case by simp
next
  case (Cons c s)
  then show ?case
    by (auto simp only: chromium_match.simps Let_def split: if_splits dest: set_takeWhileD)
qed

lemma py_int_digits:
  assumes "d \<noteq> []" and "\<forall>c \<in> set d. is_digit c"
  shows "py_int d = Some (int_of_digits d)"
proof -
  have s: "strip d = d" by (rule strip_id) (use assms(2) digit_not_special in blast)
  obtain c r where cr: "d = c # r" using assms(1) by (meson list.exhaust)
  then have c: "c \<noteq> CHR ''-''" "c \<noteq> CHR ''+''" using assms(2) digit_not_special by auto
  have f: "filter is_digit d = d" using assms(2) by (simp add: filter_id_conv)
  have g: "digit_groups False d" using digit_groups_digits [of d False] assms by simp
  show ?thesis using s c f g unfolding cr py_int_def Let_def by (simp del: digit_groups.simps filter.simps)
qed

lemma chromium_check_Inl:
  "chromium_check ua meta = Inl e \<longleftrightarrow>
     e = ValueError \<and> (\<exists>d. chromium_match ua = Some d \<and> INT_MAX_STR_DIGITS < length d)"
proof (cases "chromium_match ua")
  case None
  then show ?thesis by (simp add: chromium_check_def)
next
  case (Some d)
  have f: "filter is_digit d = d" and p: "py_int d = Some (int_of_digits d)"
    using chromium_match_digits [OF Some] py_int_digits by (auto simp: filter_id_conv)
  show ?thesis using Some f p by (auto simp: chromium_check_def int_text_def)
qed

lemma score_fingerprint_Inl:
  "score_fingerprint_mismatch ua meta = Inl e \<longleftrightarrow>
     e = ValueError \<and> (\<exists>d. chromium_match ua = Some d \<and> INT_MAX_STR_DIGITS < length d)"
proof (cases "ua = []")
  case True
  then show ?thesis by (simp add: score_fingerprint_mismatch_def)
next
  case False
  then have "score_fingerprint_mismatch ua meta = Inl e \<longleftrightarrow> chromium_check ua meta = Inl e"
    by (simp add: score_fingerprint_mismatch_def Let_def split: sum.splits)
  then show ?thesis unfolding chromium_check_Inl .
qed

lemma classify_fingerprint_Inl:
  "classify_fingerprint ua meta = Inl e \<longleftrightarrow> score_fingerprint_mismatch ua meta = Inl e"
  by (simp add: classify_fingerprint_def split: sum.splits)

section \<open>Properties\<close>

text \<open>
  Exactly which requests make the classifier raise: those whose User-Agent holds
  "Chrome/" followed by more digits than the interpreter converts. Nothing else does.
\<close>

theorem classify_fingerprint_raises_iff:
  "classify_fingerprint ua meta = Inl e \<longleftrightarrow>
     e = ValueError \<and> (\<exists>d. chromium_match ua = Some d \<and> 4300 < length d)"
  unfolding classify_fingerprint_Inl score_fingerprint_Inl INT_MAX_STR_DIGITS_def ..

text \<open>
  A User-Agent that claims no browser is classified as unknown, and only such a one:
  no header can turn the absence of a claim into a browser or a bot.
\<close>

theorem classify_fingerprint_unknown_iff:
  "classify_fingerprint ua meta \<noteq> Inr ''unknown'' \<longleftrightarrow>
     ua \<noteq> [] \<and> (re_search CHROMIUM_UA_RE ua \<or> re_search SEC_FETCH_BROWSERS_RE ua)"
proof (cases "ua \<noteq> [] \<and> (re_search CHROMIUM_UA_RE ua \<or> re_search SEC_FETCH_BROWSERS_RE ua)")
  case False
  then have "score_fingerprint_mismatch ua meta = Inr 0"
    using chromium_match_iff [of ua]
    by (auto simp: score_fingerprint_mismatch_def chromium_check_def Let_def)
  with False show ?thesis by (auto simp: classify_fingerprint_def)
next
  case True
  then show ?thesis by (auto simp: classify_fingerprint_def split: sum.splits)
qed

context redis_up
begin

lemma is_known_iff:
  assumes "fp \<noteq> []" and "live (store_of r) (known_fp_key fp) = map_option RStr v"
  shows "\<exists>r'. is_known_fingerprint exec fp r = (Inr (v \<noteq> None \<and> v \<noteq> Some []), r') \<and> store_of r' = store_of r"
proof -
  from up_get [OF assms(2)] obtain r' where "r_get exec (known_fp_key fp) r = (Inr v, r')"
    "store_of r' = store_of r" by blast
  then show ?thesis using assms(1) by (cases v) (auto simp: is_known_fingerprint_def)
qed

lemma register_known_store:
  assumes "fp \<noteq> []" and "live (store_of r) (known_fp_key fp) = map_option (\<lambda>n. RStr (str_int n)) v"
  defines "n \<equiv> (case v of None \<Rightarrow> 1 | Some m \<Rightarrow> m + 1)"
  shows "\<exists>r'. register_known_fingerprint exec fp r = (Inr (), r') \<and>
     store_of r' = put (known_fp_key fp) (RStr (str_int n)) (Some (clock (store_of r) + of_int KNOWN_FP_TTL))
       (rewrite (known_fp_key fp) (RStr (str_int n)) (store_of r))"
proof -
  let ?k = "known_fp_key fp"
  have i: "run_cmd (INCR ?k) (store_of r) = (IntR n, rewrite ?k (RStr (str_int n)) (store_of r))"
    using assms(2) by (auto simp: n_def split: option.splits)
  then obtain r1 where r1: "r_exec exec (INCR ?k) r = (Inr (), r1)" "store_of r1 = rewrite ?k (RStr (str_int n)) (store_of r)"
    using up_exec [of "INCR ?k" r] by auto
  have e: "run_cmd (EXPIRE ?k KNOWN_FP_TTL) (store_of r1) = (IntR 1,
      put ?k (RStr (str_int n)) (Some (clock (store_of r) + of_int KNOWN_FP_TTL)) (store_of r1))"
    by (simp add: r1 KNOWN_FP_TTL_def)
  then obtain r2 where "r_exec exec (EXPIRE ?k KNOWN_FP_TTL) r1 = (Inr (), r2)"
    "store_of r2 = put ?k (RStr (str_int n)) (Some (clock (store_of r) + of_int KNOWN_FP_TTL)) (store_of r1)"
    using up_exec [of "EXPIRE ?k KNOWN_FP_TTL" r1] by auto
  with r1 assms(1) show ?thesis by (auto simp: register_known_fingerprint_def)
qed

end

text \<open>
  A fingerprint registered by a solved challenge is recognised for thirty days after its
  last registration and not beyond, on a reachable server whose counter for it is a number
  or absent.
\<close>

theorem registered_fingerprint_known:
  assumes up: "redis_up exec store_of" and fp: "fp \<noteq> []"
    and cnt: "live (store_of r) (known_fp_key fp) = map_option (\<lambda>n. RStr (str_int n)) v"
    and later: "store_of later = elapse d (store_of (snd (register_known_fingerprint exec fp r)))"
  shows "fst (is_known_fingerprint exec fp later) = Inr (d < 2592000)"
proof -
  let ?k = "known_fp_key fp" and ?n = "case v of None \<Rightarrow> 1 | Some m \<Rightarrow> m + 1"
  let ?s1 = "rewrite ?k (RStr (str_int ?n)) (store_of r)"
  from redis_up.register_known_store [OF up fp cnt]
  have "store_of later = elapse d (put ?k (RStr (str_int ?n)) (Some (clock ?s1 + of_int KNOWN_FP_TTL)) ?s1)"
    unfolding later by auto
  then have "live (store_of later) ?k = (if d < 2592000 then Some (RStr (str_int ?n)) else None)"
    by (simp only: live_put_elapse) (simp add: KNOWN_FP_TTL_def)
  then have l: "live (store_of later) ?k = map_option RStr (if d < 2592000 then Some (str_int ?n) else None)"
    by simp
  have "str_int ?n \<noteq> []" by (simp add: str_int_def)
  with redis_up.is_known_iff [OF up fp l] show ?thesis by (auto split: if_splits)
qed

theorem registered_fingerprint_known_witness:
  "fst (is_known_fingerprint mem_exec ''ab'' (elapse 86400 (snd (register_known_fingerprint mem_exec ''ab'' fresh_store)))) = Inr True"
proof -
  have "live fresh_store (known_fp_key ''ab'') = map_option (\<lambda>n. RStr (str_int n)) None"
    by (simp add: live_def fresh_store_def)
  from registered_fingerprint_known [OF mem.redis_up_axioms _ this refl, of 86400] show ?thesis by simp
qed

end
