(* ===== verification/UaAnalyser.thy ===== *)
theory UaAnalyser
  imports PyRegex
begin

text \<open>
  \<open>services/ua_analyser.py\<close>: the regular expressions of the module as terms of type \<open>re\<close>,
  the heuristic score of a User-Agent string and its classification.
\<close>

section \<open>Patterns\<close>

definition any_text :: re where
  "any_text = Star dot"

definition space_re :: re where
  "space_re = Chr is_space"

definition word_re :: re where
  "word_re = Chr is_word"

definition RE_SCRAPER_LIBS :: re where
  "RE_SCRAPER_LIBS = alts (map ci_lit [''python-requests'', ''Go-http-client'', ''libwww-perl'',
     ''Wget/'', ''curl/'', ''urllib'', ''scrapy'', ''mechanize'', ''aiohttp'', ''httpx/''])"

definition RE_ANCIENT_BROWSER :: re where
  "RE_ANCIENT_BROWSER = alts [
     seqs [ci_lit ''MSIE'', plus space_re, one_of ''1234567'', one_of ''.''],
     seqs [ci_lit ''Firefox/'', one_of ''123'', one_of ''.'', digit_re],
     seqs [ci_lit ''Opera/'', one_of ''123456789'', one_of ''.'', digit_re]]"

definition RE_IMPOSSIBLE_COMBO_IOS_WINDOWS :: re where
  "RE_IMPOSSIBLE_COMBO_IOS_WINDOWS =
     seqs [alts (map ci_lit [''iPhone'', ''iPad'', ''iOS'']), any_text, ci_lit ''Windows NT'']"

definition RE_IMPOSSIBLE_COMBO_ANDROID_IOS :: re where
  "RE_IMPOSSIBLE_COMBO_ANDROID_IOS =
     alts [seqs [ci_lit ''Android'', any_text, ci_lit ''iPhone''],
           seqs [ci_lit ''iPhone'', any_text, ci_lit ''Android'']]"

definition RE_IMPOSSIBLE_COMBO_ANDROID_WINDOWS :: re where
  "RE_IMPOSSIBLE_COMBO_ANDROID_WINDOWS = seqs [ci_lit ''Android'', any_text, ci_lit ''Windows NT'']"

definition RE_VERSION_TOKEN :: re where
  "RE_VERSION_TOKEN = seqs [plus word_re, one_of ''/'', plus (one_of ''0123456789.'')]"

definition RE_CRAWLER :: re where
  "RE_CRAWLER = alts (map ci_lit [''Googlebot'', ''Bingbot'', ''Slurp'', ''DuckDuckBot'', ''Baiduspider'',
     ''YandexBot'', ''facebookexternalhit'', ''Twitterbot'', ''LinkedInBot'', ''WhatsApp'', ''Applebot'',
     ''AhrefsBot'', ''SemrushBot'', ''MJ12bot'', ''DotBot'', ''rogerbot'', ''SeznamBot'',
     ''PetalBot'', ''CCBot'', ''ia_archiver''])"

definition RE_BROWSER :: re where
  "RE_BROWSER = seqs [ci_lit ''Mozilla/5.0'', any_text,
     alts (map ci_lit [''Chrome'', ''Firefox'', ''Safari'', ''Edge'', ''OPR'', ''Trident'', ''MSIE''])]"

text \<open>\<open>_RE_BOT\<close> asks for a whole word: a position where the word starts, with no word
  character just before it and none just after it.\<close>

definition BOT_WORDS :: "string list" where
  "BOT_WORDS = [''bot'', ''spider'', ''crawler'', ''scraper'']"

definition word_here :: "string \<Rightarrow> string \<Rightarrow> bool" where
  "word_here w s = (startswith (lower s) w \<and>
     (case drop (length w) s of [] \<Rightarrow> True | c # _ \<Rightarrow> \<not> is_word c))"

fun bot_word_from :: "bool \<Rightarrow> string \<Rightarrow> bool" where
  "bot_word_from after_word [] = False"
| "bot_word_from after_word (c # s) =
     ((\<not> after_word \<and> list_ex (\<lambda>w. word_here w (c # s)) BOT_WORDS) \<or> bot_word_from (is_word c) s)"

definition search_RE_BOT :: "string \<Rightarrow> bool" where
  "search_RE_BOT s = bot_word_from False s"

section \<open>Scoring and classification\<close>

definition score_user_agent :: "string \<Rightarrow> rat" where
  "score_user_agent user_agent =
     (if user_agent = [] then min 1 10
      else (let score = 0;
        score = (if re_search RE_IMPOSSIBLE_COMBO_IOS_WINDOWS user_agent \<or>
                    re_search RE_IMPOSSIBLE_COMBO_ANDROID_IOS user_agent \<or>
                    re_search RE_IMPOSSIBLE_COMBO_ANDROID_WINDOWS user_agent
                 then score + 3 else score);
        score = (if re_search RE_ANCIENT_BROWSER user_agent then score + 2 else score);
        score = (if \<not> re_search RE_VERSION_TOKEN user_agent then score + 3 / 2 else score);
        score = (if length user_agent < 15 then score + 1 else score)
      in min score 10))"

definition classify_ua :: "string \<Rightarrow> string" where
  "classify_ua user_agent =
     (if user_agent = [] then ''unknown''
      else if re_search RE_CRAWLER user_agent then ''crawler''
      else if re_search RE_SCRAPER_LIBS user_agent then ''library''
      else if search_RE_BOT user_agent then ''bot''
      else if re_search RE_BROWSER user_agent then ''browser''
      else ''unknown'')"

section \<open>Lemmas\<close>

text \<open>The cap at ten never binds: the four weights add up to seven and a half.\<close>

lemma score_user_agent_bounds: "0 \<le> score_user_agent ua" "score_user_agent ua \<le> 15 / 2"
  by (auto simp: score_user_agent_def Let_def)

lemma bot_word_from_iff:
  "bot_word_from b s \<longleftrightarrow> (\<exists>u v. s = u @ v \<and> v \<noteq> [] \<and>
     (if u = [] then \<not> b else \<not> is_word (last u)) \<and> list_ex (\<lambda>w. word_here w v) BOT_WORDS)"
proof (induction s arbitrary: b)
  case Nil
  then show ?case by simp
next
  case (Cons c s)
  have "(\<exists>u v. c # s = u @ v \<and> v \<noteq> [] \<and> (if u = [] then \<not> b else \<not> is_word (last u)) \<and>
          list_ex (\<lambda>w. word_here w v) BOT_WORDS) \<longleftrightarrow>
        (\<not> b \<and> list_ex (\<lambda>w. word_here w (c # s)) BOT_WORDS) \<or>
        (\<exists>u v. s = u @ v \<and> v \<noteq> [] \<and> (if u = [] then \<not> is_word c else \<not> is_word (last u)) \<and>
          list_ex (\<lambda>w. word_here w v) BOT_WORDS)" (is "?L \<longleftrightarrow> ?A \<or> ?B")
  proof
    assume ?L
    then obtain u v where uv: "c # s = u @ v" "v \<noteq> []"
      "if u = [] then \<not> b else \<not> is_word (last u)" "list_ex (\<lambda>w. word_here w v) BOT_WORDS" by blast
    show "?A \<or> ?B"
    proof (cases u)
      case Nil
      with uv show ?thesis by auto
    next
      case (Cons d u')
      with uv have "s = u' @ v" "if u' = [] then \<not> is_word c else \<not> is_word (last u')"
        by (auto split: if_splits)
      with uv(2,4) show ?thesis by blast
    qed
  next
    assume "?A \<or> ?B"
    then show ?L
    proof
      assume ?A
      then have "c # s = [] @ (c # s)" "\<not> b" "list_ex (\<lambda>w. word_here w (c # s)) BOT_WORDS" by auto
      then show ?L by (metis list.discI)
    next
      assume ?B
      then obtain u v where uv: "s = u @ v" "v \<noteq> []"
        "if u = [] then \<not> is_word c else \<not> is_word (last u)" "list_ex (\<lambda>w. word_here w v) BOT_WORDS"
        by blast
      then have "c # s = (c # u) @ v" "if c # u = [] then \<not> b else \<not> is_word (last (c # u))"
        by (auto split: if_splits)
      with uv(2,4) show ?L by blast
    qed
  qed
  then show ?case by (simp add: Cons.IH)
qed

section \<open>Properties\<close>

text \<open>
  The order of the categories: a User-Agent that names one of the listed crawlers is a
  crawler whatever else it says; one that names a client library and no crawler is a
  library; a whole word "bot", "spider", "crawler" or "scraper" makes a bot of what is left;
  the empty text is unknown.
\<close>

theorem classify_ua_precedence:
  "classify_ua [] = ''unknown'' \<and>
   (classify_ua ua = ''crawler'' \<longleftrightarrow> re_search RE_CRAWLER ua) \<and>
   (classify_ua ua = ''library'' \<longleftrightarrow> \<not> re_search RE_CRAWLER ua \<and> re_search RE_SCRAPER_LIBS ua) \<and>
   (classify_ua ua = ''bot'' \<longleftrightarrow> \<not> re_search RE_CRAWLER ua \<and> \<not> re_search RE_SCRAPER_LIBS ua \<and>
      (\<exists>u v. ua = u @ v \<and> v \<noteq> [] \<and> (if u = [] then True else \<not> is_word (last u)) \<and>
         list_ex (\<lambda>w. word_here w v) BOT_WORDS))"
proof -
  have e: "\<not> re_search RE_CRAWLER []" "\<not> re_search RE_SCRAPER_LIBS []" "\<not> search_RE_BOT []"
    by (simp_all add: RE_CRAWLER_def RE_SCRAPER_LIBS_def re_search_Nil ci_char_def search_RE_BOT_def)
  have b: "search_RE_BOT ua \<longleftrightarrow> (\<exists>u v. ua = u @ v \<and> v \<noteq> [] \<and>
      (if u = [] then True else \<not> is_word (last u)) \<and> list_ex (\<lambda>w. word_here w v) BOT_WORDS)"
    unfolding search_RE_BOT_def bot_word_from_iff by simp
  show ?thesis unfolding b [symmetric] using e by (cases "ua = []") (simp_all add: classify_ua_def)
qed

end
