(* ===== verification/RuleEngine.thy ===== *)
theory RuleEngine
  imports RuleMatching AutoRules RateLimiter Fingerprint UaAnalyser
begin

text \<open>
  \<open>evaluate_request\<close> of \<open>services/rule_engine.py\<close>, its scoring helpers, the escalation gate
  and the blocked-address cache. The steps of \<open>evaluate_request\<close> are definitions of their own
  (\<open>step_allow\<close>, \<open>step_blocked_ip\<close>, \<open>step_block_rules\<close>, \<open>step_rate_limit\<close>, \<open>step_no_referer\<close>,
  \<open>step_scores\<close>); each either decides (\<open>Some\<close>) or passes the request on, and
  \<open>evaluate_request\<close> runs them in the order of the source.
\<close>

section \<open>Result\<close>

record EvaluationResult =
  verdict :: Verdict
  eval_action :: "string option"
  matched_rule_id :: "uuid option"
  matched_rule_type :: string
  anomaly_score :: "rat option"
  eval_retry_after :: "int option"
  eval_window :: "string option"

definition plain_result :: "Verdict \<Rightarrow> RuleAction option \<Rightarrow> EvaluationResult" where
  "plain_result v a = \<lparr>verdict = v, eval_action = map_option RuleAction_value a, matched_rule_id = None,
     matched_rule_type = [], anomaly_score = None, eval_retry_after = None, eval_window = None\<rparr>"

section \<open>Scores and verdicts\<close>

definition action_to_verdict :: "string \<Rightarrow> Verdict" where
  "action_to_verdict action =
     (if action = RuleAction_value BLOCK then BLOCKED
      else if action = RuleAction_value CHALLENGE then CHALLENGED
      else if action = RuleAction_value THROTTLE then THROTTLED
      else if action = RuleAction_value LOG_ONLY then LOGGED
      else BLOCKED)"

definition score_to_verdict :: "conf \<Rightarrow> rat \<Rightarrow> Verdict \<times> RuleAction option" where
  "score_to_verdict cf score =
     (if DJANGO_WAF_SCORE_THRESHOLD_BLOCK cf \<le> score then (BLOCKED, Some BLOCK)
      else if DJANGO_WAF_SCORE_THRESHOLD_CHALLENGE cf \<le> score then (CHALLENGED, Some CHALLENGE)
      else if DJANGO_WAF_SCORE_THRESHOLD_LOG cf \<le> score then (LOGGED, Some LOG_ONLY)
      else (ALLOWED, None))"

fun score_patterns :: "conf \<Rightarrow> regex_engine \<Rightarrow> string \<Rightarrow> rat \<Rightarrow> string list \<Rightarrow> rat" where
  "score_patterns cf X path score [] = score"
| "score_patterns cf X path score (pattern # patterns) =
     (case py_re_search X pattern path of
        Some True \<Rightarrow>
          (let score = score + DJANGO_WAF_SUSPICIOUS_PATH_SCORE cf
           in if 10 \<le> score then 10 else score_patterns cf X path score patterns)
      | _ \<Rightarrow> score_patterns cf X path score patterns)"

definition score_path :: "conf \<Rightarrow> regex_engine \<Rightarrow> string \<Rightarrow> rat" where
  "score_path cf X path = score_patterns cf X path 0 (DJANGO_WAF_SUSPICIOUS_PATH_PATTERNS cf)"

section \<open>Blocked addresses and escalation\<close>

definition blocked_ip_key :: "string \<Rightarrow> string" where
  "blocked_ip_key ip = ''waf:blocked:'' @ ip"

definition STATS_KEY :: string where
  "STATS_KEY = ''waf:stats:today''"

definition record_block_verdict :: "'r env \<Rightarrow> string \<Rightarrow> int \<Rightarrow> string option \<Rightarrow> ('r world, unit) py" where
  "record_block_verdict E ip ttl rule_id =
     (let val = (case rule_id of None \<Rightarrow> ''1'' | Some s \<Rightarrow> if s = [] then ''1'' else s)
      in andThen (on_redis (r_exec (redis E) (SETEX (blocked_ip_key ip) ttl val)))
        (\<lambda>_. on_redis (r_exec (redis E) (HINCRBY STATS_KEY ''blocked'' 1))))"

definition challenged_key :: "string \<Rightarrow> string" where
  "challenged_key ip = ''waf:challenged:'' @ ip"

definition solved_key :: "string \<Rightarrow> string" where
  "solved_key ip = ''waf:solved:'' @ ip"

definition get_unsolved_challenge_count :: "'r env \<Rightarrow> string \<Rightarrow> string \<Rightarrow> ('r world, int) py" where
  "get_unsolved_challenge_count E ip fingerprint_verdict = try_except
     (andThen (on_redis (r_get (redis E) (challenged_key ip)))
        (\<lambda>raw. case raw of
            None \<Rightarrow> ret 0
          | Some s \<Rightarrow> if s = [] then ret 0
              else (case py_int s of
                  None \<Rightarrow> raise ValueError
                | Some count \<Rightarrow>
                    if fingerprint_verdict = ''bot'' then ret count
                    else andThen (on_redis (r_get (redis E) (solved_key ip)))
                      (\<lambda>solved. case solved of
                          None \<Rightarrow> ret count
                        | Some t \<Rightarrow> if t = [] then ret count
                            else andThen (on_redis (r_exec (redis E) (DEL (challenged_key ip)))) (\<lambda>_. ret 0)))))
     (\<lambda>_. ret 0)"

definition create_escalation_rule :: "conf \<Rightarrow> 'r env \<Rightarrow> string \<Rightarrow> ('r world, BlockRule option) py" where
  "create_escalation_rule cf E ip = try_except
     (andThen (get_or_create_auto_rule cf E (''Auto: escalated from repeated challenges ('' @ ip @ '')'')
          (RuleType_value IP) ''exact'' ip (RuleAction_value BLOCK)
          (time_now E + of_int (DJANGO_WAF_ESCALATION_BLOCK_TTL cf)) False ''challenge_escalation'' None None False)
        (\<lambda>(rule, _). ret (Some rule)))
     (\<lambda>_. ret None)"

definition gate_challenge_or_escalate ::
  "conf \<Rightarrow> 'r env \<Rightarrow> string \<Rightarrow> EvaluationResult \<Rightarrow> string \<Rightarrow> ('r world, EvaluationResult) py" where
  "gate_challenge_or_escalate cf E ip challenge_result fingerprint_verdict =
     andThen (get_unsolved_challenge_count E ip fingerprint_verdict)
       (\<lambda>challenged_count.
          if challenged_count < DJANGO_WAF_CHALLENGE_ESCALATION_THRESHOLD cf then ret challenge_result
          else andThen (create_escalation_rule cf E ip)
            (\<lambda>escalation_rule. andThen (record_block_verdict E ip (DJANGO_WAF_ESCALATION_BLOCK_TTL cf)
                 (map_option (\<lambda>r. str_uuid (br_id r)) escalation_rule))
              (\<lambda>_. ret (plain_result BLOCKED (Some BLOCK)))))"

section \<open>Evaluation\<close>

definition as_uuid :: "string \<Rightarrow> ('w, uuid) py" where
  "as_uuid s = (case parse_uuid s of None \<Rightarrow> raise ValueError | Some u \<Rightarrow> ret u)"

definition step_allow ::
  "conf \<Rightarrow> 'r env \<Rightarrow> RuleCache \<Rightarrow> string \<Rightarrow> string \<Rightarrow> ('r world, EvaluationResult option) py" where
  "step_allow cf E cache ip user_agent =
     andThen (check_allow_rules cf E ip user_agent (cache_allow_rules cache))
       (\<lambda>allow_result. case allow_result of
            None \<Rightarrow> ret None
          | Some (matched_id, _) \<Rightarrow> andThen (as_uuid matched_id)
              (\<lambda>u. ret (Some ((plain_result PASSED None)\<lparr>matched_rule_id := Some u, matched_rule_type := ''allow''\<rparr>))))"

definition step_blocked_ip :: "'r env \<Rightarrow> string \<Rightarrow> ('r world, EvaluationResult option) py" where
  "step_blocked_ip E ip =
     andThen (on_redis (r_get (redis E) (blocked_ip_key ip)))
       (\<lambda>cached. case cached of
            None \<Rightarrow> ret None
          | Some v \<Rightarrow> if v = [] then ret None
              else if v = ''1'' then ret (Some (plain_result BLOCKED (Some BLOCK)))
              else (case parse_uuid v of
                  None \<Rightarrow> ret (Some (plain_result BLOCKED (Some BLOCK)))
                | Some u \<Rightarrow> andThen (record_rule_hit E v)
                    (\<lambda>_. ret (Some ((plain_result BLOCKED (Some BLOCK))\<lparr>matched_rule_id := Some u,
                       matched_rule_type := ''block''\<rparr>)))))"

definition step_block_rules ::
  "conf \<Rightarrow> 'r env \<Rightarrow> RuleCache \<Rightarrow> string \<Rightarrow> string \<Rightarrow> string \<Rightarrow> ('r world, EvaluationResult option) py" where
  "step_block_rules cf E cache ip user_agent fingerprint_verdict =
     andThen (check_block_rules E ip user_agent (cache_block_rules cache))
       (\<lambda>block_result. case block_result of
            None \<Rightarrow> ret None
          | Some (matched_id, rule) \<Rightarrow>
              andThen (item_str rule ''action'') (\<lambda>action.
              andThen (as_uuid matched_id) (\<lambda>u.
                let result = (plain_result (action_to_verdict action) None)\<lparr>eval_action := Some action,
                      matched_rule_id := Some u, matched_rule_type := ''block''\<rparr>
                in if action_to_verdict action = CHALLENGED
                   then andThen (gate_challenge_or_escalate cf E ip result fingerprint_verdict) (\<lambda>r. ret (Some r))
                   else ret (Some result))))"

definition step_rate_limit ::
  "conf \<Rightarrow> 'r env \<Rightarrow> string \<Rightarrow> string \<Rightarrow> string \<Rightarrow> ('r world, EvaluationResult option) py" where
  "step_rate_limit cf E ip path http_method =
     andThen (on_redis (check_rate_limit cf (sha1 E) (redis E) (time_now E) ip path http_method))
       (\<lambda>rate_result. if exceeded rate_result
          then ret (Some ((plain_result THROTTLED (Some THROTTLE))\<lparr>eval_retry_after := retry_after rate_result,
                 eval_window := window rate_result\<rparr>))
          else ret None)"

definition step_no_referer ::
  "conf \<Rightarrow> 'r env \<Rightarrow> string \<Rightarrow> string \<Rightarrow> string \<Rightarrow> string \<Rightarrow> ('r world, EvaluationResult option) py" where
  "step_no_referer cf E ip path referer fingerprint_verdict =
     (if DJANGO_WAF_CHALLENGE_NO_REFERER cf \<and> referer = [] \<and>
         \<not> list_ex (\<lambda>p. path = p \<or> startswith path p) (DJANGO_WAF_NO_REFERER_EXEMPT_PATHS cf)
      then andThen (gate_challenge_or_escalate cf E ip (plain_result CHALLENGED (Some CHALLENGE)) fingerprint_verdict)
        (\<lambda>r. ret (Some r))
      else ret None)"

definition fingerprint_score :: "'r env \<Rightarrow> string \<Rightarrow> strdict \<Rightarrow> ('r world, rat) py" where
  "fingerprint_score E user_agent meta =
     (if meta = [] then ret 0
      else andThen (on_redis (is_known_fingerprint (redis E) (compute_fingerprint (sha256 E) meta)))
        (\<lambda>known. if known then ret 0
           else (case score_fingerprint_mismatch user_agent meta of Inl e \<Rightarrow> raise e | Inr s \<Rightarrow> ret s)))"

definition volume_ua_score :: "'r env \<Rightarrow> string \<Rightarrow> string \<Rightarrow> ('r world, rat) py" where
  "volume_ua_score E ip user_agent =
     andThen (on_redis (get_request_count (redis E) (time_now E) ip ''5m''))
       (\<lambda>recent_count. ret (if 10 < recent_count then score_user_agent user_agent else 0))"

definition step_scores ::
  "conf \<Rightarrow> 'r env \<Rightarrow> string \<Rightarrow> string \<Rightarrow> string \<Rightarrow> strdict \<Rightarrow> string \<Rightarrow> ('r world, EvaluationResult) py" where
  "step_scores cf E ip user_agent path meta fingerprint_verdict =
     (let path_score = score_path cf (regex E) path
      in andThen (fingerprint_score E user_agent meta) (\<lambda>fp_score.
         andThen (volume_ua_score E ip user_agent) (\<lambda>ua_score.
           let total_score = ua_score + path_score + fp_score
           in if 0 < total_score then
                (let (v, a) = score_to_verdict cf total_score;
                     result = (plain_result v a)\<lparr>anomaly_score := Some total_score\<rparr>
                 in if v = CHALLENGED then gate_challenge_or_escalate cf E ip result fingerprint_verdict
                    else ret result)
              else ret (plain_result ALLOWED None))))"

text \<open>The shape of \<open>evaluate_request\<close>: a step that decides returns, otherwise the next one runs.\<close>

definition or_else :: "('w, 'a option) py \<Rightarrow> ('w, 'a) py \<Rightarrow> ('w, 'a) py" where
  "or_else m k = andThen m (\<lambda>x. case x of None \<Rightarrow> k | Some r \<Rightarrow> ret r)"

definition evaluate_request ::
  "conf \<Rightarrow> 'r env \<Rightarrow> string \<Rightarrow> string \<Rightarrow> string \<Rightarrow> string \<Rightarrow> string \<Rightarrow> strdict \<Rightarrow> ('r world, EvaluationResult) py" where
  "evaluate_request cf E ip user_agent path http_method referer meta =
     (case classify_fingerprint user_agent meta of
        Inl e \<Rightarrow> raise e
      | Inr fingerprint_verdict \<Rightarrow>
          andThen (load_rule_cache E) (\<lambda>cache.
            or_else (step_allow cf E cache ip user_agent)
           (or_else (step_blocked_ip E ip)
           (or_else (step_block_rules cf E cache ip user_agent fingerprint_verdict)
           (or_else (step_rate_limit cf E ip path http_method)
           (or_else (step_no_referer cf E ip path referer fingerprint_verdict)
              (step_scores cf E ip user_agent path meta fingerprint_verdict)))))))"

section \<open>Lemmas\<close>

text \<open>A deployment in good order in which the next load reads the database.\<close>

definition fresh_rules :: "'r env \<Rightarrow> ('r \<Rightarrow> store) \<Rightarrow> 'r world \<Rightarrow> bool" where
  "fresh_rules E store_of w = (calm E store_of \<and> iso_ok E \<and> escapes_ok (regex E) \<and> ua_cache_ok E w \<and>
     (\<exists>v. rules_version (store_of (server w)) = Some v \<and> (process_cache w = None \<or> process_cache_version w \<noteq> v) \<and>
        live (store_of (server w)) (rules_cache_key v) = None))"

lemma engine_keys [simp]:
  "blocked_ip_key ip \<noteq> rules_cache_key v" "blocked_ip_key ip \<noteq> REBUILD_LOCK_KEY" "blocked_ip_key ip \<noteq> STATS_KEY"
  "fcrdns_cache_key E ip p \<noteq> rules_cache_key v" "fcrdns_cache_key E ip p \<noteq> REBUILD_LOCK_KEY"
  "blocked_ip_key ip \<noteq> RULES_VERSION_KEY" "STATS_KEY \<noteq> RULES_VERSION_KEY" "STATS_KEY \<noteq> blocked_ip_key ip"
  by (auto simp: blocked_ip_key_def rules_cache_key_def REBUILD_LOCK_KEY_def STATS_KEY_def fcrdns_cache_key_def
      RULES_VERSION_KEY_def)

lemma fresh_load:
  assumes "fresh_rules E store_of w"
  shows "\<exists>c w1. load_rule_cache E w = (Inr c, w1) \<and> current_rules E w c \<and> ua_cache_ok E w1 \<and>
     (\<forall>k. (\<forall>v. k \<noteq> rules_cache_key v) \<longrightarrow> k \<noteq> REBUILD_LOCK_KEY \<longrightarrow>
        live (store_of (server w1)) k = live (store_of (server w)) k)"
proof -
  from assms obtain v where E: "calm E store_of" and v: "rules_version (store_of (server w)) = Some v"
    and st: "process_cache w = None \<or> process_cache_version w \<noteq> v"
    and ab: "live (store_of (server w)) (rules_cache_key v) = None"
    and ok: "escapes_ok (regex E)" "ua_cache_ok E w" by (auto simp: fresh_rules_def)
  from load_from_database [OF E v st ab] obtain c w1 where c: "load_rule_cache E w = (Inr c, w1)"
    "current_rules E w c" "same_but_lock (store_of (server w1)) (put (rules_cache_key v) (RStr (cached_text E w))
       (Some (clock (store_of (server w)) + of_int CACHE_TTL)) (store_of (server w)))" by blast
  have "ua_cache_ok E w1" by (rule keepsD [OF keeps_load_rule_cache [OF ok(1)] ok(2) c(1)])
  with c show ?thesis by (auto simp: same_but_lock_def live_put)
qed

lemma fresh_load_engine:
  assumes "fresh_rules E store_of w"
  obtains c w1 where "load_rule_cache E w = (Inr c, w1)" "current_rules E w c" "ua_cache_ok E w1"
    "\<And>ip. live (store_of (server w1)) (blocked_ip_key ip) = live (store_of (server w)) (blocked_ip_key ip)"
    "\<And>ip p. cached_positive E (store_of (server w1)) ip p = cached_positive E (store_of (server w)) ip p"
proof -
  from fresh_load [OF assms] obtain c w1 where c: "load_rule_cache E w = (Inr c, w1)" "current_rules E w c"
    "ua_cache_ok E w1" and k: "\<And>k. (\<And>v. k \<noteq> rules_cache_key v) \<Longrightarrow> k \<noteq> REBUILD_LOCK_KEY \<Longrightarrow>
        live (store_of (server w1)) k = live (store_of (server w)) k" by blast
  show ?thesis
  proof (rule that [OF c])
    show "live (store_of (server w1)) (blocked_ip_key ip) = live (store_of (server w)) (blocked_ip_key ip)" for ip
      by (rule k) simp_all
    show "cached_positive E (store_of (server w1)) ip p = cached_positive E (store_of (server w)) ip p" for ip p
      unfolding cached_positive_def by (subst k) simp_all
  qed
qed

lemma gate_cases:
  assumes "gate_challenge_or_escalate cf E ip cr fp w = (Inr res, w')"
  shows "res = cr \<or> res = plain_result BLOCKED (Some BLOCK)"
  using assms by (auto simp: gate_challenge_or_escalate_def andThen_def split: prod.splits sum.splits if_splits)

lemma step_allow_none:
  assumes "fresh_rules E store_of w" and "current_rules E w c" and "ua_cache_ok E w1"
    and "\<forall>r \<in> set (AllowRule_active (time_now E) (AllowRules w)). \<not> allow_rule_applies E ip ua r"
  shows "\<exists>w2. step_allow cf E c ip ua w1 = (Inr None, w2) \<and> ua_cache_ok E w2 \<and> ua_cache_only w1 w2"
proof -
  have "iso_ok E" using assms(1) by (simp add: fresh_rules_def)
  from allow_skip_all [OF this assms(3,4), where cf = cf and ds = "[]"] obtain w2 where
    "check_allow_rules cf E ip ua (cache_allow_rules c) w1 = (Inr None, w2)" "ua_cache_ok E w2" "ua_cache_only w1 w2"
    using assms(2) by (auto simp: current_rules_def)
  then show ?thesis by (intro exI [of _ w2]) (simp add: step_allow_def)
qed

lemma step_blocked_ip_absent:
  assumes "redis_up (redis E) store_of" and "live (store_of (server w)) (blocked_ip_key ip) = None"
  shows "\<exists>r'. step_blocked_ip E ip w = (Inr None, w\<lparr>server := r'\<rparr>)"
proof -
  from assms(2) have "live (store_of (server w)) (blocked_ip_key ip) = map_option RStr None" by simp
  from redis_up.up_get [OF assms(1) this] obtain r' where
    "r_get (redis E) (blocked_ip_key ip) (server w) = (Inr None, r')" by blast
  then show ?thesis by (intro exI [of _ r']) (simp add: step_blocked_ip_def)
qed

lemma ua_cache_ok_server [simp]: "ua_cache_ok E (w\<lparr>server := r\<rparr>) = ua_cache_ok E w"
  by (simp add: ua_cache_ok_def)

text \<open>Only the allow step passes a request.\<close>

lemma later_steps_not_passed:
  assumes "or_else (step_blocked_ip E ip)
      (or_else (step_block_rules cf E c ip ua fp)
      (or_else (step_rate_limit cf E ip path m)
      (or_else (step_no_referer cf E ip path referer fp)
         (step_scores cf E ip ua path meta fp)))) w = (Inr res, w')"
  shows "verdict res \<noteq> PASSED"
proof -
  have g: "verdict r \<noteq> PASSED" if "gate_challenge_or_escalate cf E ip cr fp w1 = (Inr r, w2)" "verdict cr \<noteq> PASSED"
    for cr r w1 w2 using gate_cases [OF that(1)] that(2) by (auto simp: plain_result_def)
  have a: "action_to_verdict x \<noteq> PASSED" for x by (simp add: action_to_verdict_def)
  have s1: "verdict r \<noteq> PASSED" if "step_blocked_ip E ip w1 = (Inr (Some r), w2)" for r w1 w2
    using that by (auto simp: step_blocked_ip_def andThen_def on_redis_def plain_result_def
        split: prod.splits sum.splits option.splits if_splits)
  have s2: "verdict r \<noteq> PASSED" if "step_block_rules cf E c ip ua fp w1 = (Inr (Some r), w2)" for r w1 w2
    using that g a by (auto simp: step_block_rules_def andThen_def Let_def plain_result_def
        split: prod.splits sum.splits option.splits if_splits)
  have s3: "verdict r \<noteq> PASSED" if "step_rate_limit cf E ip path m w1 = (Inr (Some r), w2)" for r w1 w2
    using that by (auto simp: step_rate_limit_def andThen_def plain_result_def split: prod.splits sum.splits if_splits)
  have s4: "verdict r \<noteq> PASSED" if "step_no_referer cf E ip path referer fp w1 = (Inr (Some r), w2)" for r w1 w2
    using that g by (auto simp: step_no_referer_def andThen_def plain_result_def split: prod.splits sum.splits if_splits)
  have s5: "verdict r \<noteq> PASSED" if "step_scores cf E ip ua path meta fp w1 = (Inr r, w2)" for r w1 w2
    using that g by (auto simp: step_scores_def andThen_def Let_def plain_result_def score_to_verdict_def
        split: prod.splits sum.splits if_splits)
  from assms s1 s2 s3 s4 s5 show ?thesis
    by (auto simp: or_else_def andThen_def split: prod.splits sum.splits option.splits)
qed

lemma evaluate_unfold:
  assumes "classify_fingerprint ua meta = Inr fp" and "load_rule_cache E w = (Inr c, w1)"
  shows "evaluate_request cf E ip ua path m referer meta w =
     or_else (step_allow cf E c ip ua)
      (or_else (step_blocked_ip E ip)
      (or_else (step_block_rules cf E c ip ua fp)
      (or_else (step_rate_limit cf E ip path m)
      (or_else (step_no_referer cf E ip path referer fp)
         (step_scores cf E ip ua path meta fp))))) w1"
  using assms by (simp add: evaluate_request_def)

lemma or_else_None: "m w = (Inr None, w') \<Longrightarrow> or_else m k w = k w'"
  by (simp add: or_else_def)

lemma or_else_Some: "m w = (Inr (Some x), w') \<Longrightarrow> or_else m k w = (Inr x, w')"
  by (simp add: or_else_def)

lemma step_block_rules_first:
  assumes "iso_ok E" and "ua_cache_ok E w1" and "current_rules E w c"
    and "find (block_rule_applies E ip ua) (BlockRule_active (time_now E) (BlockRules w)) = Some r"
    and "action_to_verdict (br_action r) \<noteq> CHALLENGED" and "valid_uuid (br_id r)"
  shows "\<exists>w2. step_block_rules cf E c ip ua fp w1 = (Inr (Some \<lparr>verdict = action_to_verdict (br_action r),
      eval_action = Some (br_action r), matched_rule_id = Some (br_id r), matched_rule_type = ''block'',
      anomaly_score = None, eval_retry_after = None, eval_window = None\<rparr>), w2)"
proof -
  have "fst (check_block_rules E ip ua (cache_block_rules c) w1) = Inr (Some (str_uuid (br_id r), block_dict E r))"
    using check_block_rules_spec [OF assms(1,2)] assms(3,4) by (simp add: current_rules_def)
  then obtain w2 where "check_block_rules E ip ua (cache_block_rules c) w1 = (Inr (Some (str_uuid (br_id r), block_dict E r)), w2)"
    by (metis prod.collapse)
  then show ?thesis using assms(5,6)
    by (intro exI [of _ w2]) (simp add: step_block_rules_def as_uuid_def Let_def plain_result_def)
qed

lemma evaluate_allow_first:
  assumes fr: "fresh_rules E store_of w" and cl: "classify_fingerprint ua meta = Inr fp"
    and r: "find (allow_rule_applies E ip ua) (AllowRule_active (time_now E) (AllowRules w)) = Some r"
    and nr: "\<not> (ar_verify_rdns r \<and> ar_rdns_pattern r \<noteq> [])" and u: "valid_uuid (ar_id r)"
  shows "fst (evaluate_request cf E ip ua path m referer meta w) =
     Inr \<lparr>verdict = PASSED, eval_action = None, matched_rule_id = Some (ar_id r), matched_rule_type = ''allow'',
       anomaly_score = None, eval_retry_after = None, eval_window = None\<rparr>"
proof -
  from fr have iso: "iso_ok E" by (simp add: fresh_rules_def)
  from fr obtain c w1 where c: "load_rule_cache E w = (Inr c, w1)" "current_rules E w c" "ua_cache_ok E w1"
    and cb: "\<And>ip. live (store_of (server w1)) (blocked_ip_key ip) = live (store_of (server w)) (blocked_ip_key ip)"
    and cp: "\<And>ip p. cached_positive E (store_of (server w1)) ip p = cached_positive E (store_of (server w)) ip p"
    by (erule fresh_load_engine)
  from allow_first [OF iso c(3) r nr, of cf] obtain w2 where
    w2: "check_allow_rules cf E ip ua (cache_allow_rules c) w1 = (Inr (Some (str_uuid (ar_id r), allow_dict E r)), w2)"
    using c(2) by (auto simp: current_rules_def)
  then show ?thesis using u unfolding evaluate_unfold [OF cl c(1)]
    by (simp add: or_else_def step_allow_def as_uuid_def plain_result_def)
qed

lemma evaluate_block_first:
  assumes fr: "fresh_rules E store_of w" and cl: "classify_fingerprint ua meta = Inr fp"
    and na: "\<forall>a \<in> set (AllowRule_active (time_now E) (AllowRules w)). \<not> allow_rule_applies E ip ua a"
    and nb: "live (store_of (server w)) (blocked_ip_key ip) = None"
    and r: "find (block_rule_applies E ip ua) (BlockRule_active (time_now E) (BlockRules w)) = Some r"
    and act: "action_to_verdict (br_action r) \<noteq> CHALLENGED" and u: "valid_uuid (br_id r)"
  shows "fst (evaluate_request cf E ip ua path m referer meta w) =
     Inr \<lparr>verdict = action_to_verdict (br_action r), eval_action = Some (br_action r),
       matched_rule_id = Some (br_id r), matched_rule_type = ''block'', anomaly_score = None,
       eval_retry_after = None, eval_window = None\<rparr>"
proof -
  from fr have up: "redis_up (redis E) store_of" and iso: "iso_ok E" by (simp_all add: fresh_rules_def calm_up)
  from fr obtain c w1 where c: "load_rule_cache E w = (Inr c, w1)" "current_rules E w c" "ua_cache_ok E w1"
    and cb: "\<And>ip. live (store_of (server w1)) (blocked_ip_key ip) = live (store_of (server w)) (blocked_ip_key ip)"
    and cp: "\<And>ip p. cached_positive E (store_of (server w1)) ip p = cached_positive E (store_of (server w)) ip p"
    by (erule fresh_load_engine)
  from step_allow_none [OF fr c(2,3) na] obtain w2 where
    w2: "step_allow cf E c ip ua w1 = (Inr None, w2)" "ua_cache_ok E w2" "ua_cache_only w1 w2" by blast
  from step_blocked_ip_absent [OF up, of w2 ip] cb nb ua_cache_only_same(1) [OF w2(3)] obtain r' where
    w3: "step_blocked_ip E ip w2 = (Inr None, w2\<lparr>server := r'\<rparr>)" by auto
  from w2(2) have "ua_cache_ok E (w2\<lparr>server := r'\<rparr>)" by simp
  from step_block_rules_first [OF iso this c(2) r act u, of cf fp] obtain w4 where
    "step_block_rules cf E c ip ua fp (w2\<lparr>server := r'\<rparr>) = (Inr (Some \<lparr>verdict = action_to_verdict (br_action r),
      eval_action = Some (br_action r), matched_rule_id = Some (br_id r), matched_rule_type = ''block'',
      anomaly_score = None, eval_retry_after = None, eval_window = None\<rparr>), w4)" by blast
  then show ?thesis
    unfolding evaluate_unfold [OF cl c(1)] or_else_None [of "step_allow cf E c ip ua" w1, OF w2(1)]
      or_else_None [of "step_blocked_ip E ip" w2, OF w3] by (simp add: or_else_Some)
qed

definition trusted_allow :: AllowRule where
  "trusted_allow = example_allow\<lparr>ar_rule_type := ''ip'', ar_match_type := ''exact'', ar_pattern := ''203.0.113.9'',
     ar_verify_rdns := False\<rparr>"

text \<open>The concrete deployment with any rules is in good order.\<close>

lemma demo_fresh: "fresh_rules demo_env (\<lambda>s. s) (empty_world\<lparr>BlockRules := bs, AllowRules := as\<rparr>)"
proof -
  have sp: "re_special CHR ''(''" by code_simp
  have "re_escape p \<noteq> ''(''" for p
  proof (cases p)
    case (Cons c t)
    then have "hd (re_escape p) = (if re_special c then CHR 0x5C else c)" by (simp add: re_escape_def)
    then have "hd (re_escape p) \<noteq> CHR ''(''" using sp by (cases "re_special c") auto
    then show ?thesis by (metis list.sel(1))
  qed (simp add: re_escape_def)
  then have "escapes_ok (regex demo_env)" by (simp add: escapes_ok_def demo_env_def literal_engine_def)
  then show ?thesis using demo_calm demo_env_ok empty_world_facts
    by (simp add: fresh_rules_def ua_cache_ok_def) (simp add: empty_world_def)
qed

lemma classify_no_agent: "classify_fingerprint [] [] = Inr ''unknown''"
  by (simp add: classify_fingerprint_def score_fingerprint_mismatch_def)

lemma demo_trusted:
  "find (allow_rule_applies demo_env ''203.0.113.9'' []) (AllowRule_active (time_now demo_env) [trusted_allow]) = Some trusted_allow"
  by code_simp

section \<open>Properties of evaluation\<close>

text \<open>
  C2. The first active block rule in order of priority that matches decides: unless an allow
  rule applies or the address is in the blocked cache, the verdict is the one of that rule's
  action and carries its identifier, whatever the rate limits and scores would have said.
  (A challenge goes through the escalation gate, which is described separately.)
\<close>

theorem first_matching_block_rule_decides:
  assumes fr: "fresh_rules E store_of w" and cl: "classify_fingerprint ua meta = Inr fp"
    and na: "\<forall>a \<in> set (AllowRule_active (time_now E) (AllowRules w)). \<not> allow_rule_applies E ip ua a"
    and nb: "live (store_of (server w)) (blocked_ip_key ip) = None"
    and r: "find (block_rule_applies E ip ua) (BlockRule_active (time_now E) (BlockRules w)) = Some r"
    and act: "action_to_verdict (br_action r) \<noteq> CHALLENGED" and u: "valid_uuid (br_id r)"
  shows "fst (evaluate_request cf E ip ua path m referer meta w) =
     Inr \<lparr>verdict = action_to_verdict (br_action r), eval_action = Some (br_action r),
       matched_rule_id = Some (br_id r), matched_rule_type = ''block'', anomaly_score = None,
       eval_retry_after = None, eval_window = None\<rparr>"
  using evaluate_block_first [OF assms] .

theorem first_matching_block_rule_decides_witness:
  "fst (evaluate_request default_conf demo_env ''203.0.113.9'' [] ''/a'' ''GET'' [] []
      (empty_world\<lparr>BlockRules := [example_rule\<lparr>br_pattern := ''203.0.113.8''\<rparr>, example_rule], AllowRules := [example_allow]\<rparr>)) =
     Inr \<lparr>verdict = BLOCKED, eval_action = Some ''block'', matched_rule_id = Some 7, matched_rule_type = ''block'',
       anomaly_score = None, eval_retry_after = None, eval_window = None\<rparr>"
proof -
  let ?w = "empty_world\<lparr>BlockRules := [example_rule\<lparr>br_pattern := ''203.0.113.8''\<rparr>, example_rule], AllowRules := [example_allow]\<rparr>"
  have na: "\<forall>a \<in> set (AllowRule_active (time_now demo_env) (AllowRules ?w)).
      \<not> allow_rule_applies demo_env ''203.0.113.9'' [] a" by code_simp
  have nb: "live (server ?w) (blocked_ip_key ''203.0.113.9'') = None"
    by (simp add: live_def empty_world_def fresh_store_def)
  have r: "find (block_rule_applies demo_env ''203.0.113.9'' [])
      (BlockRule_active (time_now demo_env) (BlockRules ?w)) = Some example_rule"
    by (simp add: block_rule_applies_def BlockRule_active_def example_rule_def not_expired_def pattern_matches_def
        match_ip_def)
  have "fst (evaluate_request default_conf demo_env ''203.0.113.9'' [] ''/a'' ''GET'' [] [] ?w) =
     Inr \<lparr>verdict = action_to_verdict (br_action example_rule), eval_action = Some (br_action example_rule),
       matched_rule_id = Some (br_id example_rule), matched_rule_type = ''block'', anomaly_score = None,
       eval_retry_after = None, eval_window = None\<rparr>"
    by (rule first_matching_block_rule_decides [OF demo_fresh classify_no_agent na nb r])
      (simp_all add: example_rule_def action_to_verdict_def valid_uuid_def)
  then show ?thesis by (simp add: example_rule_def action_to_verdict_def)
qed

text \<open>
  C4. An allow rule wins over everything behind it: when the first applicable active allow rule
  asks for no reverse DNS, the request passes with that rule's identifier even if the address
  is blocked, matches block rules or is over its rate limits.
\<close>

theorem allow_rule_wins:
  assumes "fresh_rules E store_of w" and "classify_fingerprint ua meta = Inr fp"
    and "find (allow_rule_applies E ip ua) (AllowRule_active (time_now E) (AllowRules w)) = Some r"
    and "\<not> (ar_verify_rdns r \<and> ar_rdns_pattern r \<noteq> [])" and "valid_uuid (ar_id r)"
  shows "fst (evaluate_request cf E ip ua path m referer meta w) =
     Inr \<lparr>verdict = PASSED, eval_action = None, matched_rule_id = Some (ar_id r), matched_rule_type = ''allow'',
       anomaly_score = None, eval_retry_after = None, eval_window = None\<rparr>"
  using evaluate_allow_first [OF assms] .

theorem allow_rule_wins_witness:
  "fst (evaluate_request default_conf demo_env ''203.0.113.9'' [] ''/a'' ''GET'' [] []
      (empty_world\<lparr>BlockRules := [example_rule], AllowRules := [trusted_allow]\<rparr>)) =
     Inr \<lparr>verdict = PASSED, eval_action = None, matched_rule_id = Some 9, matched_rule_type = ''allow'',
       anomaly_score = None, eval_retry_after = None, eval_window = None\<rparr>"
proof -
  let ?w = "empty_world\<lparr>BlockRules := [example_rule], AllowRules := [trusted_allow]\<rparr>"
  have r: "find (allow_rule_applies demo_env ''203.0.113.9'' []) (AllowRule_active (time_now demo_env) (AllowRules ?w))
      = Some trusted_allow" using demo_trusted by simp
  have "fst (evaluate_request default_conf demo_env ''203.0.113.9'' [] ''/a'' ''GET'' [] [] ?w) =
     Inr \<lparr>verdict = PASSED, eval_action = None, matched_rule_id = Some (ar_id trusted_allow), matched_rule_type = ''allow'',
       anomaly_score = None, eval_retry_after = None, eval_window = None\<rparr>"
    by (rule allow_rule_wins [OF demo_fresh classify_no_agent r])
      (simp_all add: trusted_allow_def example_allow_def valid_uuid_def)
  then show ?thesis by (simp add: trusted_allow_def example_allow_def)
qed

text \<open>
  C3. A request is passed only on the strength of an allow rule that is active in the database,
  has not expired, matches the request, and whose reverse DNS requirement, if it has one, is
  confirmed in both directions (no positive verdict being cached beforehand).
\<close>

theorem passed_only_by_allow_rule:
  assumes fr: "fresh_rules E store_of w"
    and nc: "\<forall>a \<in> set (AllowRules w). \<not> cached_positive E (store_of (server w)) ip (ar_rdns_pattern a)"
    and ev: "evaluate_request cf E ip ua path m referer meta w = (Inr res, w')" and p: "verdict res = PASSED"
  shows "\<exists>r \<in> set (AllowRules w). ar_is_active r \<and> allow_rule_applies E ip ua r \<and>
     (ar_verify_rdns r \<and> ar_rdns_pattern r \<noteq> [] \<longrightarrow> forward_confirmed E ip (ar_rdns_pattern r))"
proof -
  from fr have srv: "redis_server (redis E) store_of" and iso: "iso_ok E"
    by (auto simp: fresh_rules_def calm_def redis_up_def)
  from fr obtain c w1 where c: "load_rule_cache E w = (Inr c, w1)" "current_rules E w c" "ua_cache_ok E w1"
    and cb: "\<And>ip. live (store_of (server w1)) (blocked_ip_key ip) = live (store_of (server w)) (blocked_ip_key ip)"
    and cp: "\<And>ip p. cached_positive E (store_of (server w1)) ip p = cached_positive E (store_of (server w)) ip p"
    by (erule fresh_load_engine)
  from ev obtain fp where cl: "classify_fingerprint ua meta = Inr fp"
    by (cases "classify_fingerprint ua meta") (auto simp: evaluate_request_def)
  let ?rows = "AllowRule_active (time_now E) (AllowRules w)"
  have sub: "set ?rows = {r \<in> set (AllowRules w). ar_is_active r \<and> not_expired (time_now E) (ar_expires_at r)}"
    by (auto simp: AllowRule_active_def)
  obtain x w2 where a: "step_allow cf E c ip ua w1 = (Inr x, w2)"
    using ev unfolding evaluate_unfold [OF cl c(1)]
    by (cases "step_allow cf E c ip ua w1") (auto simp: or_else_def andThen_def split: sum.splits)
  have "x \<noteq> None"
  proof
    assume "x = None"
    with a ev later_steps_not_passed p show False
      unfolding evaluate_unfold [OF cl c(1)] or_else_None [of "step_allow cf E c ip ua" w1, OF a [unfolded \<open>x = None\<close>]] by blast
  qed
  then obtain i d w3 where ch: "check_allow_rules cf E ip ua (map (allow_dict E) ?rows) w1 = (Inr (Some (i, d)), w3)"
    using a c(2) by (auto simp: step_allow_def andThen_def current_rules_def split: prod.splits sum.splits option.splits)
  have "\<forall>r \<in> set ?rows. \<not> cached_positive E (store_of (server w1)) ip (ar_rdns_pattern r)"
    using nc cp sub by auto
  from allow_rules_sound [OF srv iso c(3) this ch] sub show ?thesis by auto
qed

theorem passed_only_by_allow_rule_witness:
  "\<exists>r \<in> set [trusted_allow]. ar_is_active r \<and> allow_rule_applies demo_env ''203.0.113.9'' [] r"
proof -
  let ?w = "empty_world\<lparr>BlockRules := [], AllowRules := [trusted_allow]\<rparr>"
  let ?run = "evaluate_request default_conf demo_env ''203.0.113.9'' [] ''/a'' ''GET'' [] [] ?w"
  let ?res = "\<lparr>verdict = PASSED, eval_action = None, matched_rule_id = Some 9, matched_rule_type = ''allow'',
       anomaly_score = None, eval_retry_after = None, eval_window = None\<rparr>"
  have r: "find (allow_rule_applies demo_env ''203.0.113.9'' []) (AllowRule_active (time_now demo_env) (AllowRules ?w))
      = Some trusted_allow" using demo_trusted by simp
  have "fst ?run = Inr ?res"
    using evaluate_allow_first [OF demo_fresh classify_no_agent r, of default_conf "''/a''" "''GET''" "[]"]
    by (simp add: trusted_allow_def example_allow_def valid_uuid_def)
  then obtain w' where run: "?run = (Inr ?res, w')" by (metis prod.collapse)
  have nc: "\<forall>a \<in> set (AllowRules ?w). \<not> cached_positive demo_env (server ?w) ''203.0.113.9'' (ar_rdns_pattern a)"
    by (simp add: cached_positive_def live_def empty_world_def fresh_store_def)
  show ?thesis using passed_only_by_allow_rule [OF demo_fresh nc run] by simp
qed

end
