(* ===== verification/Escalation.thy ===== *)
theory Escalation
  imports RuleEngine
begin

text \<open>
  Properties of the decisions of \<open>services/rule_engine.py\<close> that live in Redis: the blocked-address
  cache, the count of unsolved challenges and the gate that turns a challenge into a block; and
  of the scoring and the referer step. The definitions are in theory \<open>RuleEngine\<close>.
\<close>

section \<open>Keys and lemmas\<close>

definition hash_key :: "store \<Rightarrow> string \<Rightarrow> bool" where
  "hash_key s k = (case live s k of None \<Rightarrow> True | Some (RHash h) \<Rightarrow> True | Some _ \<Rightarrow> False)"

text \<open>The keys a block writes hold values of the types the package gives them.\<close>

definition block_ready :: "store \<Rightarrow> bool" where
  "block_ready s = (hash_key s STATS_KEY \<and> counter_key s RULES_VERSION_KEY)"

lemma gate_keys [simp]:
  "challenged_key ip \<noteq> solved_key jp" "solved_key jp \<noteq> challenged_key ip"
  "STATS_KEY \<noteq> challenged_key ip" "RULES_VERSION_KEY \<noteq> challenged_key ip"
  by (auto simp: challenged_key_def solved_key_def STATS_KEY_def RULES_VERSION_KEY_def)

text \<open>What the blocked cache stores for a rule, and for a block without one.\<close>

definition block_value :: "uuid option \<Rightarrow> string" where
  "block_value u = (case u of None \<Rightarrow> ''1'' | Some i \<Rightarrow> str_uuid i)"

lemma str_uuid_long: "valid_uuid u \<Longrightarrow> str_uuid u \<noteq> [] \<and> str_uuid u \<noteq> ''1''"
proof -
  assume "valid_uuid u"
  then have p: "parse_uuid (str_uuid u) = Some u" by simp
  have "parse_uuid [] = None" "parse_uuid ''1'' = None" by code_simp+
  with p show ?thesis by auto
qed

lemma record_block_spec:
  assumes up: "redis_up (redis E) S" and h: "hash_key (S (server w)) STATS_KEY" and ttl: "0 < ttl"
    and v_def: "v = (case v0 of None \<Rightarrow> ''1'' | Some s \<Rightarrow> if s = [] then ''1'' else s)"
  shows "\<exists>r'. record_block_verdict E ip ttl v0 w = (Inr (), w\<lparr>server := r'\<rparr>) \<and> hash_key (S r') STATS_KEY \<and>
     clock (S r') = clock (S (server w)) \<and>
     map_of (data (S r')) (blocked_ip_key ip) = Some (RStr v, Some (clock (S (server w)) + of_int ttl))"
proof -
  let ?s = "S (server w)" and ?k = "blocked_ip_key ip"
  let ?s1 = "put ?k (RStr v) (Some (clock ?s + of_int ttl)) ?s"
  obtain r1 where r1: "r_exec (redis E) (SETEX ?k ttl v) (server w) = (Inr (), r1)" "S r1 = ?s1"
    using redis_up.up_exec [OF up, of "SETEX ?k ttl v" "server w"] ttl by auto
  have "hash_key ?s1 STATS_KEY" using h by (simp add: hash_key_def live_put)
  then have ok: "fst (run_cmd (HINCRBY STATS_KEY ''blocked'' 1) (S r1)) \<noteq> ErrR"
    and st: "\<exists>v. snd (run_cmd (HINCRBY STATS_KEY ''blocked'' 1) (S r1)) = rewrite STATS_KEY (RHash v) ?s1"
    unfolding r1(2) by (auto simp: hash_key_def Let_def split: option.splits rval.splits)
  from redis_up.up_exec [OF up ok] obtain r2 where
    r2: "r_exec (redis E) (HINCRBY STATS_KEY ''blocked'' 1) r1 = (Inr (), r2)"
    "S r2 = snd (run_cmd (HINCRBY STATS_KEY ''blocked'' 1) (S r1))" by blast
  from st obtain x where x: "S r2 = rewrite STATS_KEY (RHash x) ?s1" unfolding r2(2) by blast
  have "record_block_verdict E ip ttl v0 w = (Inr (), w\<lparr>server := r2\<rparr>)"
    unfolding record_block_verdict_def v_def [symmetric] Let_def using r1(1) r2(1) by simp
  then show ?thesis using x by (intro exI [of _ r2]) (simp add: hash_key_def, simp add: rewrite_def)
qed

section \<open>Nothing else moves while a rule is written\<close>

lemma keeps_db: "(\<And>w x n. P (w\<lparr>BlockRules := x, db_ops := n\<rparr>) = P w) \<Longrightarrow> keeps P m \<Longrightarrow> keeps P (db E m)"
  by (simp add: keeps_def db_def Let_def)

lemma keeps_send: "(\<And>w s. P (w\<lparr>signals := s\<rparr>) = P w) \<Longrightarrow> keeps P (send E sig)"
  by (simp add: keeps_def send_def Let_def)

lemma keeps_swallow: "keeps P m \<Longrightarrow> keeps P (swallow m)"
  by (simp add: keeps_def swallow_state)

text \<open>Of the Redis server, writing a rule changes the version counter only.\<close>

definition redis_frame :: "('r \<Rightarrow> store) \<Rightarrow> rat \<Rightarrow> (string \<Rightarrow> rval option) \<Rightarrow> 'r world \<Rightarrow> bool" where
  "redis_frame store_of t f w = (counter_key (store_of (server w)) RULES_VERSION_KEY \<and>
     clock (store_of (server w)) = t \<and> (\<forall>k. k \<noteq> RULES_VERSION_KEY \<longrightarrow> live (store_of (server w)) k = f k))"

lemma redis_frame_updates [simp]:
  "redis_frame S t f (w\<lparr>BlockRules := x\<rparr>) = redis_frame S t f w"
  "redis_frame S t f (w\<lparr>db_ops := n\<rparr>) = redis_frame S t f w"
  "redis_frame S t f (w\<lparr>signals := s\<rparr>) = redis_frame S t f w"
  "redis_frame S t f (w\<lparr>uuids_used := n\<rparr>) = redis_frame S t f w"
  "redis_frame S t f (w\<lparr>django_cache := c\<rparr>) = redis_frame S t f w"
  by (simp_all add: redis_frame_def)

lemma keeps_invalidate:
  assumes "redis_up (redis E) S"
  shows "keeps (redis_frame S t f) (invalidate_rule_cache E)"
proof -
  have "redis_frame S t f (snd (on_redis (r_exec (redis E) (INCR RULES_VERSION_KEY)) w))" if "redis_frame S t f w" for w
  proof -
    from that have c: "counter_key (S (server w)) RULES_VERSION_KEY" by (simp add: redis_frame_def)
    from redis_up.up_incr [OF assms c] obtain r' n where
      "r_exec (redis E) (INCR RULES_VERSION_KEY) (server w) = (Inr (), r')"
      "S r' = rewrite RULES_VERSION_KEY (RStr (str_int (n + 1))) (S (server w))" by blast
    then show ?thesis using that by (auto simp: redis_frame_def counter_key_def)
  qed
  then have "keeps (redis_frame S t f) (on_redis (r_exec (redis E) (INCR RULES_VERSION_KEY)))" by (simp add: keeps_def)
  moreover have "keeps (redis_frame S t f) (cache_incr k)" "keeps (redis_frame S t f) (cache_set k v)" for k v
    by (auto simp: keeps_def cache_incr_def cache_set_def split: option.splits)
  ultimately show ?thesis unfolding invalidate_rule_cache_def
    by (intro keeps_swallow) (cases "backend E"; auto intro!: keep_intros)
qed

lemma keeps_rule_signals:
  assumes "redis_up (redis E) S"
  shows "keeps (redis_frame S t f) (on_block_rule_save E i c)" "keeps (redis_frame S t f) (on_block_rule_delete E i)"
  unfolding on_block_rule_save_def on_block_rule_delete_def emit_rule_saved_def
  by (intro keep_intros keeps_swallow keeps_invalidate [OF assms] keeps_send; simp)+

lemma keeps_delete_each: "redis_up (redis E) S \<Longrightarrow> keeps (redis_frame S t f) (delete_each E rs)"
  by (induction rs) (auto intro!: keep_intros keeps_rule_signals)

lemma keeps_update_or_create:
  assumes "redis_up (redis E) S"
  shows "keeps (redis_frame S t f) (update_or_create E lk d)"
proof -
  have "keeps (redis_frame S t f) (insert_rule E lk d)"
    unfolding insert_rule_def by (rule keeps_db) (auto simp: keeps_def Let_def)
  moreover have "keeps (redis_frame S t f) (save_rule E r)" for r
    unfolding save_rule_def by (rule keeps_db) (auto simp: keeps_def)
  ultimately have c: "keeps (redis_frame S t f) (create_rule E lk d)" "keeps (redis_frame S t f) (refresh_rule E d r)" for r
    unfolding create_rule_def refresh_rule_def by (auto intro!: keep_intros keeps_rule_signals assms)
  then have found: "keeps (redis_frame S t f) (refresh_found E lk d missing)" if "keeps (redis_frame S t f) missing" for missing
    unfolding refresh_found_def using that by (intro keeps_andThen keeps_db keeps_read) (auto intro: keep_intros split: list.splits)
  show ?thesis unfolding update_or_create_def by (intro found keep_intros c)
qed

lemma keeps_create_escalation_rule:
  assumes "redis_up (redis E) S"
  shows "keeps (redis_frame S t f) (create_escalation_rule cf E ip)"
proof -
  have rd: "keeps (redis_frame S t f) (db E (read_state g))" for g
    by (rule keeps_db) (simp_all add: keep_intros)
  have wd: "keeps (redis_frame S t f) (auto_rule_write_defaults E lk d n)" for lk d n
    unfolding auto_rule_write_defaults_def Let_def
    by (rule keeps_andThen [OF keeps_db]) (simp_all add: keep_intros)
  have mw: "keeps (redis_frame S t f) (merge_into_winner E lk d n)" for lk d n
    unfolding merge_into_winner_def
    by (auto intro!: keeps_andThen wd keeps_update_or_create assms keep_intros split: prod.splits option.splits)
  have ua: "keeps (redis_frame S t f) (update_or_create_auto_rule E lk d n)" for lk d n
    unfolding update_or_create_auto_rule_def
    by (auto intro!: keeps_andThen wd mw keeps_update_or_create assms keep_intros split: prod.splits)
  have dd: "keeps (redis_frame S t f) (deduplicate_block_rules E lk)" for lk
  proof -
    have del: "keeps (redis_frame S t f) (db E (\<lambda>w. (Inr (g w), w\<lparr>BlockRules := h w\<rparr>)))"
      for g :: "'a world \<Rightarrow> BlockRule list" and h by (rule keeps_db) (simp_all add: keeps_def Let_def)
    have "keeps (redis_frame S t f) (case qs of [] \<Rightarrow> ret 0 | newest # _ \<Rightarrow> andThen (db E (\<lambda>w.
        (Inr (g newest w), w\<lparr>BlockRules := h newest w\<rparr>))) (\<lambda>doomed. andThen (delete_each E doomed) (\<lambda>_. ret (int (length doomed)))))"
      for g h and qs :: "BlockRule list"
      by (cases qs) (auto intro!: keeps_andThen keeps_ret keeps_delete_each del assms)
    then show ?thesis unfolding deduplicate_block_rules_def Let_def
      by (intro keeps_andThen keeps_if keeps_ret rd) auto
  qed
  have "keeps (redis_frame S t f) (write_auto_rule E lk d n)" for lk d n
    unfolding write_auto_rule_def by (auto intro!: keep_intros ua dd)
  then show ?thesis unfolding create_escalation_rule_def get_or_create_auto_rule_def Let_def
    by (auto intro!: keep_intros split: prod.splits)
qed

section \<open>The gate\<close>

lemma unsolved_count:
  assumes up: "redis_up (redis E) S" and ch: "live (S (server w)) (challenged_key ip) = Some (RStr (str_int n))"
    and fp: "fp = ''bot'' \<or> live (S (server w)) (solved_key ip) = None"
  shows "\<exists>r'. get_unsolved_challenge_count E ip fp w = (Inr n, w\<lparr>server := r'\<rparr>) \<and> S r' = S (server w)"
proof -
  from ch have "live (S (server w)) (challenged_key ip) = map_option RStr (Some (str_int n))" by simp
  from redis_up.up_get [OF up this] obtain r1 where
    r1: "r_get (redis E) (challenged_key ip) (server w) = (Inr (Some (str_int n)), r1)" "S r1 = S (server w)" by blast
  show ?thesis
  proof (cases "fp = ''bot''")
    case True
    then show ?thesis using r1 by (intro exI [of _ r1]) (simp add: get_unsolved_challenge_count_def)
  next
    case False
    with fp r1(2) have "live (S r1) (solved_key ip) = map_option RStr None" by simp
    from redis_up.up_get [OF up this] obtain r2 where
      r2: "r_get (redis E) (solved_key ip) r1 = (Inr None, r2)" "S r2 = S r1" by blast
    with False r1 show ?thesis by (intro exI [of _ r2]) (simp add: get_unsolved_challenge_count_def)
  qed
qed

lemma create_escalation_returns: "\<exists>x w'. create_escalation_rule cf E ip w = (Inr x, w')"
  by (auto simp: create_escalation_rule_def try_except_def split: prod.splits sum.splits)

lemma gate_spec:
  assumes up: "redis_up (redis E) S" and ready: "block_ready (S (server w))"
    and ch: "live (S (server w)) (challenged_key ip) = Some (RStr (str_int n))"
    and fp: "fp = ''bot'' \<or> live (S (server w)) (solved_key ip) = None"
    and ttl: "0 < DJANGO_WAF_ESCALATION_BLOCK_TTL cf"
  shows "\<exists>w'. gate_challenge_or_escalate cf E ip cr fp w =
       (Inr (if n < DJANGO_WAF_CHALLENGE_ESCALATION_THRESHOLD cf then cr else plain_result BLOCKED (Some BLOCK)), w') \<and>
     (if n < DJANGO_WAF_CHALLENGE_ESCALATION_THRESHOLD cf then w' = w\<lparr>server := server w'\<rparr> \<and> S (server w') = S (server w)
      else (\<exists>r. w' = (snd (create_escalation_rule cf E ip (w\<lparr>server := r\<rparr>)))\<lparr>server := server w'\<rparr>) \<and>
        (\<exists>v. v \<noteq> [] \<and> map_of (data (S (server w'))) (blocked_ip_key ip) =
          Some (RStr v, Some (clock (S (server w)) + of_int (DJANGO_WAF_ESCALATION_BLOCK_TTL cf)))) \<and>
        clock (S (server w')) = clock (S (server w)) \<and> hash_key (S (server w')) STATS_KEY)"
proof -
  from unsolved_count [OF up ch fp] obtain r1 where
    r1: "get_unsolved_challenge_count E ip fp w = (Inr n, w\<lparr>server := r1\<rparr>)" "S r1 = S (server w)" by blast
  show ?thesis
  proof (cases "n < DJANGO_WAF_CHALLENGE_ESCALATION_THRESHOLD cf")
    case True
    then show ?thesis using r1
      by (intro exI [of _ "w\<lparr>server := r1\<rparr>"]) (simp add: gate_challenge_or_escalate_def)
  next
    case False
    let ?f = "redis_frame S (clock (S (server w))) (live (S (server w)))"
    obtain x w2 where w2: "create_escalation_rule cf E ip (w\<lparr>server := r1\<rparr>) = (Inr x, w2)"
      using create_escalation_returns by blast
    have "?f (w\<lparr>server := r1\<rparr>)" using ready r1(2) by (simp add: redis_frame_def block_ready_def)
    from keepsD [OF keeps_create_escalation_rule [OF up] this w2]
    have f: "clock (S (server w2)) = clock (S (server w))" "live (S (server w2)) STATS_KEY = live (S (server w)) STATS_KEY"
      by (simp_all add: redis_frame_def)
    have "hash_key (S (server w2)) STATS_KEY" using ready f(2) by (simp add: hash_key_def block_ready_def)
    from record_block_spec [OF up this ttl refl] obtain r3 where
      "record_block_verdict E ip (DJANGO_WAF_ESCALATION_BLOCK_TTL cf) (map_option (\<lambda>r. str_uuid (br_id r)) x) w2 =
        (Inr (), w2\<lparr>server := r3\<rparr>)" "hash_key (S r3) STATS_KEY" "clock (S r3) = clock (S (server w2))"
      "map_of (data (S r3)) (blocked_ip_key ip) = Some (RStr (case map_option (\<lambda>r. str_uuid (br_id r)) x of None \<Rightarrow> ''1''
          | Some s \<Rightarrow> if s = [] then ''1'' else s), Some (clock (S (server w2)) + of_int (DJANGO_WAF_ESCALATION_BLOCK_TTL cf)))"
      by blast
    with False r1 w2 f show ?thesis
      by (intro exI [of _ "w2\<lparr>server := r3\<rparr>"])
        (auto simp: gate_challenge_or_escalate_def intro!: exI [of _ r1] split: option.splits)
  qed
qed

lemma step_blocked_ip_live:
  assumes up: "redis_up (redis E) S" and lv: "live (S (server w)) (blocked_ip_key ip) = Some (RStr (block_value u))"
    and u: "\<And>i. u = Some i \<Longrightarrow> valid_uuid i"
  shows "fst (step_blocked_ip E ip w) = Inr (Some ((plain_result BLOCKED (Some BLOCK))\<lparr>matched_rule_id := u,
     matched_rule_type := (case u of None \<Rightarrow> [] | Some _ \<Rightarrow> ''block'')\<rparr>))"
proof -
  from lv have "live (S (server w)) (blocked_ip_key ip) = map_option RStr (Some (block_value u))" by simp
  from redis_up.up_get [OF up this] obtain r' where
    "r_get (redis E) (blocked_ip_key ip) (server w) = (Inr (Some (block_value u)), r')" by blast
  then show ?thesis using u str_uuid_long
    by (cases u) (auto simp: step_blocked_ip_def block_value_def plain_result_def record_rule_hit_def)
qed

lemma score_patterns_sum:
  assumes "0 \<le> DJANGO_WAF_SUSPICIOUS_PATH_SCORE cf" and "score < 10"
  shows "score_patterns cf X path score ps =
     min 10 (score + of_nat (length (filter (\<lambda>p. py_re_search X p path = Some True) ps)) * DJANGO_WAF_SUSPICIOUS_PATH_SCORE cf)"
  using assms(2)
proof (induction ps arbitrary: score)
  case Nil
  then show ?case by simp
next
  case (Cons p ps)
  let ?S = "DJANGO_WAF_SUSPICIOUS_PATH_SCORE cf"
  let ?n = "of_nat (length (filter (\<lambda>p. py_re_search X p path = Some True) ps)) :: rat"
  show ?case
  proof (cases "py_re_search X p path = Some True")
    case True
    have "0 \<le> ?n * ?S" using assms(1) by simp
    then have "10 \<le> score + ?S \<Longrightarrow> min 10 (score + (1 + ?n) * ?S) = 10" by (simp add: min_def distrib_right)
    with True Cons.IH [of "score + ?S"] show ?thesis by (simp add: Let_def distrib_right add.assoc)
  next
    case False
    then have "score_patterns cf X path score (p # ps) = score_patterns cf X path score ps"
      by (simp split: option.splits bool.splits)
    with False Cons show ?thesis by simp
  qed
qed

text \<open>An address with twelve unsolved challenges.\<close>

definition challenged_world :: "store world" where
  "challenged_world = empty_world\<lparr>server := put (challenged_key ''203.0.113.9'') (RStr (str_int 12)) (Some 3600) fresh_store\<rparr>"

lemma challenged_world_facts:
  "block_ready (server challenged_world)"
  "live (server challenged_world) (challenged_key ''203.0.113.9'') = Some (RStr (str_int 12))"
  "live (server challenged_world) (solved_key ''203.0.113.9'') = None"
  by (simp_all add: challenged_world_def block_ready_def hash_key_def counter_key_def live_put)
    (simp_all add: live_def fresh_store_def)

section \<open>Properties\<close>

text \<open>
  A block recorded for an address is honoured for exactly its time to live: until then the
  evaluation step blocks the address with the recorded rule, afterwards it lets the request on.
\<close>

theorem recorded_block_lasts_its_ttl:
  assumes up: "redis_up (redis E) S" and h: "hash_key (S (server w)) STATS_KEY" and ttl: "0 < ttl"
    and u: "\<And>i. u = Some i \<Longrightarrow> valid_uuid i"
    and rec: "record_block_verdict E ip ttl (map_option str_uuid u) w = (x, w1)"
    and later: "S (server w2) = elapse d (S (server w1))"
  shows "x = Inr () \<and> fst (step_blocked_ip E ip w2) = Inr (if d < of_int ttl
     then Some ((plain_result BLOCKED (Some BLOCK))\<lparr>matched_rule_id := u,
       matched_rule_type := (case u of None \<Rightarrow> [] | Some _ \<Rightarrow> ''block'')\<rparr>) else None)"
proof -
  have val: "block_value u = (case map_option str_uuid u of None \<Rightarrow> ''1'' | Some s \<Rightarrow> if s = [] then ''1'' else s)"
    using u str_uuid_long by (auto simp: block_value_def split: option.splits)
  from record_block_spec [OF up h ttl val, of ip] rec have x: "x = Inr ()"
    and m: "map_of (data (S (server w1))) (blocked_ip_key ip) =
        Some (RStr (block_value u), Some (clock (S (server w)) + of_int ttl))"
    and c: "clock (S (server w1)) = clock (S (server w))" by auto
  have l: "live (S (server w2)) (blocked_ip_key ip) = (if d < of_int ttl then Some (RStr (block_value u)) else None)"
    unfolding live_def later elapse_def using m c by simp
  show ?thesis
  proof (cases "d < of_int ttl")
    case True
    with step_blocked_ip_live [OF up _ u] l x show ?thesis by simp
  next
    case False
    with step_blocked_ip_absent [OF up, of w2 ip] l x show ?thesis by auto
  qed
qed

theorem recorded_block_lasts_its_ttl_witness:
  "fst (step_blocked_ip demo_env ''203.0.113.9'' (empty_world\<lparr>server := elapse 299
      (server (snd (record_block_verdict demo_env ''203.0.113.9'' 300 (Some (str_uuid 7)) empty_world)))\<rparr>)) =
     Inr (Some ((plain_result BLOCKED (Some BLOCK))\<lparr>matched_rule_id := Some 7, matched_rule_type := ''block''\<rparr>)) \<and>
   fst (step_blocked_ip demo_env ''203.0.113.9'' (empty_world\<lparr>server := elapse 300
      (server (snd (record_block_verdict demo_env ''203.0.113.9'' 300 (Some (str_uuid 7)) empty_world)))\<rparr>)) = Inr None"
proof -
  let ?rec = "record_block_verdict demo_env ''203.0.113.9'' 300 (map_option str_uuid (Some 7)) empty_world"
  have up: "redis_up (redis demo_env) (\<lambda>s. s)" by (rule calm_up [OF demo_calm])
  have h: "hash_key (server empty_world) STATS_KEY" by (simp add: hash_key_def live_def empty_world_def fresh_store_def)
  have u: "\<And>i. Some 7 = Some i \<Longrightarrow> valid_uuid i" by (simp add: valid_uuid_def)
  have run: "?rec = (fst ?rec, snd ?rec)" by simp
  have t: "(0 :: int) < 300" by simp
  have "fst (step_blocked_ip demo_env ''203.0.113.9'' (empty_world\<lparr>server := elapse d (server (snd ?rec))\<rparr>)) =
      Inr (if d < of_int 300 then Some ((plain_result BLOCKED (Some BLOCK))\<lparr>matched_rule_id := Some 7,
        matched_rule_type := (case Some (7 :: uuid) of None \<Rightarrow> [] | Some _ \<Rightarrow> ''block'')\<rparr>) else None)" for d
    by (rule conjunct2 [OF recorded_block_lasts_its_ttl [OF up h t u run]]) simp_all
  from this [of 299] this [of 300] show ?thesis by simp
qed

text \<open>
  The gate lets a challenge through while the address has fewer unsolved challenges than the
  threshold, and from the threshold on turns it into a block that the blocked-address cache
  keeps for the escalation period, whether or not the database accepts the rule.
\<close>

theorem gate_escalates_at_threshold:
  assumes up: "redis_up (redis E) S" and ready: "block_ready (S (server w))"
    and ch: "live (S (server w)) (challenged_key ip) = Some (RStr (str_int n))"
    and fp: "fp = ''bot'' \<or> live (S (server w)) (solved_key ip) = None"
    and ttl: "0 < DJANGO_WAF_ESCALATION_BLOCK_TTL cf"
  shows "\<exists>w'. gate_challenge_or_escalate cf E ip cr fp w =
       (Inr (if n < DJANGO_WAF_CHALLENGE_ESCALATION_THRESHOLD cf then cr else plain_result BLOCKED (Some BLOCK)), w') \<and>
     (n < DJANGO_WAF_CHALLENGE_ESCALATION_THRESHOLD cf \<longrightarrow> BlockRules w' = BlockRules w \<and> S (server w') = S (server w)) \<and>
     (DJANGO_WAF_CHALLENGE_ESCALATION_THRESHOLD cf \<le> n \<longrightarrow>
        (\<forall>d < of_int (DJANGO_WAF_ESCALATION_BLOCK_TTL cf). live (elapse d (S (server w'))) (blocked_ip_key ip) \<noteq> None))"
proof -
  from gate_spec [OF up ready ch fp ttl, of cr] obtain w' where
    w': "gate_challenge_or_escalate cf E ip cr fp w =
       (Inr (if n < DJANGO_WAF_CHALLENGE_ESCALATION_THRESHOLD cf then cr else plain_result BLOCKED (Some BLOCK)), w')"
    and c: "if n < DJANGO_WAF_CHALLENGE_ESCALATION_THRESHOLD cf then w' = w\<lparr>server := server w'\<rparr> \<and> S (server w') = S (server w)
      else (\<exists>r. w' = (snd (create_escalation_rule cf E ip (w\<lparr>server := r\<rparr>)))\<lparr>server := server w'\<rparr>) \<and>
        (\<exists>v. v \<noteq> [] \<and> map_of (data (S (server w'))) (blocked_ip_key ip) =
          Some (RStr v, Some (clock (S (server w)) + of_int (DJANGO_WAF_ESCALATION_BLOCK_TTL cf)))) \<and>
        clock (S (server w')) = clock (S (server w)) \<and> hash_key (S (server w')) STATS_KEY" by blast
  have "BlockRules w' = BlockRules w" if "w' = w\<lparr>server := server w'\<rparr>" using arg_cong [OF that, of BlockRules] by simp
  with w' c show ?thesis by (intro exI [of _ w']) (auto simp: live_def elapse_def split: if_splits)
qed

theorem gate_escalates_at_threshold_witness:
  "\<exists>w'. gate_challenge_or_escalate default_conf demo_env ''203.0.113.9'' (plain_result CHALLENGED (Some CHALLENGE)) ''bot''
       challenged_world = (Inr (plain_result BLOCKED (Some BLOCK)), w') \<and>
     live (elapse 60 (server w')) (blocked_ip_key ''203.0.113.9'') \<noteq> None"
proof -
  have "0 < DJANGO_WAF_ESCALATION_BLOCK_TTL default_conf" "DJANGO_WAF_CHALLENGE_ESCALATION_THRESHOLD default_conf \<le> 12"
    "(60 :: rat) < of_int (DJANGO_WAF_ESCALATION_BLOCK_TTL default_conf)" by (simp_all add: default_conf_def)
  with gate_escalates_at_threshold [OF calm_up [OF demo_calm] challenged_world_facts(1,2), of "''bot''" default_conf]
  show ?thesis by fastforce
qed

text \<open>
  C39. The gate does not consult the review of the automatic rule: an address whose escalation
  rule an operator has rejected is blocked all the same at the threshold. The rule stays
  rejected and inactive in the database, but the address enters the blocked cache.
\<close>

theorem escalation_blocks_rejected_address:
  assumes up: "redis_up (redis E) S" and ready: "block_ready (S (server w))"
    and ch: "live (S (server w)) (challenged_key ip) = Some (RStr (str_int n))"
    and fp: "fp = ''bot'' \<or> live (S (server w)) (solved_key ip) = None"
    and ttl: "0 < DJANGO_WAF_ESCALATION_BLOCK_TTL cf" and n: "DJANGO_WAF_CHALLENGE_ESCALATION_THRESHOLD cf \<le> n"
    and riv: "rivals_insert E" and wf: "wf_table (BlockRules w)" and r: "r \<in> set (BlockRules w)"
    and key: "br_source r = AUTO" "br_rule_type r = ''ip''" "br_pattern r = ip" "br_action r = ''block''"
    and rej: "br_review_status r = REJECTED" "\<not> br_is_active r"
  shows "\<exists>w'. gate_challenge_or_escalate cf E ip cr fp w = (Inr (plain_result BLOCKED (Some BLOCK)), w') \<and>
     live (S (server w')) (blocked_ip_key ip) \<noteq> None \<and>
     (\<exists>q \<in> set (BlockRules w'). br_id q = br_id r \<and> br_review_status q = REJECTED \<and> \<not> br_is_active q)"
proof -
  from gate_spec [OF up ready ch fp ttl, of cr] n obtain w' r1 where
    w': "gate_challenge_or_escalate cf E ip cr fp w = (Inr (plain_result BLOCKED (Some BLOCK)), w')"
    and c: "w' = (snd (create_escalation_rule cf E ip (w\<lparr>server := r1\<rparr>)))\<lparr>server := server w'\<rparr>"
    and v: "live (S (server w')) (blocked_ip_key ip) \<noteq> None" using ttl by (auto simp: live_def)
  let ?lk = "\<lparr>lk_rule_type = ''ip'', lk_pattern = ip, lk_action = ''block''\<rparr>"
  have "decided ?lk (br_id r) False REJECTED (w\<lparr>server := r1\<rparr>)"
    using decided_start [of "w\<lparr>server := r1\<rparr>" r ?lk] wf r key rej by (simp add: has_key_def)
  from write_decided [OF riv this] have
    "decided ?lk (br_id r) False REJECTED (snd (create_escalation_rule cf E ip (w\<lparr>server := r1\<rparr>)))"
    by (simp add: create_escalation_rule_def get_or_create_auto_rule_def Let_def try_except_def andThen_def
        split: prod.splits sum.splits) (metis snd_conv)
  from decided_row [OF this] have
    "\<exists>q \<in> set (BlockRules w'). br_id q = br_id r \<and> br_review_status q = REJECTED \<and> \<not> br_is_active q"
    using arg_cong [OF c, of BlockRules] by auto
  with w' v show ?thesis by blast
qed

theorem escalation_blocks_rejected_address_witness:
  "\<exists>w'. gate_challenge_or_escalate default_conf demo_env ''203.0.113.9'' (plain_result CHALLENGED (Some CHALLENGE)) ''bot''
       (challenged_world\<lparr>BlockRules := [example_rule\<lparr>br_is_active := False, br_review_status := REJECTED\<rparr>]\<rparr>) =
       (Inr (plain_result BLOCKED (Some BLOCK)), w') \<and> live (server w') (blocked_ip_key ''203.0.113.9'') \<noteq> None"
proof -
  let ?r = "example_rule\<lparr>br_is_active := False, br_review_status := REJECTED\<rparr>"
  let ?w = "challenged_world\<lparr>BlockRules := [?r]\<rparr>"
  have c: "0 < DJANGO_WAF_ESCALATION_BLOCK_TTL default_conf" "DJANGO_WAF_CHALLENGE_ESCALATION_THRESHOLD default_conf \<le> 12"
    by (simp_all add: default_conf_def)
  have w: "block_ready (server ?w)" "live (server ?w) (challenged_key ''203.0.113.9'') = Some (RStr (str_int 12))"
    using challenged_world_facts by simp_all
  have riv: "rivals_insert demo_env" by (simp add: rivals_insert_def demo_env_def)
  have wf: "wf_table (BlockRules ?w)" "?r \<in> set (BlockRules ?w)" by (simp_all add: wf_table_def)
  have r: "br_source ?r = AUTO" "br_rule_type ?r = ''ip''" "br_pattern ?r = ''203.0.113.9''" "br_action ?r = ''block''"
    "br_review_status ?r = REJECTED" "\<not> br_is_active ?r" by (simp_all add: example_rule_def)
  from escalation_blocks_rejected_address [OF calm_up [OF demo_calm] w disjI1 [OF refl] c riv wf r]
  show ?thesis by blast
qed

text \<open>
  A solved challenge clears the record: when the client of a challenge is not classified as
  a bot and the address has solved one, the gate passes the challenge on whatever the count
  was, and the count starts again from nothing.
\<close>

theorem solved_challenge_clears_count:
  assumes up: "redis_up (redis E) S" and ch: "live (S (server w)) (challenged_key ip) = Some (RStr (str_int n))"
    and sol: "live (S (server w)) (solved_key ip) = Some (RStr t)" "t \<noteq> []" and fp: "fp \<noteq> ''bot''"
    and thr: "0 < DJANGO_WAF_CHALLENGE_ESCALATION_THRESHOLD cf"
  shows "\<exists>w'. gate_challenge_or_escalate cf E ip cr fp w = (Inr cr, w') \<and>
     live (S (server w')) (challenged_key ip) = None \<and> BlockRules w' = BlockRules w"
proof -
  from ch have "live (S (server w)) (challenged_key ip) = map_option RStr (Some (str_int n))" by simp
  from redis_up.up_get [OF up this] obtain r1 where
    r1: "r_get (redis E) (challenged_key ip) (server w) = (Inr (Some (str_int n)), r1)" "S r1 = S (server w)" by blast
  from sol(1) r1(2) have "live (S r1) (solved_key ip) = map_option RStr (Some t)" by simp
  from redis_up.up_get [OF up this] obtain r2 where
    r2: "r_get (redis E) (solved_key ip) r1 = (Inr (Some t), r2)" "S r2 = S r1" by blast
  obtain r3 where r3: "r_exec (redis E) (DEL (challenged_key ip)) r2 = (Inr (), r3)" "S r3 = remove (challenged_key ip) (S r2)"
    using redis_up.up_exec [OF up, of "DEL (challenged_key ip)" r2] by auto
  have "get_unsolved_challenge_count E ip fp w = (Inr 0, w\<lparr>server := r3\<rparr>)"
    using r1(1) r2(1) r3(1) fp sol(2) by (simp add: get_unsolved_challenge_count_def)
  then show ?thesis using thr r3(2)
    by (intro exI [of _ "w\<lparr>server := r3\<rparr>"]) (simp add: gate_challenge_or_escalate_def live_remove)
qed

theorem solved_challenge_clears_count_witness:
  "\<exists>w'. gate_challenge_or_escalate default_conf demo_env ''203.0.113.9'' (plain_result CHALLENGED (Some CHALLENGE)) ''browser''
       (challenged_world\<lparr>server := put (solved_key ''203.0.113.9'') (RStr ''1'') None (server challenged_world)\<rparr>) =
       (Inr (plain_result CHALLENGED (Some CHALLENGE)), w') \<and> live (server w') (challenged_key ''203.0.113.9'') = None"
proof -
  let ?w = "challenged_world\<lparr>server := put (solved_key ''203.0.113.9'') (RStr ''1'') None (server challenged_world)\<rparr>"
  have w: "live (server ?w) (challenged_key ''203.0.113.9'') = Some (RStr (str_int 12))"
    "live (server ?w) (solved_key ''203.0.113.9'') = Some (RStr ''1'')"
    using challenged_world_facts by (simp_all add: live_put)
  have "''1'' \<noteq> []" "''browser'' \<noteq> ''bot''" "0 < DJANGO_WAF_CHALLENGE_ESCALATION_THRESHOLD default_conf"
    by (simp_all add: default_conf_def)
  from solved_challenge_clears_count [OF calm_up [OF demo_calm] w this] show ?thesis by blast
qed

text \<open>
  The score of a path is the number of configured suspicious patterns found in it times the
  configured score, capped at ten; the early return of the loop changes nothing.
\<close>

theorem score_path_counts_patterns:
  assumes "0 \<le> DJANGO_WAF_SUSPICIOUS_PATH_SCORE cf"
  shows "score_path cf X path = min 10 (of_nat (length (filter (\<lambda>p. py_re_search X p path = Some True)
     (DJANGO_WAF_SUSPICIOUS_PATH_PATTERNS cf))) * DJANGO_WAF_SUSPICIOUS_PATH_SCORE cf)"
  using score_patterns_sum [OF assms, of 0] by (simp add: score_path_def)

theorem score_path_counts_patterns_witness:
  "score_path (default_conf\<lparr>DJANGO_WAF_SUSPICIOUS_PATH_PATTERNS := [''.env'', ''wp-'', ''admin''],
     DJANGO_WAF_SUSPICIOUS_PATH_SCORE := 4\<rparr>) literal_engine ''/wp-admin/.env'' = 10"
proof -
  let ?cf = "default_conf\<lparr>DJANGO_WAF_SUSPICIOUS_PATH_PATTERNS := [''.env'', ''wp-'', ''admin''], DJANGO_WAF_SUSPICIOUS_PATH_SCORE := 4\<rparr>"
  have "0 \<le> DJANGO_WAF_SUSPICIOUS_PATH_SCORE ?cf" by simp
  moreover have "filter (\<lambda>p. py_re_search literal_engine p ''/wp-admin/.env'' = Some True) [''.env'', ''wp-'', ''admin''] =
      [''.env'', ''wp-'', ''admin'']" by code_simp
  ultimately show ?thesis using score_path_counts_patterns [of ?cf literal_engine "''/wp-admin/.env''"] by simp
qed

text \<open>
  C39. With \<open>"/"\<close> among the exempt paths, as in the default settings, the check for a missing
  referer never challenges anything: every path starts with a slash, and the list is read as
  prefixes.
\<close>

theorem no_referer_check_vacuous_with_root_exempt:
  assumes "''/'' \<in> set (DJANGO_WAF_NO_REFERER_EXEMPT_PATHS cf)" and "startswith path ''/''"
  shows "step_no_referer cf E ip path referer fp w = (Inr None, w)"
  using assms by (auto simp: step_no_referer_def list_ex_iff)

theorem no_referer_check_vacuous_with_root_exempt_witness:
  "step_no_referer (default_conf\<lparr>DJANGO_WAF_CHALLENGE_NO_REFERER := True\<rparr>) demo_env ''203.0.113.9'' ''/account/login'' [] ''bot''
     empty_world = (Inr None, empty_world)"
  by (rule no_referer_check_vacuous_with_root_exempt) (simp_all add: default_conf_def startswith_def)

end
