(* ===== verification/PyCodecs.thy ===== *)
theory PyCodecs
  imports Prelude
begin

text \<open>
  The encodings of Python's standard library that signed values go through: \<open>str.encode("utf-8")\<close>,
  \<open>bytes.decode("utf-8")\<close>, \<open>base64.urlsafe_b64encode\<close> and \<open>base64.urlsafe_b64decode\<close>. A \<open>bytes\<close>
  value is a \<open>string\<close> too, one \<open>char\<close> per byte. Decoding is complete: it rejects every sequence
  Python rejects; \<open>utf8_text\<close> then names the text of what was accepted, with a question mark for
  the code points outside the model's text. \<open>a2b_base64\<close> is the lenient decoder of \<open>binascii\<close>,
  which skips characters outside the alphabet and stops at a complete padding.
\<close>

section \<open>UTF-8\<close>

definition utf8_char :: "char \<Rightarrow> string" where
  "utf8_char c = (let n = ord c in if n < 128 then [c] else [chr (192 + n div 64), chr (128 + n mod 64)])"

definition utf8 :: "string \<Rightarrow> string" where
  "utf8 s = concat (map utf8_char s)"

definition utf8_cont :: "nat \<Rightarrow> nat \<Rightarrow> char \<Rightarrow> bool" where
  "utf8_cont lo hi c = (lo \<le> ord c \<and> ord c \<le> hi)"

text \<open>The code points of a well-formed sequence (Unicode table 3-7).\<close>

fun utf8_points :: "string \<Rightarrow> nat list option" where
  "utf8_points [] = Some []"
| "utf8_points (b # bs) =
     (let n = ord b in
      if n < 128 then map_option ((#) n) (utf8_points bs)
      else if 194 \<le> n \<and> n \<le> 223 then
        (case bs of
           b1 # r \<Rightarrow> if utf8_cont 128 191 b1
             then map_option ((#) ((n - 192) * 64 + (ord b1 - 128))) (utf8_points r) else None
         | _ \<Rightarrow> None)
      else if 224 \<le> n \<and> n \<le> 239 then
        (case bs of
           b1 # b2 # r \<Rightarrow>
             if utf8_cont (if n = 224 then 160 else 128) (if n = 237 then 159 else 191) b1 \<and> utf8_cont 128 191 b2
             then map_option ((#) ((n - 224) * 4096 + (ord b1 - 128) * 64 + (ord b2 - 128))) (utf8_points r) else None
         | _ \<Rightarrow> None)
      else if 240 \<le> n \<and> n \<le> 244 then
        (case bs of
           b1 # b2 # b3 # r \<Rightarrow>
             if utf8_cont (if n = 240 then 144 else 128) (if n = 244 then 143 else 191) b1 \<and>
                utf8_cont 128 191 b2 \<and> utf8_cont 128 191 b3
             then map_option ((#) ((n - 240) * 262144 + (ord b1 - 128) * 4096 + (ord b2 - 128) * 64 + (ord b3 - 128)))
               (utf8_points r) else None
         | _ \<Rightarrow> None)
      else None)"

definition utf8_valid :: "string \<Rightarrow> bool" where
  "utf8_valid bs = (utf8_points bs \<noteq> None)"

definition utf8_text :: "string \<Rightarrow> string" where
  "utf8_text bs = (case utf8_points bs of
      None \<Rightarrow> [] | Some ns \<Rightarrow> map (\<lambda>n. if n < 256 then chr n else CHR ''?'') ns)"

lemma utf8_simps [simp]: "utf8 [] = []" "utf8 (c # s) = utf8_char c @ utf8 s" "utf8 (s @ t) = utf8 s @ utf8 t"
  by (simp_all add: utf8_def)

lemma utf8_points_char: "utf8_points (utf8_char c @ bs) = map_option ((#) (ord c)) (utf8_points bs)"
proof (cases "ord c < 128")
  case True
  then show ?thesis by (simp add: utf8_char_def Let_def)
next
  case False
  define h l where "h = 192 + ord c div 64" and "l = 128 + ord c mod 64"
  have n: "128 \<le> ord c" "ord c < 256" using False by simp_all
  then have h: "194 \<le> h" "h \<le> 223" "h < 256" and l: "128 \<le> l" "l \<le> 191" "l < 256"
    unfolding h_def l_def by linarith+
  have "(h - 192) * 64 + (l - 128) = ord c" by (simp add: h_def l_def)
  moreover have "utf8_char c = [chr h, chr l]" using False by (simp add: utf8_char_def h_def l_def Let_def)
  ultimately show ?thesis using h l by (simp add: ord_chr utf8_cont_def Let_def)
qed

lemma utf8_points_utf8: "utf8_points (utf8 s) = Some (map ord s)"
  by (induction s) (simp_all add: utf8_points_char)

lemma utf8_valid_utf8 [simp]: "utf8_valid (utf8 s)"
  by (simp add: utf8_valid_def utf8_points_utf8)

lemma utf8_text_utf8 [simp]: "utf8_text (utf8 s) = s"
  by (simp add: utf8_text_def utf8_points_utf8 comp_def)

interpretation utf8_codec: codec "\<lambda>_. True" utf8 "\<lambda>bs. if utf8_valid bs then Some (utf8_text bs) else None"
  by unfold_locales simp

lemma utf8_inject [simp]: "utf8 s = utf8 t \<longleftrightarrow> s = t"
  by (metis utf8_text_utf8)

lemma utf8_ascii: "ord c < 128 \<Longrightarrow> utf8_char c = [c]"
  by (simp add: utf8_char_def)

lemma utf8_ascii_text: "(\<And>c. c \<in> set s \<Longrightarrow> ord c < 128) \<Longrightarrow> utf8 s = s"
  by (induction s) (simp_all add: utf8_ascii)

text \<open>An ASCII character occurs in the encoding exactly where it occurs in the text.\<close>

lemma utf8_char_has: "ord d < 128 \<Longrightarrow> d \<in> set (utf8_char c) \<longleftrightarrow> d = c"
proof -
  assume d: "ord d < 128"
  have "ord c div 64 < 64" "ord c mod 64 < 64" using ord_lt_256 [of c] by linarith+
  then have "ord (chr (192 + ord c div 64)) = 192 + ord c div 64" "ord (chr (128 + ord c mod 64)) = 128 + ord c mod 64"
    by (auto intro!: ord_chr)
  with d have "d \<noteq> chr (192 + ord c div 64)" "d \<noteq> chr (128 + ord c mod 64)" by auto
  with d show ?thesis by (auto simp: utf8_char_def Let_def)
qed

lemma utf8_has: "ord d < 128 \<Longrightarrow> d \<in> set (utf8 s) \<longleftrightarrow> d \<in> set s"
  by (induction s) (simp_all add: utf8_char_has)

lemma utf8_join: "ord d < 128 \<Longrightarrow> utf8 (join d ps) = join d (map utf8 ps)"
  by (induction d ps rule: join.induct) (simp_all add: utf8_ascii)

section \<open>Base64 with the URL-safe alphabet\<close>

definition b64_char :: "nat \<Rightarrow> char" where
  "b64_char n = (if n < 26 then chr (65 + n) else if n < 52 then chr (71 + n) else if n < 62 then chr (n - 4)
     else if n = 62 then CHR ''-'' else CHR ''_'')"

text \<open>\<open>urlsafe_b64decode\<close> translates \<open>-\<close> and \<open>_\<close> to the standard alphabet, so both alphabets are
  read.\<close>

definition b64_value :: "char \<Rightarrow> nat option" where
  "b64_value c = (let n = ord c in
     if 65 \<le> n \<and> n \<le> 90 then Some (n - 65)
     else if 97 \<le> n \<and> n \<le> 122 then Some (n - 71)
     else if 48 \<le> n \<and> n \<le> 57 then Some (n + 4)
     else if c = CHR ''-'' \<or> c = CHR ''+'' then Some 62
     else if c = CHR ''_'' \<or> c = CHR ''/'' then Some 63
     else None)"

definition PAD :: char where
  "PAD = CHR ''=''"

fun urlsafe_b64encode :: "string \<Rightarrow> string" where
  "urlsafe_b64encode [] = []"
| "urlsafe_b64encode [a] = [b64_char (ord a div 4), b64_char (ord a mod 4 * 16), PAD, PAD]"
| "urlsafe_b64encode [a, b] =
     [b64_char (ord a div 4), b64_char (ord a mod 4 * 16 + ord b div 16), b64_char (ord b mod 16 * 4), PAD]"
| "urlsafe_b64encode (a # b # c # r) =
     b64_char (ord a div 4) # b64_char (ord a mod 4 * 16 + ord b div 16) #
     b64_char (ord b mod 16 * 4 + ord c div 64) # b64_char (ord c mod 64) # urlsafe_b64encode r"

text \<open>The state is the position in the group of four, the padding seen in it and the bits left
  over.\<close>

fun a2b_base64 :: "nat \<Rightarrow> nat \<Rightarrow> nat \<Rightarrow> string \<Rightarrow> string option" where
  "a2b_base64 quad pads left [] = (if quad = 0 then Some [] else None)"
| "a2b_base64 quad pads left (c # s) =
     (if c = PAD then
        (if 2 \<le> quad then (if 4 \<le> quad + Suc pads then Some [] else a2b_base64 quad (Suc pads) left s)
         else a2b_base64 quad pads left s)
      else (case b64_value c of
          None \<Rightarrow> a2b_base64 quad pads left s
        | Some v \<Rightarrow>
            if quad = 0 then a2b_base64 1 0 v s
            else if quad = 1 then map_option ((#) (chr (left * 4 + v div 16))) (a2b_base64 2 0 (v mod 16) s)
            else if quad = 2 then map_option ((#) (chr (left * 16 + v div 4))) (a2b_base64 3 0 (v mod 4) s)
            else map_option ((#) (chr (left * 64 + v))) (a2b_base64 0 0 0 s)))"

definition urlsafe_b64decode :: "string \<Rightarrow> string option" where
  "urlsafe_b64decode s = a2b_base64 0 0 0 s"

text \<open>The package writes tokens without padding and restores it by length.\<close>

definition b64_token :: "string \<Rightarrow> string" where
  "b64_token bs = rstrip_by (\<lambda>c. c = PAD) (urlsafe_b64encode bs)"

definition b64_padding :: "string \<Rightarrow> string" where
  "b64_padding token = replicate (nat (- int (length token) mod 4)) PAD"

lemma b64_value_char: "n < 64 \<Longrightarrow> b64_value (b64_char n) = Some n"
proof -
  assume n: "n < 64"
  consider "n < 26" | "26 \<le> n" "n < 52" | "52 \<le> n" "n < 62" | "n = 62" | "n = 63" using n by linarith
  then show ?thesis by cases (auto simp: b64_char_def b64_value_def ord_chr Let_def, simp_all add: ord_def)
qed

lemma b64_value_PAD: "b64_value PAD = None"
  by (simp add: b64_value_def PAD_def ord_def Let_def)

lemma b64_char_not_PAD: "n < 64 \<Longrightarrow> b64_char n \<noteq> PAD"
  using b64_value_char b64_value_PAD by force

lemma byte_split: "ord a div 4 < 64" "ord a mod 4 * 16 + ord b div 16 < 64" "ord b mod 16 * 4 + ord c div 64 < 64"
    "ord c mod 64 < 64" "ord a mod 4 * 16 < 64" "ord b mod 16 * 4 < 64"
  using ord_lt_256 [of a] ord_lt_256 [of b] ord_lt_256 [of c] by linarith+

lemma byte_join: "ord b div 16 div 16 = 0" "ord b div 16 mod 16 = ord b div 16" "ord c div 64 div 4 = 0"
    "ord c div 64 mod 4 = ord c div 64"
proof -
  have "ord b div 16 < 16" "ord c div 64 < 4" using ord_lt_256 [of b] ord_lt_256 [of c] by linarith+
  then show "ord b div 16 div 16 = 0" "ord b div 16 mod 16 = ord b div 16" "ord c div 64 div 4 = 0"
    "ord c div 64 mod 4 = ord c div 64" by simp_all
qed

text \<open>What decoding a group of characters does.\<close>

lemma a2b_step [simp]:
  "n < 64 \<Longrightarrow> a2b_base64 quad pads left (b64_char n # s) =
     (if quad = 0 then a2b_base64 1 0 n s
      else if quad = 1 then map_option ((#) (chr (left * 4 + n div 16))) (a2b_base64 2 0 (n mod 16) s)
      else if quad = 2 then map_option ((#) (chr (left * 16 + n div 4))) (a2b_base64 3 0 (n mod 4) s)
      else map_option ((#) (chr (left * 64 + n))) (a2b_base64 0 0 0 s))"
  by (simp add: b64_value_char b64_char_not_PAD)

lemma a2b_PAD [simp]:
  "a2b_base64 quad pads left (PAD # s) =
     (if 2 \<le> quad then (if 4 \<le> quad + Suc pads then Some [] else a2b_base64 quad (Suc pads) left s)
      else a2b_base64 quad pads left s)"
  by simp

lemmas b64_group = byte_split byte_join

fun b64_body :: "string \<Rightarrow> string" where
  "b64_body [] = []"
| "b64_body [a] = [b64_char (ord a div 4), b64_char (ord a mod 4 * 16)]"
| "b64_body [a, b] = [b64_char (ord a div 4), b64_char (ord a mod 4 * 16 + ord b div 16), b64_char (ord b mod 16 * 4)]"
| "b64_body (a # b # c # r) =
     b64_char (ord a div 4) # b64_char (ord a mod 4 * 16 + ord b div 16) #
     b64_char (ord b mod 16 * 4 + ord c div 64) # b64_char (ord c mod 64) # b64_body r"

lemma b64_body_free: "PAD \<notin> set (b64_body bs)"
proof -
  have f: "PAD \<noteq> b64_char n" if "n < 64" for n using b64_char_not_PAD [OF that] by simp
  show ?thesis by (induction bs rule: b64_body.induct) (simp_all add: f byte_split)
qed

lemma b64_padding_group: "b64_padding (a # b # c # d # s) = b64_padding s"
proof -
  have "- (int (length s) + 4) mod 4 = - int (length s) mod 4" by presburger
  moreover have "int (length (a # b # c # d # s)) = int (length s) + 4" by simp
  ultimately show ?thesis unfolding b64_padding_def by presburger
qed

lemma b64_padding_short: "b64_padding [] = []" "b64_padding [a, b] = [PAD, PAD]" "b64_padding [a, b, c] = [PAD]"
  by (simp_all add: b64_padding_def numeral_2_eq_2)

lemma b64_encode_split: "urlsafe_b64encode bs = b64_body bs @ b64_padding (b64_body bs)"
  by (induction bs rule: b64_body.induct) (simp_all add: b64_padding_group b64_padding_short)

lemma b64_token_body: "b64_token bs = b64_body bs"
proof -
  have d: "dropWhile (\<lambda>c. c = PAD) (replicate n PAD @ t) = dropWhile (\<lambda>c. c = PAD) t" for n t by (induction n) simp_all
  have "rstrip_by (\<lambda>c. c = PAD) (b64_body bs @ replicate n PAD) = rstrip_by (\<lambda>c. c = PAD) (b64_body bs)" for n
    by (simp add: rstrip_by_def d)
  also have "rstrip_by (\<lambda>c. c = PAD) (b64_body bs) = b64_body bs" by (rule rstrip_id) (use b64_body_free in metis)
  finally show ?thesis by (simp add: b64_token_def b64_encode_split b64_padding_def)
qed

lemma b64_decode_encode: "urlsafe_b64decode (urlsafe_b64encode bs) = Some bs"
  unfolding urlsafe_b64decode_def
  by (induction bs rule: urlsafe_b64encode.induct) (simp_all del: a2b_base64.simps(2) add: b64_group)

lemma b64_round_trip: "urlsafe_b64decode (b64_token bs @ b64_padding (b64_token bs)) = Some bs"
  using b64_decode_encode [of bs] by (simp add: b64_token_body b64_encode_split)

lemma b64_char_ascii: "n < 64 \<Longrightarrow> ord (b64_char n) < 128"
proof -
  assume n: "n < 64"
  consider "n < 26" | "26 \<le> n" "n < 52" | "52 \<le> n" "n < 62" | "n = 62" | "n = 63" using n by linarith
  then show ?thesis by cases (auto simp: b64_char_def ord_chr, simp_all add: ord_def)
qed

lemma b64_token_ascii: "c \<in> set (b64_token bs) \<Longrightarrow> ord c < 128"
  unfolding b64_token_body
  by (induction bs rule: b64_body.induct) (auto simp: b64_char_ascii byte_split)

interpretation b64_codec: codec "\<lambda>_. True" b64_token "\<lambda>t. urlsafe_b64decode (t @ b64_padding t)"
  by unfold_locales (rule b64_round_trip)

lemma b64_token_Nil: "b64_token bs = [] \<longleftrightarrow> bs = []"
  unfolding b64_token_body by (cases bs rule: b64_body.cases) simp_all

end
