(* ===== verification/Signing.thy ===== *)
theory Signing
  imports Conf Models PyCodecs "HOL-Library.Word"
begin

text \<open>
  What the package takes from the Python and Django libraries to sign and check values: HMAC and
  SHA-256 (functions of the bytes they are given), Django's \<open>TimestampSigner\<close>, and \<open>HttpResponse.set_cookie\<close>. The hash functions and the
  signer are parameters (record \<open>site\<close>); the locales say what is relied on. Three artefacts of the
  package share one scheme, a text followed by a bar and its signature: the pass cookie, the
  render token and the replay token. \<open>seal\<close> and \<open>unseal\<close> are that scheme.
\<close>

section \<open>The site\<close>

record site =
  SECRET_KEY :: string
  SESSION_COOKIE_DOMAIN :: "string option"
  SITE_PASSWORD_COOKIE_DOMAIN :: "string option"
  TRUSTED_COOKIE_DOMAIN :: "string option"
  hmac_sha256 :: "string \<Rightarrow> string \<Rightarrow> string"
  sha256_digest :: "string \<Rightarrow> 8 word list"
  ts_sign :: "string \<Rightarrow> string \<Rightarrow> rat \<Rightarrow> string \<Rightarrow> string"
  ts_unsign :: "string \<Rightarrow> string \<Rightarrow> rat \<Rightarrow> int \<Rightarrow> string \<Rightarrow> string option"
  clean_ip_field :: "string \<Rightarrow> string"

section \<open>Responses\<close>

record cookie =
  cookie_value :: string
  cookie_max_age :: int
  cookie_domain :: "string option"
  cookie_httponly :: bool
  cookie_secure :: bool
  cookie_samesite :: string

record HttpResponse =
  status_code :: int
  headers :: strdict
  cookies :: "(string \<times> cookie) list"
  body :: string

definition http_response :: "int \<Rightarrow> string \<Rightarrow> HttpResponse" where
  "http_response status content = \<lparr>status_code = status, headers = [], cookies = [], body = content\<rparr>"

definition set_header :: "string \<Rightarrow> string \<Rightarrow> HttpResponse \<Rightarrow> HttpResponse" where
  "set_header name value r = r\<lparr>headers := (name, value) # filter (\<lambda>x. fst x \<noteq> name) (headers r)\<rparr>"

definition set_cookie :: "string \<Rightarrow> cookie \<Rightarrow> HttpResponse \<Rightarrow> HttpResponse" where
  "set_cookie name c r = r\<lparr>cookies := (name, c) # filter (\<lambda>x. fst x \<noteq> name) (cookies r)\<rparr>"

definition redirect_to :: "string \<Rightarrow> HttpResponse" where
  "redirect_to url = set_header ''Location'' url (http_response 302 [])"

lemma set_cookie_get [simp]: "map_of (cookies (set_cookie n c r)) n = Some c"
  by (simp add: set_cookie_def)

lemma set_header_get [simp]: "map_of (headers (set_header n v r)) n = Some v"
  by (simp add: set_header_def)

lemma response_status [simp]:
  "status_code (http_response s b) = s" "status_code (set_header n v r) = status_code r"
  "status_code (set_cookie n c r) = status_code r" "status_code (redirect_to u) = 302"
  by (simp_all add: http_response_def set_header_def set_cookie_def redirect_to_def)

lemma response_cookies [simp]:
  "cookies (http_response s b) = []" "cookies (set_header n v r) = cookies r" "cookies (redirect_to u) = []"
  by (simp_all add: http_response_def set_header_def redirect_to_def)

section \<open>Sealed text\<close>

definition BAR :: char where
  "BAR = CHR ''|''"

definition seal :: "(string \<Rightarrow> string) \<Rightarrow> string \<Rightarrow> string" where
  "seal sign p = p @ BAR # sign p"

text \<open>\<open>hmac.compare_digest\<close> of two strings refuses text that is not ASCII.\<close>

definition is_ascii :: "string \<Rightarrow> bool" where
  "is_ascii s = list_all (\<lambda>c. ord c < 128) s"

definition compare_digest :: "string \<Rightarrow> string \<Rightarrow> py_exc + bool" where
  "compare_digest a b = (if is_ascii a \<and> is_ascii b then Inr (a = b) else Inl TypeError)"

definition unseal :: "(string \<Rightarrow> string) \<Rightarrow> string \<Rightarrow> py_exc + string" where
  "unseal sign v = (case rcut BAR v of
      None \<Rightarrow> Inl ValueError
    | Some (p, s) \<Rightarrow> (case compare_digest (sign p) s of
          Inl e \<Rightarrow> Inl e
        | Inr same \<Rightarrow> if same then Inr p else Inl ValueError))"

text \<open>The signatures are \<open>hexdigest()\<close> text.\<close>

locale hex_signer =
  fixes sign :: "string \<Rightarrow> string"
  assumes hex_output: "c \<in> set (sign p) \<Longrightarrow> is_hexdigit c"
begin

lemma no_bar: "BAR \<notin> set (sign p)"
  using hex_output [of BAR p] by (auto simp: BAR_def is_hexdigit_def is_digit_def ord_def)

lemma rcut_seal: "rcut BAR (seal sign p) = Some (p, sign p)"
  using no_bar by (simp add: seal_def rcut_append)

lemma ascii_output: "is_ascii (sign p)"
proof -
  have "ord c < 128" if "is_hexdigit c" for c using that by (auto simp: is_hexdigit_def Let_def)
  then show ?thesis using hex_output by (simp add: is_ascii_def list_all_iff)
qed

lemma unseal_seal: "unseal sign (seal sign p) = Inr p"
  by (simp add: unseal_def rcut_seal compare_digest_def ascii_output)

lemma unseal_iff: "unseal sign v = Inr p \<longleftrightarrow> v = seal sign p"
proof
  assume "unseal sign v = Inr p"
  then have "rcut BAR v = Some (p, sign p)"
    by (auto simp: unseal_def compare_digest_def split: option.splits if_splits sum.splits)
  from rcut_Some [OF this] show "v = seal sign p" by (simp add: seal_def)
qed (simp add: unseal_seal)

text \<open>A sealed text whose signature part is not ASCII makes the comparison itself raise.\<close>

lemma unseal_raises_TypeError_iff: "unseal sign v = Inl TypeError \<longleftrightarrow> (\<exists>p s. rcut BAR v = Some (p, s) \<and> \<not> is_ascii s)"
  using ascii_output by (auto simp: unseal_def compare_digest_def split: option.splits if_splits sum.splits)

end

definition opened :: "(string \<Rightarrow> string) \<Rightarrow> string \<Rightarrow> string option" where
  "opened sign v = (case unseal sign v of Inl _ \<Rightarrow> None | Inr p \<Rightarrow> Some p)"

sublocale hex_signer \<subseteq> sealed: codec "\<lambda>_. True" "seal sign" "opened sign"
  by unfold_locales (simp add: opened_def unseal_seal)

section \<open>The package's key\<close>

definition get_signing_key :: "conf \<Rightarrow> site \<Rightarrow> string" where
  "get_signing_key cf S =
     (if DJANGO_WAF_SIGNING_KEY cf \<noteq> [] then utf8 (DJANGO_WAF_SIGNING_KEY cf)
      else map (\<lambda>b. chr (unat b)) (sha256_digest S (''django-waf:signing:v1|'' @ utf8 (SECRET_KEY S))))"

section \<open>Timestamped signatures\<close>

text \<open>\<open>TimestampSigner(key, salt).unsign(v, max_age)\<close> of what \<open>sign\<close> wrote at time \<open>t\<close> gives the
  payload back while it is at most \<open>max_age\<close> seconds old, and raises \<open>SignatureExpired\<close> (a
  \<open>BadSignature\<close>) after that. A signed value is never empty.\<close>

locale timestamp_signer =
  fixes sign :: "string \<Rightarrow> string \<Rightarrow> rat \<Rightarrow> string \<Rightarrow> string"
    and unsign :: "string \<Rightarrow> string \<Rightarrow> rat \<Rightarrow> int \<Rightarrow> string \<Rightarrow> string option"
  assumes unsign_sign: "unsign key salt now max_age (sign key salt t p) =
      (if now - of_int \<lfloor>t\<rfloor> \<le> of_int max_age then Some p else None)"
    and sign_not_Nil: "sign key salt t p \<noteq> []"

section \<open>A concrete site\<close>

definition demo_hex :: "string \<Rightarrow> string" where
  "demo_hex s = concat (map (\<lambda>c. [hex_digit (int (ord c) div 16), hex_digit (int (ord c) mod 16)]) s)"

definition demo_ts_sign :: "string \<Rightarrow> string \<Rightarrow> rat \<Rightarrow> string \<Rightarrow> string" where
  "demo_ts_sign key salt t p = key @ salt @ str_int \<lfloor>t\<rfloor> @ CHR ''/'' # p"

definition demo_ts_unsign :: "string \<Rightarrow> string \<Rightarrow> rat \<Rightarrow> int \<Rightarrow> string \<Rightarrow> string option" where
  "demo_ts_unsign key salt now max_age v =
     (if \<not> startswith v (key @ salt) then None
      else (case cut ''/'' (drop (length (key @ salt)) v) of
          None \<Rightarrow> None
        | Some (stamp, p) \<Rightarrow> (case py_int stamp of
              None \<Rightarrow> None
            | Some t \<Rightarrow> if now - of_int t \<le> of_int max_age then Some p else None)))"

definition demo_site :: site where
  "demo_site = \<lparr>SECRET_KEY = ''k'', SESSION_COOKIE_DOMAIN = None, SITE_PASSWORD_COOKIE_DOMAIN = None,
     TRUSTED_COOKIE_DOMAIN = None, hmac_sha256 = (\<lambda>key m. demo_hex (key @ m)), sha256_digest = (\<lambda>_. replicate 32 0),
     ts_sign = demo_ts_sign, ts_unsign = demo_ts_unsign, clean_ip_field = (\<lambda>s. s)\<rparr>"

lemma hex_digit_hex: "0 \<le> d \<Longrightarrow> d < 16 \<Longrightarrow> is_hexdigit (hex_digit d)"
  by (auto simp: hex_digit_def is_hexdigit_def ord_chr Let_def)

interpretation demo_hmac: hex_signer "hmac_sha256 demo_site key" for key
proof
  fix c p assume "c \<in> set (hmac_sha256 demo_site key p)"
  then obtain x where "c = hex_digit (int (ord x) div 16) \<or> c = hex_digit (int (ord x) mod 16)"
    by (auto simp: demo_site_def demo_hex_def)
  moreover have "int (ord x) div 16 < 16" using ord_lt_256 [of x] by linarith
  ultimately show "is_hexdigit c" by (auto intro!: hex_digit_hex)
qed

interpretation demo_signer: timestamp_signer "ts_sign demo_site" "ts_unsign demo_site"
proof
  fix key salt p :: string and now t :: rat and m :: int
  show "ts_unsign demo_site key salt now m (ts_sign demo_site key salt t p) =
      (if now - of_int \<lfloor>t\<rfloor> \<le> of_int m then Some p else None)"
    using cut_char [OF slash_notin_str_int, of "\<lfloor>t\<rfloor>" p]
    by (simp add: demo_site_def demo_ts_sign_def demo_ts_unsign_def startswith_def)
  show "ts_sign demo_site key salt t p \<noteq> []" by (simp add: demo_site_def demo_ts_sign_def)
qed

end
