(* ===== verification/ChallengeService.thy ===== *)
theory ChallengeService
  imports Signing World Handlers
begin

unbundle bit_operations_syntax

text \<open>
  \<open>services/challenge_service.py\<close>: difficulty, proof of work, the life of a challenge token in the
  database and in Redis, and the pass cookie. \<open>secrets.token_hex(64)\<close> is the argument \<open>token\<close> of
  \<open>issue_challenge\<close>. A digest is a list of bytes, \<open>8 word\<close>.
\<close>

section \<open>Difficulty and proof of work\<close>

definition is_mobile_user_agent :: "string \<Rightarrow> bool" where
  "is_mobile_user_agent user_agent =
     (if user_agent = [] then False
      else (let ua = lower user_agent in contains_sub ''mobi'' ua \<or> contains_sub ''iphone'' ua \<or> contains_sub ''ipod'' ua))"

definition pick_difficulty :: "conf \<Rightarrow> string \<Rightarrow> int" where
  "pick_difficulty cf user_agent =
     (let value = (if is_mobile_user_agent user_agent then DJANGO_WAF_CHALLENGE_DIFFICULTY_MOBILE cf
                   else DJANGO_WAF_CHALLENGE_DIFFICULTY_DESKTOP cf)
      in case value of None \<Rightarrow> DJANGO_WAF_CHALLENGE_DIFFICULTY cf | Some v \<Rightarrow> v)"

definition digest_has_leading_zero_bits :: "8 word list \<Rightarrow> int \<Rightarrow> bool" where
  "digest_has_leading_zero_bits digest bits =
     (if bits \<le> 0 then True
      else (let full_bytes = nat (bits div 8); remainder = nat (bits mod 8) in
        if length digest < full_bytes + (if remainder \<noteq> 0 then 1 else 0) then False
        else if list_ex (\<lambda>b. b \<noteq> 0) (take full_bytes digest) then False
        else if remainder = 0 then True
        else (let mask = push_bit (8 - remainder) 255 AND 255
              in (digest ! full_bytes) AND mask = 0)))"

section \<open>Tokens\<close>

definition challenge_key :: "string \<Rightarrow> string" where
  "challenge_key token = ''waf:challenge:'' @ token"

definition challenge_payload :: "'r env \<Rightarrow> string \<Rightarrow> int \<Rightarrow> rat \<Rightarrow> json" where
  "challenge_payload E ip difficulty expires_at =
     JDict [(''ip'', JStr ip), (''difficulty'', JInt difficulty), (''expires'', JStr (isoformat E expires_at))]"

text \<open>\<open>ChallengeToken.objects.create\<close>; the token is unique, and the address field cleans what it
  stores.\<close>

definition create_token :: "'r env \<Rightarrow> site \<Rightarrow> ChallengeToken \<Rightarrow> ('r world, unit) py" where
  "create_token E S t = db E (\<lambda>w.
     if list_ex (\<lambda>r. ct_token r = ct_token t) (ChallengeTokens w) then (Inl IntegrityError, w)
     else (Inr (), w\<lparr>ChallengeTokens := ChallengeTokens w @ [t\<lparr>ct_ip_address := clean_ip_field S (ct_ip_address t)\<rparr>]\<rparr>))"

definition find_token :: "'r env \<Rightarrow> string \<Rightarrow> ('r world, ChallengeToken option) py" where
  "find_token E token = db E (read_state (\<lambda>w. find (\<lambda>r. ct_token r = token) (ChallengeTokens w)))"

text \<open>\<open>save(update_fields=...)\<close>: it is an error to update no row.\<close>

definition update_token :: "'r env \<Rightarrow> string \<Rightarrow> (ChallengeToken \<Rightarrow> ChallengeToken) \<Rightarrow> ('r world, unit) py" where
  "update_token E token f = db E (\<lambda>w.
     if list_ex (\<lambda>r. ct_token r = token) (ChallengeTokens w)
     then (Inr (), w\<lparr>ChallengeTokens := map (\<lambda>r. if ct_token r = token then f r else r) (ChallengeTokens w)\<rparr>)
     else (Inl DatabaseError, w))"

definition issue_challenge ::
  "conf \<Rightarrow> 'r env \<Rightarrow> site \<Rightarrow> string \<Rightarrow> string \<Rightarrow> string \<Rightarrow> ('r world, ChallengeToken) py" where
  "issue_challenge cf E S token ip user_agent =
     (let difficulty = pick_difficulty cf user_agent;
          ttl = DJANGO_WAF_CHALLENGE_COOKIE_TTL cf;
          expires_at = time_now E + of_int ttl;
          challenge_token = \<lparr>ct_token = token, ct_ip_address = ip, ct_difficulty = difficulty, ct_nonce = [],
            ct_status = PENDING, ct_expires_at = expires_at, ct_solved_at = None\<rparr>
      in andThen (create_token E S challenge_token) (\<lambda>_.
         andThen (on_redis (r_exec (redis E) (SETEX (challenge_key token) ttl
            (dumps (challenge_payload E ip difficulty expires_at))))) (\<lambda>_.
         andThen (swallow (send E (Challenge_issued token ip))) (\<lambda>_. ret challenge_token))))"

text \<open>The cached payload: \<open>Inr None\<close> is "fall through to the database". \<open>JSONDecodeError\<close> and
  \<open>KeyError\<close> are caught, other exceptions are not.\<close>

definition json_int :: "json \<Rightarrow> py_exc + int" where
  "json_int v = (case v of
      JInt i \<Rightarrow> Inr i
    | JBool b \<Rightarrow> Inr (if b then 1 else 0)
    | JStr s \<Rightarrow> (case int_text s of None \<Rightarrow> Inl ValueError | Some i \<Rightarrow> Inr i)
    | _ \<Rightarrow> Inl TypeError)"

definition cached_challenge :: "string option \<Rightarrow> py_exc + (json \<times> int) option" where
  "cached_challenge raw = (case raw of
      None \<Rightarrow> Inr None
    | Some s \<Rightarrow> if s = [] then Inr None
        else (case loads s of
            None \<Rightarrow> Inr None
          | Some (JDict d) \<Rightarrow> (case (jget (JDict d) ''ip'', jget (JDict d) ''difficulty'') of
                (Some stored_ip, Some v) \<Rightarrow>
                  (case json_int v of Inl e \<Rightarrow> Inl e | Inr difficulty \<Rightarrow> Inr (Some (stored_ip, difficulty)))
              | _ \<Rightarrow> Inr None)
          | Some _ \<Rightarrow> Inl TypeError))"

text \<open>The part of \<open>verify_challenge_solution\<close> after the look-ups.\<close>

definition reject_nonce :: "'r env \<Rightarrow> string \<Rightarrow> string \<Rightarrow> ('r world, bool) py" where
  "reject_nonce E token ip =
     andThen (update_token E token (\<lambda>r. r\<lparr>ct_status := FAILED\<rparr>)) (\<lambda>_.
     andThen (swallow (send E (Challenge_failed token ip ''invalid_nonce''))) (\<lambda>_.
       raise ChallengeInvalidError))"

definition accept_nonce :: "'r env \<Rightarrow> string \<Rightarrow> string \<Rightarrow> string \<Rightarrow> ('r world, bool) py" where
  "accept_nonce E token nonce ip =
     andThen (update_token E token (\<lambda>r. r\<lparr>ct_status := SOLVED, ct_solved_at := Some (time_now E), ct_nonce := nonce\<rparr>)) (\<lambda>_.
     andThen (on_redis (r_exec (redis E) (DEL (challenge_key token)))) (\<lambda>_.
     andThen (swallow (send E (Challenge_solved token ip))) (\<lambda>_. ret True)))"

definition settle_challenge ::
  "'r env \<Rightarrow> site \<Rightarrow> ChallengeToken \<Rightarrow> json \<Rightarrow> int \<Rightarrow> string \<Rightarrow> string \<Rightarrow> string \<Rightarrow> ('r world, bool) py" where
  "settle_challenge E S row stored_ip difficulty token nonce ip =
     (if ct_status row \<in> {EXPIRED, SOLVED, FAILED} then raise ChallengeExpiredError
      else if ct_expires_at row < time_now E
      then andThen (update_token E token (\<lambda>r. r\<lparr>ct_status := EXPIRED\<rparr>)) (\<lambda>_. raise ChallengeExpiredError)
      else if stored_ip \<noteq> JStr ip then raise ChallengeMismatchError
      else if \<not> digest_has_leading_zero_bits (sha256_digest S (utf8 (token @ nonce))) difficulty
      then reject_nonce E token ip
      else accept_nonce E token nonce ip)"

text \<open>The look-ups and the decision are two steps of the code with nothing that ties them together: no
  transaction, no lock on the row. \<open>read_challenge\<close> is the first (the cached payload and the row of
  the token), \<open>settle_challenge\<close> the second, on the row as it was read.\<close>

definition read_challenge :: "'r env \<Rightarrow> string \<Rightarrow> ('r world, ChallengeToken \<times> json \<times> int) py" where
  "read_challenge E token =
     andThen (on_redis (r_get (redis E) (challenge_key token))) (\<lambda>raw.
       case cached_challenge raw of
         Inl e \<Rightarrow> raise e
       | Inr cached \<Rightarrow> andThen (find_token E token) (\<lambda>row.
           case row of
             None \<Rightarrow> raise (if cached = None then ChallengeInvalidError else DoesNotExist)
           | Some r \<Rightarrow> ret (r, case cached of
                None \<Rightarrow> (JStr (ct_ip_address r), ct_difficulty r) | Some p \<Rightarrow> p)))"

definition verify_challenge_solution ::
  "'r env \<Rightarrow> site \<Rightarrow> string \<Rightarrow> string \<Rightarrow> string \<Rightarrow> ('r world, bool) py" where
  "verify_challenge_solution E S token nonce ip =
     andThen (read_challenge E token) (\<lambda>(r, stored_ip, difficulty).
       settle_challenge E S r stored_ip difficulty token nonce ip)"

section \<open>Pass cookie\<close>

definition normalise_ip :: "string \<Rightarrow> string" where
  "normalise_ip ip = (case ip_address ip of None \<Rightarrow> ip | Some a \<Rightarrow> compressed a)"

definition hmac_sign :: "site \<Rightarrow> string \<Rightarrow> string" where
  "hmac_sign S value = hmac_sha256 S (utf8 (SECRET_KEY S)) (utf8 value)"

definition PASS_COOKIE_VERSION :: string where
  "PASS_COOKIE_VERSION = ''v2''"

definition pass_cookie_value :: "site \<Rightarrow> string \<Rightarrow> string \<Rightarrow> int \<Rightarrow> string" where
  "pass_cookie_value S token ip expiry_ts =
     seal (hmac_sign S) (join BAR [PASS_COOKIE_VERSION, token, normalise_ip ip, str_int expiry_ts])"

definition issue_pass_cookie ::
  "conf \<Rightarrow> site \<Rightarrow> rat \<Rightarrow> HttpResponse \<Rightarrow> string \<Rightarrow> string \<Rightarrow> bool \<Rightarrow> HttpResponse" where
  "issue_pass_cookie cf S now response token ip secure =
     (let ttl = DJANGO_WAF_CHALLENGE_COOKIE_TTL cf;
          expiry_ts = \<lfloor>now\<rfloor> + ttl
      in set_cookie ''waf_pass'' \<lparr>cookie_value = pass_cookie_value S token ip expiry_ts, cookie_max_age = ttl,
           cookie_domain = None, cookie_httponly = True, cookie_secure = secure, cookie_samesite = ''Lax''\<rparr> response)"

definition validate_pass_cookie :: "site \<Rightarrow> rat \<Rightarrow> string \<Rightarrow> string \<Rightarrow> bool" where
  "validate_pass_cookie S now cookie ip =
     (case unseal (hmac_sign S) cookie of
        Inl _ \<Rightarrow> False
      | Inr value_prefix \<Rightarrow> (case split_max BAR 3 value_prefix of
            [ver, _, cookie_ip, expiry_str] \<Rightarrow>
              (if ver \<noteq> PASS_COOKIE_VERSION then False
               else (case int_text expiry_str of
                   None \<Rightarrow> False
                 | Some expiry_ts \<Rightarrow>
                     if of_int expiry_ts < now then False else cookie_ip = normalise_ip ip))
          | _ \<Rightarrow> False))"

interpretation demo_pass: hex_signer "hmac_sign demo_site"
  by unfold_locales (auto simp: hmac_sign_def intro: demo_hmac.hex_output)

section \<open>Proof of work on bits\<close>

text \<open>The digest as a sequence of bits, most significant first.\<close>

definition byte_bits :: "8 word \<Rightarrow> bool list" where
  "byte_bits b = map (\<lambda>i. bit b (7 - i)) [0..<8]"

definition digest_bits :: "8 word list \<Rightarrow> bool list" where
  "digest_bits d = concat (map byte_bits d)"

lemma length_byte_bits [simp]: "length (byte_bits b) = 8"
  by (simp add: byte_bits_def)

lemma length_digest_bits [simp]: "length (digest_bits d) = 8 * length d"
  by (induction d) (simp_all add: digest_bits_def)

lemma byte_zero: "(\<forall>x \<in> set (byte_bits b). \<not> x) \<longleftrightarrow> b = 0"
proof
  assume a: "\<forall>x \<in> set (byte_bits b). \<not> x"
  have "\<not> bit b j" if "j < 8" for j
  proof -
    have "j = 7 - (7 - j)" "7 - j < 8" using that by auto
    then have "bit b j \<in> set (byte_bits b)" unfolding byte_bits_def by (metis atLeastLessThan_iff image_eqI le0 list.set_map set_upt)
    with a show ?thesis by auto
  qed
  then show "b = 0" by (intro bit_word_eqI) simp
qed (auto simp: byte_bits_def)

lemma digest_zero: "(\<forall>x \<in> set (digest_bits d). \<not> x) \<longleftrightarrow> (\<forall>b \<in> set d. b = 0)"
  using byte_zero by (auto simp: digest_bits_def)

lemma top_bits_zero:
  assumes "r < 8"
  shows "(b :: 8 word) AND (push_bit (8 - r) 255 AND 255) = 0 \<longleftrightarrow> (\<forall>x \<in> set (take r (byte_bits b)). \<not> x)"
proof -
  have m: "(255 :: 8 word) = mask 8" by (simp add: mask_eq_decr_exp)
  have "set (take r (byte_bits b)) = (\<lambda>i. bit b (7 - i)) ` {0..<r}"
    using assms by (simp add: byte_bits_def take_map take_upt)
  then have "(\<forall>x \<in> set (take r (byte_bits b)). \<not> x) \<longleftrightarrow> (\<forall>i < r. \<not> bit b (7 - i))" by auto
  also have "\<dots> \<longleftrightarrow> (\<forall>j < 8. 8 - r \<le> j \<longrightarrow> \<not> bit b j)"
  proof (intro iffI allI impI)
    fix j assume a: "\<forall>i < r. \<not> bit b (7 - i)" and j: "j < 8" "8 - r \<le> j"
    have "7 - j < r" "7 - (7 - j) = j" using j assms by linarith+
    then show "\<not> bit b j" using a by metis
  next
    fix i assume "\<forall>j < 8. 8 - r \<le> j \<longrightarrow> \<not> bit b j" and "i < r"
    then show "\<not> bit b (7 - i)" using assms by auto
  qed
  also have "\<dots> \<longleftrightarrow> b AND (push_bit (8 - r) 255 AND 255) = 0"
    unfolding m bit_eq_iff by (auto simp: bit_simps)
  finally show ?thesis by simp
qed

lemma digest_bits_append: "digest_bits (d @ e) = digest_bits d @ digest_bits e"
  by (simp add: digest_bits_def)

lemma take_digest_bits:
  assumes "r < 8" and "k < length d"
  shows "take (8 * k + r) (digest_bits d) = digest_bits (take k d) @ take r (byte_bits (d ! k))"
proof -
  from assms(2) have "d = take k d @ d ! k # drop (Suc k) d" by (simp add: id_take_nth_drop)
  then have "digest_bits d = digest_bits (take k d) @ byte_bits (d ! k) @ digest_bits (drop (Suc k) d)"
    by (metis append.assoc append_Cons append_Nil concat.simps digest_bits_append digest_bits_def list.simps(9))
  then show ?thesis using assms by (simp add: min_def)
qed

lemma take_digest_bits_full: "take (8 * k) (digest_bits d) = digest_bits (take k d)"
proof (cases "k < length d")
  case True
  with take_digest_bits [of 0 k d] show ?thesis by simp
qed simp

lemma all_False_iff: "xs = replicate n False \<longleftrightarrow> length xs = n \<and> (\<forall>x \<in> set xs. \<not> x)"
  by (metis (full_types) in_set_replicate length_replicate replicate_eqI)

lemma leading_zero_bits_iff:
  "digest_has_leading_zero_bits d n \<longleftrightarrow> take (nat n) (digest_bits d) = replicate (nat n) False"
proof (cases "n \<le> 0")
  case True
  then show ?thesis by (simp add: digest_has_leading_zero_bits_def)
next
  case False
  define k r where "k = nat (n div 8)" and "r = nat (n mod 8)"
  have "0 \<le> n div 8" "0 \<le> n mod 8" "n mod 8 < 8" using False by simp_all
  then have "int (8 * k + r) = n" and r8: "r < 8" by (simp_all add: k_def r_def)
  then have n: "nat n = 8 * k + r" "r < 8" by (metis nat_int) (rule r8)
  have d: "digest_has_leading_zero_bits d n \<longleftrightarrow> k + (if r \<noteq> 0 then 1 else 0) \<le> length d \<and> (\<forall>b \<in> set (take k d). b = 0) \<and>
      (r \<noteq> 0 \<longrightarrow> d ! k AND (push_bit (8 - r) 255 AND 255) = 0)"
    using False by (auto simp: digest_has_leading_zero_bits_def Let_def k_def [symmetric] r_def [symmetric] list_ex_iff)
  show ?thesis
  proof (cases "r = 0")
    case True
    then show ?thesis unfolding d n(1) all_False_iff using digest_zero [of "take k d"]
      by (auto simp: take_digest_bits_full min_def)
  next
    case False
    show ?thesis
    proof (cases "k < length d")
      case True
      then show ?thesis unfolding d n(1) all_False_iff take_digest_bits [OF n(2) True]
        using False digest_zero [of "take k d"] top_bits_zero [OF n(2)] n(2) by (auto simp: min_def)
    next
      case k: False
      then show ?thesis unfolding d n(1) all_False_iff using False by auto
    qed
  qed
qed

section \<open>Life of a token\<close>

lemma db_tokens: "db E m w = (x, w') \<Longrightarrow> frames ChallengeTokens m \<Longrightarrow> ChallengeTokens w' = ChallengeTokens w"
  by (rule framesD [OF frames_db]) simp_all

lemma update_token_effect:
  assumes "update_token E token f w = (x, w')"
  shows "(x = Inr () \<and> ChallengeTokens w' = map (\<lambda>r. if ct_token r = token then f r else r) (ChallengeTokens w)) \<or>
     ((\<exists>e. x = Inl e) \<and> ChallengeTokens w' = ChallengeTokens w)"
  using assms by (auto simp: update_token_def db_def Let_def split: if_splits)

lemma find_token_effect:
  assumes "find_token E token w = (Inr row, w')"
  shows "row = find (\<lambda>r. ct_token r = token) (ChallengeTokens w) \<and> ChallengeTokens w' = ChallengeTokens w \<and> server w' = server w"
  using assms by (auto simp: find_token_def db_def Let_def split: if_splits)

lemma frames_tokens [frame_intros]:
  "frames ChallengeTokens (on_redis m)" "frames ChallengeTokens (send E sig)" "frames ChallengeTokens (find_token E token)"
  by (auto simp: frames_def on_redis_def send_def find_token_def db_def Let_def split: prod.splits)

lemma accept_tokens:
  assumes "accept_nonce E token nonce ip w = (x, w')"
  shows "ChallengeTokens w' = ChallengeTokens w \<and> (\<exists>e. x = Inl e) \<or>
     ChallengeTokens w' = map (\<lambda>r. if ct_token r = token
        then r\<lparr>ct_status := SOLVED, ct_solved_at := Some (time_now E), ct_nonce := nonce\<rparr> else r) (ChallengeTokens w)"
proof -
  let ?f = "\<lambda>r. r\<lparr>ct_status := SOLVED, ct_solved_at := Some (time_now E), ct_nonce := nonce\<rparr>"
  obtain y w1 where u: "update_token E token ?f w = (y, w1)" by (cases "update_token E token ?f w")
  show ?thesis
  proof (cases y)
    case (Inl e)
    with assms u update_token_effect [OF u] show ?thesis by (auto simp: accept_nonce_def)
  next
    case (Inr z)
    have "frames ChallengeTokens (andThen (on_redis (r_exec (redis E) (DEL (challenge_key token)))) (\<lambda>_.
        andThen (swallow (send E (Challenge_solved token ip))) (\<lambda>_. ret True)))"
      by (intro frame_intros) simp_all
    from framesD [OF this] assms u Inr update_token_effect [OF u] show ?thesis by (auto simp: accept_nonce_def)
  qed
qed

text \<open>What settling an answer does to the table: at most the row of the token changes, only when the
  row that was read is pending, and acceptance makes it solved. A read changes nothing.\<close>

lemma settle_tokens:
  assumes "settle_challenge E S row sip dif token nonce ip w = (x, w')"
  shows "ChallengeTokens w' = ChallengeTokens w \<and> x \<noteq> Inr True \<or>
    ct_status row = PENDING \<and> (\<exists>g. (\<forall>q. ct_token (g q) = ct_token q \<and> ct_status (g q) \<noteq> PENDING) \<and>
       ChallengeTokens w' = map (\<lambda>r. if ct_token r = token then g r else r) (ChallengeTokens w))"
proof -
  have sw: "ChallengeTokens (snd (swallow (send E sig) w)) = ChallengeTokens w" for sig w
    by (simp add: swallow_state send_def Let_def)
  consider (settled) "ct_status row \<in> {EXPIRED, SOLVED, FAILED}"
    | (old) "ct_status row = PENDING" "ct_expires_at row < time_now E"
    | (ip) "ct_status row = PENDING" "\<not> ct_expires_at row < time_now E" "sip \<noteq> JStr ip"
    | (bad) "ct_status row = PENDING" "\<not> ct_expires_at row < time_now E" "sip = JStr ip"
        "\<not> digest_has_leading_zero_bits (sha256_digest S (utf8 (token @ nonce))) dif"
    | (good) "ct_status row = PENDING" "\<not> ct_expires_at row < time_now E" "sip = JStr ip"
        "digest_has_leading_zero_bits (sha256_digest S (utf8 (token @ nonce))) dif"
    by (cases "ct_status row") auto
  then show ?thesis
  proof cases
    case settled
    with assms show ?thesis by (auto simp: settle_challenge_def)
  next
    case old
    obtain z w3 where u: "update_token E token (\<lambda>r. r\<lparr>ct_status := EXPIRED\<rparr>) w = (z, w3)" by fastforce
    from assms old u update_token_effect [OF u] show ?thesis
      by (cases z) (auto simp: settle_challenge_def intro!: exI [of _ "\<lambda>r. r\<lparr>ct_status := EXPIRED\<rparr>"])
  next
    case ip
    with assms show ?thesis by (auto simp: settle_challenge_def)
  next
    case bad
    obtain z w3 where u: "update_token E token (\<lambda>r. r\<lparr>ct_status := FAILED\<rparr>) w = (z, w3)" by fastforce
    from assms bad u update_token_effect [OF u] sw show ?thesis
      by (cases z) (auto simp: settle_challenge_def reject_nonce_def send_def Let_def
          intro!: exI [of _ "\<lambda>r. r\<lparr>ct_status := FAILED\<rparr>"])
  next
    case good
    with assms have "accept_nonce E token nonce ip w = (x, w')" by (simp add: settle_challenge_def)
    from accept_tokens [OF this] good show ?thesis
      by (auto intro!: exI [of _ "\<lambda>r. r\<lparr>ct_status := SOLVED, ct_solved_at := Some (time_now E), ct_nonce := nonce\<rparr>"])
  qed
qed

lemma read_tokens:
  assumes "read_challenge E token w = (x, w')"
  shows "ChallengeTokens w' = ChallengeTokens w" and "x = Inr (r, p) \<Longrightarrow> r \<in> set (ChallengeTokens w) \<and> ct_token r = token"
proof -
  obtain y w1 where g: "on_redis (r_get (redis E) (challenge_key token)) w = (y, w1)"
    by (cases "on_redis (r_get (redis E) (challenge_key token)) w")
  have t1: "ChallengeTokens w1 = ChallengeTokens w" using g by (auto simp: on_redis_def split: prod.splits)
  obtain z w2 where f: "find_token E token w1 = (z, w2)" by (cases "find_token E token w1")
  have t2: "ChallengeTokens w2 = ChallengeTokens w" using framesD [OF frames_tokens(3) f] t1 by simp
  show "ChallengeTokens w' = ChallengeTokens w"
    using assms g f t1 t2 by (auto simp: read_challenge_def andThen_def split: sum.splits option.splits)
  assume "x = Inr (r, p)"
  with assms g f have "z = Inr (Some r)"
    by (auto simp: read_challenge_def andThen_def split: sum.splits option.splits)
  with find_token_effect [of E token w1 "Some r" w2] f t1
  have "find (\<lambda>r. ct_token r = token) (ChallengeTokens w) = Some r" by auto
  then show "r \<in> set (ChallengeTokens w) \<and> ct_token r = token" by (auto simp: find_Some_split)
qed

lemma verify_challenge_solution_eq:
  "verify_challenge_solution E S token nonce ip =
     andThen (on_redis (r_get (redis E) (challenge_key token))) (\<lambda>raw.
       case cached_challenge raw of
         Inl e \<Rightarrow> raise e
       | Inr cached \<Rightarrow> andThen (find_token E token) (\<lambda>row.
           case row of
             None \<Rightarrow> raise (if cached = None then ChallengeInvalidError else DoesNotExist)
           | Some r \<Rightarrow>
               (let (stored_ip, difficulty) = (case cached of
                      None \<Rightarrow> (JStr (ct_ip_address r), ct_difficulty r) | Some p \<Rightarrow> p)
                in settle_challenge E S r stored_ip difficulty token nonce ip)))"
  by (rule ext) (auto simp: verify_challenge_solution_def read_challenge_def andThen_def raise_def ret_def
      split: sum.splits option.splits prod.splits)

lemma issue_tokens:
  assumes "issue_challenge cf E S token ip ua w = (x, w')"
  shows "ChallengeTokens w' = ChallengeTokens w \<or> (\<exists>t. ChallengeTokens w' = ChallengeTokens w @ [t] \<and> ct_token t = token \<and>
     ct_status t = PENDING \<and> token \<notin> ct_token ` set (ChallengeTokens w))"
proof -
  define t where "t = \<lparr>ct_token = token, ct_ip_address = ip, ct_difficulty = pick_difficulty cf ua, ct_nonce = [],
      ct_status = PENDING, ct_expires_at = time_now E + of_int (DJANGO_WAF_CHALLENGE_COOKIE_TTL cf), ct_solved_at = None\<rparr>"
  obtain y w1 where c: "create_token E S t w = (y, w1)" by (cases "create_token E S t w")
  have rest: "frames ChallengeTokens (andThen (on_redis m) (\<lambda>_. andThen (swallow (send E sig)) (\<lambda>_. ret t)))"
    for m :: "('a, unit) py" and sig by (intro frame_intros) simp_all
  have "ChallengeTokens w1 = ChallengeTokens w \<or> ChallengeTokens w1 = ChallengeTokens w @ [t\<lparr>ct_ip_address := clean_ip_field S ip\<rparr>] \<and>
      token \<notin> ct_token ` set (ChallengeTokens w)"
    using c by (auto simp: create_token_def db_def Let_def t_def list_ex_iff split: if_splits)
  moreover have "ChallengeTokens w' = ChallengeTokens w1"
    using assms c framesD [OF rest]
    by (cases y) (auto simp: issue_challenge_def Let_def t_def [symmetric])
  ultimately show ?thesis by (auto simp: t_def)
qed

text \<open>Everything that can happen to challenges, step by step. An answer is handled in two steps, which
  the steps of other answers (to the same token too), of issuing and of deletion may separate: its
  look-ups put it among the answers under way with the row as it was read, and settling it runs on
  the table of that moment. Rows are deleted at any time, by \<open>prune_challenge_tokens\<close> or in the admin; a
  worker may die with its answer unsettled; whatever else runs leaves the token table alone. Every
  step has its own environment, so anything may fail, and its number; an acceptance is recorded with
  the steps in which the answer was read and settled, latest first. Tokens are 512 random bits: an
  accepted one is not drawn again.\<close>

record answer =
  an_token :: string
  an_nonce :: string
  an_ip :: string
  an_row :: ChallengeToken
  an_stored_ip :: json
  an_difficulty :: int
  an_began :: nat

definition settle_answer :: "'r env \<Rightarrow> site \<Rightarrow> answer \<Rightarrow> ('r world, bool) py" where
  "settle_answer E S a =
     settle_challenge E S (an_row a) (an_stored_ip a) (an_difficulty a) (an_token a) (an_nonce a) (an_ip a)"

inductive challenge_run :: "site \<Rightarrow> nat \<Rightarrow> (string \<times> nat \<times> nat) list \<Rightarrow> answer list \<Rightarrow> 'r world \<Rightarrow> bool" for S where
  start: "ChallengeTokens w = [] \<Longrightarrow> challenge_run S 0 [] [] w"
| issue: "challenge_run S n acc pend w \<Longrightarrow> token \<notin> fst ` set acc \<Longrightarrow>
     challenge_run S (Suc n) acc pend (snd (issue_challenge cf E S token ip ua w))"
| read: "challenge_run S n acc pend w \<Longrightarrow> read_challenge E token w = (Inr (r, stored_ip, difficulty), w') \<Longrightarrow>
     challenge_run S (Suc n) acc (pend @ [\<lparr>an_token = token, an_nonce = nonce, an_ip = ip, an_row = r,
       an_stored_ip = stored_ip, an_difficulty = difficulty, an_began = n\<rparr>]) w'"
| settle: "challenge_run S n acc (as @ a # bs) w \<Longrightarrow> settle_answer E S a w = (x, w') \<Longrightarrow>
     challenge_run S (Suc n) (if x = Inr True then (an_token a, an_began a, n) # acc else acc) (as @ bs) w'"
| die: "challenge_run S n acc (as @ a # bs) w \<Longrightarrow> challenge_run S (Suc n) acc (as @ bs) w"
| delete: "challenge_run S n acc pend w \<Longrightarrow> ChallengeTokens w' = filter keep (ChallengeTokens w) \<Longrightarrow>
     challenge_run S (Suc n) acc pend w'"
| other: "challenge_run S n acc pend w \<Longrightarrow> ChallengeTokens w' = ChallengeTokens w \<Longrightarrow> challenge_run S (Suc n) acc pend w'"

text \<open>The invariant: the row of an accepted token is not pending; an answer under way that read a pending
  row was read before every acceptance of its token; acceptances of a token overlap.\<close>

definition overlapping :: "(string \<times> nat \<times> nat) list \<Rightarrow> bool" where
  "overlapping acc = sorted_wrt (\<lambda>(t, b, e) (t', b', e'). e' < e \<and> (t = t' \<longrightarrow> b < e')) acc"

definition answers_inv :: "nat \<Rightarrow> (string \<times> nat \<times> nat) list \<Rightarrow> answer list \<Rightarrow> ChallengeToken list \<Rightarrow> bool" where
  "answers_inv n acc pend rows \<longleftrightarrow> overlapping acc \<and> (\<forall>t b e. (t, b, e) \<in> set acc \<longrightarrow> e < n) \<and>
     (\<forall>r \<in> set rows. ct_token r \<in> fst ` set acc \<longrightarrow> ct_status r \<noteq> PENDING) \<and>
     (\<forall>a \<in> set pend. an_began a < n) \<and>
     (\<forall>a \<in> set pend. ct_status (an_row a) = PENDING \<longrightarrow> (\<forall>b e. (an_token a, b, e) \<in> set acc \<longrightarrow> an_began a < e))"

lemma answers_inv_rows:
  assumes "answers_inv n acc pend rows" and "\<forall>r \<in> set rows'. r \<in> set rows \<or> ct_status r \<noteq> PENDING \<or> ct_token r \<notin> fst ` set acc"
    and "set pend' \<subseteq> set pend"
  shows "answers_inv (Suc n) acc pend' rows'"
  using assms unfolding answers_inv_def by (meson less_SucI subset_iff)

lemma answers_inv_accept:
  assumes inv: "answers_inv n acc pend rows" and a: "a \<in> set pend" "ct_status (an_row a) = PENDING"
    and rows: "\<forall>r \<in> set rows'. ct_status r \<noteq> PENDING \<or> (ct_token r \<noteq> an_token a \<and> r \<in> set rows)"
    and sub: "set pend' \<subseteq> set pend"
  shows "answers_inv (Suc n) ((an_token a, an_began a, n) # acc) pend' rows'"
proof -
  have "overlapping ((an_token a, an_began a, n) # acc)"
    using inv a unfolding overlapping_def answers_inv_def by auto
  moreover have "\<forall>t b e. (t, b, e) \<in> set ((an_token a, an_began a, n) # acc) \<longrightarrow> e < Suc n"
    using inv unfolding answers_inv_def by (auto simp: less_SucI)
  moreover have "\<forall>r \<in> set rows'. ct_token r \<in> fst ` set ((an_token a, an_began a, n) # acc) \<longrightarrow> ct_status r \<noteq> PENDING"
    using inv rows unfolding answers_inv_def by auto
  moreover have "\<forall>c \<in> set pend'. an_began c < Suc n" using inv sub unfolding answers_inv_def by (meson less_SucI subset_iff)
  moreover have "\<forall>c \<in> set pend'. ct_status (an_row c) = PENDING \<longrightarrow>
        (\<forall>b e. (an_token c, b, e) \<in> set ((an_token a, an_began a, n) # acc) \<longrightarrow> an_began c < e)"
    using inv sub unfolding answers_inv_def by auto
  ultimately show ?thesis unfolding answers_inv_def by blast
qed

lemma challenge_run_inv: "challenge_run S n acc pend w \<Longrightarrow> answers_inv n acc pend (ChallengeTokens w)"
proof (induction rule: challenge_run.induct)
  case (start w)
  then show ?case by (simp add: answers_inv_def overlapping_def)
next
  case (issue n acc pend w token cf E ip ua)
  let ?v = "issue_challenge cf E S token ip ua w"
  from issue_tokens [of cf E S token ip ua w "fst ?v" "snd ?v"] issue.hyps(2)
  have "\<forall>r \<in> set (ChallengeTokens (snd ?v)). r \<in> set (ChallengeTokens w) \<or> ct_status r \<noteq> PENDING \<or> ct_token r \<notin> fst ` set acc"
    by (metis UnE append_Nil2 empty_iff empty_set list.set(2) insert_iff prod.collapse set_append)
  then show ?case by (rule answers_inv_rows [OF issue.IH]) simp
next
  case (read n acc pend w E token r stored_ip difficulty w' nonce ip)
  note rd = read_tokens [OF read.hyps(2)]
  from rd(2) have r: "r \<in> set (ChallengeTokens w)" "ct_token r = token" by auto
  from read.IH r have "(token, b, e) \<in> set acc \<Longrightarrow> ct_status r \<noteq> PENDING" for b e
    unfolding answers_inv_def by force
  moreover have "answers_inv (Suc n) acc pend (ChallengeTokens w')"
    unfolding rd(1) by (rule answers_inv_rows [OF read.IH]) auto
  ultimately show ?case unfolding answers_inv_def by auto
next
  case (settle n acc as a bs w E x w')
  note st = settle.hyps(2) [unfolded settle_answer_def]
  from settle_tokens [OF st] consider
    "ChallengeTokens w' = ChallengeTokens w" "x \<noteq> Inr True"
    | g where "ct_status (an_row a) = PENDING" "\<And>q. ct_token (g q) = ct_token q" "\<And>q. ct_status (g q) \<noteq> PENDING"
      "ChallengeTokens w' = map (\<lambda>r. if ct_token r = an_token a then g r else r) (ChallengeTokens w)" by auto
  then show ?case
  proof cases
    case 1
    then show ?thesis by (auto intro!: answers_inv_rows [OF settle.IH])
  next
    case 2
    have "answers_inv (Suc n) acc (as @ bs) (ChallengeTokens w')"
      by (rule answers_inv_rows [OF settle.IH]) (auto simp: 2)
    moreover have "answers_inv (Suc n) ((an_token a, an_began a, n) # acc) (as @ bs) (ChallengeTokens w')"
      by (rule answers_inv_accept [OF settle.IH _ 2(1)]) (auto simp: 2)
    ultimately show ?thesis by simp
  qed
next
  case (die n acc as a bs w)
  show ?case by (rule answers_inv_rows [OF die.IH]) auto
next
  case (delete n acc pend w w' keep)
  then show ?case by (intro answers_inv_rows [OF delete.IH]) auto
next
  case (other n acc pend w w')
  then show ?case by (intro answers_inv_rows [OF other.IH]) auto
qed

text \<open>A call of \<open>verify_challenge_solution\<close> that nothing interrupts is the two steps in a row.\<close>

lemma verify_is_a_run:
  assumes "challenge_run S n acc pend w" and "verify_challenge_solution E S token nonce ip w = (Inr True, w')"
  shows "challenge_run S (Suc (Suc n)) ((token, n, Suc n) # acc) pend w'"
proof -
  from assms(2) obtain r sip dif w1 where rd: "read_challenge E token w = (Inr (r, sip, dif), w1)"
    and st: "settle_challenge E S r sip dif token nonce ip w1 = (Inr True, w')"
    by (auto simp: verify_challenge_solution_def andThen_def split: prod.splits sum.splits)
  let ?a = "\<lparr>an_token = token, an_nonce = nonce, an_ip = ip, an_row = r, an_stored_ip = sip, an_difficulty = dif, an_began = n\<rparr>"
  from challenge_run.read [OF assms(1) rd, of nonce ip] have "challenge_run S (Suc n) acc (pend @ ?a # []) w1" by simp
  from challenge_run.settle [OF this, of E "Inr True" w'] st show ?thesis by (simp add: settle_answer_def)
qed

lemma sequential_accepted_once:
  assumes "overlapping acc" and "sorted_wrt (\<lambda>(t, b, e) (t', b', e'). t = t' \<longrightarrow> e' < b) acc"
  shows "distinct (map fst acc)"
  using assms unfolding overlapping_def by (induction acc) (fastforce simp: image_iff)+

section \<open>Soundness of verification\<close>

text \<open>The Redis entry of a token, when there is one, is what issuing the row wrote.\<close>

definition cache_agrees :: "'r env \<Rightarrow> store \<Rightarrow> ChallengeToken \<Rightarrow> string \<Rightarrow> bool" where
  "cache_agrees E s r ip = (case live s (challenge_key (ct_token r)) of
      None \<Rightarrow> True
    | Some v \<Rightarrow> v = RStr (dumps (challenge_payload E ip (ct_difficulty r) (ct_expires_at r))))"

lemma cached_challenge_payload [simp]:
  "cached_challenge (Some (dumps (challenge_payload E ip d t))) = Inr (Some (JStr ip, d))"
  by (simp add: cached_challenge_def challenge_payload_def json_int_def del: dumps.simps)

lemma cached_challenge_None [simp]: "cached_challenge None = Inr None"
  by (simp add: cached_challenge_def)

lemma verify_accepts_only:
  assumes srv: "redis_server (redis E) store_of"
    and row: "find (\<lambda>r. ct_token r = token) (ChallengeTokens w) = Some r"
    and agree: "cache_agrees E (store_of (server w)) r issued_ip" and ip: "ct_ip_address r = clean_ip_field S issued_ip"
    and v: "verify_challenge_solution E S token nonce ip w = (Inr True, w')"
  shows "(ip = issued_ip \<or> ip = clean_ip_field S issued_ip) \<and> ct_status r = PENDING \<and> time_now E \<le> ct_expires_at r \<and>
     digest_has_leading_zero_bits (sha256_digest S (utf8 (token @ nonce))) (ct_difficulty r)"
proof -
  have tok: "ct_token r = token" using row by (auto simp: find_Some_split)
  obtain raw w1 where g: "on_redis (r_get (redis E) (challenge_key token)) w = (Inr raw, w1)"
    using v by (cases "on_redis (r_get (redis E) (challenge_key token)) w")
      (auto simp: verify_challenge_solution_eq andThen_def split: sum.splits)
  from g have "r_get (redis E) (challenge_key token) (server w) = (Inr raw, server w1)" "ChallengeTokens w1 = ChallengeTokens w"
    by (auto simp: on_redis_def split: prod.splits)
  with redis_server.get_documented [OF srv] have l: "live (store_of (server w)) (challenge_key token) = map_option RStr raw"
    by blast
  obtain sip where sip: "cached_challenge raw = Inr None \<and> sip = JStr (ct_ip_address r) \<or>
      cached_challenge raw = Inr (Some (sip, ct_difficulty r)) \<and> sip = JStr issued_ip"
    using agree l tok by (cases raw) (auto simp: cache_agrees_def)
  obtain row' w2 where f: "find_token E token w1 = (Inr row', w2)"
    using v g sip by (cases "find_token E token w1")
      (auto simp: verify_challenge_solution_eq andThen_def split: sum.splits)
  from find_token_effect [OF f] row \<open>ChallengeTokens w1 = _\<close> have r': "row' = Some r" by simp
  have s: "settle_challenge E S r sip (ct_difficulty r) token nonce ip w2 = (Inr True, w')"
    using v g sip f r' by (auto simp: verify_challenge_solution_eq)
  then have "ct_status r \<notin> {EXPIRED, SOLVED, FAILED}" "\<not> ct_expires_at r < time_now E" "sip = JStr ip"
    "digest_has_leading_zero_bits (sha256_digest S (utf8 (token @ nonce))) (ct_difficulty r)"
    by (auto simp: settle_challenge_def reject_nonce_def andThen_def swallow_apply split: if_splits sum.splits prod.splits)
  then show ?thesis using sip ip by (cases "ct_status r") auto
qed

lemma db_always: "(\<And>n. db_ok E n) \<Longrightarrow> db E m w = m (w\<lparr>BlockRules := rivals E (db_ops w) (BlockRules w), db_ops := Suc (db_ops w)\<rparr>)"
  by (simp add: db_def Let_def)

lemma issue_spec:
  assumes up: "redis_up (redis E) store_of" and dbok: "\<And>n. db_ok E n" and ttl: "0 < DJANGO_WAF_CHALLENGE_COOKIE_TTL cf"
    and fresh: "token \<notin> ct_token ` set (ChallengeTokens w)"
  shows "\<exists>w1 r. issue_challenge cf E S token ip ua w = (Inr r, w1) \<and>
     ChallengeTokens w1 = ChallengeTokens w @ [r\<lparr>ct_ip_address := clean_ip_field S ip\<rparr>] \<and>
     r = \<lparr>ct_token = token, ct_ip_address = ip, ct_difficulty = pick_difficulty cf ua, ct_nonce = [], ct_status = PENDING,
       ct_expires_at = time_now E + of_int (DJANGO_WAF_CHALLENGE_COOKIE_TTL cf), ct_solved_at = None\<rparr> \<and>
     store_of (server w1) = put (challenge_key token) (RStr (dumps (challenge_payload E ip (pick_difficulty cf ua)
        (time_now E + of_int (DJANGO_WAF_CHALLENGE_COOKIE_TTL cf)))))
        (Some (clock (store_of (server w)) + of_int (DJANGO_WAF_CHALLENGE_COOKIE_TTL cf))) (store_of (server w))"
proof -
  let ?ttl = "DJANGO_WAF_CHALLENGE_COOKIE_TTL cf" and ?d = "pick_difficulty cf ua"
  let ?text = "dumps (challenge_payload E ip ?d (time_now E + of_int ?ttl))"
  define r where "r = \<lparr>ct_token = token, ct_ip_address = ip, ct_difficulty = ?d, ct_nonce = [], ct_status = PENDING,
       ct_expires_at = time_now E + of_int ?ttl, ct_solved_at = None\<rparr>"
  define w0 where "w0 = w\<lparr>BlockRules := rivals E (db_ops w) (BlockRules w), db_ops := Suc (db_ops w),
      ChallengeTokens := ChallengeTokens w @ [r\<lparr>ct_ip_address := clean_ip_field S ip\<rparr>]\<rparr>"
  have c: "create_token E S r w = (Inr (), w0)"
    using fresh by (auto simp: create_token_def db_always [OF dbok] w0_def list_ex_iff r_def)
  obtain r1 where r1: "r_exec (redis E) (SETEX (challenge_key token) ?ttl ?text) (server w0) = (Inr (), r1)"
    "store_of r1 = put (challenge_key token) (RStr ?text) (Some (clock (store_of (server w0)) + of_int ?ttl)) (store_of (server w0))"
    using redis_up.up_exec [OF up, of "SETEX (challenge_key token) ?ttl ?text" "server w0"] ttl by auto
  let ?w1 = "snd (send E (Challenge_issued token ip) (w0\<lparr>server := r1\<rparr>))"
  have "issue_challenge cf E S token ip ua w = (Inr r, ?w1)"
    using c r1(1) by (simp add: issue_challenge_def Let_def r_def [symmetric])
  then show ?thesis using r1(2)
    by (intro exI [of _ ?w1] exI [of _ r]) (simp add: r_def send_def Let_def w0_def)
qed

lemma find_snoc: "token \<notin> ct_token ` set xs \<Longrightarrow> ct_token r = token \<Longrightarrow> find (\<lambda>r. ct_token r = token) (xs @ [r]) = Some r"
  by (induction xs) auto

lemma get_challenge:
  assumes "redis_up (redis E) store_of" and "live (store_of (server w)) (challenge_key token) = map_option RStr raw"
  shows "\<exists>r'. on_redis (r_get (redis E) (challenge_key token)) w = (Inr raw, w\<lparr>server := r'\<rparr>) \<and> store_of r' = store_of (server w)"
  using redis_up.up_get [OF assms] by auto

lemma verify_good:
  assumes up: "redis_up (redis E) store_of" and dbok: "\<And>n. db_ok E n"
    and row: "find (\<lambda>r. ct_token r = token) (ChallengeTokens w) = Some r" "ct_status r = PENDING" "time_now E \<le> ct_expires_at r"
      "ct_ip_address r = ip"
    and lv: "live (store_of (server w)) (challenge_key token) = map_option RStr raw" "raw \<in> {None, Some (dumps (challenge_payload E0 ip (ct_difficulty r) t))}"
    and pow: "digest_has_leading_zero_bits (sha256_digest S (utf8 (token @ nonce))) (ct_difficulty r)"
  shows "\<exists>w'. verify_challenge_solution E S token nonce ip w = (Inr True, w') \<and>
     ChallengeTokens w' = map (\<lambda>r. if ct_token r = token
        then r\<lparr>ct_status := SOLVED, ct_solved_at := Some (time_now E), ct_nonce := nonce\<rparr> else r) (ChallengeTokens w) \<and>
     live (store_of (server w')) (challenge_key token) = None"
proof -
  from get_challenge [OF up lv(1)] obtain r1 where
    r1: "on_redis (r_get (redis E) (challenge_key token)) w = (Inr raw, w\<lparr>server := r1\<rparr>)" by blast
  define w2 where "w2 = w\<lparr>server := r1, BlockRules := rivals E (db_ops w) (BlockRules w), db_ops := Suc (db_ops w)\<rparr>"
  have f: "find_token E token (w\<lparr>server := r1\<rparr>) = (Inr (Some r), w2)"
    using row(1) by (simp add: find_token_def db_always [OF dbok] w2_def)
  have "(let (stored_ip, difficulty) = (case cached of None \<Rightarrow> (JStr (ct_ip_address r), ct_difficulty r) | Some p \<Rightarrow> p)
      in settle_challenge E S r stored_ip difficulty token nonce ip) = accept_nonce E token nonce ip"
    if "cached_challenge raw = Inr cached" for cached
    using that lv(2) row pow by (auto simp: settle_challenge_def)
  moreover obtain cached where "cached_challenge raw = Inr cached" using lv(2) by auto
  ultimately have v: "verify_challenge_solution E S token nonce ip w = accept_nonce E token nonce ip w2"
    using r1 f by (simp add: verify_challenge_solution_eq)
  let ?f = "\<lambda>r. if ct_token r = token then r\<lparr>ct_status := SOLVED, ct_solved_at := Some (time_now E), ct_nonce := nonce\<rparr> else r"
  have ex: "list_ex (\<lambda>r. ct_token r = token) (ChallengeTokens w)"
    using row(1) by (auto simp: find_Some_split list_ex_iff)
  define w3 where "w3 = w2\<lparr>BlockRules := rivals E (db_ops w2) (BlockRules w2), db_ops := Suc (db_ops w2),
      ChallengeTokens := map ?f (ChallengeTokens w2)\<rparr>"
  have u: "update_token E token (\<lambda>r. r\<lparr>ct_status := SOLVED, ct_solved_at := Some (time_now E), ct_nonce := nonce\<rparr>) w2 = (Inr (), w3)"
    using ex by (simp add: update_token_def db_always [OF dbok] w2_def w3_def)
  obtain r4 where r4: "r_exec (redis E) (DEL (challenge_key token)) (server w3) = (Inr (), r4)"
    "store_of r4 = remove (challenge_key token) (store_of (server w3))"
    using redis_up.up_exec [OF up, of "DEL (challenge_key token)" "server w3"] by auto
  let ?w' = "snd (send E (Challenge_solved token ip) (w3\<lparr>server := r4\<rparr>))"
  have "accept_nonce E token nonce ip w2 = (Inr True, ?w')" using u r4(1) by (simp add: accept_nonce_def)
  then show ?thesis unfolding v using r4(2)
    by (intro exI [of _ ?w']) (simp add: send_def Let_def live_remove w3_def w2_def)
qed

lemma verify_settled:
  assumes up: "redis_up (redis E) store_of" and dbok: "\<And>n. db_ok E n"
    and row: "find (\<lambda>r. ct_token r = token) (ChallengeTokens w) = Some r" "ct_status r \<noteq> PENDING"
    and lv: "live (store_of (server w)) (challenge_key token) = None"
  shows "fst (verify_challenge_solution E S token nonce ip w) = Inl ChallengeExpiredError"
proof -
  from lv have "live (store_of (server w)) (challenge_key token) = map_option RStr None" by simp
  from get_challenge [OF up this] obtain r1 where
    r1: "on_redis (r_get (redis E) (challenge_key token)) w = (Inr None, w\<lparr>server := r1\<rparr>)" by blast
  have "ct_status r \<in> {EXPIRED, SOLVED, FAILED}" using row(2) by (cases "ct_status r") auto
  then show ?thesis using r1 row(1)
    by (simp add: verify_challenge_solution_eq find_token_def db_always [OF dbok] settle_challenge_def)
qed

section \<open>Reading a pass cookie\<close>

lemma bar_free_cut: "cut [BAR] s = Some (a, b) \<Longrightarrow> s = a @ BAR # b \<and> BAR \<notin> set a"
proof (induction s arbitrary: a)
  case (Cons c s)
  then show ?case by (auto simp: startswith_def split: if_splits option.splits prod.splits)
qed (simp add: startswith_def)

lemma split_max_4:
  "split_max BAR 3 p = [a, b, c, d] \<longleftrightarrow> p = join BAR [a, b, c, d] \<and> BAR \<notin> set a \<and> BAR \<notin> set b \<and> BAR \<notin> set c"
proof
  assume "split_max BAR 3 p = [a, b, c, d]"
  then show "p = join BAR [a, b, c, d] \<and> BAR \<notin> set a \<and> BAR \<notin> set b \<and> BAR \<notin> set c"
    by (auto simp: numeral_3_eq_3 split: option.splits prod.splits dest!: bar_free_cut)
qed (auto simp: numeral_3_eq_3 cut_char)

lemma validate_iff:
  assumes "hex_signer (hmac_sign S)"
  shows "validate_pass_cookie S now v ip \<longleftrightarrow> (\<exists>token e n. v = seal (hmac_sign S) (join BAR [PASS_COOKIE_VERSION, token, normalise_ip ip, e]) \<and>
     BAR \<notin> set token \<and> BAR \<notin> set (normalise_ip ip) \<and> int_text e = Some n \<and> now \<le> of_int n)"
    (is "_ \<longleftrightarrow> ?R")
proof -
  have "BAR \<notin> set PASS_COOKIE_VERSION" by (simp add: BAR_def PASS_COOKIE_VERSION_def)
  then have split: "split_max BAR 3 p = [PASS_COOKIE_VERSION, t, i, e] \<longleftrightarrow>
      p = join BAR [PASS_COOKIE_VERSION, t, i, e] \<and> BAR \<notin> set t \<and> BAR \<notin> set i" for p t i e
    using split_max_4 by blast
  have "validate_pass_cookie S now v ip \<longleftrightarrow> (\<exists>p token e n. unseal (hmac_sign S) v = Inr p \<and>
      split_max BAR 3 p = [PASS_COOKIE_VERSION, token, normalise_ip ip, e] \<and> int_text e = Some n \<and> now \<le> of_int n)"
    unfolding validate_pass_cookie_def
    by (cases "unseal (hmac_sign S) v") (auto split: option.splits list.splits)
  then show ?thesis unfolding split hex_signer.unseal_iff [OF assms] by blast
qed

text \<open>A challenge issued and solved at the concrete deployment.\<close>

lemma demo_issued:
  "ChallengeTokens (snd (issue_challenge default_conf demo_env demo_site ''ab'' ''203.0.113.9'' [] empty_world)) =
     [\<lparr>ct_token = ''ab'', ct_ip_address = ''203.0.113.9'', ct_difficulty = 16, ct_nonce = [], ct_status = PENDING,
       ct_expires_at = 87400, ct_solved_at = None\<rparr>]"
  "server (snd (issue_challenge default_conf demo_env demo_site ''ab'' ''203.0.113.9'' [] empty_world)) =
     put (challenge_key ''ab'') (RStr (dumps (challenge_payload demo_env ''203.0.113.9'' 16 87400))) (Some 86400) fresh_store"
proof -
  have e: "redis_up (redis demo_env) (\<lambda>s. s)" "\<And>n. db_ok demo_env n" "0 < DJANGO_WAF_CHALLENGE_COOKIE_TTL default_conf"
    "''ab'' \<notin> ct_token ` set (ChallengeTokens empty_world)"
    using mem.redis_up_axioms by (simp_all add: demo_env_def default_conf_def empty_world_def)
  have p: "pick_difficulty default_conf [] = 16" "DJANGO_WAF_CHALLENGE_COOKIE_TTL default_conf = 86400" "time_now demo_env = 1000"
    "clean_ip_field demo_site = (\<lambda>s. s)" "ChallengeTokens empty_world = []" "server empty_world = fresh_store" "clock fresh_store = 0"
    by (simp_all add: pick_difficulty_def is_mobile_user_agent_def default_conf_def demo_env_def demo_site_def empty_world_def fresh_store_def)
  from issue_spec [OF e, of demo_site "''203.0.113.9''" "[]"] p show
    "ChallengeTokens (snd (issue_challenge default_conf demo_env demo_site ''ab'' ''203.0.113.9'' [] empty_world)) =
     [\<lparr>ct_token = ''ab'', ct_ip_address = ''203.0.113.9'', ct_difficulty = 16, ct_nonce = [], ct_status = PENDING,
       ct_expires_at = 87400, ct_solved_at = None\<rparr>]"
    "server (snd (issue_challenge default_conf demo_env demo_site ''ab'' ''203.0.113.9'' [] empty_world)) =
     put (challenge_key ''ab'') (RStr (dumps (challenge_payload demo_env ''203.0.113.9'' 16 87400))) (Some 86400) fresh_store"
    by auto
qed

lemma demo_solved:
  "fst (verify_challenge_solution demo_env demo_site ''ab'' ''1'' ''203.0.113.9''
      (snd (issue_challenge default_conf demo_env demo_site ''ab'' ''203.0.113.9'' [] empty_world))) = Inr True"
proof -
  let ?r = "\<lparr>ct_token = ''ab'', ct_ip_address = ''203.0.113.9'', ct_difficulty = 16, ct_nonce = [], ct_status = PENDING,
    ct_expires_at = 87400, ct_solved_at = None\<rparr>"
  let ?w = "snd (issue_challenge default_conf demo_env demo_site ''ab'' ''203.0.113.9'' [] empty_world)"
  have e: "redis_up (redis demo_env) (\<lambda>s. s)" "\<And>n. db_ok demo_env n"
    using mem.redis_up_axioms by (simp_all add: demo_env_def)
  have f: "find (\<lambda>r. ct_token r = ''ab'') (ChallengeTokens ?w) = Some ?r" using demo_issued by simp
  have l: "live (server ?w) (challenge_key ''ab'') = map_option RStr (Some (dumps (challenge_payload demo_env ''203.0.113.9'' 16 87400)))"
    using demo_issued by (simp add: live_put fresh_store_def)
  have p: "digest_has_leading_zero_bits (sha256_digest demo_site (utf8 (''ab'' @ ''1''))) (ct_difficulty ?r)"
    unfolding leading_zero_bits_iff by (simp add: demo_site_def) code_simp
  from verify_good [OF e f _ _ _ l _ p, of "''203.0.113.9''" demo_env 87400] show ?thesis
    by (auto simp: demo_env_def)
qed

text \<open>The race: two answers to one token are read while its row is pending, then both are settled.\<close>

definition demo_answer :: "nat \<Rightarrow> answer" where
  "demo_answer n = \<lparr>an_token = ''ab'', an_nonce = ''1'', an_ip = ''203.0.113.9'',
     an_row = \<lparr>ct_token = ''ab'', ct_ip_address = ''203.0.113.9'', ct_difficulty = 16, ct_nonce = [], ct_status = PENDING,
       ct_expires_at = 87400, ct_solved_at = None\<rparr>,
     an_stored_ip = JStr ''203.0.113.9'', an_difficulty = 16, an_began = n\<rparr>"

definition demo_read :: "store world \<Rightarrow> store world" where
  "demo_read w = snd (read_challenge demo_env ''ab'' w)"

definition demo_settled :: "store world \<Rightarrow> store world" where
  "demo_settled w = snd (settle_answer demo_env demo_site (demo_answer 0) w)"

definition demo_raced :: "store world" where
  "demo_raced = demo_settled (demo_settled (demo_read (demo_read
     (snd (issue_challenge default_conf demo_env demo_site ''ab'' ''203.0.113.9'' [] empty_world)))))"

lemma demo_read_eq:
  assumes "find (\<lambda>r. ct_token r = ''ab'') (ChallengeTokens w) = Some (an_row (demo_answer n))"
    and "live (server w) (challenge_key ''ab'') = Some (RStr (dumps (challenge_payload demo_env ''203.0.113.9'' 16 87400)))"
  shows "read_challenge demo_env ''ab'' w = (Inr (an_row (demo_answer n), JStr ''203.0.113.9'', 16), demo_read w) \<and>
    ChallengeTokens (demo_read w) = ChallengeTokens w \<and> server (demo_read w) = server w"
proof -
  have up: "redis_up (redis demo_env) (\<lambda>s. s)" "\<And>n. db_ok demo_env n"
    using mem.redis_up_axioms by (simp_all add: demo_env_def)
  from get_challenge [OF up(1), of w "''ab''" "Some (dumps (challenge_payload demo_env ''203.0.113.9'' 16 87400))"] assms(2)
  have g: "on_redis (r_get (redis demo_env) (challenge_key ''ab'')) w =
      (Inr (Some (dumps (challenge_payload demo_env ''203.0.113.9'' 16 87400))), w)" by auto
  have f: "find_token demo_env ''ab'' w = (Inr (Some (an_row (demo_answer n))),
      w\<lparr>BlockRules := rivals demo_env (db_ops w) (BlockRules w), db_ops := Suc (db_ops w)\<rparr>)"
    using assms(1) by (simp add: find_token_def db_always [OF up(2)])
  have "read_challenge demo_env ''ab'' w = (Inr (an_row (demo_answer n), JStr ''203.0.113.9'', 16),
      w\<lparr>BlockRules := rivals demo_env (db_ops w) (BlockRules w), db_ops := Suc (db_ops w)\<rparr>)"
    using g f by (simp add: read_challenge_def del: dumps.simps)
  then show ?thesis by (simp add: demo_read_def)
qed

lemma demo_settled_eq:
  assumes "list_ex (\<lambda>r. ct_token r = ''ab'') (ChallengeTokens w)"
  shows "settle_answer demo_env demo_site (demo_answer n) w = (Inr True, demo_settled w) \<and>
    list_ex (\<lambda>r. ct_token r = ''ab'') (ChallengeTokens (demo_settled w))"
proof -
  have up: "redis_up (redis demo_env) (\<lambda>s. s)" "\<And>n. db_ok demo_env n"
    using mem.redis_up_axioms by (simp_all add: demo_env_def)
  have p: "digest_has_leading_zero_bits (sha256_digest demo_site (utf8 (''ab'' @ ''1''))) 16"
    unfolding leading_zero_bits_iff by (simp add: demo_site_def) code_simp
  have s: "settle_answer demo_env demo_site (demo_answer n) = accept_nonce demo_env ''ab'' ''1'' ''203.0.113.9''" for n
    using p by (simp add: settle_answer_def demo_answer_def settle_challenge_def demo_env_def)
  let ?f = "\<lambda>r. r\<lparr>ct_status := SOLVED, ct_solved_at := Some (time_now demo_env), ct_nonce := ''1''\<rparr>"
  let ?w3 = "w\<lparr>BlockRules := rivals demo_env (db_ops w) (BlockRules w), db_ops := Suc (db_ops w),
      ChallengeTokens := map (\<lambda>r. if ct_token r = ''ab'' then ?f r else r) (ChallengeTokens w)\<rparr>"
  have ex: "list_ex (\<lambda>r. ct_token r = ''ab'') (map (\<lambda>r. if ct_token r = ''ab'' then ?f r else r) xs) =
      list_ex (\<lambda>r. ct_token r = ''ab'') xs" for xs by (induction xs) simp_all
  have u: "update_token demo_env ''ab'' ?f w = (Inr (), ?w3)"
    using assms by (simp add: update_token_def db_always [OF up(2)])
  obtain r4 where r4: "r_exec (redis demo_env) (DEL (challenge_key ''ab'')) (server ?w3) = (Inr (), r4)"
    using redis_up.up_exec [OF up(1), of "DEL (challenge_key ''ab'')" "server ?w3"] by auto
  let ?w' = "snd (send demo_env (Challenge_solved ''ab'' ''203.0.113.9'') (?w3\<lparr>server := r4\<rparr>))"
  have a: "accept_nonce demo_env ''ab'' ''1'' ''203.0.113.9'' w = (Inr True, ?w')" using u r4 by (simp add: accept_nonce_def)
  have "list_ex (\<lambda>r. ct_token r = ''ab'') (ChallengeTokens ?w')"
    using assms ex [of "ChallengeTokens w"] by (simp add: send_def Let_def)
  with a s show ?thesis by (simp add: demo_settled_def)
qed

theorem concurrent_answers_both_accepted:
  "challenge_run demo_site 5 [(''ab'', 2, 4), (''ab'', 1, 3)] [] demo_raced"
proof -
  define w1 where "w1 = snd (issue_challenge default_conf demo_env demo_site ''ab'' ''203.0.113.9'' [] empty_world)"
  have f: "find (\<lambda>r. ct_token r = ''ab'') (ChallengeTokens w1) = Some (an_row (demo_answer n))" for n
    using demo_issued by (simp add: w1_def demo_answer_def)
  have l: "live (server w1) (challenge_key ''ab'') = Some (RStr (dumps (challenge_payload demo_env ''203.0.113.9'' 16 87400)))"
    using demo_issued by (simp add: w1_def live_put fresh_store_def)
  note r1 = demo_read_eq [OF f l]
  note r2 = demo_read_eq [of "demo_read w1", unfolded r1 [THEN conjunct2, THEN conjunct1] r1 [THEN conjunct2, THEN conjunct2], OF f l]
  have ex: "list_ex (\<lambda>r. ct_token r = ''ab'') (ChallengeTokens (demo_read (demo_read w1)))"
    using r1 r2 f [of 0] by (auto simp: find_Some_split list_ex_iff)
  note s1 = demo_settled_eq [OF ex]
  note s2 = demo_settled_eq [OF s1 [THEN conjunct2]]
  have "challenge_run demo_site 0 [] [] (empty_world :: store world)" by (rule challenge_run.start) (simp add: empty_world_def)
  from challenge_run.issue [OF this] have "challenge_run demo_site 1 [] [] w1" by (simp add: w1_def)
  from challenge_run.read [OF this r1 [THEN conjunct1], of "''1''" "''203.0.113.9''"]
  have "challenge_run demo_site 2 [] [demo_answer 1] (demo_read w1)" by (simp add: demo_answer_def numeral_2_eq_2)
  from challenge_run.read [OF this r2 [THEN conjunct1], of "''1''" "''203.0.113.9''"]
  have "challenge_run demo_site 3 [] ([] @ demo_answer 1 # [demo_answer 2]) (demo_read (demo_read w1))"
    by (simp add: demo_answer_def numeral_3_eq_3 numeral_2_eq_2)
  from challenge_run.settle [OF this s1 [THEN conjunct1]]
  have "challenge_run demo_site 4 [(''ab'', 1, 3)] ([] @ demo_answer 2 # []) (demo_settled (demo_read (demo_read w1)))"
    by (simp add: demo_answer_def)
  from challenge_run.settle [OF this s2 [THEN conjunct1]]
  show ?thesis by (simp add: demo_answer_def demo_raced_def w1_def)
qed

section \<open>Properties\<close>

text \<open>
  C9. The proof-of-work check is exactly "the first \<open>n\<close> bits of the digest are zero": the test by
  whole bytes and a mask agrees with the bit sequence for every digest and every difficulty,
  including difficulties beyond the length of the digest.
\<close>

theorem leading_zero_bits_exact:
  "digest_has_leading_zero_bits digest n \<longleftrightarrow> take (nat n) (digest_bits digest) = replicate (nat n) False"
  by (rule leading_zero_bits_iff)

text \<open>
  C6. A challenge is accepted once unless its answers overlap. In every run, with answers handled in
  two steps that anything may separate (other answers to the same token, issuing, pruning, failures),
  a later acceptance of a token comes from an answer whose look-ups ran before the earlier acceptance
  was settled: once an answer is accepted, no answer that starts afterwards is. So where the accepted
  answers to a token do not overlap, each token is accepted at most once. Overlapping answers can both
  be accepted (\<open>concurrent_answers_both_accepted\<close>): the code takes no lock between the look-up and the save.
\<close>

theorem challenge_accepted_once_unless_overlapping:
  assumes "challenge_run S n acc pend w"
  shows "sorted_wrt (\<lambda>(t', began', settled') (t, began, settled). t' = t \<longrightarrow> began' < settled) acc \<and>
    (sorted_wrt (\<lambda>(t', began', settled') (t, began, settled). t' = t \<longrightarrow> settled < began') acc \<longrightarrow> distinct (map fst acc))"
proof -
  from challenge_run_inv [OF assms] have o: "overlapping acc" by (simp add: answers_inv_def)
  then have "sorted_wrt (\<lambda>(t', began', settled') (t, began, settled). t' = t \<longrightarrow> began' < settled) acc"
    unfolding overlapping_def by (rule sorted_wrt_mono_rel [rotated]) auto
  moreover have "distinct (map fst acc)"
    if "sorted_wrt (\<lambda>(t', began', settled') (t, began, settled). t' = t \<longrightarrow> settled < began') acc"
    using sequential_accepted_once [OF o that] .
  ultimately show ?thesis by blast
qed

theorem challenge_accepted_once_unless_overlapping_witness:
  "challenge_run demo_site 5 [(''ab'', 2, 4), (''ab'', 1, 3)] [] demo_raced \<and> (2 :: nat) < 3"
  using challenge_accepted_once_unless_overlapping [OF concurrent_answers_both_accepted] concurrent_answers_both_accepted
  by simp

text \<open>
  C8. A solution is accepted only from the address the challenge was issued to (in the form it was
  issued or as the address field stores it), for a row that is pending and has not expired, and
  with a nonce whose digest satisfies the difficulty of the row.
\<close>

theorem verify_accepts_only_bound_solutions:
  assumes "redis_server (redis E) store_of" and "find (\<lambda>r. ct_token r = token) (ChallengeTokens w) = Some r"
    and "cache_agrees E (store_of (server w)) r issued_ip" and "ct_ip_address r = clean_ip_field S issued_ip"
    and "verify_challenge_solution E S token nonce ip w = (Inr True, w')"
  shows "(ip = issued_ip \<or> ip = clean_ip_field S issued_ip) \<and> ct_status r = PENDING \<and> time_now E \<le> ct_expires_at r \<and>
     digest_has_leading_zero_bits (sha256_digest S (utf8 (token @ nonce))) (ct_difficulty r)"
  using verify_accepts_only [OF assms] .

theorem verify_accepts_only_bound_solutions_witness:
  "digest_has_leading_zero_bits (sha256_digest demo_site (utf8 (''ab'' @ ''1''))) 16"
proof -
  let ?w1 = "snd (issue_challenge default_conf demo_env demo_site ''ab'' ''203.0.113.9'' [] empty_world)"
  let ?r = "\<lparr>ct_token = ''ab'', ct_ip_address = ''203.0.113.9'', ct_difficulty = 16, ct_nonce = [], ct_status = PENDING,
    ct_expires_at = 87400, ct_solved_at = None\<rparr>"
  have srv: "redis_server (redis demo_env) (\<lambda>s. s)" using mem.redis_server_axioms by (simp add: demo_env_def)
  have f: "find (\<lambda>r. ct_token r = ''ab'') (ChallengeTokens ?w1) = Some ?r" using demo_issued by simp
  have a: "cache_agrees demo_env (server ?w1) ?r ''203.0.113.9''"
    using demo_issued by (simp add: cache_agrees_def live_put)
  have c: "ct_ip_address ?r = clean_ip_field demo_site ''203.0.113.9''" by (simp add: demo_site_def)
  from demo_solved obtain w' where "verify_challenge_solution demo_env demo_site ''ab'' ''1'' ''203.0.113.9'' ?w1 = (Inr True, w')"
    by (metis prod.collapse)
  from verify_accepts_only_bound_solutions [OF srv f a c this] show ?thesis by simp
qed

text \<open>
  C7. A client that solves its challenge in time is let through, once: a nonce that satisfies the
  difficulty, submitted from the issuing address before the token expires, is accepted, whether
  or not the Redis entry is still there; the next submission of the same token, with any nonce
  and from any address, is refused as expired.
\<close>

theorem issued_challenge_can_be_solved_once:
  assumes up: "redis_up (redis E) store_of" and dbok: "\<And>n. db_ok E n" and ttl: "0 < DJANGO_WAF_CHALLENGE_COOKIE_TTL cf"
    and fresh: "token \<notin> ct_token ` set (ChallengeTokens w)" and clean: "clean_ip_field S ip = ip"
    and iss: "issue_challenge cf E S token ip ua w = (x, w1)"
    and up2: "redis_up (redis E2) store_of" "\<And>n. db_ok E2 n"
    and later: "store_of (server w2) = elapse d (store_of (server w1))" "ChallengeTokens w2 = ChallengeTokens w1"
      "time_now E2 \<le> time_now E + of_int (DJANGO_WAF_CHALLENGE_COOKIE_TTL cf)"
    and pow: "digest_has_leading_zero_bits (sha256_digest S (utf8 (token @ nonce))) (pick_difficulty cf ua)"
  shows "\<exists>w3. verify_challenge_solution E2 S token nonce ip w2 = (Inr True, w3) \<and>
     fst (verify_challenge_solution E2 S token nonce2 ip2 w3) = Inl ChallengeExpiredError"
proof -
  define r where "r = \<lparr>ct_token = token, ct_ip_address = ip, ct_difficulty = pick_difficulty cf ua, ct_nonce = [], ct_status = PENDING,
       ct_expires_at = time_now E + of_int (DJANGO_WAF_CHALLENGE_COOKIE_TTL cf), ct_solved_at = None\<rparr>"
  from issue_spec [OF up dbok ttl fresh, of S ip ua] iss clean have
    w1: "ChallengeTokens w1 = ChallengeTokens w @ [r]"
      "store_of (server w1) = put (challenge_key token) (RStr (dumps (challenge_payload E ip (pick_difficulty cf ua)
        (time_now E + of_int (DJANGO_WAF_CHALLENGE_COOKIE_TTL cf)))))
        (Some (clock (store_of (server w)) + of_int (DJANGO_WAF_CHALLENGE_COOKIE_TTL cf))) (store_of (server w))"
    by (auto simp: r_def)
  have row: "find (\<lambda>r. ct_token r = token) (ChallengeTokens w2) = Some r" "ct_status r = PENDING" "time_now E2 \<le> ct_expires_at r"
      "ct_ip_address r = ip"
    using find_snoc [OF fresh, of r] w1(1) later by (simp_all add: r_def)
  define raw where "raw = (if d < of_int (DJANGO_WAF_CHALLENGE_COOKIE_TTL cf) then Some (dumps (challenge_payload E ip (ct_difficulty r)
        (time_now E + of_int (DJANGO_WAF_CHALLENGE_COOKIE_TTL cf)))) else None)"
  have lv: "live (store_of (server w2)) (challenge_key token) = map_option RStr raw"
    "raw \<in> {None, Some (dumps (challenge_payload E ip (ct_difficulty r) (time_now E + of_int (DJANGO_WAF_CHALLENGE_COOKIE_TTL cf))))}"
    unfolding later(1) w1(2) by (simp_all add: live_put_elapse raw_def r_def)
  have p: "digest_has_leading_zero_bits (sha256_digest S (utf8 (token @ nonce))) (ct_difficulty r)" using pow by (simp add: r_def)
  from verify_good [OF up2 row lv p] obtain w3 where
    w3: "verify_challenge_solution E2 S token nonce ip w2 = (Inr True, w3)"
      "ChallengeTokens w3 = map (\<lambda>r. if ct_token r = token
        then r\<lparr>ct_status := SOLVED, ct_solved_at := Some (time_now E2), ct_nonce := nonce\<rparr> else r) (ChallengeTokens w2)"
      "live (store_of (server w3)) (challenge_key token) = None" by blast
  have "map (\<lambda>r. if ct_token r = token then r\<lparr>ct_status := SOLVED, ct_solved_at := Some (time_now E2), ct_nonce := nonce\<rparr> else r)
      (ChallengeTokens w) = ChallengeTokens w" using fresh by (intro map_idI) auto
  then have "ChallengeTokens w3 = ChallengeTokens w @ [r\<lparr>ct_status := SOLVED, ct_solved_at := Some (time_now E2), ct_nonce := nonce\<rparr>]"
    unfolding w3(2) later(2) w1(1) by (simp add: r_def)
  then have "find (\<lambda>r. ct_token r = token) (ChallengeTokens w3) =
      Some (r\<lparr>ct_status := SOLVED, ct_solved_at := Some (time_now E2), ct_nonce := nonce\<rparr>)"
    using find_snoc [OF fresh] by (simp add: r_def)
  from verify_settled [OF up2 this _ w3(3)] w3(1) show ?thesis by auto
qed

theorem issued_challenge_can_be_solved_once_witness:
  "\<exists>w3. verify_challenge_solution demo_env demo_site ''ab'' ''1'' ''203.0.113.9''
       (snd (issue_challenge default_conf demo_env demo_site ''ab'' ''203.0.113.9'' [] empty_world)) = (Inr True, w3) \<and>
     fst (verify_challenge_solution demo_env demo_site ''ab'' ''1'' ''203.0.113.9'' w3) = Inl ChallengeExpiredError"
proof -
  let ?iss = "issue_challenge default_conf demo_env demo_site ''ab'' ''203.0.113.9'' [] empty_world"
  have e: "redis_up (redis demo_env) (\<lambda>s. s)" "\<And>n. db_ok demo_env n" "0 < DJANGO_WAF_CHALLENGE_COOKIE_TTL default_conf"
    "''ab'' \<notin> ct_token ` set (ChallengeTokens empty_world)" "clean_ip_field demo_site ''203.0.113.9'' = ''203.0.113.9''"
    using mem.redis_up_axioms by (simp_all add: demo_env_def default_conf_def empty_world_def demo_site_def)
  have run: "?iss = (fst ?iss, snd ?iss)" by simp
  have z: "server (snd ?iss) = elapse 0 (server (snd ?iss))" by (simp add: elapse_def)
  have t: "time_now demo_env \<le> time_now demo_env + of_int (DJANGO_WAF_CHALLENGE_COOKIE_TTL default_conf)" by (simp add: default_conf_def)
  have d: "pick_difficulty default_conf [] = 16" by (simp add: pick_difficulty_def is_mobile_user_agent_def default_conf_def)
  have p: "digest_has_leading_zero_bits (sha256_digest demo_site (utf8 (''ab'' @ ''1''))) (pick_difficulty default_conf [])"
    unfolding leading_zero_bits_iff d by (simp add: demo_site_def) code_simp
  show ?thesis
    by (rule issued_challenge_can_be_solved_once [OF e run e(1,2) z refl t p])
qed

text \<open>
  Which pass cookies are accepted, exactly: those that are a sealed version tag, token, address
  and expiry with the normalised address of the request and an expiry that has not passed.
\<close>

theorem pass_cookie_accepted_iff:
  assumes "hex_signer (hmac_sign S)"
  shows "validate_pass_cookie S now v ip \<longleftrightarrow> (\<exists>token e n. v = seal (hmac_sign S) (join BAR [PASS_COOKIE_VERSION, token, normalise_ip ip, e]) \<and>
     BAR \<notin> set token \<and> BAR \<notin> set (normalise_ip ip) \<and> int_text e = Some n \<and> now \<le> of_int n)"
  using validate_iff [OF assms] .

theorem pass_cookie_accepted_iff_witness:
  "validate_pass_cookie demo_site 1000 (seal (hmac_sign demo_site) (join BAR [''v2'', ''ab'', ''203.0.113.9'', ''1000''])) ''203.0.113.9''"
proof -
  have h: "hex_signer (hmac_sign demo_site)" by (rule demo_pass.hex_signer_axioms)
  have n: "normalise_ip ''203.0.113.9'' = ''203.0.113.9''" "int_text ''1000'' = Some 1000" by code_simp+
  show ?thesis unfolding pass_cookie_accepted_iff [OF h] n(1)
    by (rule exI [of _ "''ab''"], rule exI [of _ "''1000''"], rule exI [of _ 1000])
      (simp add: PASS_COOKIE_VERSION_def BAR_def n(2))
qed

lemma pass_cookie_bound:
  assumes h: "hex_signer (hmac_sign S)" and bar: "BAR \<notin> set token" "BAR \<notin> set (normalise_ip ip)"
    and range: "0 \<le> \<lfloor>now\<rfloor> + DJANGO_WAF_CHALLENGE_COOKIE_TTL cf" "\<lfloor>now\<rfloor> + DJANGO_WAF_CHALLENGE_COOKIE_TTL cf < 10 ^ 18"
    and c: "map_of (cookies (issue_pass_cookie cf S now response token ip secure)) ''waf_pass'' = Some c"
  shows "validate_pass_cookie S now2 (cookie_value c) ip2 \<longleftrightarrow>
     now2 \<le> of_int (\<lfloor>now\<rfloor> + DJANGO_WAF_CHALLENGE_COOKIE_TTL cf) \<and> normalise_ip ip2 = normalise_ip ip"
proof -
  let ?n = "\<lfloor>now\<rfloor> + DJANGO_WAF_CHALLENGE_COOKIE_TTL cf"
  let ?p = "\<lambda>t i e. join BAR [PASS_COOKIE_VERSION, t, i, e]"
  have v: "cookie_value c = seal (hmac_sign S) (?p token (normalise_ip ip) (str_int ?n))"
    using c by (auto simp: issue_pass_cookie_def Let_def pass_cookie_value_def)
  have "BAR \<notin> set PASS_COOKIE_VERSION" by (simp add: BAR_def PASS_COOKIE_VERSION_def)
  then have sp: "split_max BAR 3 (?p t i e) = [PASS_COOKIE_VERSION, t, i, e]" if "BAR \<notin> set t" "BAR \<notin> set i" for t i e
    using that by (simp only: split_max_4 simp_thms not_False_eq_True)
  have inj: "?p t i e = ?p t' i' e' \<longleftrightarrow> t = t' \<and> i = i' \<and> e = e'"
    if "BAR \<notin> set t" "BAR \<notin> set i" "BAR \<notin> set t'" "BAR \<notin> set i'" for t i e t' i' e'
  proof
    assume "?p t i e = ?p t' i' e'"
    from arg_cong [OF this, of "split_max BAR 3"] show "t = t' \<and> i = i' \<and> e = e'"
      unfolding sp [OF that(1,2)] sp [OF that(3,4)] by simp
  qed simp
  have sealed: "seal (hmac_sign S) x = seal (hmac_sign S) y \<longleftrightarrow> x = y" for x y
    using hex_signer.unseal_seal [OF h] by (metis sum.inject(2))
  show ?thesis unfolding validate_iff [OF h] v sealed
  proof
    assume "\<exists>t e n. ?p token (normalise_ip ip) (str_int ?n) = ?p t (normalise_ip ip2) e \<and> BAR \<notin> set t \<and>
        BAR \<notin> set (normalise_ip ip2) \<and> int_text e = Some n \<and> now2 \<le> of_int n"
    then obtain t e n where t: "?p token (normalise_ip ip) (str_int ?n) = ?p t (normalise_ip ip2) e" "BAR \<notin> set t"
      "BAR \<notin> set (normalise_ip ip2)" "int_text e = Some n" "now2 \<le> of_int n" by blast
    from t(1) have "normalise_ip ip = normalise_ip ip2" "str_int ?n = e" unfolding inj [OF bar t(2,3)] by simp_all
    with t(4,5) int_text_small [OF range] show "now2 \<le> of_int ?n \<and> normalise_ip ip2 = normalise_ip ip" by simp
  next
    assume "now2 \<le> of_int ?n \<and> normalise_ip ip2 = normalise_ip ip"
    with bar int_text_small [OF range] show "\<exists>t e n. ?p token (normalise_ip ip) (str_int ?n) = ?p t (normalise_ip ip2) e \<and>
        BAR \<notin> set t \<and> BAR \<notin> set (normalise_ip ip2) \<and> int_text e = Some n \<and> now2 \<le> of_int n"
      by (intro exI [of _ token] exI [of _ "str_int ?n"] exI [of _ ?n]) simp
  qed
qed

text \<open>
  C10. A pass cookie works exactly for its owner and its lifetime: what \<open>issue_pass_cookie\<close> sets is
  accepted until the expiry it carries and only from an address with the same normal form, so
  a copy used from another address is refused and the two spellings of one IPv6 address agree.
\<close>

theorem pass_cookie_bound_to_address_and_time:
  assumes h: "hex_signer (hmac_sign S)" and bar: "BAR \<notin> set token" "BAR \<notin> set (normalise_ip ip)"
    and range: "0 \<le> \<lfloor>now\<rfloor> + DJANGO_WAF_CHALLENGE_COOKIE_TTL cf" "\<lfloor>now\<rfloor> + DJANGO_WAF_CHALLENGE_COOKIE_TTL cf < 10 ^ 18"
    and c: "map_of (cookies (issue_pass_cookie cf S now response token ip secure)) ''waf_pass'' = Some c"
  shows "validate_pass_cookie S now2 (cookie_value c) ip2 \<longleftrightarrow>
     now2 \<le> of_int (\<lfloor>now\<rfloor> + DJANGO_WAF_CHALLENGE_COOKIE_TTL cf) \<and> normalise_ip ip2 = normalise_ip ip"
  using pass_cookie_bound [OF h bar range c] .

theorem pass_cookie_bound_to_address_and_time_witness:
  "validate_pass_cookie demo_site 1000 (cookie_value (snd (hd (cookies (issue_pass_cookie default_conf demo_site 1000
       (http_response 200 []) ''ab'' ''203.0.113.9'' True))))) ''203.0.113.9'' \<and>
   \<not> validate_pass_cookie demo_site 1000 (cookie_value (snd (hd (cookies (issue_pass_cookie default_conf demo_site 1000
       (http_response 200 []) ''ab'' ''203.0.113.9'' True))))) ''203.0.113.8''"
proof -
  let ?r = "issue_pass_cookie default_conf demo_site 1000 (http_response 200 []) ''ab'' ''203.0.113.9'' True"
  have h: "hex_signer (hmac_sign demo_site)" by (rule demo_pass.hex_signer_axioms)
  have n: "normalise_ip ''203.0.113.9'' = ''203.0.113.9''" "normalise_ip ''203.0.113.8'' = ''203.0.113.8''" by code_simp+
  have b: "BAR \<notin> set ''ab''" "BAR \<notin> set (normalise_ip ''203.0.113.9'')" unfolding n by (simp_all add: BAR_def)
  have t: "0 \<le> \<lfloor>1000 :: rat\<rfloor> + DJANGO_WAF_CHALLENGE_COOKIE_TTL default_conf"
    "\<lfloor>1000 :: rat\<rfloor> + DJANGO_WAF_CHALLENGE_COOKIE_TTL default_conf < 10 ^ 18" by (simp_all add: default_conf_def)
  have c: "map_of (cookies ?r) ''waf_pass'' = Some (snd (hd (cookies ?r)))"
    by (simp add: issue_pass_cookie_def Let_def set_cookie_def)
  from pass_cookie_bound_to_address_and_time [OF h b t c, of 1000] show ?thesis
    unfolding n by (simp add: default_conf_def n)
qed

end
