(* ===== verification/ClientIp.thy ===== *)
theory ClientIp
  imports Conf PyIpaddress
begin

text \<open>
  \<open>services/client_ip.py\<close> and the request object the package reads. The trusted-proxy walk
  over \<open>X-Forwarded-For\<close> is the function \<open>resolve_from_forwarded_chain\<close>; the lemmas show
  which part of the header a client can influence.
\<close>

section \<open>The request\<close>

record user =
  is_authenticated :: bool
  is_staff :: bool
  is_superuser :: bool
  user_pk :: "string option"

text \<open>\<open>req_host\<close> is what \<open>request.get_host()\<close> returns, \<open>None\<close> when it raises; \<open>req_user\<close> is
  \<open>None\<close> when the authentication middleware has not run.\<close>

record request =
  path_info :: string
  full_path :: string
  req_method :: string
  META :: strdict
  COOKIES :: strdict
  POST :: strdict
  req_host :: "string option"
  is_secure :: bool
  req_user :: "user option"
  req_path :: string
  req_GET :: strdict
  content_type :: string
  req_body :: string

section \<open>Resolution\<close>

definition is_valid_ip :: "string \<Rightarrow> bool" where
  "is_valid_ip ip_str = (ip_address ip_str \<noteq> None)"

definition is_trusted_proxy :: "string \<Rightarrow> string list \<Rightarrow> bool" where
  "is_trusted_proxy ip_str trusted_proxies =
     (if ip_str = [] then False
      else (case ip_address ip_str of
          None \<Rightarrow> False
        | Some address \<Rightarrow> list_ex (\<lambda>cidr. case ip_network cidr of
              None \<Rightarrow> False
            | Some network \<Rightarrow> in_network address network) trusted_proxies))"

definition resolve_from_forwarded_chain :: "string \<Rightarrow> string list \<Rightarrow> string" where
  "resolve_from_forwarded_chain forwarded_for trusted_proxies =
     (if forwarded_for = [] then []
      else (case find (\<lambda>hop. hop \<noteq> [] \<and> is_valid_ip hop \<and> \<not> is_trusted_proxy hop trusted_proxies)
                   (rev (map strip (split CHR '','' forwarded_for))) of
          None \<Rightarrow> [] | Some hop \<Rightarrow> hop))"

definition resolve_client_ip :: "conf \<Rightarrow> request \<Rightarrow> string" where
  "resolve_client_ip cf request =
     (let remote_addr = dget (META request) ''REMOTE_ADDR'' [];
          trusted_proxies = DJANGO_WAF_TRUSTED_PROXIES cf;
          trusted_unix_socket = (DJANGO_WAF_TRUSTED_UNIX_SOCKET cf \<and> remote_addr = []);
          forwarded_for = dget (META request) ''HTTP_X_FORWARDED_FOR'' []
      in if is_trusted_proxy remote_addr trusted_proxies \<or> trusted_unix_socket then
           (let resolved = resolve_from_forwarded_chain forwarded_for trusted_proxies
            in if resolved \<noteq> [] then resolved else remote_addr)
         else if DJANGO_WAF_TRUST_X_FORWARDED_FOR cf \<and> forwarded_for \<noteq> [] \<and>
                 is_valid_ip (strip (hd (split CHR '','' forwarded_for)))
         then strip (hd (split CHR '','' forwarded_for))
         else remote_addr)"

section \<open>What the walk returns\<close>

lemma chain_empty_or_untrusted:
  "resolve_from_forwarded_chain h ps = [] \<or>
   (is_valid_ip (resolve_from_forwarded_chain h ps) \<and>
    \<not> is_trusted_proxy (resolve_from_forwarded_chain h ps) ps \<and>
    resolve_from_forwarded_chain h ps \<in> strip ` set (split CHR '','' h))"
  by (auto simp: resolve_from_forwarded_chain_def find_Some_split split: option.splits)
     (metis in_set_conv_decomp list.set_map set_rev)

lemma chain_rightmost:
  assumes hop: "strip hop \<noteq> []" "is_valid_ip (strip hop)" "\<not> is_trusted_proxy (strip hop) ps"
    and sep: "CHR '','' \<notin> set hop"
    and rest: "\<And>t. t \<in> set ts \<Longrightarrow> CHR '','' \<notin> set t \<and>
       (strip t = [] \<or> \<not> is_valid_ip (strip t) \<or> is_trusted_proxy (strip t) ps)"
  shows "resolve_from_forwarded_chain (spoofed @ CHR '','' # join CHR '','' (hop # ts)) ps = strip hop"
proof -
  have "split CHR '','' (join CHR '','' (hop # ts)) = hop # ts"
    by (rule split_join) (use sep rest in auto)
  then have "split CHR '','' (spoofed @ CHR '','' # join CHR '','' (hop # ts)) =
      split CHR '','' spoofed @ hop # ts"
    by (simp add: split_append_sep)
  then have "rev (map strip (split CHR '','' (spoofed @ CHR '','' # join CHR '','' (hop # ts)))) =
      rev (map strip ts) @ strip hop # rev (map strip (split CHR '','' spoofed))"
    by simp
  moreover have "\<forall>y \<in> set (rev (map strip ts)).
      \<not> (y \<noteq> [] \<and> is_valid_ip y \<and> \<not> is_trusted_proxy y ps)"
    using rest by auto
  ultimately have "find (\<lambda>hop. hop \<noteq> [] \<and> is_valid_ip hop \<and> \<not> is_trusted_proxy hop ps)
      (rev (map strip (split CHR '','' (spoofed @ CHR '','' # join CHR '','' (hop # ts))))) = Some (strip hop)"
    using hop unfolding find_Some_split by blast
  then show ?thesis by (simp add: resolve_from_forwarded_chain_def)
qed

text \<open>
  C40. A client that reaches the application through trusted proxies cannot choose the
  address the WAF sees by sending its own \<open>X-Forwarded-For\<close>: whatever it puts in front
  (\<open>spoofed\<close>), the resolved address is the hop that the outermost trusted proxy appended,
  provided the hops to its right are trusted proxies or not addresses.
\<close>

theorem resolve_client_ip_ignores_spoofed_prefix:
  assumes peer: "is_trusted_proxy (dget (META req) ''REMOTE_ADDR'' []) (DJANGO_WAF_TRUSTED_PROXIES cf)"
    and hop: "strip hop \<noteq> []" "is_valid_ip (strip hop)"
      "\<not> is_trusted_proxy (strip hop) (DJANGO_WAF_TRUSTED_PROXIES cf)" "CHR '','' \<notin> set hop"
    and proxies: "\<And>t. t \<in> set ts \<Longrightarrow> CHR '','' \<notin> set t \<and>
       (strip t = [] \<or> \<not> is_valid_ip (strip t) \<or> is_trusted_proxy (strip t) (DJANGO_WAF_TRUSTED_PROXIES cf))"
    and header: "dget (META req) ''HTTP_X_FORWARDED_FOR'' [] =
       spoofed @ CHR '','' # join CHR '','' (hop # ts)"
  shows "resolve_client_ip cf req = strip hop"
proof -
  have "resolve_from_forwarded_chain (dget (META req) ''HTTP_X_FORWARDED_FOR'' [])
      (DJANGO_WAF_TRUSTED_PROXIES cf) = strip hop"
    unfolding header using hop proxies by (intro chain_rightmost) auto
  then show ?thesis using peer hop(1) by (simp add: resolve_client_ip_def Let_def)
qed

definition example_request :: request where
  "example_request = \<lparr>path_info = ''/shop/'', full_path = ''/shop/'', req_method = ''GET'',
     META = [(''REMOTE_ADDR'', ''10.0.0.1''), (''HTTP_X_FORWARDED_FOR'', ''1.1.1.1,203.0.113.9,10.0.0.7'')],
     COOKIES = [], POST = [], req_host = Some ''example.com'', is_secure = True, req_user = None, req_path = ''/shop/'', req_GET = [],
     content_type = [], req_body = []\<rparr>"

theorem resolve_client_ip_ignores_spoofed_prefix_witness:
  "resolve_client_ip (default_conf\<lparr>DJANGO_WAF_TRUSTED_PROXIES := [''10.0.0.0/8'']\<rparr>) example_request
     = ''203.0.113.9''"
proof -
  let ?cf = "default_conf\<lparr>DJANGO_WAF_TRUSTED_PROXIES := [''10.0.0.0/8'']\<rparr>"
  have s: "strip ''203.0.113.9'' = ''203.0.113.9''" "strip ''10.0.0.7'' = ''10.0.0.7''" by code_simp+
  have v: "is_valid_ip ''203.0.113.9''" by code_simp
  have t: "\<not> is_trusted_proxy ''203.0.113.9'' [''10.0.0.0/8'']"
    "is_trusted_proxy ''10.0.0.7'' [''10.0.0.0/8'']" "is_trusted_proxy ''10.0.0.1'' [''10.0.0.0/8'']"
    by code_simp+
  have "resolve_client_ip ?cf example_request = strip ''203.0.113.9''"
    by (rule resolve_client_ip_ignores_spoofed_prefix [where spoofed = "''1.1.1.1''" and ts = "[''10.0.0.7'']"])
       (use s v t in \<open>simp_all add: example_request_def dget_def\<close>)
  then show ?thesis by (simp add: s)
qed

text \<open>
  C35. With the legacy \<open>X-Forwarded-For\<close> switch off, a peer that is not a trusted proxy (and
  is not an empty unix-socket peer) is identified by its own socket address, whatever
  forwarding header it sends.
\<close>

theorem resolve_client_ip_untrusted_peer:
  assumes "\<not> is_trusted_proxy (dget (META req) ''REMOTE_ADDR'' []) (DJANGO_WAF_TRUSTED_PROXIES cf)"
    and "dget (META req) ''REMOTE_ADDR'' [] \<noteq> [] \<or> \<not> DJANGO_WAF_TRUSTED_UNIX_SOCKET cf"
    and "\<not> DJANGO_WAF_TRUST_X_FORWARDED_FOR cf"
  shows "resolve_client_ip cf req = dget (META req) ''REMOTE_ADDR'' []"
  using assms by (auto simp: resolve_client_ip_def Let_def)

theorem resolve_client_ip_untrusted_peer_witness:
  "resolve_client_ip default_conf example_request = ''10.0.0.1''"
  using resolve_client_ip_untrusted_peer [of example_request default_conf]
  by (simp add: example_request_def default_conf_def dget_def is_trusted_proxy_def split: option.splits)

end
