(* ===== verification/SiteAccess.thy ===== *)
theory SiteAccess
  imports Signing ClientIp RateLimiter World
begin

text \<open>
  \<open>services/site_password_service.py\<close>, \<open>services/trusted_user_service.py\<close> and \<open>receivers.py\<close>: the
  two cookies signed with Django's \<open>TimestampSigner\<close>, the password check and the login receiver.
  \<open>TimestampSigner\<close> is a parameter with the laws of locale \<open>timestamp_signer\<close>. The current time is
  an argument.
\<close>

section \<open>Site password\<close>

definition SITE_PASSWORD_COOKIE :: string where
  "SITE_PASSWORD_COOKIE = ''waf_site_password''"

definition SITE_PASSWORD_SALT :: string where
  "SITE_PASSWORD_SALT = ''django_waf.site_password''"

definition VERIFIED_MARKER :: string where
  "VERIFIED_MARKER = ''verified''"

definition is_gate_enabled :: "conf \<Rightarrow> bool" where
  "is_gate_enabled cf = DJANGO_WAF_SITE_PASSWORD_ENABLED cf"

definition is_misconfigured :: "conf \<Rightarrow> bool" where
  "is_misconfigured cf = (DJANGO_WAF_SITE_PASSWORD_ENABLED cf \<and> DJANGO_WAF_SITE_PASSWORD cf = [])"

definition is_exempt_path :: "conf \<Rightarrow> string \<Rightarrow> bool" where
  "is_exempt_path cf path = list_ex (startswith path) (DJANGO_WAF_SITE_PASSWORD_EXEMPT_PATHS cf)"

definition has_valid_cookie :: "conf \<Rightarrow> site \<Rightarrow> rat \<Rightarrow> request \<Rightarrow> bool" where
  "has_valid_cookie cf S now request =
     (let cookie = dget (COOKIES request) SITE_PASSWORD_COOKIE [] in
      if cookie = [] then False
      else (case ts_unsign S (get_signing_key cf S) SITE_PASSWORD_SALT now (DJANGO_WAF_SITE_PASSWORD_TTL cf) cookie of
          None \<Rightarrow> False
        | Some payload \<Rightarrow> payload = VERIFIED_MARKER))"

definition set_verified_cookie :: "conf \<Rightarrow> site \<Rightarrow> rat \<Rightarrow> HttpResponse \<Rightarrow> request \<Rightarrow> HttpResponse" where
  "set_verified_cookie cf S now response request =
     (let domain = (case SITE_PASSWORD_COOKIE_DOMAIN S of None \<Rightarrow> SESSION_COOKIE_DOMAIN S | Some d \<Rightarrow> Some d)
      in set_cookie SITE_PASSWORD_COOKIE
        \<lparr>cookie_value = ts_sign S (get_signing_key cf S) SITE_PASSWORD_SALT now VERIFIED_MARKER,
         cookie_max_age = DJANGO_WAF_SITE_PASSWORD_TTL cf, cookie_domain = domain, cookie_httponly = True,
         cookie_secure = is_secure request, cookie_samesite = ''Lax''\<rparr> response)"

definition check_password :: "conf \<Rightarrow> string \<Rightarrow> py_exc + bool" where
  "check_password cf submitted =
     (if DJANGO_WAF_SITE_PASSWORD cf = [] \<or> submitted = [] then Inr False
      else compare_digest submitted (DJANGO_WAF_SITE_PASSWORD cf))"

definition no_limit :: RateLimitResult where
  "no_limit = \<lparr>exceeded = False, window = None, retry_after = None\<rparr>"

definition record_guess_throttle_hit_detailed :: "conf \<Rightarrow> 'r env \<Rightarrow> string \<Rightarrow> ('r world, RateLimitResult) py" where
  "record_guess_throttle_hit_detailed cf E ip = (case get_redis_client E of
      None \<Rightarrow> ret no_limit
    | Some client \<Rightarrow> try_except
        (on_redis (check_rate_limit cf (sha1 E) client (time_now E) ip (DJANGO_WAF_SITE_PASSWORD_VERIFY_PATH cf) []))
        (\<lambda>_. ret no_limit))"

definition record_guess_throttle_hit :: "conf \<Rightarrow> 'r env \<Rightarrow> string \<Rightarrow> ('r world, bool) py" where
  "record_guess_throttle_hit cf E ip =
     andThen (record_guess_throttle_hit_detailed cf E ip) (\<lambda>result. ret (exceeded result))"

section \<open>Trusted users\<close>

definition TRUSTED_USER_COOKIE :: string where
  "TRUSTED_USER_COOKIE = ''waf_trusted''"

definition TRUSTED_USER_SALT :: string where
  "TRUSTED_USER_SALT = ''django_waf.trusted_user''"

definition TRUSTED_MARKER :: string where
  "TRUSTED_MARKER = ''trusted''"

definition is_feature_enabled :: "conf \<Rightarrow> bool" where
  "is_feature_enabled cf = DJANGO_WAF_TRUSTED_COOKIE_ENABLED cf"

definition get_trust_level :: "conf \<Rightarrow> string" where
  "get_trust_level cf =
     (if DJANGO_WAF_TRUSTED_COOKIE_TRUST_LEVEL cf = ''authenticated'' then ''authenticated'' else ''staff'')"

definition user_meets_trust_level :: "conf \<Rightarrow> user \<Rightarrow> bool" where
  "user_meets_trust_level cf u =
     (if \<not> is_authenticated u then False
      else if get_trust_level cf = ''authenticated'' then True
      else is_staff u \<or> is_superuser u)"

definition build_payload :: "string \<Rightarrow> string" where
  "build_payload ip = TRUSTED_MARKER @ '':'' @ ip"

definition set_trusted_cookie :: "conf \<Rightarrow> site \<Rightarrow> rat \<Rightarrow> HttpResponse \<Rightarrow> request \<Rightarrow> HttpResponse" where
  "set_trusted_cookie cf S now response request =
     (let domain = (case TRUSTED_COOKIE_DOMAIN S of None \<Rightarrow> SESSION_COOKIE_DOMAIN S | Some d \<Rightarrow> Some d);
          ip = resolve_client_ip cf request
      in set_cookie TRUSTED_USER_COOKIE
        \<lparr>cookie_value = ts_sign S (get_signing_key cf S) TRUSTED_USER_SALT now (build_payload ip),
         cookie_max_age = DJANGO_WAF_TRUSTED_COOKIE_TTL cf, cookie_domain = domain, cookie_httponly = True,
         cookie_secure = is_secure request, cookie_samesite = ''Lax''\<rparr> response)"

text \<open>\<open>partition(":")\<close>: without a colon the marker is the whole payload and the address is empty.\<close>

definition has_valid_trusted_cookie :: "conf \<Rightarrow> site \<Rightarrow> rat \<Rightarrow> request \<Rightarrow> bool" where
  "has_valid_trusted_cookie cf S now request =
     (if \<not> is_feature_enabled cf then False
      else (let cookie = dget (COOKIES request) TRUSTED_USER_COOKIE [] in
        if cookie = [] then False
        else (case ts_unsign S (get_signing_key cf S) TRUSTED_USER_SALT now (DJANGO_WAF_TRUSTED_COOKIE_TTL cf) cookie of
            None \<Rightarrow> False
          | Some payload \<Rightarrow>
              (let (marker, bound_ip) = (case cut '':'' payload of None \<Rightarrow> (payload, []) | Some p \<Rightarrow> p)
               in if marker \<noteq> TRUSTED_MARKER then False else bound_ip = resolve_client_ip cf request))))"

text \<open>\<open>receivers.py\<close>: whether the login of \<open>u\<close> flags the request.\<close>

definition set_trusted_cookie_flag_on_login :: "conf \<Rightarrow> user \<Rightarrow> bool" where
  "set_trusted_cookie_flag_on_login cf u = (is_feature_enabled cf \<and> user_meets_trust_level cf u)"

section \<open>Lemmas\<close>

lemma verified_cookie_iff:
  assumes "timestamp_signer (ts_sign S) (ts_unsign S)"
    and "dget (COOKIES request2) SITE_PASSWORD_COOKIE [] = ts_sign S (get_signing_key cf S) SITE_PASSWORD_SALT now VERIFIED_MARKER"
  shows "has_valid_cookie cf S now2 request2 \<longleftrightarrow> now2 - of_int \<lfloor>now\<rfloor> \<le> of_int (DJANGO_WAF_SITE_PASSWORD_TTL cf)"
proof -
  note laws = timestamp_signer.unsign_sign [OF assms(1)] timestamp_signer.sign_not_Nil [OF assms(1)]
  show ?thesis unfolding has_valid_cookie_def assms(2) Let_def using laws by simp
qed

lemma cut_payload: "cut '':'' (build_payload ip) = Some (TRUSTED_MARKER, ip)"
proof -
  have "CHR '':'' \<notin> set TRUSTED_MARKER" by (simp add: TRUSTED_MARKER_def)
  from cut_char [OF this, of ip] show ?thesis by (simp add: build_payload_def)
qed

section \<open>Properties\<close>

text \<open>
  C28. The verified flag of the site-password gate lasts exactly as long as the time to live
  configured when it is checked: a cookie set at \<open>now\<close> opens the gate at \<open>now2\<close> if and only if it
  is not older than the current setting, so shortening the setting takes effect at once.
\<close>

theorem verified_cookie_lasts_current_ttl:
  assumes "timestamp_signer (ts_sign S) (ts_unsign S)"
    and "map_of (cookies (set_verified_cookie (cf\<lparr>DJANGO_WAF_SITE_PASSWORD_TTL := ttl\<rparr>) S now response request)) SITE_PASSWORD_COOKIE = Some c"
    and "dget (COOKIES request2) SITE_PASSWORD_COOKIE [] = cookie_value c"
  shows "has_valid_cookie cf S now2 request2 \<longleftrightarrow> now2 - of_int \<lfloor>now\<rfloor> \<le> of_int (DJANGO_WAF_SITE_PASSWORD_TTL cf)"
proof (rule verified_cookie_iff [OF assms(1)])
  show "dget (COOKIES request2) SITE_PASSWORD_COOKIE [] = ts_sign S (get_signing_key cf S) SITE_PASSWORD_SALT now VERIFIED_MARKER"
    using assms(2,3) by (auto simp: set_verified_cookie_def Let_def get_signing_key_def)
qed

theorem verified_cookie_lasts_current_ttl_witness:
  "has_valid_cookie default_conf demo_site 1060 (example_request\<lparr>COOKIES := [(SITE_PASSWORD_COOKIE,
     cookie_value (snd (hd (cookies (set_verified_cookie default_conf demo_site 1000 (http_response 302 []) example_request)))))]\<rparr>)"
proof -
  let ?ttl = "DJANGO_WAF_SITE_PASSWORD_TTL default_conf"
  let ?r = "set_verified_cookie (default_conf\<lparr>DJANGO_WAF_SITE_PASSWORD_TTL := ?ttl\<rparr>) demo_site 1000 (http_response 302 []) example_request"
  have c: "map_of (cookies ?r) SITE_PASSWORD_COOKIE = Some (snd (hd (cookies ?r)))"
    by (simp add: set_verified_cookie_def Let_def set_cookie_def)
  let ?req = "example_request\<lparr>COOKIES := [(SITE_PASSWORD_COOKIE, cookie_value (snd (hd (cookies ?r))))]\<rparr>"
  have d: "dget (COOKIES ?req) SITE_PASSWORD_COOKIE [] = cookie_value (snd (hd (cookies ?r)))" by (simp add: dget_def)
  have "has_valid_cookie default_conf demo_site 1060 ?req"
    unfolding verified_cookie_lasts_current_ttl [OF demo_signer.timestamp_signer_axioms c d] by (simp add: default_conf_def)
  moreover have "default_conf\<lparr>DJANGO_WAF_SITE_PASSWORD_TTL := ?ttl\<rparr> = default_conf" by simp
  ultimately show ?thesis by simp
qed

text \<open>
  The trusted-user cookie is worth something only where it was issued: a cookie set for one
  request grants the bypass on another exactly when the feature is on, the cookie is not older
  than the current time to live, and both requests resolve to the same client address.
\<close>

theorem trusted_cookie_bound_to_address:
  assumes sg: "timestamp_signer (ts_sign S) (ts_unsign S)"
    and c: "map_of (cookies (set_trusted_cookie cf S now response request)) TRUSTED_USER_COOKIE = Some c"
    and r: "dget (COOKIES request2) TRUSTED_USER_COOKIE [] = cookie_value c"
  shows "has_valid_trusted_cookie cf S now2 request2 \<longleftrightarrow> DJANGO_WAF_TRUSTED_COOKIE_ENABLED cf \<and>
     now2 - of_int \<lfloor>now\<rfloor> \<le> of_int (DJANGO_WAF_TRUSTED_COOKIE_TTL cf) \<and>
     resolve_client_ip cf request2 = resolve_client_ip cf request"
proof -
  have v: "cookie_value c = ts_sign S (get_signing_key cf S) TRUSTED_USER_SALT now (build_payload (resolve_client_ip cf request))"
    using c by (auto simp: set_trusted_cookie_def Let_def)
  note laws = timestamp_signer.unsign_sign [OF sg] timestamp_signer.sign_not_Nil [OF sg]
  show ?thesis unfolding has_valid_trusted_cookie_def r v Let_def is_feature_enabled_def using laws cut_payload
    by (auto simp: TRUSTED_MARKER_def)
qed

theorem trusted_cookie_bound_to_address_witness:
  "has_valid_trusted_cookie (default_conf\<lparr>DJANGO_WAF_TRUSTED_COOKIE_ENABLED := True\<rparr>) demo_site 1060
     (example_request\<lparr>COOKIES := [(TRUSTED_USER_COOKIE, cookie_value (snd (hd (cookies (set_trusted_cookie
        (default_conf\<lparr>DJANGO_WAF_TRUSTED_COOKIE_ENABLED := True\<rparr>) demo_site 1000 (http_response 302 []) example_request)))))]\<rparr>)"
proof -
  let ?cf = "default_conf\<lparr>DJANGO_WAF_TRUSTED_COOKIE_ENABLED := True\<rparr>"
  let ?r = "set_trusted_cookie ?cf demo_site 1000 (http_response 302 []) example_request"
  let ?req = "example_request\<lparr>COOKIES := [(TRUSTED_USER_COOKIE, cookie_value (snd (hd (cookies ?r))))]\<rparr>"
  have c: "map_of (cookies ?r) TRUSTED_USER_COOKIE = Some (snd (hd (cookies ?r)))"
    by (simp add: set_trusted_cookie_def Let_def set_cookie_def)
  have d: "dget (COOKIES ?req) TRUSTED_USER_COOKIE [] = cookie_value (snd (hd (cookies ?r)))" by (simp add: dget_def)
  show ?thesis unfolding trusted_cookie_bound_to_address [OF demo_signer.timestamp_signer_axioms c d]
    by (simp add: default_conf_def resolve_client_ip_def)
qed

text \<open>
  The password check accepts exactly the configured password and nothing when none is
  configured; it raises exactly when both are non-empty and one of them is not ASCII, so a site
  whose password contains an accented letter answers every attempt with an exception.
\<close>

theorem check_password_outcomes:
  "(check_password cf submitted = Inr True \<longleftrightarrow>
      submitted = DJANGO_WAF_SITE_PASSWORD cf \<and> submitted \<noteq> [] \<and> is_ascii submitted) \<and>
   (check_password cf submitted = Inl TypeError \<longleftrightarrow> DJANGO_WAF_SITE_PASSWORD cf \<noteq> [] \<and> submitted \<noteq> [] \<and>
      (\<exists>c \<in> set submitted \<union> set (DJANGO_WAF_SITE_PASSWORD cf). 128 \<le> ord c))"
  by (auto simp: check_password_def compare_digest_def is_ascii_def list_all_iff not_less)

end
