(* ===== verification/Middleware.thy ===== *)
theory Middleware
  imports Escalation ChallengeService SiteAccess
begin

text \<open>
  \<open>middleware.py\<close> and the look-up of \<open>services/geoip.py\<close>. What lies outside the package is the
  record \<open>app\<close>: the view (with the user who logged in while it ran, if any), URL resolution,
  imported response handlers, the GeoIP reader, Django's \<open>url_has_allowed_host_and_scheme\<close>,
  \<open>iri_to_uri\<close> and template rendering, and the random draw of log sampling.
\<close>

section \<open>The application around the middleware\<close>

datatype handler_outcome = Raised | Returned HttpResponse | Not_a_response

record 'r app =
  view :: "request \<Rightarrow> ('r world, HttpResponse \<times> user option) py"
  receiver_connected :: bool
  reverse_url :: "string \<Rightarrow> string option"
  import_handler :: "string \<Rightarrow> (request \<Rightarrow> string option \<Rightarrow> EvaluationResult \<Rightarrow> handler_outcome) option"
  geoip_path :: string
  geo_reader :: "(string \<Rightarrow> string option) option"
  url_allowed :: "string \<Rightarrow> string \<Rightarrow> bool \<Rightarrow> bool"
  iri_to_uri :: "string \<Rightarrow> string"
  render_site_password :: "string option \<Rightarrow> string \<Rightarrow> string \<Rightarrow> string"
  random_draw :: rat

section \<open>Helpers\<close>

definition lookup_country :: "'r app \<Rightarrow> string \<Rightarrow> string" where
  "lookup_country A ip =
     (if geoip_path A = [] then []
      else (case geo_reader A of
          None \<Rightarrow> []
        | Some country \<Rightarrow> (case country ip of None \<Rightarrow> [] | Some iso_code \<Rightarrow> iso_code)))"

definition is_exempt_host :: "request \<Rightarrow> string list \<Rightarrow> bool" where
  "is_exempt_host request exempt_hosts =
     (let host = (case req_host request of None \<Rightarrow> dget (META request) ''HTTP_HOST'' [] | Some h \<Rightarrow> h);
          host = (if startswith host ''['' then lstrip_by (\<lambda>c. c = CHR ''['') (case cut '']'' host of None \<Rightarrow> host | Some (a, _) \<Rightarrow> a)
                  else (case rcut CHR '':'' host of None \<Rightarrow> host | Some (a, _) \<Rightarrow> a));
          host = lower host
      in list_ex (\<lambda>entry. let entry = lower entry in
           if startswith entry ''.'' then host = tl entry \<or> endswith host entry else host = entry) exempt_hosts)"

definition is_staff_user :: "conf \<Rightarrow> site \<Rightarrow> rat \<Rightarrow> request \<Rightarrow> bool" where
  "is_staff_user cf S now request =
     (has_valid_trusted_cookie cf S now request \<or>
      (case req_user request of None \<Rightarrow> False | Some u \<Rightarrow> is_authenticated u \<and> (is_staff u \<or> is_superuser u)))"

definition request_fingerprint :: "'r env \<Rightarrow> request \<Rightarrow> string" where
  "request_fingerprint E request = compute_fingerprint (sha256 E) (META request)"

definition request_fingerprint_class :: "request \<Rightarrow> string" where
  "request_fingerprint_class request =
     (case classify_fingerprint (dget (META request) ''HTTP_USER_AGENT'' []) (META request) of Inl _ \<Rightarrow> [] | Inr c \<Rightarrow> c)"

definition emit_request_blocked :: "'r env \<Rightarrow> EvaluationResult \<Rightarrow> string \<Rightarrow> string \<Rightarrow> string \<Rightarrow> ('r world, unit) py" where
  "emit_request_blocked E result ip user_agent path =
     swallow (send E (Request_blocked ip user_agent path (matched_rule_id result) (verdict result)))"

definition emit_request_throttled :: "'r env \<Rightarrow> EvaluationResult \<Rightarrow> string \<Rightarrow> string \<Rightarrow> ('r world, unit) py" where
  "emit_request_throttled E result ip path =
     swallow (send E (Request_throttled ip path (eval_window result) (eval_retry_after result)))"

text \<open>The row both kinds of log entry write; a failure to write it is logged and dropped.\<close>

definition create_request_log ::
  "'r env \<Rightarrow> request \<Rightarrow> EvaluationResult \<Rightarrow> string \<Rightarrow> string \<Rightarrow> string \<Rightarrow> int \<Rightarrow> string \<Rightarrow> ('r world, unit) py" where
  "create_request_log E request result ip user_agent path response_code country = swallow (db E (update_state (\<lambda>w.
     w\<lparr>RequestLogs := RequestLogs w @ [\<lparr>rl_timestamp = time_now E, rl_ip_address = ip,
       rl_user_agent = take 1024 user_agent, rl_path = take 2048 path, rl_method = req_method request,
       rl_verdict = verdict result, rl_matched_rule_id = matched_rule_id result,
       rl_matched_rule_type = matched_rule_type result, rl_anomaly_score = anomaly_score result,
       rl_response_code = response_code, rl_referer = take 2048 (dget (META request) ''HTTP_REFERER'' []),
       rl_http_fingerprint = request_fingerprint E request,
       rl_fingerprint_verdict = request_fingerprint_class request, rl_country_code = country, rl_source = MIDDLEWARE,
       rl_source_event_id = []\<rparr>]\<rparr>)))"

section \<open>Responses\<close>

definition get_challenge_paths :: "conf \<Rightarrow> 'r app \<Rightarrow> (string \<times> string) option" where
  "get_challenge_paths cf A =
     (let path = (\<lambda>setting name. if setting \<noteq> [] then Some setting else reverse_url A name) in
      case path (DJANGO_WAF_CHALLENGE_URL cf) ''django_waf:challenge'' of
        None \<Rightarrow> None
      | Some challenge \<Rightarrow> (case path (DJANGO_WAF_VERIFY_URL cf) ''django_waf:verify'' of
            None \<Rightarrow> None | Some verify \<Rightarrow> Some (challenge, verify)))"

definition get_response :: "conf \<Rightarrow> 'r env \<Rightarrow> site \<Rightarrow> 'r app \<Rightarrow> request \<Rightarrow> ('r world, HttpResponse) py" where
  "get_response cf E S A request =
     andThen (view A request) (\<lambda>(response, logged_in).
       let flagged = (receiver_connected A \<and>
             (case logged_in of None \<Rightarrow> False | Some u \<Rightarrow> set_trusted_cookie_flag_on_login cf u))
       in ret (if flagged then set_trusted_cookie cf S (time_now E) response request else response))"

definition default_block_response :: HttpResponse where
  "default_block_response = http_response 403 ''Access denied.''"

text \<open>The second argument is \<open>request.waf_blocked_country\<close>.\<close>

definition build_block_response ::
  "conf \<Rightarrow> 'r app \<Rightarrow> request \<Rightarrow> string option \<Rightarrow> EvaluationResult \<Rightarrow> HttpResponse" where
  "build_block_response cf A request blocked_country result =
     (if DJANGO_WAF_BLOCK_RESPONSE_HANDLER cf = [] then default_block_response
      else (case import_handler A (DJANGO_WAF_BLOCK_RESPONSE_HANDLER cf) of
          None \<Rightarrow> default_block_response
        | Some handler \<Rightarrow> (case handler request blocked_country result of
              Raised \<Rightarrow> default_block_response
            | Not_a_response \<Rightarrow> default_block_response
            | Returned response \<Rightarrow> response)))"

definition default_throttle_response :: "EvaluationResult \<Rightarrow> HttpResponse" where
  "default_throttle_response result =
     set_header ''Retry-After'' (case eval_retry_after result of None \<Rightarrow> ''60'' | Some n \<Rightarrow> str_int n)
       (http_response 429 ''Too many requests. Please retry later.'')"

definition build_throttle_response :: "conf \<Rightarrow> 'r app \<Rightarrow> request \<Rightarrow> EvaluationResult \<Rightarrow> HttpResponse" where
  "build_throttle_response cf A request result =
     (if DJANGO_WAF_THROTTLE_RESPONSE_HANDLER cf = [] then default_throttle_response result
      else (case import_handler A (DJANGO_WAF_THROTTLE_RESPONSE_HANDLER cf) of
          None \<Rightarrow> default_throttle_response result
        | Some handler \<Rightarrow> (case handler request None result of
              Raised \<Rightarrow> default_throttle_response result
            | Not_a_response \<Rightarrow> default_throttle_response result
            | Returned response \<Rightarrow> response)))"

section \<open>Country block\<close>

definition log_country_block :: "'r env \<Rightarrow> request \<Rightarrow> string \<Rightarrow> string \<Rightarrow> string \<Rightarrow> string \<Rightarrow> ('r world, unit) py" where
  "log_country_block E request ip user_agent path country =
     create_request_log E request (plain_result BLOCKED None) ip user_agent path 403 country"

definition check_country_block ::
  "conf \<Rightarrow> 'r env \<Rightarrow> 'r app \<Rightarrow> request \<Rightarrow> string \<Rightarrow> string \<Rightarrow> string \<Rightarrow> ('r world, HttpResponse option) py" where
  "check_country_block cf E A request ip user_agent path =
     (let country = lookup_country A ip in
      if country = [] then ret None
      else if upper country \<notin> upper ` set (DJANGO_WAF_BLOCKED_COUNTRIES cf) then ret None
      else andThen (log_country_block E request ip user_agent path country)
        (\<lambda>_. ret (Some (build_block_response cf A request (Some country) (plain_result BLOCKED (Some BLOCK))))))"

section \<open>Site password gate\<close>

definition NOINDEX :: string where
  "NOINDEX = ''noindex, nofollow, noarchive''"

definition render_site_password_prompt ::
  "conf \<Rightarrow> 'r app \<Rightarrow> request \<Rightarrow> string option \<Rightarrow> string option \<Rightarrow> HttpResponse" where
  "render_site_password_prompt cf A request error next_url =
     set_header ''X-Robots-Tag'' NOINDEX (http_response 401 (render_site_password A error
       (case next_url of None \<Rightarrow> full_path request | Some u \<Rightarrow> u) (DJANGO_WAF_SITE_PASSWORD_VERIFY_PATH cf)))"

definition handle_site_password_verify ::
  "conf \<Rightarrow> 'r env \<Rightarrow> site \<Rightarrow> 'r app \<Rightarrow> request \<Rightarrow> ('r world, HttpResponse) py" where
  "handle_site_password_verify cf E S A request =
     (let submitted = dget (POST request) ''password'' []; next_param = dget (POST request) ''next'' [] in
      case check_password cf submitted of
        Inl e \<Rightarrow> raise e
      | Inr True \<Rightarrow>
          (if next_param \<noteq> [] \<and> req_host request = None then raise DisallowedHost
           else (let safe_next = (if next_param \<noteq> [] \<and> url_allowed A next_param (the (req_host request)) (is_secure request)
                       then next_param else ''/'')
                 in ret (set_verified_cookie cf S (time_now E) (redirect_to (iri_to_uri A safe_next)) request)))
      | Inr False \<Rightarrow>
          (let ip = (let x = resolve_client_ip cf request in if x = [] then ''0.0.0.0'' else x) in
           andThen (record_guess_throttle_hit_detailed cf E ip) (\<lambda>throttle_result.
             if exceeded throttle_result
             then ret (set_header ''X-Robots-Tag'' NOINDEX (set_header ''Retry-After''
                (case retry_after throttle_result of None \<Rightarrow> ''60'' | Some n \<Rightarrow> str_int n)
                (http_response 429 ''Too many attempts. Please retry later.'')))
             else ret (render_site_password_prompt cf A request (Some ''Incorrect password. Please try again.'')
                (Some next_param)))))"

definition check_site_password ::
  "conf \<Rightarrow> 'r env \<Rightarrow> site \<Rightarrow> 'r app \<Rightarrow> request \<Rightarrow> string \<Rightarrow> ('r world, HttpResponse option) py" where
  "check_site_password cf E S A request path =
     (if \<not> is_gate_enabled cf then ret None
      else if is_exempt_path cf path then ret None
      else if is_misconfigured cf
      then ret (Some (render_site_password_prompt cf A request (Some ''This site is temporarily unavailable.'') None))
      else if has_valid_cookie cf S (time_now E) request then ret None
      else if req_method request = ''POST'' \<and> path = DJANGO_WAF_SITE_PASSWORD_VERIFY_PATH cf
      then andThen (handle_site_password_verify cf E S A request) (\<lambda>r. ret (Some r))
      else ret (Some (render_site_password_prompt cf A request None None)))"

section \<open>Verdicts\<close>

definition count_challenge :: "'r env \<Rightarrow> string \<Rightarrow> ('r world, unit) py" where
  "count_challenge E ip = swallow
     (andThen (on_redis (r_exec (redis E) (INCR (challenged_key ip))))
        (\<lambda>_. on_redis (r_exec (redis E) (EXPIRE (challenged_key ip) 3600))))"

definition handle_verdict ::
  "conf \<Rightarrow> 'r env \<Rightarrow> site \<Rightarrow> 'r app \<Rightarrow> request \<Rightarrow> EvaluationResult \<Rightarrow> string \<Rightarrow> string \<Rightarrow> string \<Rightarrow>
   ('r world, HttpResponse) py" where
  "handle_verdict cf E S A request result ip user_agent path =
     (case verdict result of
        BLOCKED \<Rightarrow>
          andThen (swallow (record_block_verdict E ip 300 (map_option str_uuid (matched_rule_id result)))) (\<lambda>_.
          andThen (emit_request_blocked E result ip user_agent path) (\<lambda>_.
            ret (build_block_response cf A request None result)))
      | THROTTLED \<Rightarrow>
          andThen (emit_request_throttled E result ip path) (\<lambda>_. ret (build_throttle_response cf A request result))
      | CHALLENGED \<Rightarrow>
          (case get_challenge_paths cf A of
             None \<Rightarrow> get_response cf E S A request
           | Some (challenge_path, verify_path) \<Rightarrow>
               if startswith path challenge_path \<or> startswith path verify_path then get_response cf E S A request
               else andThen (count_challenge E ip)
                 (\<lambda>_. ret (redirect_to (iri_to_uri A (challenge_path @ ''?next='' @ path)))))
      | _ \<Rightarrow> get_response cf E S A request)"

definition log_request ::
  "conf \<Rightarrow> 'r env \<Rightarrow> 'r app \<Rightarrow> request \<Rightarrow> EvaluationResult \<Rightarrow> string \<Rightarrow> string \<Rightarrow> string \<Rightarrow> int \<Rightarrow> ('r world, unit) py" where
  "log_request cf E A request result ip user_agent path response_code =
     (if verdict result \<notin> {BLOCKED, CHALLENGED, THROTTLED, LOGGED} \<and> DJANGO_WAF_LOG_SAMPLE_RATE cf \<le> random_draw A
      then ret ()
      else create_request_log E request result ip user_agent path response_code (lookup_country A ip))"

section \<open>The call\<close>

text \<open>From the evaluation on: an exception of the evaluation passes the request.\<close>

definition evaluate_and_respond ::
  "conf \<Rightarrow> 'r env \<Rightarrow> site \<Rightarrow> 'r app \<Rightarrow> request \<Rightarrow> string \<Rightarrow> string \<Rightarrow> string \<Rightarrow> ('r world, HttpResponse) py" where
  "evaluate_and_respond cf E S A request ip user_agent path =
     andThen (try_except
         (andThen (evaluate_request cf E ip user_agent path (req_method request) (dget (META request) ''HTTP_REFERER'' [])
             (META request)) (\<lambda>result. ret (Some result)))
         (\<lambda>_. ret None))
       (\<lambda>evaluated. case evaluated of
            None \<Rightarrow> get_response cf E S A request
          | Some result \<Rightarrow>
              andThen (handle_verdict cf E S A request result ip user_agent path) (\<lambda>response.
              andThen (log_request cf E A request result ip user_agent path (status_code response)) (\<lambda>_.
                ret response)))"

text \<open>After the gate and the method filter.\<close>

definition protect :: "conf \<Rightarrow> 'r env \<Rightarrow> site \<Rightarrow> 'r app \<Rightarrow> request \<Rightarrow> string \<Rightarrow> ('r world, HttpResponse) py" where
  "protect cf E S A request path =
     (let ip = resolve_client_ip cf request; user_agent = dget (META request) ''HTTP_USER_AGENT'' [] in
      if ip = [] then get_response cf E S A request
      else or_else (if DJANGO_WAF_BLOCKED_COUNTRIES cf \<noteq> [] then check_country_block cf E A request ip user_agent path else ret None)
        (if is_staff_user cf S (time_now E) request then get_response cf E S A request
         else (case get_redis_client E of
             None \<Rightarrow> get_response cf E S A request
           | Some _ \<Rightarrow>
               (let cookie = dget (COOKIES request) ''waf_pass'' [] in
                if cookie \<noteq> [] \<and> validate_pass_cookie S (time_now E) cookie ip then get_response cf E S A request
                else evaluate_and_respond cf E S A request ip user_agent path))))"

definition waf_call :: "conf \<Rightarrow> 'r env \<Rightarrow> site \<Rightarrow> 'r app \<Rightarrow> request \<Rightarrow> ('r world, HttpResponse) py" where
  "waf_call cf E S A request =
     (let path = path_info request in
      if \<not> DJANGO_WAF_ENABLED cf then get_response cf E S A request
      else if list_ex (startswith path) (DJANGO_WAF_EXEMPT_PATHS cf) then get_response cf E S A request
      else if DJANGO_WAF_EXEMPT_HOSTS cf \<noteq> [] \<and> is_exempt_host request (DJANGO_WAF_EXEMPT_HOSTS cf)
      then get_response cf E S A request
      else or_else (check_site_password cf E S A request path)
        (case DJANGO_WAF_ALLOWED_METHODS cf of
           None \<Rightarrow> protect cf E S A request path
         | Some allowed \<Rightarrow>
             if req_method request \<notin> set allowed
             then ret (set_header ''Allow'' (commas allowed) (http_response 405 ''Method not allowed.''))
             else protect cf E S A request path))"

section \<open>Lemmas\<close>

text \<open>The requests that get as far as the evaluation.\<close>

definition gate_open :: "conf \<Rightarrow> 'r env \<Rightarrow> site \<Rightarrow> request \<Rightarrow> bool" where
  "gate_open cf E S request = (\<not> DJANGO_WAF_SITE_PASSWORD_ENABLED cf \<or> is_exempt_path cf (path_info request) \<or>
     DJANGO_WAF_SITE_PASSWORD cf \<noteq> [] \<and> has_valid_cookie cf S (time_now E) request)"

definition exempt_request :: "conf \<Rightarrow> request \<Rightarrow> bool" where
  "exempt_request cf request = (\<not> DJANGO_WAF_ENABLED cf \<or> list_ex (startswith (path_info request)) (DJANGO_WAF_EXEMPT_PATHS cf) \<or>
     DJANGO_WAF_EXEMPT_HOSTS cf \<noteq> [] \<and> is_exempt_host request (DJANGO_WAF_EXEMPT_HOSTS cf))"

definition guarded :: "conf \<Rightarrow> 'r env \<Rightarrow> site \<Rightarrow> 'r app \<Rightarrow> request \<Rightarrow> bool" where
  "guarded cf E S A request = (\<not> exempt_request cf request \<and> gate_open cf E S request \<and>
     (case DJANGO_WAF_ALLOWED_METHODS cf of None \<Rightarrow> True | Some allowed \<Rightarrow> req_method request \<in> set allowed) \<and>
     resolve_client_ip cf request \<noteq> [] \<and>
     (let country = lookup_country A (resolve_client_ip cf request)
      in country = [] \<or> upper country \<notin> upper ` set (DJANGO_WAF_BLOCKED_COUNTRIES cf)) \<and>
     \<not> is_staff_user cf S (time_now E) request \<and> backend E = Redis_backend \<and>
     \<not> (dget (COOKIES request) ''waf_pass'' [] \<noteq> [] \<and>
        validate_pass_cookie S (time_now E) (dget (COOKIES request) ''waf_pass'' []) (resolve_client_ip cf request)))"

lemma or_else_ret_None [simp]: "or_else (ret None) k = k"
  by (simp add: or_else_def)

lemma gate_passes: "gate_open cf E S request \<Longrightarrow> check_site_password cf E S A request (path_info request) = ret None"
  by (auto simp: gate_open_def check_site_password_def is_gate_enabled_def is_misconfigured_def)

lemma country_passes:
  "(let country = lookup_country A ip in country = [] \<or> upper country \<notin> upper ` set (DJANGO_WAF_BLOCKED_COUNTRIES cf)) \<Longrightarrow>
   (if DJANGO_WAF_BLOCKED_COUNTRIES cf \<noteq> [] then check_country_block cf E A request ip ua path else ret None) = ret None"
  by (auto simp: check_country_block_def Let_def)

lemma guarded_call:
  assumes "guarded cf E S A request"
  shows "waf_call cf E S A request = evaluate_and_respond cf E S A request (resolve_client_ip cf request)
     (dget (META request) ''HTTP_USER_AGENT'' []) (path_info request)"
proof -
  have g: "\<not> exempt_request cf request" "gate_open cf E S request"
    "case DJANGO_WAF_ALLOWED_METHODS cf of None \<Rightarrow> True | Some allowed \<Rightarrow> req_method request \<in> set allowed"
    "resolve_client_ip cf request \<noteq> []"
    "let country = lookup_country A (resolve_client_ip cf request)
      in country = [] \<or> upper country \<notin> upper ` set (DJANGO_WAF_BLOCKED_COUNTRIES cf)"
    "\<not> is_staff_user cf S (time_now E) request" "backend E = Redis_backend"
    "\<not> (dget (COOKIES request) ''waf_pass'' [] \<noteq> [] \<and>
        validate_pass_cookie S (time_now E) (dget (COOKIES request) ''waf_pass'' []) (resolve_client_ip cf request))"
    using assms unfolding guarded_def by blast+
  have "waf_call cf E S A request = protect cf E S A request (path_info request)"
    using g(1,3) by (cases "DJANGO_WAF_ALLOWED_METHODS cf") (auto simp: waf_call_def exempt_request_def gate_passes [OF g(2)] Let_def)
  also have "\<dots> = evaluate_and_respond cf E S A request (resolve_client_ip cf request)
     (dget (META request) ''HTTP_USER_AGENT'' []) (path_info request)"
    unfolding protect_def Let_def country_passes [OF g(5)] using g(4,6,7,8) by (auto simp: get_redis_client_def)
  finally show ?thesis .
qed

lemma evaluate_and_respond_result:
  assumes "evaluate_request cf E ip ua path (req_method request) (dget (META request) ''HTTP_REFERER'' []) (META request) w = (Inr res, w1)"
  shows "evaluate_and_respond cf E S A request ip ua path w =
     andThen (handle_verdict cf E S A request res ip ua path) (\<lambda>response.
       andThen (log_request cf E A request res ip ua path (status_code response)) (\<lambda>_. ret response)) w1"
  using assms by (simp add: evaluate_and_respond_def)

lemma evaluate_and_respond_error:
  assumes "evaluate_request cf E ip ua path (req_method request) (dget (META request) ''HTTP_REFERER'' []) (META request) w = (Inl e, w1)"
  shows "evaluate_and_respond cf E S A request ip ua path w = get_response cf E S A request w1"
  using assms by (simp add: evaluate_and_respond_def)

lemma log_request_returns: "fst (log_request cf E A request res ip ua path code w) = Inr ()"
  by (simp add: log_request_def create_request_log_def swallow_result)

lemma respond_fst: "fst (andThen m (\<lambda>x. andThen (log_request cf E A request res ip ua path (f x)) (\<lambda>_. ret x)) w) = fst (m w)"
proof (cases "m w")
  case (Pair y w1)
  have l: "andThen (log_request cf E A request res ip ua path c) (\<lambda>_. ret x) w1 =
      (Inr x, snd (log_request cf E A request res ip ua path c w1))" for c x
    using log_request_returns [of cf E A request res ip ua path c w1]
    by (cases "log_request cf E A request res ip ua path c w1") simp
  from Pair show ?thesis by (cases y) (simp_all add: l)
qed

lemma handle_blocked:
  assumes "verdict res = BLOCKED"
  shows "fst (handle_verdict cf E S A request res ip ua path w) = Inr (build_block_response cf A request None res)"
  using assms by (simp add: handle_verdict_def emit_request_blocked_def)

lemma handle_throttled:
  assumes "verdict res = THROTTLED"
  shows "fst (handle_verdict cf E S A request res ip ua path w) = Inr (build_throttle_response cf A request res)"
  using assms by (simp add: handle_verdict_def emit_request_throttled_def)

lemma guess_returns: "\<exists>x w'. record_guess_throttle_hit_detailed cf E ip w = (Inr x, w')"
  by (auto simp: record_guess_throttle_hit_detailed_def try_except_def split: option.splits prod.splits sum.splits)

lemma prompt_facts [simp]:
  "status_code (render_site_password_prompt cf A request e n) = 401" "cookies (render_site_password_prompt cf A request e n) = []"
  by (simp_all add: render_site_password_prompt_def)

lemma wrong_password_response:
  assumes "check_password cf (dget (POST request) ''password'' []) = Inr False"
  shows "\<exists>r w'. handle_site_password_verify cf E S A request w = (Inr r, w') \<and> status_code r \<in> {401, 429} \<and> cookies r = []"
proof -
  let ?ip = "let x = resolve_client_ip cf request in if x = [] then ''0.0.0.0'' else x"
  obtain x w' where "record_guess_throttle_hit_detailed cf E ?ip w = (Inr x, w')" using guess_returns by blast
  then show ?thesis using assms by (simp add: handle_site_password_verify_def Let_def)
qed

text \<open>A concrete application: the view answers 200, the challenge URLs are set.\<close>

definition demo_app :: "store app" where
  "demo_app = \<lparr>view = (\<lambda>_. ret (http_response 200 ''ok'', None)), receiver_connected = False,
     reverse_url = (\<lambda>name. Some (if name = ''django_waf:challenge'' then ''/waf/challenge/'' else ''/waf/verify/'')),
     import_handler = (\<lambda>_. None), geoip_path = [], geo_reader = None, url_allowed = (\<lambda>_ _ _. False),
     iri_to_uri = (\<lambda>s. s), render_site_password = (\<lambda>_ _ _. []), random_draw = 1 / 2\<rparr>"

definition visitor :: "string \<Rightarrow> request" where
  "visitor ua = \<lparr>path_info = ''/shop/'', full_path = ''/shop/'', req_method = ''GET'',
     META = [(''REMOTE_ADDR'', ''203.0.113.9''), (''HTTP_USER_AGENT'', ua)], COOKIES = [], POST = [],
     req_host = Some ''example.com'', is_secure = True, req_user = None, req_path = ''/shop/'', req_GET = [],
     content_type = [], req_body = []\<rparr>"

lemma visitor_facts [simp]:
  "resolve_client_ip default_conf (visitor ua) = ''203.0.113.9''" "dget (META (visitor ua)) ''HTTP_USER_AGENT'' [] = ua"
  "path_info (visitor ua) = ''/shop/''" "req_method (visitor ua) = ''GET''"
  by (simp_all add: visitor_def default_conf_def resolve_client_ip_def is_trusted_proxy_def dget_def Let_def split: option.splits)

lemma visitor_guarded: "guarded default_conf demo_env demo_site demo_app (visitor ua)"
proof -
  have "\<not> exempt_request default_conf (visitor ua)" "gate_open default_conf demo_env demo_site (visitor ua)"
    by (simp_all add: exempt_request_def gate_open_def default_conf_def visitor_def startswith_def)
  moreover have "\<not> is_staff_user default_conf demo_site (time_now demo_env) (visitor ua)"
    by (simp add: is_staff_user_def has_valid_trusted_cookie_def is_feature_enabled_def default_conf_def visitor_def)
  moreover have "DJANGO_WAF_ALLOWED_METHODS default_conf = None" "DJANGO_WAF_BLOCKED_COUNTRIES default_conf = []"
    "backend demo_env = Redis_backend" "dget (COOKIES (visitor ua)) ''waf_pass'' [] = []"
    by (simp_all add: default_conf_def demo_env_def visitor_def dget_def)
  ultimately show ?thesis by (simp add: guarded_def)
qed

lemma long_chrome_match: "chromium_match (''Chrome/'' @ replicate n CHR ''9'') = (if n = 0 then chromium_match ''Chrome/'' else Some (replicate n CHR ''9''))"
proof -
  have "lower (''Chrome/'' @ replicate n CHR ''9'') = ''chrome/'' @ lower (replicate n CHR ''9'')"
  proof -
    have "lower ''Chrome/'' = ''chrome/''" by code_simp
    then show ?thesis by (simp only: lower_append)
  qed
  then have "startswith (lower (''Chrome/'' @ replicate n CHR ''9'')) ''chrome/''" by (simp only: startswith_append)
  moreover have "takeWhile is_digit (replicate n CHR ''9'') = replicate n CHR ''9''"
    by (rule takeWhile_eq_all_conv [THEN iffD2]) (simp add: is_digit_def ord_def)
  ultimately show ?thesis by (cases n) (simp_all add: Let_def)
qed

lemma demo_blocked_run:
  "\<exists>w1. evaluate_request default_conf demo_env ''203.0.113.9'' [] ''/shop/'' ''GET'' [] (META (visitor []))
      (empty_world\<lparr>BlockRules := [example_rule], AllowRules := []\<rparr>) =
    (Inr \<lparr>verdict = BLOCKED, eval_action = Some ''block'', matched_rule_id = Some 7, matched_rule_type = ''block'',
       anomaly_score = None, eval_retry_after = None, eval_window = None\<rparr>, w1)"
proof -
  let ?w = "empty_world\<lparr>BlockRules := [example_rule], AllowRules := []\<rparr>"
  have cl: "classify_fingerprint [] (META (visitor [])) = Inr ''unknown''"
    by (simp add: classify_fingerprint_def score_fingerprint_mismatch_def)
  have r: "find (block_rule_applies demo_env ''203.0.113.9'' []) (BlockRule_active (time_now demo_env) (BlockRules ?w)) = Some example_rule"
    by (simp add: block_rule_applies_def BlockRule_active_def example_rule_def not_expired_def pattern_matches_def match_ip_def)
  have "fst (evaluate_request default_conf demo_env ''203.0.113.9'' [] ''/shop/'' ''GET'' [] (META (visitor [])) ?w) =
    Inr \<lparr>verdict = action_to_verdict (br_action example_rule), eval_action = Some (br_action example_rule),
       matched_rule_id = Some (br_id example_rule), matched_rule_type = ''block'', anomaly_score = None,
       eval_retry_after = None, eval_window = None\<rparr>"
    by (rule evaluate_block_first [OF demo_fresh cl _ _ r])
      (simp_all add: AllowRule_active_def live_def empty_world_def fresh_store_def example_rule_def action_to_verdict_def valid_uuid_def)
  then show ?thesis by (simp add: example_rule_def action_to_verdict_def) (metis prod.collapse)
qed

lemma frames_server_emit: "frames server (emit_request_blocked E res ip ua path)"
  unfolding emit_request_blocked_def by (intro frame_intros) simp_all

lemma handle_blocked_records:
  assumes up: "redis_up (redis E) store_of" and h: "hash_key (store_of (server w)) STATS_KEY" and v: "verdict res = BLOCKED"
  shows "\<exists>w'. handle_verdict cf E S A request res ip ua path w = (Inr (build_block_response cf A request None res), w') \<and>
     clock (store_of (server w')) = clock (store_of (server w)) \<and>
     map_of (data (store_of (server w'))) (blocked_ip_key ip) =
       Some (RStr (case map_option str_uuid (matched_rule_id res) of None \<Rightarrow> ''1'' | Some s \<Rightarrow> if s = [] then ''1'' else s),
         Some (clock (store_of (server w)) + 300))"
proof -
  from record_block_spec [OF up h _ refl, of 300 ip "map_option str_uuid (matched_rule_id res)"] obtain r' where
    r': "record_block_verdict E ip 300 (map_option str_uuid (matched_rule_id res)) w = (Inr (), w\<lparr>server := r'\<rparr>)"
    "clock (store_of r') = clock (store_of (server w))"
    "map_of (data (store_of r')) (blocked_ip_key ip) =
       Some (RStr (case map_option str_uuid (matched_rule_id res) of None \<Rightarrow> ''1'' | Some s \<Rightarrow> if s = [] then ''1'' else s),
         Some (clock (store_of (server w)) + of_int 300))" by auto
  let ?w' = "snd (emit_request_blocked E res ip ua path (w\<lparr>server := r'\<rparr>))"
  have "server ?w' = r'" using frames_server_emit [of E res ip ua path] by (simp add: frames_def)
  moreover have "handle_verdict cf E S A request res ip ua path w = (Inr (build_block_response cf A request None res), ?w')"
    using v r'(1) by (simp add: handle_verdict_def emit_request_blocked_def swallow_state)
  ultimately show ?thesis using r'(2,3) by auto
qed

lemma count_challenge_spec:
  assumes up: "redis_up (redis E) store_of" and c: "counter_key (store_of (server w)) (challenged_key ip)"
  shows "\<exists>n r'. count_challenge E ip w = (Inr (), w\<lparr>server := r'\<rparr>) \<and>
     (live (store_of (server w)) (challenged_key ip) = None \<and> n = 0 \<or>
      live (store_of (server w)) (challenged_key ip) = Some (RStr (str_int n))) \<and>
     store_of r' = put (challenged_key ip) (RStr (str_int (n + 1))) (Some (clock (store_of (server w)) + 3600))
       (rewrite (challenged_key ip) (RStr (str_int (n + 1))) (store_of (server w)))"
proof -
  let ?k = "challenged_key ip"
  from redis_up.up_incr [OF up c] obtain r1 n where
    r1: "r_exec (redis E) (INCR ?k) (server w) = (Inr (), r1)" "store_of r1 = rewrite ?k (RStr (str_int (n + 1))) (store_of (server w))"
    "live (store_of (server w)) ?k = None \<and> n = 0 \<or> live (store_of (server w)) ?k = Some (RStr (str_int n))" by blast
  obtain r2 where r2: "r_exec (redis E) (EXPIRE ?k 3600) r1 = (Inr (), r2)"
    "store_of r2 = put ?k (RStr (str_int (n + 1))) (Some (clock (store_of r1) + 3600)) (store_of r1)"
    using redis_up.up_exec [OF up, of "EXPIRE ?k 3600" r1] r1(2) by auto
  have "count_challenge E ip w = (Inr (), w\<lparr>server := r2\<rparr>)" using r1(1) r2(1) by (simp add: count_challenge_def swallow_apply)
  then show ?thesis using r1 r2 by (intro exI [of _ n] exI [of _ r2]) simp
qed

section \<open>Properties\<close>

text \<open>
  C5. A request that the evaluation blocks or throttles gets the block or throttle response and
  never the view's: the outcome is the built-in response or what a working handler returned,
  whatever fails while the verdict is recorded, signalled and logged.
\<close>

theorem denied_requests_get_the_denial:
  assumes "guarded cf E S A request"
    and "evaluate_request cf E (resolve_client_ip cf request) (dget (META request) ''HTTP_USER_AGENT'' []) (path_info request)
       (req_method request) (dget (META request) ''HTTP_REFERER'' []) (META request) w = (Inr res, w1)"
    and "verdict res \<in> {BLOCKED, THROTTLED}"
  shows "fst (waf_call cf E S A request w) = Inr (if verdict res = BLOCKED
     then build_block_response cf A request None res else build_throttle_response cf A request res)"
  unfolding guarded_call [OF assms(1)] evaluate_and_respond_result [OF assms(2)] respond_fst
  using assms(3) handle_blocked handle_throttled by auto

theorem denied_requests_get_the_denial_witness:
  "fst (waf_call default_conf demo_env demo_site demo_app (visitor []) (empty_world\<lparr>BlockRules := [example_rule], AllowRules := []\<rparr>)) =
     Inr default_block_response"
proof -
  have ref: "dget (META (visitor [])) ''HTTP_REFERER'' [] = []" by (simp add: visitor_def dget_def)
  from demo_blocked_run obtain w1 where "evaluate_request default_conf demo_env (resolve_client_ip default_conf (visitor []))
      (dget (META (visitor [])) ''HTTP_USER_AGENT'' []) (path_info (visitor [])) (req_method (visitor []))
      (dget (META (visitor [])) ''HTTP_REFERER'' []) (META (visitor [])) (empty_world\<lparr>BlockRules := [example_rule], AllowRules := []\<rparr>) =
    (Inr \<lparr>verdict = BLOCKED, eval_action = Some ''block'', matched_rule_id = Some 7, matched_rule_type = ''block'',
       anomaly_score = None, eval_retry_after = None, eval_window = None\<rparr>, w1)" unfolding visitor_facts ref by blast
  from denied_requests_get_the_denial [OF visitor_guarded this] show ?thesis
    by (simp add: build_block_response_def default_conf_def)
qed

text \<open>
  C1. A matching block rule yields 403: for a request that no exemption, gate, staff bypass or pass
  cookie takes out, in a deployment in good order, the first active block rule that matches, when
  its action is to block, answers the request with "Access denied.", before and instead of the
  view. This joins the rule table, the rule cache, matching, evaluation and the middleware.
\<close>

theorem block_rule_denies_access:
  assumes g: "guarded cf E S A request" and fr: "fresh_rules E store_of w"
    and cl: "classify_fingerprint (dget (META request) ''HTTP_USER_AGENT'' []) (META request) = Inr fp"
    and na: "\<forall>a \<in> set (AllowRule_active (time_now E) (AllowRules w)).
       \<not> allow_rule_applies E (resolve_client_ip cf request) (dget (META request) ''HTTP_USER_AGENT'' []) a"
    and nb: "live (store_of (server w)) (blocked_ip_key (resolve_client_ip cf request)) = None"
    and r: "find (block_rule_applies E (resolve_client_ip cf request) (dget (META request) ''HTTP_USER_AGENT'' []))
       (BlockRule_active (time_now E) (BlockRules w)) = Some r"
    and act: "br_action r = ''block''" and u: "valid_uuid (br_id r)"
    and h: "DJANGO_WAF_BLOCK_RESPONSE_HANDLER cf = []"
  shows "fst (waf_call cf E S A request w) = Inr (http_response 403 ''Access denied.'')"
proof -
  let ?ev = "evaluate_request cf E (resolve_client_ip cf request) (dget (META request) ''HTTP_USER_AGENT'' []) (path_info request)
       (req_method request) (dget (META request) ''HTTP_REFERER'' []) (META request) w"
  have a: "action_to_verdict (br_action r) = BLOCKED" using act by (simp add: action_to_verdict_def)
  from evaluate_block_first [OF fr cl na nb r _ u] a obtain res where "fst ?ev = Inr res" "verdict res = BLOCKED" by auto
  then obtain w1 where "?ev = (Inr res, w1)" "verdict res = BLOCKED" by (metis prod.collapse)
  then show ?thesis unfolding guarded_call [OF g] evaluate_and_respond_result [OF \<open>?ev = (Inr res, w1)\<close>] respond_fst
    using h by (simp add: handle_blocked build_block_response_def default_block_response_def)
qed

theorem block_rule_denies_access_witness:
  "fst (waf_call default_conf demo_env demo_site demo_app (visitor []) (empty_world\<lparr>BlockRules := [example_rule], AllowRules := []\<rparr>)) =
     Inr (http_response 403 ''Access denied.'')"
proof -
  let ?w = "empty_world\<lparr>BlockRules := [example_rule], AllowRules := []\<rparr>"
  have cl: "classify_fingerprint (dget (META (visitor [])) ''HTTP_USER_AGENT'' []) (META (visitor [])) = Inr ''unknown''"
    by (simp add: classify_fingerprint_def score_fingerprint_mismatch_def)
  have r: "find (block_rule_applies demo_env (resolve_client_ip default_conf (visitor [])) (dget (META (visitor [])) ''HTTP_USER_AGENT'' []))
      (BlockRule_active (time_now demo_env) (BlockRules ?w)) = Some example_rule"
    by (simp add: block_rule_applies_def BlockRule_active_def example_rule_def not_expired_def pattern_matches_def match_ip_def)
  show ?thesis
    by (rule block_rule_denies_access [OF visitor_guarded demo_fresh cl _ _ r])
      (simp_all add: AllowRule_active_def live_def empty_world_def fresh_store_def example_rule_def valid_uuid_def default_conf_def)
qed

text \<open>
  C38. A User-Agent with a Chrome version of more than 4300 digits switches the firewall off for the
  request: the classifier raises, the middleware fails open, and the request is handed to the
  view whatever the rules, the blocked cache and the rate limits say.
\<close>

theorem oversized_chrome_version_bypasses_waf:
  assumes "guarded cf E S A request" and "chromium_match (dget (META request) ''HTTP_USER_AGENT'' []) = Some digits"
    and "4300 < length digits"
  shows "waf_call cf E S A request w = get_response cf E S A request w"
proof -
  have "classify_fingerprint (dget (META request) ''HTTP_USER_AGENT'' []) (META request) = Inl ValueError"
    using assms(2,3) unfolding classify_fingerprint_Inl score_fingerprint_Inl INT_MAX_STR_DIGITS_def by blast
  then have "evaluate_request cf E (resolve_client_ip cf request) (dget (META request) ''HTTP_USER_AGENT'' []) (path_info request)
       (req_method request) (dget (META request) ''HTTP_REFERER'' []) (META request) w = (Inl ValueError, w)"
    by (simp add: evaluate_request_def)
  then show ?thesis unfolding guarded_call [OF assms(1)] by (rule evaluate_and_respond_error)
qed

theorem oversized_chrome_version_bypasses_waf_witness:
  "waf_call default_conf demo_env demo_site demo_app (visitor (''Chrome/'' @ replicate 4301 CHR ''9''))
      (empty_world\<lparr>BlockRules := [example_rule]\<rparr>) = (Inr (http_response 200 ''ok''), empty_world\<lparr>BlockRules := [example_rule]\<rparr>)"
proof -
  let ?r = "visitor (''Chrome/'' @ replicate 4301 CHR ''9'')"
  have m: "chromium_match (dget (META ?r) ''HTTP_USER_AGENT'' []) = Some (replicate 4301 CHR ''9'')"
    using long_chrome_match [of 4301] by (simp only: visitor_facts) simp
  have "waf_call default_conf demo_env demo_site demo_app ?r (empty_world\<lparr>BlockRules := [example_rule]\<rparr>) =
      get_response default_conf demo_env demo_site demo_app ?r (empty_world\<lparr>BlockRules := [example_rule]\<rparr>)"
    by (rule oversized_chrome_version_bypasses_waf [OF visitor_guarded m]) simp
  then show ?thesis by (simp add: get_response_def demo_app_def)
qed

text \<open>
  C11. A locked site stays locked: while the gate is on, a request to a path that is not exempt,
  without a valid verified cookie and without the right password, is answered with the 401
  prompt or a 429, sets no cookie and never reaches the view. This includes a gate that is on
  with no password configured, which then admits nobody, not even by an empty password.
\<close>

theorem site_password_gate_stays_closed:
  assumes ex: "\<not> exempt_request cf request" and on: "DJANGO_WAF_SITE_PASSWORD_ENABLED cf"
    and np: "\<not> is_exempt_path cf (path_info request)"
    and nc: "\<not> has_valid_cookie cf S (time_now E) request \<or> DJANGO_WAF_SITE_PASSWORD cf = []"
    and pw: "check_password cf (dget (POST request) ''password'' []) = Inr False"
  shows "\<exists>r w'. waf_call cf E S A request w = (Inr r, w') \<and> status_code r \<in> {401, 429} \<and> cookies r = []"
proof -
  have call: "waf_call cf E S A request w = or_else (check_site_password cf E S A request (path_info request)) k w"
    if "k = (case DJANGO_WAF_ALLOWED_METHODS cf of
           None \<Rightarrow> protect cf E S A request (path_info request)
         | Some allowed \<Rightarrow>
             if req_method request \<notin> set allowed
             then ret (set_header ''Allow'' (commas allowed) (http_response 405 ''Method not allowed.''))
             else protect cf E S A request (path_info request))" for k
    using ex that by (auto simp: waf_call_def exempt_request_def Let_def)
  obtain r w' where h: "handle_site_password_verify cf E S A request w = (Inr r, w')" "status_code r \<in> {401, 429}" "cookies r = []"
    using wrong_password_response [OF pw] by blast
  have "\<exists>r w'. check_site_password cf E S A request (path_info request) w = (Inr (Some r), w') \<and>
      status_code r \<in> {401, 429} \<and> cookies r = []"
    using on np nc h by (auto simp: check_site_password_def is_gate_enabled_def is_misconfigured_def)
  then obtain r2 w2 where c: "check_site_password cf E S A request (path_info request) w = (Inr (Some r2), w2)"
    "status_code r2 \<in> {401, 429}" "cookies r2 = []" by blast
  then show ?thesis unfolding call [OF refl] or_else_Some [of "check_site_password cf E S A request (path_info request)", OF c(1)]
    by blast
qed

theorem site_password_gate_stays_closed_witness:
  "\<exists>r w'. waf_call (default_conf\<lparr>DJANGO_WAF_SITE_PASSWORD_ENABLED := True\<rparr>) demo_env demo_site demo_app (visitor []) empty_world = (Inr r, w') \<and>
     status_code r \<in> {401, 429} \<and> cookies r = []"
  by (rule site_password_gate_stays_closed)
    (simp_all add: exempt_request_def default_conf_def visitor_def startswith_def is_exempt_path_def check_password_def)

text \<open>
  C35. The middleware undoes the escalation period: when the gate blocks an address for
  \<open>DJANGO_WAF_ESCALATION_BLOCK_TTL\<close> seconds, the verdict it returns carries no rule, and handling
  that verdict records the block again with the default of 300 seconds and without the rule.
  After five minutes the address is not in the blocked cache any more, however long the
  escalation period is.
\<close>

theorem escalation_period_overwritten:
  assumes up: "redis_up (redis E) store_of" and ready: "block_ready (store_of (server w))"
    and ch: "live (store_of (server w)) (challenged_key ip) = Some (RStr (str_int n))"
    and fp: "fp = ''bot'' \<or> live (store_of (server w)) (solved_key ip) = None"
    and ttl: "0 < DJANGO_WAF_ESCALATION_BLOCK_TTL cf" and n: "DJANGO_WAF_CHALLENGE_ESCALATION_THRESHOLD cf \<le> n"
  shows "\<exists>res w1 r w2. gate_challenge_or_escalate cf E ip cr fp w = (Inr res, w1) \<and>
     handle_verdict cf E S A request res ip ua path w1 = (Inr r, w2) \<and>
     map_of (data (store_of (server w2))) (blocked_ip_key ip) = Some (RStr ''1'', Some (clock (store_of (server w2)) + 300)) \<and>
     live (elapse 300 (store_of (server w2))) (blocked_ip_key ip) = None"
proof -
  let ?res = "plain_result BLOCKED (Some BLOCK)"
  from gate_spec [OF up ready ch fp ttl, of cr] n obtain w1 where
    w1: "gate_challenge_or_escalate cf E ip cr fp w = (Inr ?res, w1)" "hash_key (store_of (server w1)) STATS_KEY" by auto
  have v: "verdict ?res = BLOCKED" "matched_rule_id ?res = None" by (simp_all add: plain_result_def)
  from handle_blocked_records [OF up w1(2) v(1)] v(2) obtain w2 where
    w2: "handle_verdict cf E S A request ?res ip ua path w1 = (Inr (build_block_response cf A request None ?res), w2)"
    "clock (store_of (server w2)) = clock (store_of (server w1))"
    "map_of (data (store_of (server w2))) (blocked_ip_key ip) = Some (RStr ''1'', Some (clock (store_of (server w1)) + 300))" by force
  then have "live (elapse 300 (store_of (server w2))) (blocked_ip_key ip) = None" by (simp add: live_def elapse_def)
  with w1 w2 show ?thesis by (intro exI [of _ ?res] exI [of _ w1] exI [of _ w2] exI) auto
qed

theorem escalation_period_overwritten_witness:
  "\<exists>res w1 r w2. gate_challenge_or_escalate default_conf demo_env ''203.0.113.9'' (plain_result CHALLENGED (Some CHALLENGE)) ''bot''
       challenged_world = (Inr res, w1) \<and>
     handle_verdict default_conf demo_env demo_site demo_app (visitor []) res ''203.0.113.9'' [] ''/shop/'' w1 = (Inr r, w2) \<and>
     live (elapse 300 (server w2)) (blocked_ip_key ''203.0.113.9'') = None"
proof -
  have c: "0 < DJANGO_WAF_ESCALATION_BLOCK_TTL default_conf" "DJANGO_WAF_CHALLENGE_ESCALATION_THRESHOLD default_conf \<le> 12"
    by (simp_all add: default_conf_def)
  from escalation_period_overwritten [OF calm_up [OF demo_calm] challenged_world_facts(1,2) disjI1 [OF refl] c,
      of "plain_result CHALLENGED (Some CHALLENGE)" demo_site demo_app "visitor []" "[]" "''/shop/''"]
  show ?thesis by blast
qed

text \<open>
  A challenged request outside the challenge pages is redirected to the challenge with its
  path, and the unsolved count of the address goes up by exactly one and lives one hour from
  then, which is the count the gate compares with the threshold.
\<close>

theorem challenge_redirects_and_counts:
  assumes up: "redis_up (redis E) store_of" and c: "counter_key (store_of (server w)) (challenged_key ip)"
    and v: "verdict res = CHALLENGED" and p: "get_challenge_paths cf A = Some (challenge_path, verify_path)"
    and np: "\<not> startswith path challenge_path" "\<not> startswith path verify_path"
  shows "\<exists>w' n. handle_verdict cf E S A request res ip ua path w =
       (Inr (redirect_to (iri_to_uri A (challenge_path @ ''?next='' @ path))), w') \<and>
     (live (store_of (server w)) (challenged_key ip) = None \<and> n = 0 \<or>
      live (store_of (server w)) (challenged_key ip) = Some (RStr (str_int n))) \<and>
     live (elapse d (store_of (server w'))) (challenged_key ip) = (if d < 3600 then Some (RStr (str_int (n + 1))) else None)"
proof -
  from count_challenge_spec [OF up c] obtain n r' where
    r': "count_challenge E ip w = (Inr (), w\<lparr>server := r'\<rparr>)"
      "live (store_of (server w)) (challenged_key ip) = None \<and> n = 0 \<or>
       live (store_of (server w)) (challenged_key ip) = Some (RStr (str_int n))"
      "store_of r' = put (challenged_key ip) (RStr (str_int (n + 1))) (Some (clock (store_of (server w)) + 3600))
       (rewrite (challenged_key ip) (RStr (str_int (n + 1))) (store_of (server w)))" by blast
  have "handle_verdict cf E S A request res ip ua path w =
      (Inr (redirect_to (iri_to_uri A (challenge_path @ ''?next='' @ path))), w\<lparr>server := r'\<rparr>)"
    using v p np r'(1) by (simp add: handle_verdict_def)
  moreover have "live (elapse d (store_of r')) (challenged_key ip) = (if d < 3600 then Some (RStr (str_int (n + 1))) else None)"
    unfolding r'(3) by (simp add: live_def elapse_def)
  ultimately show ?thesis using r'(2) by (intro exI [of _ "w\<lparr>server := r'\<rparr>"] exI [of _ n]) simp
qed

theorem challenge_redirects_and_counts_witness:
  "\<exists>w' n. handle_verdict default_conf demo_env demo_site demo_app (visitor []) (plain_result CHALLENGED (Some CHALLENGE))
       ''203.0.113.9'' [] ''/shop/'' challenged_world = (Inr (redirect_to ''/waf/challenge/?next=/shop/''), w') \<and>
     live (elapse 60 (server w')) (challenged_key ''203.0.113.9'') = Some (RStr (str_int 13))"
proof -
  have c: "counter_key (server challenged_world) (challenged_key ''203.0.113.9'')"
    using challenged_world_facts(2) by (simp add: counter_key_def)
  have p: "get_challenge_paths default_conf demo_app = Some (''/waf/challenge/'', ''/waf/verify/'')"
    by (simp add: get_challenge_paths_def default_conf_def demo_app_def)
  have v: "verdict (plain_result CHALLENGED (Some CHALLENGE)) = CHALLENGED" by (simp add: plain_result_def)
  have s: "\<not> startswith ''/shop/'' ''/waf/challenge/''" "\<not> startswith ''/shop/'' ''/waf/verify/''" by (simp_all add: startswith_def)
  from challenge_redirects_and_counts [OF calm_up [OF demo_calm] c v p s, of demo_site "visitor []" "[]" 60] challenged_world_facts(2)
  show ?thesis by (auto simp: demo_app_def)
qed

text \<open>
  Every security decision leaves a trace: when the database works, handling a block,
  challenge, throttle or log verdict appends exactly one row with that verdict, rule and
  response code, with the client-controlled texts cut to their column widths; an allowed or
  passed request is logged exactly when the sampling draw is below the rate.
\<close>

theorem security_decisions_are_logged:
  assumes dbok: "\<And>n. db_ok E n"
  shows "\<exists>row. verdict result = rl_verdict row \<and> matched_rule_id result = rl_matched_rule_id row \<and> rl_response_code row = code \<and>
     length (rl_user_agent row) \<le> 1024 \<and> length (rl_path row) \<le> 2048 \<and> length (rl_referer row) \<le> 2048 \<and>
     RequestLogs (snd (log_request cf E A request result ip ua path code w)) = RequestLogs w @
       (if verdict result \<in> {BLOCKED, CHALLENGED, THROTTLED, LOGGED} \<or> random_draw A < DJANGO_WAF_LOG_SAMPLE_RATE cf then [row] else [])"
proof -
  define row where "row = \<lparr>rl_timestamp = time_now E, rl_ip_address = ip,
       rl_user_agent = take 1024 ua, rl_path = take 2048 path, rl_method = req_method request,
       rl_verdict = verdict result, rl_matched_rule_id = matched_rule_id result,
       rl_matched_rule_type = matched_rule_type result, rl_anomaly_score = anomaly_score result,
       rl_response_code = code, rl_referer = take 2048 (dget (META request) ''HTTP_REFERER'' []),
       rl_http_fingerprint = request_fingerprint E request,
       rl_fingerprint_verdict = request_fingerprint_class request, rl_country_code = lookup_country A ip, rl_source = MIDDLEWARE,
       rl_source_event_id = []\<rparr>"
  have "RequestLogs (snd (create_request_log E request result ip ua path code (lookup_country A ip) w)) = RequestLogs w @ [row]"
    by (simp add: create_request_log_def swallow_state db_always [OF dbok] row_def)
  then show ?thesis by (intro exI [of _ row]) (auto simp: row_def log_request_def not_le)
qed

theorem security_decisions_are_logged_witness:
  "length (RequestLogs (snd (log_request default_conf demo_env demo_app (visitor []) (plain_result BLOCKED (Some BLOCK))
     ''203.0.113.9'' [] ''/shop/'' 403 empty_world))) = 1"
proof -
  have "\<And>n. db_ok demo_env n" by (simp add: demo_env_def)
  from security_decisions_are_logged [OF this, of "plain_result BLOCKED (Some BLOCK)" 403 default_conf demo_app "visitor []"
      "''203.0.113.9''" "[]" "''/shop/''" empty_world] show ?thesis
    by (auto simp: plain_result_def empty_world_def)
qed

end
