(* ===== verification/FormTokens.thy ===== *)
theory FormTokens
  imports Signing World ClientIp
begin

text \<open>
  \<open>forms/services/tokens.py\<close>, \<open>markers.py\<close> and \<open>counters.py\<close>: the signed render token, its
  one-shot marker in Redis and the counters of the throttle defences. A token is a sealed text in
  base64url; signing and the search for the last bar work on the UTF-8 bytes, where they cut and
  compare exactly what the source cuts and compares on the decoded text, because the bar and the
  digits of a signature are ASCII. \<open>secrets.token_hex(16)\<close> is the argument \<open>fresh\<close>.
\<close>

section \<open>Render tokens\<close>

record TokenPayload =
  tp_form_id :: string
  tp_ip :: string
  tp_user_id :: string
  tp_render_time :: rat
  tp_nonce :: string
  tp_ua_hash :: string

definition TokenPayload_encode :: "'r env \<Rightarrow> TokenPayload \<Rightarrow> string" where
  "TokenPayload_encode E p = join BAR [tp_form_id p, tp_ip p, tp_user_id p, isoformat E (tp_render_time p),
     tp_nonce p, tp_ua_hash p]"

definition TokenPayload_decode :: "'r env \<Rightarrow> string \<Rightarrow> py_exc + TokenPayload" where
  "TokenPayload_decode E raw = (case split BAR raw of
      [form_id, ip, user_id, render_time_iso, nonce, ua_hash] \<Rightarrow>
        (case fromisoformat E render_time_iso of
           None \<Rightarrow> Inl ValueError
         | Some render_time \<Rightarrow> Inr \<lparr>tp_form_id = form_id, tp_ip = ip, tp_user_id = user_id,
             tp_render_time = render_time, tp_nonce = nonce, tp_ua_hash = ua_hash\<rparr>)
    | _ \<Rightarrow> Inl ValueError)"

definition hash_user_agent :: "'r env \<Rightarrow> string \<Rightarrow> string" where
  "hash_user_agent E user_agent = sha256 E user_agent"

definition token_sign :: "conf \<Rightarrow> site \<Rightarrow> string \<Rightarrow> string" where
  "token_sign cf S p = hmac_sha256 S (get_signing_key cf S) p"

definition issue_token ::
  "conf \<Rightarrow> 'r env \<Rightarrow> site \<Rightarrow> string \<Rightarrow> string \<Rightarrow> string \<Rightarrow> string \<Rightarrow> string \<Rightarrow> string option \<Rightarrow> rat option \<Rightarrow>
   string \<times> TokenPayload" where
  "issue_token cf E S fresh form_id ip user_id user_agent nonce render_time =
     (let nonce = (case nonce of None \<Rightarrow> fresh | Some n \<Rightarrow> n);
          render_time = (case render_time of None \<Rightarrow> time_now E | Some t \<Rightarrow> t);
          payload = \<lparr>tp_form_id = form_id, tp_ip = ip, tp_user_id = user_id, tp_render_time = render_time,
            tp_nonce = nonce, tp_ua_hash = hash_user_agent E user_agent\<rparr>
      in (b64_token (seal (token_sign cf S) (utf8 (TokenPayload_encode E payload))), payload))"

definition verify_token :: "conf \<Rightarrow> 'r env \<Rightarrow> site \<Rightarrow> string \<Rightarrow> py_exc + TokenPayload" where
  "verify_token cf E S token =
     (if \<not> is_ascii token then Inl ValueError
      else (case urlsafe_b64decode (token @ b64_padding token) of
          None \<Rightarrow> Inl ValueError
        | Some raw \<Rightarrow>
            if \<not> utf8_valid raw then Inl ValueError
            else (case unseal (token_sign cf S) raw of
                Inl e \<Rightarrow> Inl e
              | Inr payload_str \<Rightarrow> TokenPayload_decode E (utf8_text payload_str))))"

section \<open>Markers\<close>

definition marker_key :: "string \<Rightarrow> string" where
  "marker_key nonce = ''waf:form:token:'' @ nonce"

definition issue_marker :: "'r redis \<Rightarrow> string \<Rightarrow> int \<Rightarrow> ('r, unit) py" where
  "issue_marker C nonce ttl_seconds = r_exec C (SETEX (marker_key nonce) ttl_seconds ''1'')"

definition marker_exists :: "'r redis \<Rightarrow> string \<Rightarrow> ('r, bool) py" where
  "marker_exists C nonce = andThen (r_int C (EXISTS (marker_key nonce))) (\<lambda>n. ret (n \<noteq> 0))"

definition consume_marker :: "'r redis \<Rightarrow> string \<Rightarrow> ('r, unit) py" where
  "consume_marker C nonce = r_exec C (DEL (marker_key nonce))"

text \<open>The default client factory: a call on \<open>None\<close> raises.\<close>

definition with_client :: "'r env \<Rightarrow> ('r redis \<Rightarrow> ('r, 'a) py) \<Rightarrow> ('r world, 'a) py" where
  "with_client E f = (case get_redis_client E of None \<Rightarrow> raise AttributeError | Some C \<Rightarrow> on_redis (f C))"

section \<open>Counters\<close>

definition hash_identifier :: "'r env \<Rightarrow> string \<Rightarrow> string" where
  "hash_identifier E identifier = sha256 E identifier"

definition cred_account_key :: "'r env \<Rightarrow> string \<Rightarrow> string" where
  "cred_account_key E identifier = ''waf:form:cred_fail:account:'' @ hash_identifier E identifier"

definition cred_ip_key :: "string \<Rightarrow> string" where
  "cred_ip_key ip = ''waf:form:cred_fail:ip:'' @ ip"

definition signup_ip_key :: "string \<Rightarrow> string" where
  "signup_ip_key ip = ''waf:form:signup:'' @ ip"

text \<open>\<open>int(results[i])\<close> of the replies of a pipeline.\<close>

definition reply_int :: "redis_reply \<Rightarrow> ('w, int) py" where
  "reply_int rep = (case rep of
      IntR n \<Rightarrow> ret n
    | BulkR s \<Rightarrow> (case int_text s of None \<Rightarrow> raise ValueError | Some n \<Rightarrow> ret n)
    | _ \<Rightarrow> raise TypeError)"

definition pipeline :: "'r redis \<Rightarrow> redis_cmd list \<Rightarrow> ('r, redis_reply list) py" where
  "pipeline C cs r = C cs r"

definition record_credential_failure ::
  "'r env \<Rightarrow> 'r redis \<Rightarrow> string \<Rightarrow> string \<Rightarrow> int \<Rightarrow> ('r, int \<times> int) py" where
  "record_credential_failure E C identifier ip window_seconds =
     (if identifier = [] \<or> ip = [] then ret (0, 0)
      else (let account_key = cred_account_key E identifier; ip_key = cred_ip_key ip in
        try_except
          (andThen (pipeline C [INCR account_key, EXPIRE account_key window_seconds, INCR ip_key, EXPIRE ip_key window_seconds])
             (\<lambda>results.
                if 3 \<le> length results
                then andThen (reply_int (results ! 0)) (\<lambda>account_count.
                     andThen (reply_int (results ! 2)) (\<lambda>ip_count. ret (account_count, ip_count)))
                else ret (0, 0)))
          (\<lambda>_. ret (0, 0))))"

definition read_counter :: "'r redis \<Rightarrow> string \<Rightarrow> ('r, int) py" where
  "read_counter C key = try_except
     (andThen (r_get C key) (\<lambda>raw. case raw of
         None \<Rightarrow> ret 0
       | Some s \<Rightarrow> (case int_text s of None \<Rightarrow> raise ValueError | Some n \<Rightarrow> ret n)))
     (\<lambda>_. ret 0)"

definition credential_ip_count :: "'r redis \<Rightarrow> string \<Rightarrow> ('r, int) py" where
  "credential_ip_count C ip = (if ip = [] then ret 0 else read_counter C (cred_ip_key ip))"

definition credential_account_count :: "'r env \<Rightarrow> 'r redis \<Rightarrow> string \<Rightarrow> ('r, int) py" where
  "credential_account_count E C identifier =
     (if identifier = [] then ret 0 else read_counter C (cred_account_key E identifier))"

definition record_signup :: "'r redis \<Rightarrow> string \<Rightarrow> int \<Rightarrow> ('r, int) py" where
  "record_signup C ip window_seconds =
     (if ip = [] then ret 0
      else try_except
        (andThen (pipeline C [INCR (signup_ip_key ip), EXPIRE (signup_ip_key ip) window_seconds])
           (\<lambda>results. case results of [] \<Rightarrow> ret 0 | rep # _ \<Rightarrow> reply_int rep))
        (\<lambda>_. ret 0))"

definition signup_count :: "'r redis \<Rightarrow> string \<Rightarrow> ('r, int) py" where
  "signup_count C ip = (if ip = [] then ret 0 else read_counter C (signup_ip_key ip))"

section \<open>The format\<close>

text \<open>A payload none of whose fields contains the delimiter.\<close>

definition payload_ok :: "'r env \<Rightarrow> TokenPayload \<Rightarrow> bool" where
  "payload_ok E p = list_all (\<lambda>f. BAR \<notin> set f)
     [tp_form_id p, tp_ip p, tp_user_id p, isoformat E (tp_render_time p), tp_nonce p, tp_ua_hash p]"

definition as_option :: "'e + 'a \<Rightarrow> 'a option" where
  "as_option x = (case x of Inl _ \<Rightarrow> None | Inr y \<Rightarrow> Some y)"

lemma as_option_Inr: "as_option x = Some y \<longleftrightarrow> x = Inr y"
  by (cases x) (simp_all add: as_option_def)

text \<open>What the token format relies on: signatures are hexadecimal text, and \<open>fromisoformat\<close> reads
  back what \<open>isoformat\<close> wrote.\<close>

locale token_format =
  fixes cf :: conf and E :: "'r env" and S :: site
  assumes signer: "hex_signer (token_sign cf S)"
    and times: "codec (\<lambda>_. True) (isoformat E) (fromisoformat E)"
begin

lemma fromisoformat_isoformat [simp]: "fromisoformat E (isoformat E t) = Some t"
  using codec.dec_enc [OF times] by simp

lemma decode_encode: "payload_ok E p \<Longrightarrow> TokenPayload_decode E (TokenPayload_encode E p) = Inr p"
proof -
  let ?fs = "[tp_form_id p, tp_ip p, tp_user_id p, isoformat E (tp_render_time p), tp_nonce p, tp_ua_hash p]"
  assume "payload_ok E p"
  then have "split BAR (join BAR ?fs) = ?fs" by (intro split_join) (auto simp: payload_ok_def)
  then show ?thesis by (simp only: TokenPayload_decode_def TokenPayload_encode_def list.case fromisoformat_isoformat option.case) simp
qed

lemma utf8_seal: "utf8_valid (seal (token_sign cf S) (utf8 x))"
proof -
  have "ord c < 128" if "c \<in> set (token_sign cf S (utf8 x))" for c
    using hex_signer.ascii_output [OF signer, of "utf8 x"] that by (simp add: is_ascii_def list_all_iff)
  then have "utf8 (token_sign cf S (utf8 x)) = token_sign cf S (utf8 x)" by (intro utf8_ascii_text) auto
  moreover have "ord BAR < 128" by (simp add: BAR_def ord_def)
  ultimately have "seal (token_sign cf S) (utf8 x) = utf8 (x @ BAR # token_sign cf S (utf8 x))"
    by (simp add: seal_def utf8_ascii)
  then show ?thesis by (metis utf8_valid_utf8)
qed

lemma verify_sealed:
  "verify_token cf E S (b64_token (seal (token_sign cf S) (utf8 x))) = TokenPayload_decode E x"
proof -
  have "is_ascii (b64_token bs)" for bs using b64_token_ascii by (simp add: is_ascii_def list_all_iff)
  then show ?thesis
    by (simp add: verify_token_def b64_round_trip utf8_seal hex_signer.unseal_seal [OF signer])
qed

text \<open>A token is accepted exactly when it decodes to well-formed bytes that carry the signature
  of the payload they name.\<close>

lemma verify_iff:
  "verify_token cf E S token = Inr p \<longleftrightarrow> is_ascii token \<and> (\<exists>q.
     urlsafe_b64decode (token @ b64_padding token) = Some (seal (token_sign cf S) q) \<and>
     utf8_valid (seal (token_sign cf S) q) \<and> TokenPayload_decode E (utf8_text q) = Inr p)"
proof (cases "urlsafe_b64decode (token @ b64_padding token)")
  case None
  then show ?thesis by (simp add: verify_token_def)
next
  case (Some raw)
  have "verify_token cf E S token = Inr p \<longleftrightarrow> is_ascii token \<and> utf8_valid raw \<and>
      (\<exists>q. unseal (token_sign cf S) raw = Inr q \<and> TokenPayload_decode E (utf8_text q) = Inr p)"
    using Some by (simp add: verify_token_def split: sum.split)
  also have "\<dots> \<longleftrightarrow> is_ascii token \<and> (\<exists>q. raw = seal (token_sign cf S) q \<and> utf8_valid raw \<and>
      TokenPayload_decode E (utf8_text q) = Inr p)"
    unfolding hex_signer.unseal_iff [OF signer] by blast
  finally show ?thesis using Some by auto
qed

lemma decode_raises: "TokenPayload_decode E x = Inl e \<Longrightarrow> e = ValueError"
  by (auto simp: TokenPayload_decode_def split: list.splits option.splits)

lemma verify_raises_TypeError_iff:
  "verify_token cf E S token = Inl TypeError \<longleftrightarrow> is_ascii token \<and> (\<exists>raw q s.
     urlsafe_b64decode (token @ b64_padding token) = Some raw \<and> utf8_valid raw \<and>
     rcut BAR raw = Some (q, s) \<and> \<not> is_ascii s)"
proof (cases "urlsafe_b64decode (token @ b64_padding token)")
  case None
  then show ?thesis by (simp add: verify_token_def)
next
  case (Some raw)
  have "TokenPayload_decode E x \<noteq> Inl TypeError" for x using decode_raises by force
  with Some hex_signer.unseal_raises_TypeError_iff [OF signer, of raw] show ?thesis
    by (auto simp: verify_token_def split: sum.splits)
qed

lemma verify_raises: "verify_token cf E S token = Inl e \<Longrightarrow> e = ValueError \<or> e = TypeError"
  using decode_raises by (auto simp: verify_token_def unseal_def compare_digest_def
      split: if_splits option.splits sum.splits)

end

sublocale token_format \<subseteq> payloads: codec "payload_ok E" "TokenPayload_encode E" "\<lambda>x. as_option (TokenPayload_decode E x)"
  by unfold_locales (simp add: as_option_Inr decode_encode)

interpretation demo_tokens: token_format cf demo_env demo_site for cf
  by unfold_locales (auto simp: token_sign_def demo_env_def intro: demo_hmac.hex_output demo_time.dec_enc)

end
