(* ===== verification/FormReplay.thy ===== *)
theory FormReplay
  imports FormTokens PyRegex
begin

text \<open>
  \<open>forms/services/replay.py\<close>: what a flagged submission leaves in the session and the signed
  reference to it. The session is the value of \<open>request.session\<close>, \<open>None\<close> when sessions are not
  installed; the random session key is an argument. Submitted data are scalarised before they
  get here, so values are strings.
\<close>

section \<open>Sensitive fields\<close>

definition SENSITIVE_FIELD_RE :: re where
  "SENSITIVE_FIELD_RE = alts [
     Seq (ci_lit ''pass'') (opt (alts [ci_lit ''word'', ci_lit ''wd''])),
     ci_lit ''secret'',
     seqs [ci_lit ''api'', opt (one_of ''_-''), ci_lit ''key''],
     ci_lit ''csrf'',
     ci_lit ''token'']"

definition is_sensitive_field :: "string \<Rightarrow> bool" where
  "is_sensitive_field name = re_search SENSITIVE_FIELD_RE name"

definition filter_sensitive_fields :: "strdict \<Rightarrow> strdict" where
  "filter_sensitive_fields form_data = filter (\<lambda>(k, _). \<not> is_sensitive_field k) form_data"

section \<open>Replay tokens\<close>

definition REPLAY_TTL_SECONDS :: int where
  "REPLAY_TTL_SECONDS = 60"

definition issue_replay_token :: "conf \<Rightarrow> site \<Rightarrow> rat \<Rightarrow> string \<Rightarrow> string \<Rightarrow> string \<Rightarrow> string" where
  "issue_replay_token cf S now form_id ip session_key =
     (let expires_at = \<lfloor>now\<rfloor> + REPLAY_TTL_SECONDS
      in b64_token (seal (token_sign cf S) (utf8 (join BAR [form_id, ip, session_key, str_int expires_at]))))"

text \<open>The result is the pair of form id and session key.\<close>

definition verify_replay_token ::
  "conf \<Rightarrow> site \<Rightarrow> rat \<Rightarrow> string \<Rightarrow> string \<Rightarrow> py_exc + (string \<times> string) option" where
  "verify_replay_token cf S now token current_ip =
     (if token = [] then Inr None
      else if \<not> is_ascii token then Inr None
      else (case urlsafe_b64decode (token @ b64_padding token) of
          None \<Rightarrow> Inr None
        | Some raw \<Rightarrow> (case rcut BAR raw of
              None \<Rightarrow> Inr None
            | Some (payload, sig) \<Rightarrow> (case compare_digest (token_sign cf S payload) sig of
                  Inl e \<Rightarrow> Inl e
                | Inr False \<Rightarrow> Inr None
                | Inr True \<Rightarrow>
                    if \<not> utf8_valid payload then Inr None
                    else (case split BAR (utf8_text payload) of
                        [form_id, ip, session_key, expires_at_str] \<Rightarrow> (case int_text expires_at_str of
                            None \<Rightarrow> Inr None
                          | Some expires_at \<Rightarrow>
                              if expires_at < \<lfloor>now\<rfloor> then Inr None
                              else if ip \<noteq> current_ip then Inr None
                              else Inr (Some (form_id, session_key)))
                      | _ \<Rightarrow> Inr None)))))"

section \<open>Session storage\<close>

record replay_record =
  rr_form_id :: string
  rr_post_url :: string
  rr_data :: strdict
  rr_stored_at :: int

datatype stash_value = Stash "(string \<times> replay_record) list" | Not_a_dict

record session =
  waf_form_replay :: "stash_value option"
  session_modified :: bool

definition dict_set :: "'k \<Rightarrow> 'v \<Rightarrow> ('k \<times> 'v) list \<Rightarrow> ('k \<times> 'v) list" where
  "dict_set k v d = (if k \<in> fst ` set d then map (\<lambda>(j, w). if j = k then (j, v) else (j, w)) d else d @ [(k, v)])"

definition current_stash :: "session \<Rightarrow> (string \<times> replay_record) list" where
  "current_stash s = (case waf_form_replay s of Some (Stash d) \<Rightarrow> d | _ \<Rightarrow> [])"

text \<open>At most five records are kept, the oldest go first.\<close>

definition cap_stash :: "(string \<times> replay_record) list \<Rightarrow> (string \<times> replay_record) list" where
  "cap_stash stash = (if 5 < length stash
     then (let oldest = sort_key (\<lambda>kv. rr_stored_at (snd kv)) stash;
               old_keys = map fst (take (length oldest - 5) oldest)
           in filter (\<lambda>kv. fst kv \<notin> set old_keys) stash)
     else stash)"

definition store_in_session ::
  "rat \<Rightarrow> string \<Rightarrow> session option \<Rightarrow> string \<Rightarrow> string \<Rightarrow> strdict \<Rightarrow> string option \<times> session option" where
  "store_in_session now key session form_id post_url form_data = (case session of
      None \<Rightarrow> (None, None)
    | Some s \<Rightarrow>
        (let stash = dict_set key \<lparr>rr_form_id = form_id, rr_post_url = post_url,
               rr_data = filter_sensitive_fields form_data, rr_stored_at = \<lfloor>now\<rfloor>\<rparr> (current_stash s)
         in (Some key, Some (s\<lparr>waf_form_replay := Some (Stash (cap_stash stash)), session_modified := True\<rparr>))))"

definition fetch_from_session :: "rat \<Rightarrow> session option \<Rightarrow> string \<Rightarrow> replay_record option" where
  "fetch_from_session now session session_key = (case session of
      None \<Rightarrow> None
    | Some s \<Rightarrow> (case map_of (current_stash s) session_key of
          None \<Rightarrow> None
        | Some record \<Rightarrow>
            if REPLAY_TTL_SECONDS + 60 < \<lfloor>now\<rfloor> - rr_stored_at record then None else Some record))"

definition discard_from_session :: "session option \<Rightarrow> string \<Rightarrow> session option" where
  "discard_from_session session session_key = (case session of
      None \<Rightarrow> None
    | Some s \<Rightarrow> (case waf_form_replay s of
          Some (Stash d) \<Rightarrow>
            if session_key \<in> fst ` set d
            then Some (s\<lparr>waf_form_replay := Some (Stash (filter (\<lambda>kv. fst kv \<noteq> session_key) d)), session_modified := True\<rparr>)
            else Some s
        | _ \<Rightarrow> Some s))"

section \<open>Sensitive field names\<close>

lemma re_search_opt: "re_search (Seq r (opt q)) s \<longleftrightarrow> re_search r s"
proof
  assume "re_search (Seq r (opt q)) s"
  then obtain u a b w where "s = u @ (a @ b) @ w" "a \<in> lang r" by (auto simp: re_search_iff)
  then show "re_search r s" unfolding re_search_iff by (metis append.assoc)
next
  assume "re_search r s"
  then obtain u v w where s: "s = u @ v @ w" "v \<in> lang r" by (auto simp: re_search_iff)
  then have "v @ [] \<in> lang (Seq r (opt q))" unfolding lang.simps opt_def by blast
  with s(1) show "re_search (Seq r (opt q)) s" unfolding re_search_iff by (metis append_Nil2)
qed

text \<open>The pattern without its redundant part: a name is sensitive when it contains one of seven
  words.\<close>

definition SENSITIVE_WORDS :: "string list" where
  "SENSITIVE_WORDS = [''pass'', ''secret'', ''apikey'', ''api_key'', ''api-key'', ''csrf'', ''token'']"

lemma lower_char_eq:
  assumes "ord c < 128" and "\<not> (65 \<le> ord c \<and> ord c \<le> 90)" and "\<not> (97 \<le> ord c \<and> ord c \<le> 122)"
  shows "lower_char u = c \<longleftrightarrow> u = c"
proof
  assume "lower_char u = c"
  with assms ord_lower_char [of u] have "ord u = ord c" by (auto split: if_splits)
  then show "u = c" by (simp add: ord_inject)
next
  assume "u = c"
  with assms ord_lower_char [of u] have "ord (lower_char u) = ord c" by auto
  then show "lower_char u = c" by (simp add: ord_inject)
qed

lemma lower_separator: "lower b = ''_'' \<longleftrightarrow> b = ''_''" "lower b = ''-'' \<longleftrightarrow> b = ''-''"
proof -
  have "lower_char u = CHR ''_'' \<longleftrightarrow> u = CHR ''_''" "lower_char u = CHR ''-'' \<longleftrightarrow> u = CHR ''-''" for u
    by (rule lower_char_eq; simp add: ord_def)+
  then show "lower b = ''_'' \<longleftrightarrow> b = ''_''" "lower b = ''-'' \<longleftrightarrow> b = ''-''"
    unfolding lower_def by (cases b rule: list.exhaust; simp)+
qed

lemma lower_words: "lower ''api'' = ''api''" "lower ''key'' = ''key''" "lower ''pass'' = ''pass''"
  "lower ''secret'' = ''secret''" "lower ''csrf'' = ''csrf''" "lower ''token'' = ''token''"
  by code_simp+

text \<open>A text whose lower case is a concatenation splits accordingly.\<close>

lemma lower_append_conv: "lower v = x @ y \<longleftrightarrow> (\<exists>a b. v = a @ b \<and> lower a = x \<and> lower b = y)"
  by (auto simp: lower_def map_eq_append_conv)

lemma lower_append_conv3: "lower v = x @ y @ z \<longleftrightarrow> (\<exists>a b c. v = a @ b @ c \<and> lower a = x \<and> lower b = y \<and> lower c = z)"
  unfolding lower_append_conv by blast

lemma contains_sub_lower: "contains_sub x (lower s) \<longleftrightarrow> (\<exists>u v w. s = u @ v @ w \<and> lower v = x)"
proof -
  have "contains_sub x (lower s) \<longleftrightarrow> (\<exists>u w. lower s = u @ x @ w)" by (rule contains_sub_iff)
  also have "\<dots> \<longleftrightarrow> (\<exists>u v w. s = u @ v @ w \<and> lower v = x)" unfolding lower_append_conv by blast
  finally show ?thesis .
qed

lemma lang_Seq3: "v \<in> lang (Seq p (Seq q r)) \<longleftrightarrow> (\<exists>a b c. v = a @ b @ c \<and> a \<in> lang p \<and> b \<in> lang q \<and> c \<in> lang r)"
  by auto

lemma api_key_lang: "v \<in> lang (seqs [ci_lit ''api'', opt (one_of ''_-''), ci_lit ''key'']) \<longleftrightarrow>
   lower v = ''api'' @ ''key'' \<or> lower v = ''api'' @ ''_'' @ ''key'' \<or> lower v = ''api'' @ ''-'' @ ''key''"
proof -
  have o: "b \<in> lang (opt (one_of ''_-'')) \<longleftrightarrow> lower b = [] \<or> lower b = ''_'' \<or> lower b = ''-''" for b
    unfolding lower_separator lower_Nil_iff by (auto simp: opt_def one_of_def)
  have "v \<in> lang (seqs [ci_lit ''api'', opt (one_of ''_-''), ci_lit ''key'']) \<longleftrightarrow>
      (\<exists>a b c. v = a @ b @ c \<and> lower a = ''api'' \<and> (lower b = [] \<or> lower b = ''_'' \<or> lower b = ''-'') \<and> lower c = ''key'')"
    unfolding seqs.simps lang_Seq3 ci_lit_iff lower_words o ..
  also have "\<dots> \<longleftrightarrow> lower v = ''api'' @ [] @ ''key'' \<or> lower v = ''api'' @ ''_'' @ ''key'' \<or> lower v = ''api'' @ ''-'' @ ''key''"
    by (simp only: lower_append_conv3 conj_disj_distribL conj_disj_distribR ex_disj_distrib)
  finally show ?thesis by (simp only: append_Nil)
qed

lemma api_key_search: "re_search (seqs [ci_lit ''api'', opt (one_of ''_-''), ci_lit ''key'']) s \<longleftrightarrow>
   contains_sub (''api'' @ ''key'') (lower s) \<or> contains_sub (''api'' @ ''_'' @ ''key'') (lower s) \<or>
   contains_sub (''api'' @ ''-'' @ ''key'') (lower s)"
  unfolding re_search_iff api_key_lang contains_sub_lower by blast

text \<open>The whole pattern is a search for one of seven words, whatever their case.\<close>

lemma is_sensitive_field_iff: "is_sensitive_field name \<longleftrightarrow> (\<exists>w \<in> set SENSITIVE_WORDS. contains_sub w (lower name))"
proof -
  have "is_sensitive_field name \<longleftrightarrow> contains_sub ''pass'' (lower name) \<or> contains_sub ''secret'' (lower name) \<or>
      (contains_sub (''api'' @ ''key'') (lower name) \<or> contains_sub (''api'' @ ''_'' @ ''key'') (lower name) \<or>
       contains_sub (''api'' @ ''-'' @ ''key'') (lower name)) \<or>
      contains_sub ''csrf'' (lower name) \<or> contains_sub ''token'' (lower name)"
    unfolding is_sensitive_field_def SENSITIVE_FIELD_RE_def re_search_alts list.set ball_simps bex_simps
      re_search_opt re_search_ci_lit api_key_search lower_words by simp
  then show ?thesis by (auto simp: SENSITIVE_WORDS_def)
qed

section \<open>The stash\<close>

lemma map_of_filter_keys: "map_of (filter (\<lambda>kv. fst kv \<notin> K) d) k = (if k \<in> K then None else map_of d k)"
  by (induction d) auto

lemma insort_snoc: "f y \<le> f x \<Longrightarrow> insort_key f y (ys @ [x]) = insort_key f y ys @ [x]"
  by (induction ys) auto

lemma sort_key_snoc: "(\<And>y. y \<in> set ys \<Longrightarrow> f y \<le> f x) \<Longrightarrow> sort_key f (ys @ [x]) = sort_key f ys @ [x]"
  by (induction ys) (auto simp: insort_snoc)

lemma dict_set_new: "k \<notin> fst ` set d \<Longrightarrow> dict_set k v d = d @ [(k, v)]"
  by (simp add: dict_set_def)

lemma dict_set_keys: "map fst (dict_set k v d) = (if k \<in> fst ` set d then map fst d else map fst d @ [k])"
  by (auto simp: dict_set_def comp_def split: prod.splits)

lemma dict_set_values: "kv \<in> set (dict_set k v d) \<Longrightarrow> kv = (k, v) \<or> kv \<in> set d"
  by (auto simp: dict_set_def split: if_splits)

lemma map_of_dict_set: "map_of (dict_set k v d) k = Some v"
proof (cases "k \<in> fst ` set d")
  case True
  moreover have "k \<in> fst ` set d \<Longrightarrow> map_of (map (\<lambda>(j, w). if j = k then (j, v) else (j, w)) d) k = Some v"
    by (induction d) auto
  ultimately show ?thesis by (simp add: dict_set_def)
next
  case False
  then have "map_of d k = None" by (simp add: map_of_eq_None_iff)
  with False show ?thesis by (simp add: dict_set_new map_add_def)
qed

lemma cap_stash_subset: "set (cap_stash d) \<subseteq> set d"
  by (auto simp: cap_stash_def Let_def)

lemma cap_stash_distinct: "distinct (map fst d) \<Longrightarrow> distinct (map fst (cap_stash d))"
  by (simp add: cap_stash_def Let_def distinct_map_filter)

lemma cap_stash_length:
  assumes "distinct (map fst d)"
  shows "length (cap_stash d) \<le> 5"
proof (cases "5 < length d")
  case True
  let ?s = "sort_key (\<lambda>kv. rr_stored_at (snd kv)) d"
  let ?K = "fst ` set (take (length ?s - 5) ?s)"
  have ks: "distinct (map fst ?s)" using assms by (metis distinct_map distinct_sort set_sort)
  have c: "map fst (cap_stash d) = filter (\<lambda>k. k \<notin> ?K) (map fst d)"
    using True by (simp add: cap_stash_def Let_def filter_map comp_def)
  have "set (map fst (cap_stash d)) \<subseteq> fst ` set (drop (length ?s - 5) ?s)"
  proof
    fix k assume k: "k \<in> set (map fst (cap_stash d))"
    have "fst ` set d = ?K \<union> fst ` set (drop (length ?s - 5) ?s)"
      by (metis append_take_drop_id image_Un set_append set_sort)
    with k c show "k \<in> fst ` set (drop (length ?s - 5) ?s)" by auto
  qed
  then have "card (set (map fst (cap_stash d))) \<le> card (fst ` set (drop (length ?s - 5) ?s))"
    by (intro card_mono) simp_all
  also have "\<dots> \<le> card (set (drop (length ?s - 5) ?s))" by (rule card_image_le) simp
  also have "\<dots> \<le> 5" using card_length [of "drop (length ?s - 5) ?s"] by simp
  finally show ?thesis using distinct_card [OF cap_stash_distinct [OF assms]] by simp
qed (simp add: cap_stash_def)

text \<open>The record just stored is not the one that is evicted.\<close>

lemma cap_stash_newest:
  assumes "k \<notin> fst ` set d" and "\<And>kv. kv \<in> set d \<Longrightarrow> rr_stored_at (snd kv) \<le> rr_stored_at v"
  shows "map_of (cap_stash (d @ [(k, v)])) k = Some v"
proof -
  have v: "map_of (d @ [(k, v)]) k = Some v" using map_of_dict_set [of k v d] assms(1) by (simp add: dict_set_new)
  show ?thesis
  proof (cases "5 < length (d @ [(k, v)])")
    case True
    let ?f = "\<lambda>kv. rr_stored_at (snd kv)"
    have s: "sort_key ?f (d @ [(k, v)]) = sort_key ?f d @ [(k, v)]" using assms(2) by (intro sort_key_snoc) simp
    have K: "k \<notin> fst ` set (take (length d - 4) (sort_key ?f d))"
      using assms(1) set_take_subset [of "length d - 4" "sort_key ?f d"] by auto
    then have "cap_stash (d @ [(k, v)]) = filter (\<lambda>kv. fst kv \<notin> fst ` set (take (length d - 4) (sort_key ?f d))) (d @ [(k, v)])"
      using True unfolding cap_stash_def s Let_def by simp
    then show ?thesis by (simp only: map_of_filter_keys v K if_False)
  qed (use v in \<open>simp add: cap_stash_def\<close>)
qed

text \<open>The sessions the package can produce from one without replay data.\<close>

inductive session_reachable :: "session option \<Rightarrow> bool" where
  start: "current_stash s = [] \<Longrightarrow> session_reachable (Some s)"
| stored: "session_reachable s \<Longrightarrow> session_reachable (snd (store_in_session now key s form_id post_url form_data))"
| discarded: "session_reachable s \<Longrightarrow> session_reachable (discard_from_session s key)"

definition names_no_secret :: "replay_record \<Rightarrow> bool" where
  "names_no_secret r = list_all (\<lambda>f. \<not> is_sensitive_field (fst f)) (rr_data r)"

definition stash_ok :: "(string \<times> replay_record) list \<Rightarrow> bool" where
  "stash_ok d = (distinct (map fst d) \<and> length d \<le> 5 \<and> list_all (\<lambda>kv. names_no_secret (snd kv)) d)"

lemma filtered_names_no_secret: "rr_data r = filter_sensitive_fields form_data \<Longrightarrow> names_no_secret r"
  by (auto simp: names_no_secret_def filter_sensitive_fields_def list_all_iff)

lemma store_stash:
  "snd (store_in_session now key (Some s) form_id post_url form_data) = Some s' \<Longrightarrow> current_stash s' =
     cap_stash (dict_set key \<lparr>rr_form_id = form_id, rr_post_url = post_url, rr_data = filter_sensitive_fields form_data,
       rr_stored_at = \<lfloor>now\<rfloor>\<rparr> (current_stash s))"
  by (auto simp: store_in_session_def current_stash_def Let_def)

lemma store_stash_ok:
  assumes "stash_ok (current_stash s)" and "snd (store_in_session now key (Some s) form_id post_url form_data) = Some s'"
  shows "stash_ok (current_stash s')"
proof -
  let ?v = "\<lparr>rr_form_id = form_id, rr_post_url = post_url, rr_data = filter_sensitive_fields form_data, rr_stored_at = \<lfloor>now\<rfloor>\<rparr>"
  let ?d = "dict_set key ?v (current_stash s)"
  have d: "distinct (map fst ?d)" using assms(1) by (auto simp: stash_ok_def dict_set_keys)
  have "names_no_secret (snd kv)" if "kv \<in> set ?d" for kv
    using dict_set_values [OF that] assms(1) filtered_names_no_secret [of ?v form_data]
    by (auto simp: stash_ok_def list_all_iff)
  then have "list_all (\<lambda>kv. names_no_secret (snd kv)) (cap_stash ?d)"
    using cap_stash_subset [of ?d] by (auto simp: list_all_iff)
  then show ?thesis unfolding store_stash [OF assms(2)]
    by (simp add: stash_ok_def cap_stash_length [OF d] cap_stash_distinct [OF d])
qed

lemma discard_stash_ok:
  assumes "stash_ok (current_stash s)" and "discard_from_session (Some s) key = Some s'"
  shows "stash_ok (current_stash s')"
  using assms by (auto simp: discard_from_session_def current_stash_def stash_ok_def distinct_map_filter list_all_iff
      split: option.splits stash_value.splits if_splits intro: le_trans [OF length_filter_le])

lemma reachable_stash_ok: "session_reachable x \<Longrightarrow> (case x of None \<Rightarrow> True | Some s \<Rightarrow> stash_ok (current_stash s))"
proof (induction rule: session_reachable.induct)
  case (start s)
  then show ?case by (simp add: stash_ok_def)
next
  case (stored s now key form_id post_url form_data)
  show ?case
  proof (cases s)
    case None
    then show ?thesis by (simp add: store_in_session_def)
  next
    case (Some t)
    then obtain t' where t': "snd (store_in_session now key (Some t) form_id post_url form_data) = Some t'"
      by (simp add: store_in_session_def Let_def)
    with store_stash_ok [OF _ t'] stored.IH Some show ?thesis by simp
  qed
next
  case (discarded s key)
  show ?case
  proof (cases s)
    case None
    then show ?thesis by (simp add: discard_from_session_def)
  next
    case (Some t)
    have "discard_from_session (Some t) key \<noteq> None"
      by (simp add: discard_from_session_def split: option.split stash_value.split)
    then obtain t' where t': "discard_from_session (Some t) key = Some t'" by blast
    with discard_stash_ok [OF _ t'] discarded.IH Some show ?thesis by simp
  qed
qed

text \<open>
  C15. Submitted data parked in a session stay small and never hold a secret: whatever sequence of
  stores and discards the package performs on a session that had no replay data, at most five
  records are outstanding, and no field name in any of them contains "pass", "secret", "token",
  "csrf" or a spelling of "api key", in whatever case.
\<close>

theorem replay_session_safe:
  assumes "session_reachable (Some s)"
  shows "length (current_stash s) \<le> 5 \<and>
    (\<forall>(k, r) \<in> set (current_stash s). \<forall>(name, _) \<in> set (rr_data r). \<forall>w \<in> set SENSITIVE_WORDS. \<not> contains_sub w (lower name))"
  using reachable_stash_ok [OF assms]
  by (auto simp: stash_ok_def list_all_iff names_no_secret_def is_sensitive_field_iff split_beta)

definition demo_session :: session where
  "demo_session = \<lparr>waf_form_replay = None, session_modified = False\<rparr>"

theorem replay_session_safe_witness:
  "\<exists>s. snd (store_in_session 1000 ''k1'' (Some demo_session) ''f'' ''/f/'' [(''name'', ''a''), (''Password1'', ''b'')]) = Some s \<and>
     length (current_stash s) \<le> 5 \<and>
     (\<forall>(k, r) \<in> set (current_stash s). \<forall>(name, _) \<in> set (rr_data r). \<forall>w \<in> set SENSITIVE_WORDS. \<not> contains_sub w (lower name))"
proof -
  obtain s where s: "snd (store_in_session 1000 ''k1'' (Some demo_session) ''f'' ''/f/'' [(''name'', ''a''), (''Password1'', ''b'')]) = Some s"
    by (simp add: store_in_session_def Let_def)
  have "session_reachable (Some demo_session)" by (rule session_reachable.start) (simp add: demo_session_def current_stash_def)
  from session_reachable.stored [OF this, of 1000 "''k1''" "''f''" "''/f/''" "[(''name'', ''a''), (''Password1'', ''b'')]"]
  have "session_reachable (Some s)" unfolding s .
  from replay_session_safe [OF this] s show ?thesis by blast
qed

lemma fetch_stored:
  assumes "session_reachable (Some s)" and "key \<notin> fst ` set (current_stash s)"
    and "\<forall>kv \<in> set (current_stash s). rr_stored_at (snd kv) \<le> \<lfloor>now\<rfloor>" and "\<lfloor>now2\<rfloor> \<le> \<lfloor>now\<rfloor> + 120"
  shows "fetch_from_session now2 (snd (store_in_session now key (Some s) form_id post_url form_data)) key =
     Some \<lparr>rr_form_id = form_id, rr_post_url = post_url, rr_data = filter_sensitive_fields form_data, rr_stored_at = \<lfloor>now\<rfloor>\<rparr>"
proof -
  let ?v = "\<lparr>rr_form_id = form_id, rr_post_url = post_url, rr_data = filter_sensitive_fields form_data, rr_stored_at = \<lfloor>now\<rfloor>\<rparr>"
  obtain s' where s': "snd (store_in_session now key (Some s) form_id post_url form_data) = Some s'"
    by (simp add: store_in_session_def Let_def)
  have "map_of (current_stash s') key = Some ?v"
    unfolding store_stash [OF s'] dict_set_new [OF assms(2)] by (rule cap_stash_newest) (use assms(2,3) in auto)
  then show ?thesis using assms(4) unfolding s' by (simp add: fetch_from_session_def REPLAY_TTL_SECONDS_def)
qed

text \<open>
  What a flagged submission leaves behind can be picked up: the record stored under a fresh key
  is found again under that key for two minutes, with every field whose name is not sensitive,
  however many records the session already held.
\<close>

theorem stored_submission_found:
  assumes "session_reachable (Some s)" and "key \<notin> fst ` set (current_stash s)"
    and "\<forall>kv \<in> set (current_stash s). rr_stored_at (snd kv) \<le> \<lfloor>now\<rfloor>" and "\<lfloor>now2\<rfloor> \<le> \<lfloor>now\<rfloor> + 120"
  shows "fetch_from_session now2 (snd (store_in_session now key (Some s) form_id post_url form_data)) key =
     Some \<lparr>rr_form_id = form_id, rr_post_url = post_url, rr_data = filter_sensitive_fields form_data, rr_stored_at = \<lfloor>now\<rfloor>\<rparr>"
  using fetch_stored [OF assms] .

theorem stored_submission_found_witness:
  "fetch_from_session 1060 (snd (store_in_session 1000 ''k1'' (Some demo_session) ''f'' ''/f/'' [(''name'', ''a''), (''waf_token'', ''b'')])) ''k1'' =
     Some \<lparr>rr_form_id = ''f'', rr_post_url = ''/f/'', rr_data = [(''name'', ''a'')], rr_stored_at = 1000\<rparr>"
proof -
  have e: "current_stash demo_session = []" by (simp add: demo_session_def current_stash_def)
  have "is_sensitive_field ''waf_token''" "\<not> is_sensitive_field ''name''" unfolding is_sensitive_field_iff by code_simp+
  then have f: "filter_sensitive_fields [(''name'', ''a''), (''waf_token'', ''b'')] = [(''name'', ''a'')]"
    by (simp only: filter_sensitive_fields_def filter.simps split_conv) simp
  have "fetch_from_session 1060 (snd (store_in_session 1000 ''k1'' (Some demo_session) ''f'' ''/f/'' [(''name'', ''a''), (''waf_token'', ''b'')])) ''k1'' =
     Some \<lparr>rr_form_id = ''f'', rr_post_url = ''/f/'', rr_data = filter_sensitive_fields [(''name'', ''a''), (''waf_token'', ''b'')],
       rr_stored_at = \<lfloor>1000 :: rat\<rfloor>\<rparr>"
    by (rule stored_submission_found [OF session_reachable.start [OF e]]) (simp_all add: e)
  then show ?thesis unfolding f by simp
qed

lemma verify_replay_issued:
  assumes sg: "hex_signer (token_sign cf S)" and bar: "BAR \<notin> set form_id" "BAR \<notin> set ip" "BAR \<notin> set session_key"
    and range: "0 \<le> \<lfloor>now\<rfloor>" "\<lfloor>now\<rfloor> + 60 < 10 ^ 18"
  shows "verify_replay_token cf S now2 (issue_replay_token cf S now form_id ip session_key) ip2 =
     Inr (if \<lfloor>now2\<rfloor> \<le> \<lfloor>now\<rfloor> + 60 \<and> ip2 = ip then Some (form_id, session_key) else None)"
proof -
  let ?fs = "[form_id, ip, session_key, str_int (\<lfloor>now\<rfloor> + 60)]"
  let ?raw = "seal (token_sign cf S) (utf8 (join BAR ?fs))"
  have t: "issue_replay_token cf S now form_id ip session_key = b64_token ?raw"
    by (simp add: issue_replay_token_def REPLAY_TTL_SECONDS_def)
  have n: "int_text (str_int (\<lfloor>now\<rfloor> + 60)) = Some (\<lfloor>now\<rfloor> + 60)"
    using range by (intro int_text_small) simp_all
  have "BAR \<notin> set (str_int (\<lfloor>now\<rfloor> + 60))" by (rule notin_str_int) (simp_all add: BAR_def is_digit_def ord_def)
  then have sp: "split BAR (join BAR ?fs) = ?fs" using bar by (intro split_join) auto
  have "?raw \<noteq> []" by (simp add: seal_def)
  then have "b64_token ?raw \<noteq> []" by (simp only: b64_token_Nil not_False_eq_True)
  moreover have "is_ascii (b64_token ?raw)" using b64_token_ascii by (simp add: is_ascii_def list_all_iff)
  moreover have "compare_digest (token_sign cf S (utf8 (join BAR ?fs))) (token_sign cf S (utf8 (join BAR ?fs))) = Inr True"
    by (simp add: compare_digest_def hex_signer.ascii_output [OF sg])
  ultimately show ?thesis unfolding t verify_replay_token_def b64_round_trip option.case hex_signer.rcut_seal [OF sg] prod.case
    by (simp del: join.simps add: sp n)
qed

text \<open>
  A replay token works for its owner for one minute: the token issued for a form, an address and
  a session key gives form and key back exactly when it is presented from that address no more than
  sixty seconds later; otherwise the verifier answers that there is nothing to replay.
\<close>

theorem replay_token_bound_to_address_and_time:
  assumes sg: "hex_signer (token_sign cf S)" and bar: "BAR \<notin> set form_id" "BAR \<notin> set ip" "BAR \<notin> set session_key"
    and range: "0 \<le> \<lfloor>now\<rfloor>" "\<lfloor>now\<rfloor> + 60 < 10 ^ 18"
  shows "verify_replay_token cf S now2 (issue_replay_token cf S now form_id ip session_key) ip2 =
     Inr (if \<lfloor>now2\<rfloor> \<le> \<lfloor>now\<rfloor> + 60 \<and> ip2 = ip then Some (form_id, session_key) else None)"
  using verify_replay_issued [OF assms] .

theorem replay_token_bound_to_address_and_time_witness:
  "verify_replay_token default_conf demo_site 1060 (issue_replay_token default_conf demo_site 1000 ''f'' ''203.0.113.9'' ''k1'') ''203.0.113.9'' =
     Inr (Some (''f'', ''k1'')) \<and>
   verify_replay_token default_conf demo_site 1061 (issue_replay_token default_conf demo_site 1000 ''f'' ''203.0.113.9'' ''k1'') ''203.0.113.9'' =
     Inr None"
proof -
  have b: "BAR \<notin> set ''f''" "BAR \<notin> set ''203.0.113.9''" "BAR \<notin> set ''k1''" by (simp_all add: BAR_def)
  show ?thesis using replay_token_bound_to_address_and_time [OF demo_tokens.signer b, of 1000 default_conf] by simp
qed

end
