(* ===== verification/FormDefences.thy ===== *)
theory FormDefences
  imports FormReplay ChallengeService
begin

text \<open>
  The defences of \<open>forms/defences/\<close>: what each renders into a form and how each judges a
  submission. The settings a defence reads with \<open>ctx.config.get(key, default)\<close> are the optional
  fields of \<open>form_config\<close>. The request is always there: both entry points insist on one. HTML and
  JavaScript are kept as text, exactly as the source builds them. Terms that contain double quotes
  are written between angle brackets.
\<close>

section \<open>Contexts\<close>

record form_config =
  cfg_token_ttl :: "int option"
  cfg_field_names :: "string list option"
  cfg_min_fill_seconds :: "rat option"
  cfg_max_fill_seconds :: "rat option"
  cfg_ip_limit :: "int option"
  cfg_limit :: "int option"
  cfg_difficulty :: "int option"
  cfg_token_nonce :: "string option"

record RenderContext =
  rc_form_id :: string
  rc_request :: request
  rc_config :: form_config

record EvaluateContext =
  ec_form_id :: string
  ec_request :: request
  ec_submitted_data :: strdict
  ec_config :: form_config
  ec_token_payload :: "TokenPayload option"

type_synonym html_fields = strdict

definition cfg_get :: "'a option \<Rightarrow> 'a \<Rightarrow> 'a" where
  "cfg_get v dflt = (case v of None \<Rightarrow> dflt | Some x \<Rightarrow> x)"

definition user_agent_of :: "request \<Rightarrow> string" where
  "user_agent_of request = dget (META request) ''HTTP_USER_AGENT'' []"

section \<open>HTML\<close>

definition QUOTE :: char where
  "QUOTE = CHR 0x22"

definition html_escape_char :: "char \<Rightarrow> string" where
  "html_escape_char c =
     (if c = CHR ''&'' then ''&amp;'' else if c = CHR ''<'' then ''&lt;'' else if c = CHR ''>'' then ''&gt;''
      else if c = QUOTE then ''&quot;'' else if c = CHR 0x27 then ''&#x27;'' else [c])"

definition html_escape :: "string \<Rightarrow> string" where
  "html_escape s = concat (map html_escape_char s)"

definition HIDDEN_STYLE :: string where
  "HIDDEN_STYLE = ''position:absolute;left:-9999px;width:1px;height:1px;overflow:hidden;''"

section \<open>Render token\<close>

definition TOKEN_FIELD_NAME :: string where
  "TOKEN_FIELD_NAME = ''waf_token''"

definition MARKER_GRACE_SECONDS :: rat where
  "MARKER_GRACE_SECONDS = 5"

definition user_id_of :: "request \<Rightarrow> string" where
  "user_id_of request = (case req_user request of
      None \<Rightarrow> []
    | Some u \<Rightarrow> if \<not> is_authenticated u then [] else (case user_pk u of None \<Rightarrow> [] | Some pk \<Rightarrow> pk))"

definition token_input :: "string \<Rightarrow> string" where
  \<open>token_input token = ''<input type="hidden" name="'' @ html_escape TOKEN_FIELD_NAME @ ''" value="'' @ html_escape token @ ''">''\<close>

definition render_token_render_fields ::
  "conf \<Rightarrow> form_conf \<Rightarrow> 'r env \<Rightarrow> site \<Rightarrow> string \<Rightarrow> RenderContext \<Rightarrow> ('r world, html_fields) py" where
  "render_token_render_fields cf fcf E S fresh ctx =
     (let ttl = cfg_get (cfg_token_ttl (rc_config ctx)) (DJANGO_WAF_FORM_TOKEN_TTL fcf);
          (token, payload) = issue_token cf E S fresh (rc_form_id ctx) (resolve_client_ip cf (rc_request ctx))
            (user_id_of (rc_request ctx)) (user_agent_of (rc_request ctx)) None None
      in andThen (swallow (with_client E (\<lambda>C. issue_marker C (tp_nonce payload) ttl)))
        (\<lambda>_. ret [(TOKEN_FIELD_NAME, token_input token)]))"

definition render_token_evaluate ::
  "conf \<Rightarrow> form_conf \<Rightarrow> 'r env \<Rightarrow> site \<Rightarrow> EvaluateContext \<Rightarrow> ('r world, Outcome) py" where
  "render_token_evaluate cf fcf E S ctx =
     (let raw = dget (ec_submitted_data ctx) TOKEN_FIELD_NAME [] in
      if raw = [] then ret (blocked ''render_token:missing'' 5)
      else (case verify_token cf E S raw of
          Inl ValueError \<Rightarrow> ret (blocked ''render_token:invalid'' 5)
        | Inl e \<Rightarrow> raise e
        | Inr payload \<Rightarrow>
            (let ttl = cfg_get (cfg_token_ttl (ec_config ctx)) (DJANGO_WAF_FORM_TOKEN_TTL fcf);
                 now = time_now E; rt = tp_render_time payload in
             if rt + of_int ttl < now then ret (blocked ''render_token:expired'' 5)
             else andThen (try_except (with_client E (\<lambda>C. marker_exists C (tp_nonce payload))) (\<lambda>_. ret True))
               (\<lambda>present.
                  if \<not> present \<and> MARKER_GRACE_SECONDS < now - rt then ret (blocked ''render_token:replayed'' 5)
                  else if tp_ip payload \<noteq> [] \<and> tp_ip payload \<noteq> resolve_client_ip cf (ec_request ctx)
                  then ret (flagged 3 ''render_token:ip_changed'')
                  else ret passed))))"

definition parse_submitted_payload :: "conf \<Rightarrow> 'r env \<Rightarrow> site \<Rightarrow> strdict \<Rightarrow> py_exc + TokenPayload option" where
  "parse_submitted_payload cf E S submitted_data =
     (let raw = dget submitted_data TOKEN_FIELD_NAME [] in
      if raw = [] then Inr None
      else (case verify_token cf E S raw of
          Inr payload \<Rightarrow> Inr (Some payload)
        | Inl ValueError \<Rightarrow> Inr None
        | Inl e \<Rightarrow> Inl e))"

section \<open>Honeypot\<close>

definition int_from_bytes :: "8 word list \<Rightarrow> nat" where
  "int_from_bytes bs = foldl (\<lambda>acc b. acc * 256 + unat b) 0 bs"

definition pick_field_names :: "site \<Rightarrow> string \<Rightarrow> string list \<Rightarrow> nat \<Rightarrow> string list" where
  "pick_field_names S form_id pool count =
     (if pool = [] then []
      else (let offset = int_from_bytes (take 4 (sha256_digest S (utf8 form_id))) mod length pool
        in map (\<lambda>i. pool ! ((offset + i) mod length pool)) [0..<min count (length pool)]))"

definition FIELDS_PER_FORM :: nat where
  "FIELDS_PER_FORM = 2"

definition is_alnum :: "char \<Rightarrow> bool" where
  "is_alnum c = (is_word c \<and> c \<noteq> CHR ''_'')"

definition render_honeypot_field :: "string \<Rightarrow> string" where
  \<open>render_honeypot_field name =
     (let safe_name = filter (\<lambda>c. is_alnum c \<or> c = CHR ''_'' \<or> c = CHR ''-'') name in
      if safe_name = [] then []
      else ''<input type="text" name="'' @ safe_name @ ''" value="" autocomplete="off" tabindex="-1" '' @
        ''aria-label="Leave this field empty (anti-spam check)" style="'' @ HIDDEN_STYLE @ ''">'')\<close>

definition honeypot_names :: "form_conf \<Rightarrow> site \<Rightarrow> string \<Rightarrow> form_config \<Rightarrow> string list" where
  "honeypot_names fcf S form_id config =
     pick_field_names S form_id (cfg_get (cfg_field_names config) (DJANGO_WAF_FORM_HONEYPOT_FIELD_NAMES fcf)) FIELDS_PER_FORM"

definition honeypot_render_fields :: "form_conf \<Rightarrow> site \<Rightarrow> RenderContext \<Rightarrow> html_fields" where
  "honeypot_render_fields fcf S ctx =
     (let names = honeypot_names fcf S (rc_form_id ctx) (rc_config ctx) in
      if names = [] then [] else [(''_waf_honeypot'', concat (map render_honeypot_field names))])"

definition honeypot_evaluate :: "form_conf \<Rightarrow> site \<Rightarrow> EvaluateContext \<Rightarrow> Outcome" where
  "honeypot_evaluate fcf S ctx =
     (case find (\<lambda>name. dget (ec_submitted_data ctx) name [] \<noteq> []) (honeypot_names fcf S (ec_form_id ctx) (ec_config ctx)) of
        Some name \<Rightarrow> blocked (''honeypot:'' @ name) 5
      | None \<Rightarrow> passed)"

section \<open>Time trap and User-Agent consistency\<close>

definition TOO_FAST_THRESHOLD_SECONDS :: rat where
  "TOO_FAST_THRESHOLD_SECONDS = 1 / 2"

definition time_trap_evaluate :: "form_conf \<Rightarrow> 'r env \<Rightarrow> EvaluateContext \<Rightarrow> Outcome" where
  "time_trap_evaluate fcf E ctx = (case ec_token_payload ctx of
      None \<Rightarrow> passed
    | Some payload \<Rightarrow>
        (let min_seconds = cfg_get (cfg_min_fill_seconds (ec_config ctx)) (DJANGO_WAF_FORM_TIME_TRAP_MIN_SECONDS fcf);
             max_seconds = cfg_get (cfg_max_fill_seconds (ec_config ctx)) (DJANGO_WAF_FORM_TIME_TRAP_MAX_SECONDS fcf);
             delta = time_now E - tp_render_time payload
         in if delta < TOO_FAST_THRESHOLD_SECONDS then blocked ''time_trap:too_fast'' 5
            else if delta < min_seconds then flagged 2 ''time_trap:fast''
            else if max_seconds < delta then flagged 2 ''time_trap:expired''
            else passed))"

definition ua_consistency_evaluate :: "'r env \<Rightarrow> EvaluateContext \<Rightarrow> Outcome" where
  "ua_consistency_evaluate E ctx = (case ec_token_payload ctx of
      None \<Rightarrow> passed
    | Some payload \<Rightarrow>
        if hash_user_agent E (user_agent_of (ec_request ctx)) \<noteq> tp_ua_hash payload
        then flagged 2 ''ua_consistency:changed'' else passed)"

section \<open>JavaScript touch\<close>

definition JS_FIELD_NAME :: string where
  "JS_FIELD_NAME = ''waf_js_touch''"

definition SENTINEL_UNSET :: string where
  "SENTINEL_UNSET = ''unset''"

definition js_expected_value :: "conf \<Rightarrow> site \<Rightarrow> string \<Rightarrow> string" where
  "js_expected_value cf S token_nonce = take 16 (hmac_sha256 S (get_signing_key cf S) (utf8 (''js_touch:'' @ token_nonce)))"

definition js_render_html :: "conf \<Rightarrow> site \<Rightarrow> string \<Rightarrow> string" where
  \<open>js_render_html cf S nonce =
     ''<input type="hidden" name="'' @ JS_FIELD_NAME @ ''" id="_waf_js_touch_input" '' @
     ''value="'' @ SENTINEL_UNSET @ ''" aria-hidden="true" tabindex="-1" '' @
     ''style="'' @ HIDDEN_STYLE @ ''">'' @
     ''<script type="text/javascript">'' @
     ''(function(){var el=document.getElementById("_waf_js_touch_input");'' @
     ''if(el){el.value="'' @ js_expected_value cf S nonce @ ''";}})();'' @
     ''</script>''\<close>

definition js_touch_render_fields :: "conf \<Rightarrow> site \<Rightarrow> RenderContext \<Rightarrow> html_fields" where
  "js_touch_render_fields cf S ctx =
     [(JS_FIELD_NAME, js_render_html cf S (cfg_get (cfg_token_nonce (rc_config ctx)) (rc_form_id ctx)))]"

definition js_touch_evaluate :: "conf \<Rightarrow> site \<Rightarrow> EvaluateContext \<Rightarrow> Outcome" where
  "js_touch_evaluate cf S ctx =
     (let value = dget (ec_submitted_data ctx) JS_FIELD_NAME [] in
      if value = SENTINEL_UNSET then flagged (3 / 2) ''js_touch:not_set''
      else if value = [] then flagged (3 / 2) ''js_touch:missing''
      else (let nonce = (case ec_token_payload ctx of
                  Some payload \<Rightarrow> tp_nonce payload
                | None \<Rightarrow> cfg_get (cfg_token_nonce (ec_config ctx)) (ec_form_id ctx))
        in if value \<noteq> js_expected_value cf S nonce then flagged (3 / 2) ''js_touch:invalid'' else passed))"

section \<open>Throttles\<close>

text \<open>Reading a counter through the client factory: the counters answer 0 for a missing client.\<close>

definition count_with_client :: "'r env \<Rightarrow> ('r redis \<Rightarrow> ('r, int) py) \<Rightarrow> ('r world, int) py" where
  "count_with_client E f = (case get_redis_client E of None \<Rightarrow> ret 0 | Some C \<Rightarrow> on_redis (f C))"

definition credential_throttle_evaluate ::
  "conf \<Rightarrow> form_conf \<Rightarrow> 'r env \<Rightarrow> EvaluateContext \<Rightarrow> ('r world, Outcome) py" where
  "credential_throttle_evaluate cf fcf E ctx =
     (let ip = resolve_client_ip cf (ec_request ctx) in
      if ip = [] then ret passed
      else (let limit = cfg_get (cfg_ip_limit (ec_config ctx)) (DJANGO_WAF_FORM_CREDENTIAL_IP_LIMIT fcf) in
        try_except
          (andThen (count_with_client E (\<lambda>C. credential_ip_count C ip))
             (\<lambda>count. ret (if limit \<le> count then flagged 5 ''credential_throttle:ip'' else passed)))
          (\<lambda>_. ret passed)))"

definition signup_velocity_evaluate ::
  "conf \<Rightarrow> form_conf \<Rightarrow> 'r env \<Rightarrow> EvaluateContext \<Rightarrow> ('r world, Outcome) py" where
  "signup_velocity_evaluate cf fcf E ctx =
     (let ip = resolve_client_ip cf (ec_request ctx) in
      if ip = [] then ret passed
      else (let limit = cfg_get (cfg_limit (ec_config ctx)) (DJANGO_WAF_FORM_SIGNUP_VELOCITY_LIMIT fcf) in
        try_except
          (andThen (count_with_client E (\<lambda>C. signup_count C ip))
             (\<lambda>count. ret (if limit \<le> count then flagged 5 ''signup_velocity:ip'' else passed)))
          (\<lambda>_. ret passed)))"

section \<open>Proof of work\<close>

definition NONCE_FIELD :: string where
  "NONCE_FIELD = ''waf_pow_nonce''"

definition TOKEN_BIND_FIELD :: string where
  "TOKEN_BIND_FIELD = ''waf_pow_token''"

definition SHA256_JS :: string where
  \<open>SHA256_JS =
     ''function sha256(msg){var b=new TextEncoder().encode(msg);var K=[0x428a2f98,0x71374491,0xb5c0fbcf,0xe9b5dba5,0x'' @
     ''3956c25b,0x59f111f1,0x923f82a4,0xab1c5ed5,0xd807aa98,0x12835b01,0x243185be,0x550c7dc3,0x72be5d74,0x80deb1fe,0x'' @
     ''9bdc06a7,0xc19bf174,0xe49b69c1,0xefbe4786,0x0fc19dc6,0x240ca1cc,0x2de92c6f,0x4a7484aa,0x5cb0a9dc,0x76f988da,0x'' @
     ''983e5152,0xa831c66d,0xb00327c8,0xbf597fc7,0xc6e00bf3,0xd5a79147,0x06ca6351,0x14292967,0x27b70a85,0x2e1b2138,0x'' @
     ''4d2c6dfc,0x53380d13,0x650a7354,0x766a0abb,0x81c2c92e,0x92722c85,0xa2bfe8a1,0xa81a664b,0xc24b8b70,0xc76c51a3,0x'' @
     ''d192e819,0xd6990624,0xf40e3585,0x106aa070,0x19a4c116,0x1e376c08,0x2748774c,0x34b0bcb5,0x391c0cb3,0x4ed8aa4a,0x'' @
     ''5b9cca4f,0x682e6ff3,0x748f82ee,0x78a5636f,0x84c87814,0x8cc70208,0x90befffa,0xa4506ceb,0xbef9a3f7,0xc67178f2];v'' @
     ''ar H=[0x6a09e667,0xbb67ae85,0x3c6ef372,0xa54ff53a,0x510e527f,0x9b05688c,0x1f83d9ab,0x5be0cd19];var bl=b.length'' @
     ''*8,w1=b.length+1,pl=((w1+8+63)&~63)-w1-8,tot=w1+pl+8;var buf=new Uint8Array(tot);buf.set(b,0);buf[b.length]=0x'' @
     ''80;var hi=Math.floor(bl/0x100000000),lo=bl>>>0;var dv=new DataView(buf.buffer);dv.setUint32(tot-8,hi,false);dv'' @
     ''.setUint32(tot-4,lo,false);var w=new Int32Array(64);for(var o=0;o<tot;o+=64){  for(var i=0;i<16;i++){ w[i]=dv.'' @
     ''getInt32(o+i*4,false); }  for(i=16;i<64;i++){    var s0v=w[i-15],s0=((s0v>>>7)|(s0v<<25))^((s0v>>>18)|(s0v<<14'' @
     ''))^(s0v>>>3);    var s1v=w[i-2],s1=((s1v>>>17)|(s1v<<15))^((s1v>>>19)|(s1v<<13))^(s1v>>>10);    w[i]=(w[i-16]+'' @
     ''s0+w[i-7]+s1)|0;  }  var a=H[0],b2=H[1],c=H[2],d=H[3],e=H[4],f=H[5],g=H[6],h=H[7];  for(i=0;i<64;i++){    var '' @
     ''S1=((e>>>6)|(e<<26))^((e>>>11)|(e<<21))^((e>>>25)|(e<<7));    var ch=(e&f)^(~e&g);    var t1=(h+S1+ch+K[i]+w[i'' @
     ''])|0;    var S0=((a>>>2)|(a<<30))^((a>>>13)|(a<<19))^((a>>>22)|(a<<10));    var maj=(a&b2)^(a&c)^(b2&c);    va'' @
     ''r t2=(S0+maj)|0;    h=g;g=f;f=e;e=(d+t1)|0;d=c;c=b2;b2=a;a=(t1+t2)|0;  }  H[0]=(H[0]+a)|0;H[1]=(H[1]+b2)|0;H[2'' @
     '']=(H[2]+c)|0;H[3]=(H[3]+d)|0;  H[4]=(H[4]+e)|0;H[5]=(H[5]+f)|0;H[6]=(H[6]+g)|0;H[7]=(H[7]+h)|0;}var out=new Ui'' @
     ''nt8Array(32),ov=new DataView(out.buffer);for(i=0;i<8;i++){ ov.setInt32(i*4,H[i],false); }return out;}''\<close>

text \<open>\<open>repr\<close> of a string.\<close>

definition repr_char :: "char \<Rightarrow> char \<Rightarrow> string" where
  "repr_char q c = (let n = ord c; BSL = CHR 0x5C in
     if c = q \<or> c = BSL then [BSL, c]
     else if n = 9 then BSL # ''t'' else if n = 10 then BSL # ''n'' else if n = 13 then BSL # ''r''
     else if n < 32 \<or> (127 \<le> n \<and> n \<le> 160) \<or> n = 173
     then BSL # CHR ''x'' # [hex_digit (int n div 16), hex_digit (int n mod 16)]
     else [c])"

definition py_repr :: "string \<Rightarrow> string" where
  "py_repr s = (let q = (if CHR 0x27 \<in> set s \<and> QUOTE \<notin> set s then QUOTE else CHR 0x27)
     in q # concat (map (repr_char q) s) @ [q])"

definition solver_script :: "string \<Rightarrow> int \<Rightarrow> string" where
  \<open>solver_script token_nonce difficulty =
     ''<script type="text/javascript">'' @ ''(function(){'' @
     ''var token='' @ py_repr token_nonce @ '';'' @
     ''var difficulty='' @ str_int difficulty @ '';'' @ SHA256_JS @ ''function leadingZeroBits(bytes,bits){'' @
     ''  var full=bits>>>3, rem=bits&7;'' @
     ''  for(var i=0;i<full;i++){ if(bytes[i]!==0) return false; }'' @
     ''  if(rem===0) return true;'' @
     ''  var mask=(0xFF<<(8-rem))&0xFF;'' @
     ''  return (bytes[full]&mask)===0;'' @
     ''}'' @
     ''var n=0;'' @
     ''var maxN=Math.pow(2,'' @ str_int difficulty @ '')*64;'' @
     ''function step(){'' @
     ''  var batchEnd=n+2000;'' @
     ''  while(n<batchEnd){'' @
     ''    var hash=sha256(token+":"+n);'' @
     ''    if(leadingZeroBits(hash,difficulty)){'' @
     ''      var nonceEl=document.querySelector('' @ CHR 0x27 # ''input[name="'' @ NONCE_FIELD @ ''"]'' @ CHR 0x27 # '');'' @
     ''      if(nonceEl) nonceEl.value=n.toString();'' @
     ''      var form=nonceEl ? nonceEl.form : null;'' @
     ''      if(form) form.setAttribute("data-waf-pow-ready","true");'' @
     ''      return;'' @
     ''    }'' @
     ''    n++;'' @
     ''    if(n>maxN){ return; }'' @
     ''  }'' @
     ''  setTimeout(step,0);'' @
     ''}'' @
     ''step();'' @
     ''})();'' @
     ''</script>''\<close>

definition verify_nonce :: "site \<Rightarrow> string \<Rightarrow> string \<Rightarrow> int \<Rightarrow> bool" where
  "verify_nonce S token_nonce candidate_nonce difficulty =
     digest_has_leading_zero_bits (sha256_digest S (utf8 (token_nonce @ '':'' @ candidate_nonce))) difficulty"

definition pow_gate_render_fields :: "form_conf \<Rightarrow> RenderContext \<Rightarrow> html_fields" where
  \<open>pow_gate_render_fields fcf ctx =
     (let difficulty = cfg_get (cfg_difficulty (rc_config ctx)) (DJANGO_WAF_FORM_POW_DIFFICULTY fcf);
          token_nonce = cfg_get (cfg_token_nonce (rc_config ctx)) (rc_form_id ctx)
      in [(NONCE_FIELD,
         ''<input type="hidden" name="'' @ NONCE_FIELD @ ''" value="" style="'' @ HIDDEN_STYLE @ ''">'' @
         ''<input type="hidden" name="'' @ TOKEN_BIND_FIELD @ ''" value="'' @ token_nonce @ ''" style="'' @ HIDDEN_STYLE @ ''">'' @
         solver_script token_nonce difficulty)])\<close>

definition pow_gate_evaluate :: "form_conf \<Rightarrow> site \<Rightarrow> EvaluateContext \<Rightarrow> Outcome" where
  "pow_gate_evaluate fcf S ctx =
     (let difficulty = cfg_get (cfg_difficulty (ec_config ctx)) (DJANGO_WAF_FORM_POW_DIFFICULTY fcf);
          candidate = dget (ec_submitted_data ctx) NONCE_FIELD [] in
      if candidate = [] then blocked ''pow_gate:missing'' 5
      else (let token_nonce = (case ec_token_payload ctx of
                  Some payload \<Rightarrow> tp_nonce payload
                | None \<Rightarrow> (let b = dget (ec_submitted_data ctx) TOKEN_BIND_FIELD [] in if b = [] then ec_form_id ctx else b))
        in if \<not> verify_nonce S token_nonce candidate difficulty then blocked ''pow_gate:invalid'' 5 else passed))"

end
