(* ===== verification/FormProtection.thy ===== *)
theory FormProtection
  imports FormDefences
begin

text \<open>
  \<open>forms/protection.py\<close>, \<open>forms/logging.py\<close> and \<open>forms/credentials.py\<close>: the orchestrator that
  composes the defences of a form, aggregates their outcomes and consumes the one-shot marker, the
  log entry and signal of a submission, and the recording of failed logins. The client factory is
  the default one. \<open>random.random()\<close> is the argument \<open>draw\<close>.
\<close>

section \<open>Verdicts and results\<close>

datatype FormVerdict = Form_passed | Form_flagged | Form_blocked

fun FormVerdict_value :: "FormVerdict \<Rightarrow> string" where
  "FormVerdict_value Form_passed = ''passed''"
| "FormVerdict_value Form_flagged = ''flagged''"
| "FormVerdict_value Form_blocked = ''blocked''"

record FormEvaluationResult =
  fr_verdict :: FormVerdict
  fr_total_score :: rat
  fr_outcomes :: "Outcome list"
  fr_token_payload :: "TokenPayload option"

section \<open>The chain\<close>

definition CANONICAL_ORDER :: "string list" where
  "CANONICAL_ORDER = [''render_token'', ''honeypot'', ''time_trap'', ''ua_consistency'', ''js_touch'',
     ''credential_throttle'', ''signup_velocity'', ''pow_gate'']"

definition order_defences :: "string list \<Rightarrow> string list" where
  "order_defences names = filter (\<lambda>n. n \<in> set names) CANONICAL_ORDER"

record FormProtection =
  p_form_id :: string
  p_raw_defence_names :: "string list"
  p_defence_names :: "string list"
  p_weights :: "(string \<times> rat) list"
  p_skip_for_authenticated :: bool
  p_config :: form_config

definition FormProtection_init ::
  "string \<Rightarrow> string list \<Rightarrow> (string \<times> rat) list \<Rightarrow> bool \<Rightarrow> form_config \<Rightarrow> py_exc + FormProtection" where
  "FormProtection_init form_id defences defence_weights skip_for_authenticated per_form_config =
     (if list_ex (\<lambda>n. n \<notin> set CANONICAL_ORDER) defences then Inl ValueError
      else Inr \<lparr>p_form_id = form_id, p_raw_defence_names = defences, p_defence_names = order_defences defences,
        p_weights = defence_weights, p_skip_for_authenticated = skip_for_authenticated, p_config = per_form_config\<rparr>)"

definition config_for :: "FormProtection \<Rightarrow> string option \<Rightarrow> form_config" where
  "config_for p token_nonce = (case token_nonce of
      None \<Rightarrow> p_config p | Some n \<Rightarrow> (p_config p)\<lparr>cfg_token_nonce := Some n\<rparr>)"

definition is_authenticated_request :: "request \<Rightarrow> bool" where
  "is_authenticated_request request = (case req_user request of None \<Rightarrow> False | Some u \<Rightarrow> is_authenticated u)"

definition active_names :: "FormProtection \<Rightarrow> request \<Rightarrow> string list" where
  "active_names p request =
     (if p_skip_for_authenticated p \<and> is_authenticated_request request
      then filter (\<lambda>n. n = ''render_token'') (p_defence_names p) else p_defence_names p)"

section \<open>Rendering\<close>

definition extract_token_value :: "string \<Rightarrow> string" where
  "extract_token_value fragment = (case cut (''value='' @ [QUOTE]) fragment of
      None \<Rightarrow> []
    | Some (_, rest) \<Rightarrow> if QUOTE \<in> set rest then takeWhile (\<lambda>c. c \<noteq> QUOTE) rest else [])"

definition dict_update :: "html_fields \<Rightarrow> html_fields \<Rightarrow> html_fields" where
  "dict_update d fragments = foldl (\<lambda>d (k, v). dict_set k v d) d fragments"

definition defence_render_fields ::
  "conf \<Rightarrow> form_conf \<Rightarrow> 'r env \<Rightarrow> site \<Rightarrow> string \<Rightarrow> string \<Rightarrow> RenderContext \<Rightarrow> ('r world, html_fields) py" where
  "defence_render_fields cf fcf E S fresh name ctx =
     (if name = ''render_token'' then render_token_render_fields cf fcf E S fresh ctx
      else if name = ''honeypot'' then ret (honeypot_render_fields fcf S ctx)
      else if name = ''js_touch'' then ret (js_touch_render_fields cf S ctx)
      else if name = ''pow_gate'' then ret (pow_gate_render_fields fcf ctx)
      else ret [])"

definition render_context :: "FormProtection \<Rightarrow> request \<Rightarrow> string option \<Rightarrow> RenderContext" where
  "render_context p request token_nonce =
     \<lparr>rc_form_id = p_form_id p, rc_request = request, rc_config = config_for p token_nonce\<rparr>"

text \<open>The nonce is read back from the rendered fragment; an exception on the way leaves it unknown.\<close>

definition rendered_nonce :: "conf \<Rightarrow> 'r env \<Rightarrow> site \<Rightarrow> html_fields \<Rightarrow> string option" where
  "rendered_nonce cf E S fragments =
     (let token_str = extract_token_value (dget fragments TOKEN_FIELD_NAME []) in
      if token_str = [] then None
      else (case parse_submitted_payload cf E S [(TOKEN_FIELD_NAME, token_str)] of
          Inr (Some payload) \<Rightarrow> Some (tp_nonce payload)
        | _ \<Rightarrow> None))"

fun render_rest ::
  "conf \<Rightarrow> form_conf \<Rightarrow> 'r env \<Rightarrow> site \<Rightarrow> string \<Rightarrow> FormProtection \<Rightarrow> request \<Rightarrow> string option \<Rightarrow> string list \<Rightarrow> html_fields \<Rightarrow>
   ('r world, html_fields) py" where
  "render_rest cf fcf E S fresh p request token_nonce [] all_fields = ret all_fields"
| "render_rest cf fcf E S fresh p request token_nonce (name # names) all_fields =
     (if name = ''render_token'' then render_rest cf fcf E S fresh p request token_nonce names all_fields
      else andThen (try_except (defence_render_fields cf fcf E S fresh name (render_context p request token_nonce))
               (\<lambda>_. ret []))
        (\<lambda>fragments. render_rest cf fcf E S fresh p request token_nonce names (dict_update all_fields fragments)))"

definition render_fields ::
  "conf \<Rightarrow> form_conf \<Rightarrow> 'r env \<Rightarrow> site \<Rightarrow> string \<Rightarrow> FormProtection \<Rightarrow> request \<Rightarrow> ('r world, html_fields) py" where
  "render_fields cf fcf E S fresh p request =
     (if \<not> DJANGO_WAF_FORM_PROTECTION_ENABLED fcf then ret []
      else (let names = active_names p request in
        if ''render_token'' \<in> set names
        then andThen (try_except (defence_render_fields cf fcf E S fresh ''render_token'' (render_context p request None))
               (\<lambda>_. ret []))
          (\<lambda>fragments. render_rest cf fcf E S fresh p request (rendered_nonce cf E S fragments) names (dict_update [] fragments))
        else render_rest cf fcf E S fresh p request None names []))"

section \<open>Evaluation\<close>

definition defence_evaluate ::
  "conf \<Rightarrow> form_conf \<Rightarrow> 'r env \<Rightarrow> site \<Rightarrow> string \<Rightarrow> EvaluateContext \<Rightarrow> ('r world, Outcome) py" where
  "defence_evaluate cf fcf E S name ctx =
     (if name = ''render_token'' then render_token_evaluate cf fcf E S ctx
      else if name = ''honeypot'' then ret (honeypot_evaluate fcf S ctx)
      else if name = ''time_trap'' then ret (time_trap_evaluate fcf E ctx)
      else if name = ''ua_consistency'' then ret (ua_consistency_evaluate E ctx)
      else if name = ''js_touch'' then ret (js_touch_evaluate cf S ctx)
      else if name = ''credential_throttle'' then credential_throttle_evaluate cf fcf E ctx
      else if name = ''signup_velocity'' then signup_velocity_evaluate cf fcf E ctx
      else ret (pow_gate_evaluate fcf S ctx))"

definition outcome_weight :: "form_conf \<Rightarrow> FormProtection \<Rightarrow> string \<Rightarrow> Outcome \<Rightarrow> rat" where
  "outcome_weight fcf p name outcome =
     (if o_verdict outcome = Pass then 0
      else (case map_of (p_weights p @ DJANGO_WAF_FORM_DEFENCE_WEIGHTS fcf) name of
          None \<Rightarrow> o_score outcome | Some w \<Rightarrow> w))"

definition aggregate_score :: "form_conf \<Rightarrow> FormProtection \<Rightarrow> Outcome list \<Rightarrow> rat" where
  "aggregate_score fcf p outcomes =
     sum_list (map (\<lambda>(outcome, name). outcome_weight fcf p name outcome) (zip outcomes (p_defence_names p)))"

definition resolve_verdict :: "form_conf \<Rightarrow> rat \<Rightarrow> FormVerdict" where
  "resolve_verdict fcf total_score =
     (if DJANGO_WAF_FORM_BLOCK_THRESHOLD fcf \<le> total_score then Form_blocked
      else if DJANGO_WAF_FORM_FLAG_THRESHOLD fcf \<le> total_score then Form_flagged
      else Form_passed)"

definition evaluate_context ::
  "FormProtection \<Rightarrow> request \<Rightarrow> strdict \<Rightarrow> TokenPayload option \<Rightarrow> EvaluateContext" where
  "evaluate_context p request submitted_data token_payload =
     \<lparr>ec_form_id = p_form_id p, ec_request = request, ec_submitted_data = submitted_data,
       ec_config = config_for p (map_option tp_nonce token_payload), ec_token_payload = token_payload\<rparr>"

fun evaluate_chain ::
  "conf \<Rightarrow> form_conf \<Rightarrow> 'r env \<Rightarrow> site \<Rightarrow> FormProtection \<Rightarrow> request \<Rightarrow> strdict \<Rightarrow> string list \<Rightarrow> Outcome list \<Rightarrow>
   TokenPayload option \<Rightarrow> ('r world, FormEvaluationResult) py" where
  "evaluate_chain cf fcf E S p request submitted_data [] outcomes token_payload =
     (let total = aggregate_score fcf p outcomes
      in ret \<lparr>fr_verdict = resolve_verdict fcf total, fr_total_score = total, fr_outcomes = outcomes,
           fr_token_payload = token_payload\<rparr>)"
| "evaluate_chain cf fcf E S p request submitted_data (name # names) outcomes token_payload =
     andThen (try_except (defence_evaluate cf fcf E S name (evaluate_context p request submitted_data token_payload))
          (\<lambda>_. ret passed))
       (\<lambda>outcome. let outcomes = outcomes @ [outcome] in
          if o_verdict outcome = Block
          then ret \<lparr>fr_verdict = Form_blocked, fr_total_score = aggregate_score fcf p outcomes, fr_outcomes = outcomes,
                 fr_token_payload = token_payload\<rparr>
          else if name = ''render_token'' \<and> token_payload = None
          then (case parse_submitted_payload cf E S submitted_data of
                  Inl e \<Rightarrow> raise e
                | Inr tp \<Rightarrow> evaluate_chain cf fcf E S p request submitted_data names outcomes tp)
          else evaluate_chain cf fcf E S p request submitted_data names outcomes token_payload)"

definition evaluate ::
  "conf \<Rightarrow> form_conf \<Rightarrow> 'r env \<Rightarrow> site \<Rightarrow> FormProtection \<Rightarrow> request \<Rightarrow> strdict \<Rightarrow> ('r world, FormEvaluationResult) py" where
  "evaluate cf fcf E S p request submitted_data =
     (if \<not> DJANGO_WAF_FORM_PROTECTION_ENABLED fcf
      then ret \<lparr>fr_verdict = Form_passed, fr_total_score = 0, fr_outcomes = [], fr_token_payload = None\<rparr>
      else evaluate_chain cf fcf E S p request submitted_data (active_names p request) [] None)"

definition consume_token_marker :: "'r env \<Rightarrow> TokenPayload option \<Rightarrow> ('r world, unit) py" where
  "consume_token_marker E token_payload = (case token_payload of
      None \<Rightarrow> ret ()
    | Some payload \<Rightarrow> swallow (with_client E (\<lambda>C. consume_marker C (tp_nonce payload))))"

section \<open>Log entry and signals\<close>

definition extract_user_id :: "request \<Rightarrow> string option" where
  "extract_user_id request = (case req_user request of
      None \<Rightarrow> None
    | Some u \<Rightarrow> if \<not> is_authenticated u then None else Some (case user_pk u of None \<Rightarrow> [] | Some pk \<Rightarrow> pk))"

definition name_from_reason :: "string \<Rightarrow> string" where
  "name_from_reason r = (case cut '':'' r of None \<Rightarrow> r | Some (a, _) \<Rightarrow> a)"

definition maybe_emit_passed_signal ::
  "form_conf \<Rightarrow> 'r env \<Rightarrow> string \<Rightarrow> string \<Rightarrow> string \<Rightarrow> string option \<Rightarrow> ('r world, unit) py" where
  "maybe_emit_passed_signal fcf E form_id ip user_agent user_id =
     (if DJANGO_WAF_FORM_EMIT_PASSED_SIGNAL fcf
      then swallow (send E (Form_submission_passed form_id ip user_agent user_id)) else ret ())"

text \<open>The reason of a block: that of the first blocking outcome, else of the first outcome with the
  highest score.\<close>

fun worst_outcome :: "Outcome \<Rightarrow> Outcome list \<Rightarrow> Outcome" where
  "worst_outcome best [] = best"
| "worst_outcome best (o' # os) = worst_outcome (if o_score best < o_score o' then o' else best) os"

definition block_reason :: "Outcome list \<Rightarrow> string" where
  "block_reason outcomes =
     (let r = (case find (\<lambda>x. o_verdict x = Block) outcomes of None \<Rightarrow> [] | Some x \<Rightarrow> o_reason x) in
      case outcomes of [] \<Rightarrow> r | x # xs \<Rightarrow> if r \<noteq> [] then r else o_reason (worst_outcome x xs))"

definition dispatch_signal ::
  "form_conf \<Rightarrow> 'r env \<Rightarrow> string \<Rightarrow> string \<Rightarrow> string \<Rightarrow> string option \<Rightarrow> FormEvaluationResult \<Rightarrow> ('r world, unit) py" where
  "dispatch_signal fcf E form_id ip user_agent user_id result = swallow
     (case fr_verdict result of
        Form_passed \<Rightarrow> maybe_emit_passed_signal fcf E form_id ip user_agent user_id
      | Form_flagged \<Rightarrow> send E (Form_submission_flagged form_id ip user_agent user_id (fr_total_score result) (fr_outcomes result))
      | Form_blocked \<Rightarrow> send E (Form_submission_blocked form_id ip user_agent user_id (fr_total_score result) (fr_outcomes result)
          (block_reason (fr_outcomes result))))"

definition log_form_submission ::
  "conf \<Rightarrow> form_conf \<Rightarrow> 'r env \<Rightarrow> rat \<Rightarrow> string \<Rightarrow> request \<Rightarrow> FormEvaluationResult \<Rightarrow> ('r world, unit) py" where
  "log_form_submission cf fcf E draw form_id request result =
     (let ip = resolve_client_ip cf request; user_agent = user_agent_of request; user_id = extract_user_id request in
      if fr_verdict result = Form_passed \<and> DJANGO_WAF_LOG_SAMPLE_RATE cf \<le> draw
      then maybe_emit_passed_signal fcf E form_id ip user_agent user_id
      else andThen (update_state (\<lambda>w. w\<lparr>form_log := form_log w @ [\<lparr>fl_form_id = form_id,
             fl_verdict = FormVerdict_value (fr_verdict result), fl_ip = ip, fl_user_agent = user_agent, fl_user_id = user_id,
             fl_total_score = fr_total_score result, fl_defences =
               map (\<lambda>x. (name_from_reason (o_reason x), o_verdict x, o_score x, o_reason x)) (fr_outcomes result)\<rparr>]\<rparr>))
        (\<lambda>_. dispatch_signal fcf E form_id ip user_agent user_id result))"

section \<open>Failed logins\<close>

definition waf_record_credential_failure ::
  "conf \<Rightarrow> form_conf \<Rightarrow> 'r env \<Rightarrow> request \<Rightarrow> string \<Rightarrow> ('r world, int \<times> int) py" where
  "waf_record_credential_failure cf fcf E request identifier =
     (if identifier = [] then ret (0, 0)
      else (let ip = resolve_client_ip cf request in
        if ip = [] then ret (0, 0)
        else (case get_redis_client E of
            None \<Rightarrow> ret (0, 0)
          | Some C \<Rightarrow>
              (let window_seconds = DJANGO_WAF_FORM_CREDENTIAL_THROTTLE_WINDOW fcf in
               andThen (on_redis (record_credential_failure E C identifier ip window_seconds))
                 (\<lambda>(account_count, ip_count).
                    andThen (if 0 < account_count \<and> account_count = DJANGO_WAF_FORM_CREDENTIAL_THROTTLE_LIMIT fcf
                       then swallow (send E (Credential_attack_observed (hash_identifier E identifier) account_count window_seconds ip))
                       else ret ())
                      (\<lambda>_. ret (account_count, ip_count)))))))"

section \<open>Order of the chain\<close>

lemma order_defences_set: "set (order_defences names) = set names \<inter> set CANONICAL_ORDER"
  by (auto simp: order_defences_def)

lemma order_defences_distinct: "distinct (order_defences names)"
  by (simp add: order_defences_def CANONICAL_ORDER_def)

lemma order_defences_token: "''render_token'' \<in> set names \<Longrightarrow> \<exists>rest. order_defences names = ''render_token'' # rest \<and> ''render_token'' \<notin> set rest"
  by (simp add: order_defences_def CANONICAL_ORDER_def)

lemma init_names: "FormProtection_init f ds ws sk c = Inr p \<Longrightarrow> p_defence_names p = order_defences ds \<and> set ds \<subseteq> set CANONICAL_ORDER"
  by (auto simp: FormProtection_init_def list_ex_iff split: if_splits)

text \<open>The names that run are a prefix of the configured ones, so the scores that
  \<open>_aggregate_score\<close> pairs with the configured names belong to the defences that gave them.\<close>

lemma active_names_prefix:
  assumes "FormProtection_init f ds ws sk c = Inr p"
  shows "\<exists>k. active_names p request = take k (p_defence_names p)"
proof (cases "p_skip_for_authenticated p \<and> is_authenticated_request request")
  case False
  then show ?thesis by (intro exI [of _ "length (p_defence_names p)"]) (auto simp: active_names_def)
next
  case True
  have n: "p_defence_names p = order_defences ds" using init_names [OF assms] by simp
  show ?thesis
  proof (cases "''render_token'' \<in> set ds")
    case yes: True
    then obtain rest where "order_defences ds = ''render_token'' # rest" "''render_token'' \<notin> set rest"
      using order_defences_token by blast
    then show ?thesis using True n by (intro exI [of _ 1]) (auto simp: active_names_def filter_empty_conv)
  next
    case False
    then show ?thesis using True n by (intro exI [of _ 0]) (auto simp: active_names_def order_defences_def filter_empty_conv)
  qed
qed

lemma active_names_token:
  assumes "p_defence_names p = ''render_token'' # rest" and "''render_token'' \<notin> set rest"
  obtains names where "active_names p request = ''render_token'' # names" "set names \<subseteq> set rest"
proof (cases "p_skip_for_authenticated p \<and> is_authenticated_request request")
  case True
  then have "active_names p request = [''render_token'']" using assms by (auto simp: active_names_def filter_empty_conv)
  then show thesis by (rule that) simp
next
  case False
  then have "active_names p request = ''render_token'' # rest" using assms by (auto simp: active_names_def)
  then show thesis by (rule that) simp
qed

section \<open>The verdict\<close>

text \<open>What the chain promises, said without its own helpers. The table names the eight defences; a run
  pairs each name with what its defence answered in the world the defences before it left, a defence
  that raised counting as passed; the payload is unknown until a token got past \<open>render_token\<close> and is the
  submitted one from then on. The points of an outcome are the weight of the form or else of the
  site for the defence, or else the score it gave, and a passed outcome has none.\<close>

definition defence_table ::
  "conf \<Rightarrow> form_conf \<Rightarrow> 'r env \<Rightarrow> site \<Rightarrow> EvaluateContext \<Rightarrow> (string \<times> ('r world, Outcome) py) list" where
  "defence_table cf fcf E S ctx =
     [(''pow_gate'', ret (pow_gate_evaluate fcf S ctx)),
      (''js_touch'', ret (js_touch_evaluate cf S ctx)),
      (''honeypot'', ret (honeypot_evaluate fcf S ctx)),
      (''time_trap'', ret (time_trap_evaluate fcf E ctx)),
      (''ua_consistency'', ret (ua_consistency_evaluate E ctx)),
      (''render_token'', render_token_evaluate cf fcf E S ctx),
      (''signup_velocity'', signup_velocity_evaluate cf fcf E ctx),
      (''credential_throttle'', credential_throttle_evaluate cf fcf E ctx)]"

definition defence_context :: "string \<Rightarrow> form_config \<Rightarrow> request \<Rightarrow> strdict \<Rightarrow> TokenPayload option \<Rightarrow> EvaluateContext" where
  "defence_context form_id c request d tp =
     \<lparr>ec_form_id = form_id, ec_request = request, ec_submitted_data = d,
       ec_config = (case tp of None \<Rightarrow> c | Some payload \<Rightarrow> c\<lparr>cfg_token_nonce := Some (tp_nonce payload)\<rparr>),
       ec_token_payload = tp\<rparr>"

inductive defences_ran :: "conf \<Rightarrow> form_conf \<Rightarrow> 'r env \<Rightarrow> site \<Rightarrow> string \<Rightarrow> form_config \<Rightarrow> request \<Rightarrow> strdict \<Rightarrow> 'r world \<Rightarrow>
    (string \<times> Outcome) list \<Rightarrow> TokenPayload option \<Rightarrow> 'r world \<Rightarrow> bool"
  for cf fcf E S form_id c request d w0 where
  none: "defences_ran cf fcf E S form_id c request d w0 [] None w0"
| ran: "defences_ran cf fcf E S form_id c request d w0 answers tp w \<Longrightarrow>
     map_of (defence_table cf fcf E S (defence_context form_id c request d tp)) name = Some m \<Longrightarrow>
     m w = (r, w') \<Longrightarrow> outcome = (case r of Inl _ \<Rightarrow> passed | Inr x \<Rightarrow> x) \<Longrightarrow>
     Inr tp' = (if o_verdict outcome \<noteq> Block \<and> name = ''render_token'' \<and> tp = None
       then parse_submitted_payload cf E S d else Inr tp) \<Longrightarrow>
     defences_ran cf fcf E S form_id c request d w0 (answers @ [(name, outcome)]) tp' w'"

definition points :: "(string \<times> rat) list \<Rightarrow> (string \<times> rat) list \<Rightarrow> string \<times> Outcome \<Rightarrow> rat" where
  "points form_weights site_weights = (\<lambda>(name, outcome).
     if o_verdict outcome = Pass then 0
     else (case map_of form_weights name of
         Some v \<Rightarrow> v
       | None \<Rightarrow> (case map_of site_weights name of Some v \<Rightarrow> v | None \<Rightarrow> o_score outcome)))"

lemma defence_table_evaluate:
  assumes "name \<in> set CANONICAL_ORDER"
  shows "map_of (defence_table cf fcf E S ctx) name = Some (defence_evaluate cf fcf E S name ctx)"
  using assms by (auto simp: CANONICAL_ORDER_def defence_table_def defence_evaluate_def)

lemma zip_prefix: "zip xs (take (length xs) ys) = zip xs ys"
  by (induction xs ys rule: list_induct2') simp_all

lemma aggregate_points:
  assumes "map fst answers = take (length answers) (p_defence_names p)"
  shows "aggregate_score fcf p (map snd answers) = (\<Sum>x\<leftarrow>answers. points (p_weights p) (DJANGO_WAF_FORM_DEFENCE_WEIGHTS fcf) x)"
proof -
  have z: "zip (map snd answers) (p_defence_names p) = map (\<lambda>(n, x). (x, n)) answers"
  proof -
    have "zip (map snd answers) (p_defence_names p) = zip (map snd answers) (map fst answers)"
      unfolding assms using zip_prefix [of "map snd answers" "p_defence_names p"] by simp
    then show ?thesis by (simp add: zip_map_map zip_same_conv_map split_beta)
  qed
  show ?thesis unfolding aggregate_score_def z
    by (induction answers) (auto simp: points_def outcome_weight_def map_add_def split: option.splits)
qed

lemma resolve_verdict_iff:
  "resolve_verdict fcf t = Form_blocked \<longleftrightarrow> DJANGO_WAF_FORM_BLOCK_THRESHOLD fcf \<le> t"
  "resolve_verdict fcf t = Form_flagged \<longleftrightarrow> t < DJANGO_WAF_FORM_BLOCK_THRESHOLD fcf \<and> DJANGO_WAF_FORM_FLAG_THRESHOLD fcf \<le> t"
  by (auto simp: resolve_verdict_def)

lemma chain_ran:
  assumes "evaluate_chain cf fcf E S p request d names (map snd answers) tp w = (Inr res, w')"
    and "defences_ran cf fcf E S (p_form_id p) (p_config p) request d w0 answers tp w"
    and "list_all (\<lambda>x. o_verdict (snd x) \<noteq> Block) answers" and "set names \<subseteq> set CANONICAL_ORDER"
  shows "\<exists>more k. defences_ran cf fcf E S (p_form_id p) (p_config p) request d w0 (answers @ more) (fr_token_payload res) w' \<and>
     fr_outcomes res = map snd (answers @ more) \<and> fr_total_score res = aggregate_score fcf p (fr_outcomes res) \<and>
     map fst more = take k names \<and> list_all (\<lambda>x. o_verdict (snd x) \<noteq> Block) (butlast (answers @ more)) \<and>
     (if list_ex (\<lambda>x. o_verdict (snd x) = Block) more then fr_verdict res = Form_blocked
      else k = length names \<and> fr_verdict res = resolve_verdict fcf (fr_total_score res))"
  using assms
proof (induction names arbitrary: answers tp w)
  case Nil
  then show ?case by (intro exI [of _ "[]"] exI [of _ 0]) (auto simp: Let_def list_all_iff dest: in_set_butlastD)
next
  case (Cons n names)
  let ?ctx = "evaluate_context p request d tp"
  obtain r w1 where m: "defence_evaluate cf fcf E S n ?ctx w = (r, w1)" by fastforce
  define x where "x = (case r of Inl _ \<Rightarrow> passed | Inr x \<Rightarrow> x)"
  have t: "try_except (defence_evaluate cf fcf E S n ?ctx) (\<lambda>_. ret passed) w = (Inr x, w1)"
    using m by (cases r) (auto simp: x_def)
  have c: "?ctx = defence_context (p_form_id p) (p_config p) request d tp"
    by (auto simp: evaluate_context_def defence_context_def config_for_def split: option.splits)
  have dt: "map_of (defence_table cf fcf E S (defence_context (p_form_id p) (p_config p) request d tp)) n =
      Some (defence_evaluate cf fcf E S n ?ctx)"
    unfolding c using Cons.prems(4) by (intro defence_table_evaluate) simp
  note step = defences_ran.ran [OF Cons.prems(2) dt m x_def]
  show ?case
  proof (cases "o_verdict x = Block")
    case True
    with step [of tp] have "defences_ran cf fcf E S (p_form_id p) (p_config p) request d w0 (answers @ [(n, x)]) tp w1" by simp
    with Cons.prems(1,3) t True show ?thesis
      by (intro exI [of _ "[(n, x)]"] exI [of _ 1]) (auto simp: Let_def)
  next
    case False
    then obtain tp' where tp': "evaluate_chain cf fcf E S p request d names (map snd (answers @ [(n, x)])) tp' w1 = (Inr res, w')"
      "Inr tp' = (if n = ''render_token'' \<and> tp = None then parse_submitted_payload cf E S d else Inr tp)"
      using Cons.prems(1) t by (auto simp: Let_def split: if_splits sum.splits)
    have "defences_ran cf fcf E S (p_form_id p) (p_config p) request d w0 (answers @ [(n, x)]) tp' w1"
      by (rule step) (use False tp'(2) in simp)
    from Cons.IH [OF tp'(1) this] Cons.prems(3,4) False obtain more k where
      "defences_ran cf fcf E S (p_form_id p) (p_config p) request d w0 ((answers @ [(n, x)]) @ more) (fr_token_payload res) w'"
      "fr_outcomes res = map snd ((answers @ [(n, x)]) @ more)" "fr_total_score res = aggregate_score fcf p (fr_outcomes res)"
      "map fst more = take k names" "list_all (\<lambda>x. o_verdict (snd x) \<noteq> Block) (butlast ((answers @ [(n, x)]) @ more))"
      "if list_ex (\<lambda>x. o_verdict (snd x) = Block) more then fr_verdict res = Form_blocked
       else k = length names \<and> fr_verdict res = resolve_verdict fcf (fr_total_score res)" by auto
    with False show ?thesis by (intro exI [of _ "(n, x) # more"] exI [of _ "Suc k"]) auto
  qed
qed

lemma active_names_eq:
  assumes "FormProtection_init f ds ws sk c = Inr p"
  shows "active_names p request = filter (\<lambda>n. n \<in> set ds \<and> (n = ''render_token'' \<or> \<not> (sk \<and> is_authenticated_request request))) CANONICAL_ORDER"
proof -
  from assms have "p_defence_names p = filter (\<lambda>n. n \<in> set ds) CANONICAL_ORDER" "p_skip_for_authenticated p = sk"
    by (auto simp: FormProtection_init_def order_defences_def split: if_splits)
  then show ?thesis unfolding active_names_def by (simp add: conj_commute)
qed

lemma chain_verdict:
  assumes init: "FormProtection_init f ds ws sk c = Inr p" and en: "DJANGO_WAF_FORM_PROTECTION_ENABLED fcf"
    and ev: "evaluate cf fcf E S p request d w = (Inr res, w')"
    and names: "names = filter (\<lambda>n. n \<in> set ds \<and> (n = ''render_token'' \<or> \<not> (sk \<and> is_authenticated_request request))) CANONICAL_ORDER"
  shows "\<exists>answers. defences_ran cf fcf E S f c request d w answers (fr_token_payload res) w' \<and>
     fr_outcomes res = map snd answers \<and> map fst answers = take (length answers) names \<and>
     fr_total_score res = (\<Sum>x\<leftarrow>answers. points ws (DJANGO_WAF_FORM_DEFENCE_WEIGHTS fcf) x) \<and>
     list_all (\<lambda>x. o_verdict (snd x) \<noteq> Block) (butlast answers) \<and>
     (if answers \<noteq> [] \<and> o_verdict (snd (last answers)) = Block then fr_verdict res = Form_blocked
      else length answers = length names \<and>
        (fr_verdict res = Form_blocked \<longleftrightarrow> DJANGO_WAF_FORM_BLOCK_THRESHOLD fcf \<le> fr_total_score res) \<and>
        (fr_verdict res = Form_flagged \<longleftrightarrow> fr_total_score res < DJANGO_WAF_FORM_BLOCK_THRESHOLD fcf \<and>
           DJANGO_WAF_FORM_FLAG_THRESHOLD fcf \<le> fr_total_score res))"
proof -
  have p: "p_form_id p = f" "p_config p = c" "p_weights p = ws" using init by (auto simp: FormProtection_init_def split: if_splits)
  have n: "active_names p request = names" unfolding names by (rule active_names_eq [OF init])
  have sub: "set names \<subseteq> set CANONICAL_ORDER" unfolding names by auto
  from ev en n have "evaluate_chain cf fcf E S p request d names (map snd []) None w = (Inr res, w')" by (simp add: evaluate_def)
  from chain_ran [OF this defences_ran.none _ sub] p obtain answers k where ran:
    "defences_ran cf fcf E S f c request d w answers (fr_token_payload res) w'" "fr_outcomes res = map snd answers"
    "fr_total_score res = aggregate_score fcf p (fr_outcomes res)" "map fst answers = take k names"
    "list_all (\<lambda>x. o_verdict (snd x) \<noteq> Block) (butlast answers)"
    "if list_ex (\<lambda>x. o_verdict (snd x) = Block) answers then fr_verdict res = Form_blocked
     else k = length names \<and> fr_verdict res = resolve_verdict fcf (fr_total_score res)" by auto
  have len: "map fst answers = take (length answers) names" using ran(4) by (metis length_map length_take min.cobounded2 take_all_iff min_def)
  obtain j where "names = take j (p_defence_names p)" using active_names_prefix [OF init, of request] n by auto
  then have "map fst answers = take (length answers) (p_defence_names p)"
    using len by (metis length_map min.absorb1 length_take min.cobounded1 take_take)
  from aggregate_points [OF this, of fcf] ran(2,3) p have
    tot: "fr_total_score res = (\<Sum>x\<leftarrow>answers. points ws (DJANGO_WAF_FORM_DEFENCE_WEIGHTS fcf) x)" by simp
  have "list_ex (\<lambda>x. o_verdict (snd x) = Block) answers \<longleftrightarrow> answers \<noteq> [] \<and> o_verdict (snd (last answers)) = Block"
    using ran(5) by (cases answers rule: rev_cases) (auto simp: list_ex_iff list_all_iff)
  with ran len tot show ?thesis
    by (intro exI [of _ answers]) (auto simp: resolve_verdict_iff min_def dest: arg_cong [of _ _ length] split: if_splits)
qed

section \<open>Markers in a working Redis\<close>

lemma marker_reads:
  assumes "redis_up C store_of"
  shows "\<exists>r'. marker_exists C nonce r = (Inr (live (store_of r) (marker_key nonce) \<noteq> None), r') \<and> store_of r' = store_of r"
proof -
  let ?rep = "IntR (if live (store_of r) (marker_key nonce) = None then 0 else 1)"
  have "run_cmd (EXISTS (marker_key nonce)) (store_of r) = (?rep, store_of r)" by simp
  from redis_up.up_call [OF assms this] obtain r' where
    r': "r_call C (EXISTS (marker_key nonce)) r = (Inr ?rep, r')" "store_of r' = store_of r" by auto
  then show ?thesis by (intro exI [of _ r']) (auto simp: marker_exists_def r_int_def andThen_def)
qed

definition form_ready :: "'r env \<Rightarrow> ('r \<Rightarrow> store) \<Rightarrow> bool" where
  "form_ready E store_of = (redis_up (redis E) store_of \<and> backend E = Redis_backend)"

lemma with_client_marker:
  assumes "form_ready E store_of"
  shows "\<exists>r'. try_except (with_client E (\<lambda>C. marker_exists C nonce)) (\<lambda>_. ret True) w =
     (Inr (live (store_of (server w)) (marker_key nonce) \<noteq> None), w\<lparr>server := r'\<rparr>) \<and> store_of r' = store_of (server w)"
proof -
  from assms have up: "redis_up (redis E) store_of" and b: "get_redis_client E = Some (redis E)"
    by (simp_all add: form_ready_def get_redis_client_def)
  from marker_reads [OF up, of nonce "server w"] obtain r' where
    r': "marker_exists (redis E) nonce (server w) = (Inr (live (store_of (server w)) (marker_key nonce) \<noteq> None), r')"
      "store_of r' = store_of (server w)" by blast
  have "with_client E (\<lambda>C. marker_exists C nonce) w =
      (Inr (live (store_of (server w)) (marker_key nonce) \<noteq> None), w\<lparr>server := r'\<rparr>)"
    using b r'(1) by (simp add: with_client_def)
  with r'(2) show ?thesis by (intro exI [of _ r']) simp
qed

lemma consume_removes:
  assumes "form_ready E store_of"
  shows "\<exists>r'. consume_token_marker E (Some p) w = (Inr (), w\<lparr>server := r'\<rparr>) \<and> store_of r' = remove (marker_key (tp_nonce p)) (store_of (server w))"
proof -
  from assms have up: "redis_up (redis E) store_of" and b: "get_redis_client E = Some (redis E)"
    by (simp_all add: form_ready_def get_redis_client_def)
  from redis_up.up_exec [OF up, of "DEL (marker_key (tp_nonce p))" "server w"] obtain r' where
    r': "r_exec (redis E) (DEL (marker_key (tp_nonce p))) (server w) = (Inr (), r')"
      "store_of r' = remove (marker_key (tp_nonce p)) (store_of (server w))" by auto
  then have "with_client E (\<lambda>C. consume_marker C (tp_nonce p)) w = (Inr (), w\<lparr>server := r'\<rparr>)"
    using b by (simp add: with_client_def consume_marker_def)
  with r'(2) show ?thesis by (intro exI [of _ r']) (simp add: consume_token_marker_def swallow_apply)
qed

text \<open>The judgement on a verified token in a working Redis.\<close>

definition token_outcome :: "conf \<Rightarrow> form_conf \<Rightarrow> 'r env \<Rightarrow> EvaluateContext \<Rightarrow> bool \<Rightarrow> TokenPayload \<Rightarrow> Outcome" where
  "token_outcome cf fcf E ctx present payload =
     (let ttl = cfg_get (cfg_token_ttl (ec_config ctx)) (DJANGO_WAF_FORM_TOKEN_TTL fcf); age = time_now E - tp_render_time payload in
      if of_int ttl < age then blocked ''render_token:expired'' 5
      else if \<not> present \<and> MARKER_GRACE_SECONDS < age then blocked ''render_token:replayed'' 5
      else if tp_ip payload \<noteq> [] \<and> tp_ip payload \<noteq> resolve_client_ip cf (ec_request ctx)
      then flagged 3 ''render_token:ip_changed'' else passed)"

lemma render_token_verified:
  assumes "form_ready E store_of" and "dget (ec_submitted_data ctx) TOKEN_FIELD_NAME [] = token" and "token \<noteq> []"
    and "verify_token cf E S token = Inr payload"
  shows "\<exists>r'. render_token_evaluate cf fcf E S ctx w =
     (Inr (token_outcome cf fcf E ctx (live (store_of (server w)) (marker_key (tp_nonce payload)) \<noteq> None) payload), w\<lparr>server := r'\<rparr>) \<and>
     store_of r' = store_of (server w)"
proof -
  let ?ttl = "cfg_get (cfg_token_ttl (ec_config ctx)) (DJANGO_WAF_FORM_TOKEN_TTL fcf)"
  have exp: "tp_render_time payload + of_int ?ttl < time_now E \<longleftrightarrow> of_int ?ttl < time_now E - tp_render_time payload" by linarith
  from with_client_marker [OF assms(1), of "tp_nonce payload" w] obtain r' where
    r': "try_except (with_client E (\<lambda>C. marker_exists C (tp_nonce payload))) (\<lambda>_. ret True) w =
      (Inr (live (store_of (server w)) (marker_key (tp_nonce payload)) \<noteq> None), w\<lparr>server := r'\<rparr>)" "store_of r' = store_of (server w)" by blast
  show ?thesis
  proof (cases "of_int ?ttl < time_now E - tp_render_time payload")
    case True
    then show ?thesis using assms(2,3,4) by (intro exI [of _ "server w"]) (simp add: render_token_evaluate_def token_outcome_def exp)
  next
    case False
    then show ?thesis using assms(2,3,4) r'
      by (intro exI [of _ r']) (simp add: render_token_evaluate_def token_outcome_def exp Let_def)
  qed
qed

section \<open>Submissions with a genuine token\<close>

lemma issued_verifies:
  assumes "token_format cf E S" and "issue_token cf (E\<lparr>time_now := t0\<rparr>) S fresh f ip uid ua None None = (token, payload)"
    and "payload_ok E payload"
  shows "verify_token cf E S token = Inr payload" and "token \<noteq> []"
    and "payload = \<lparr>tp_form_id = f, tp_ip = ip, tp_user_id = uid, tp_render_time = t0, tp_nonce = fresh, tp_ua_hash = hash_user_agent E ua\<rparr>"
proof -
  from assms(2) have p: "payload = \<lparr>tp_form_id = f, tp_ip = ip, tp_user_id = uid, tp_render_time = t0, tp_nonce = fresh, tp_ua_hash = hash_user_agent E ua\<rparr>"
    and t: "token = b64_token (seal (token_sign cf S) (utf8 (TokenPayload_encode E payload)))"
    by (auto simp: issue_token_def Let_def hash_user_agent_def TokenPayload_encode_def)
  show "payload = \<lparr>tp_form_id = f, tp_ip = ip, tp_user_id = uid, tp_render_time = t0, tp_nonce = fresh, tp_ua_hash = hash_user_agent E ua\<rparr>" by (rule p)
  show "verify_token cf E S token = Inr payload"
    unfolding t token_format.verify_sealed [OF assms(1)] by (rule token_format.decode_encode [OF assms(1,3)])
  show "token \<noteq> []" unfolding t by (simp add: b64_token_Nil seal_def)
qed

lemma chain_token_step:
  assumes "form_ready E store_of" and "dget d TOKEN_FIELD_NAME [] = token" and "token \<noteq> []"
    and "verify_token cf E S token = Inr payload"
    and x: "x = token_outcome cf fcf E (evaluate_context p request d None) (live (store_of (server w)) (marker_key (tp_nonce payload)) \<noteq> None) payload"
  shows "\<exists>r'. store_of r' = store_of (server w) \<and>
     evaluate_chain cf fcf E S p request d (''render_token'' # names) [] None w =
     (if o_verdict x = Block
      then (Inr \<lparr>fr_verdict = Form_blocked, fr_total_score = aggregate_score fcf p [x], fr_outcomes = [x], fr_token_payload = None\<rparr>, w\<lparr>server := r'\<rparr>)
      else evaluate_chain cf fcf E S p request d names [x] (Some payload) (w\<lparr>server := r'\<rparr>))"
proof -
  have d: "dget (ec_submitted_data (evaluate_context p request d None)) TOKEN_FIELD_NAME [] = token"
    using assms(2) by (simp add: evaluate_context_def)
  from render_token_verified [OF assms(1) d assms(3,4), of fcf w] obtain r' where
    r': "render_token_evaluate cf fcf E S (evaluate_context p request d None) w = (Inr x, w\<lparr>server := r'\<rparr>)"
      "store_of r' = store_of (server w)" unfolding x by blast
  have "parse_submitted_payload cf E S d = Inr (Some payload)"
    using assms(2,3,4) by (simp add: parse_submitted_payload_def)
  with r' show ?thesis by (intro exI [of _ r']) (simp add: defence_evaluate_def Let_def)
qed

lemma chain_all_pass:
  assumes "\<And>n w. n \<in> set names \<Longrightarrow> n \<noteq> ''render_token'' \<and> defence_evaluate cf fcf E S n (evaluate_context p request d (Some tp)) w = (Inr passed, w)"
  shows "evaluate_chain cf fcf E S p request d names outs (Some tp) w =
     (let total = aggregate_score fcf p (outs @ replicate (length names) passed)
      in (Inr \<lparr>fr_verdict = resolve_verdict fcf total, fr_total_score = total, fr_outcomes = outs @ replicate (length names) passed,
            fr_token_payload = Some tp\<rparr>, w))"
  using assms
proof (induction names arbitrary: outs)
  case (Cons n names)
  then have "n \<noteq> ''render_token''" "defence_evaluate cf fcf E S n (evaluate_context p request d (Some tp)) w = (Inr passed, w)" by auto
  moreover have "replicate (length (n # names)) passed = passed # replicate (length names) passed" by simp
  ultimately show ?case using Cons.IH [of "outs @ [passed]"] Cons.prems by (simp del: replicate.simps)
qed (simp add: Let_def)

lemma weight_passed [simp]: "outcome_weight fcf p name passed = 0"
  by (simp add: outcome_weight_def)

lemma sum_passed: "sum_list (map (\<lambda>(outcome, name). outcome_weight fcf p name outcome) (zip (replicate n passed) ns)) = 0"
proof (induction n arbitrary: ns)
  case (Suc n)
  then show ?case by (cases ns) simp_all
qed simp

lemma aggregate_passed: "aggregate_score fcf p (replicate n passed) = 0"
  by (simp add: aggregate_score_def sum_passed)

lemma aggregate_first: "p_defence_names p = n # ns \<Longrightarrow> aggregate_score fcf p (x # replicate k passed) = outcome_weight fcf p n x"
  by (simp add: aggregate_score_def sum_passed)

text \<open>When the defences that look only at the submission have nothing to object to.\<close>

definition quiet :: "form_conf \<Rightarrow> 'r env \<Rightarrow> site \<Rightarrow> FormProtection \<Rightarrow> request \<Rightarrow> strdict \<Rightarrow> TokenPayload \<Rightarrow> bool" where
  "quiet fcf E S p request d payload =
     ((\<forall>n \<in> set (honeypot_names fcf S (p_form_id p) (p_config p)). dget d n [] = []) \<and>
      hash_user_agent E (user_agent_of request) = tp_ua_hash payload \<and>
      (let age = time_now E - tp_render_time payload in
        1 / 2 \<le> age \<and> cfg_get (cfg_min_fill_seconds (p_config p)) (DJANGO_WAF_FORM_TIME_TRAP_MIN_SECONDS fcf) \<le> age \<and>
        age \<le> cfg_get (cfg_max_fill_seconds (p_config p)) (DJANGO_WAF_FORM_TIME_TRAP_MAX_SECONDS fcf)))"

definition BASIC_DEFENCES :: "string list" where
  "BASIC_DEFENCES = [''render_token'', ''honeypot'', ''time_trap'', ''ua_consistency'']"

lemma quiet_defences_pass:
  assumes "quiet fcf E S p request d payload" and "n \<in> set BASIC_DEFENCES" and "n \<noteq> ''render_token''"
  shows "defence_evaluate cf fcf E S n (evaluate_context p request d (Some payload)) w = (Inr passed, w)"
proof -
  have c: "cfg_field_names (config_for p x) = cfg_field_names (p_config p)"
    "cfg_min_fill_seconds (config_for p x) = cfg_min_fill_seconds (p_config p)"
    "cfg_max_fill_seconds (config_for p x) = cfg_max_fill_seconds (p_config p)" for x
    by (simp_all add: config_for_def split: option.splits)
  have h: "honeypot_names fcf S (p_form_id p) (config_for p x) = honeypot_names fcf S (p_form_id p) (p_config p)" for x
    by (simp add: honeypot_names_def c)
  have f: "find (\<lambda>n. dget d n [] \<noteq> []) (honeypot_names fcf S (p_form_id p) (p_config p)) = None"
    using assms(1) by (simp add: quiet_def find_None_iff)
  note defs = defence_evaluate_def evaluate_context_def c h Let_def
  from assms(2,3) consider "n = ''honeypot''" | "n = ''time_trap''" | "n = ''ua_consistency''"
    by (auto simp: BASIC_DEFENCES_def)
  then show ?thesis
  proof cases
    case 1
    then show ?thesis using f by (simp add: defs honeypot_evaluate_def)
  next
    case 2
    then show ?thesis using assms(1) by (simp add: defs time_trap_evaluate_def quiet_def TOO_FAST_THRESHOLD_SECONDS_def)
  next
    case 3
    then show ?thesis using assms(1) by (simp add: defs ua_consistency_evaluate_def quiet_def)
  qed
qed

text \<open>A submission with a genuine token whose other defences are quiet gets the judgement on its
  token.\<close>

lemma quiet_submission:
  assumes "form_ready E store_of" and "DJANGO_WAF_FORM_PROTECTION_ENABLED fcf"
    and init: "FormProtection_init f ds ws sk c = Inr p" and ds: "''render_token'' \<in> set ds" "set ds \<subseteq> set BASIC_DEFENCES"
    and tok: "dget d TOKEN_FIELD_NAME [] = token" "token \<noteq> []" "verify_token cf E S token = Inr payload"
    and q: "quiet fcf E S p request d payload"
    and x: "x = token_outcome cf fcf E (evaluate_context p request d None) (live (store_of (server w)) (marker_key (tp_nonce payload)) \<noteq> None) payload"
  shows "\<exists>r' k. store_of r' = store_of (server w) \<and> evaluate cf fcf E S p request d w =
     (Inr (if o_verdict x = Block
       then \<lparr>fr_verdict = Form_blocked, fr_total_score = outcome_weight fcf p ''render_token'' x, fr_outcomes = [x], fr_token_payload = None\<rparr>
       else \<lparr>fr_verdict = resolve_verdict fcf (outcome_weight fcf p ''render_token'' x), fr_total_score = outcome_weight fcf p ''render_token'' x,
          fr_outcomes = x # replicate k passed, fr_token_payload = Some payload\<rparr>), w\<lparr>server := r'\<rparr>)"
proof -
  obtain rest where o: "order_defences ds = ''render_token'' # rest" "''render_token'' \<notin> set rest"
    using order_defences_token [OF ds(1)] by blast
  have n: "p_defence_names p = ''render_token'' # rest" using init_names [OF init] o by simp
  obtain names where a: "active_names p request = ''render_token'' # names" "set names \<subseteq> set rest"
    using active_names_token [OF n o(2)] .
  have sub: "set names \<subseteq> set BASIC_DEFENCES - {''render_token''}"
    using a(2) o ds(2) order_defences_set [of ds] by auto
  from chain_token_step [OF assms(1) tok x, of names] obtain r' where r': "store_of r' = store_of (server w)"
    "evaluate_chain cf fcf E S p request d (''render_token'' # names) [] None w =
     (if o_verdict x = Block
      then (Inr \<lparr>fr_verdict = Form_blocked, fr_total_score = aggregate_score fcf p [x], fr_outcomes = [x], fr_token_payload = None\<rparr>, w\<lparr>server := r'\<rparr>)
      else evaluate_chain cf fcf E S p request d names [x] (Some payload) (w\<lparr>server := r'\<rparr>))" by blast
  have rest: "evaluate_chain cf fcf E S p request d names [x] (Some payload) w1 =
      (Inr \<lparr>fr_verdict = resolve_verdict fcf (outcome_weight fcf p ''render_token'' x), fr_total_score = outcome_weight fcf p ''render_token'' x,
          fr_outcomes = x # replicate (length names) passed, fr_token_payload = Some payload\<rparr>, w1)" for w1
    using chain_all_pass [of names cf fcf E S p request d payload "[x]" w1] quiet_defences_pass [OF q] sub aggregate_first [OF n]
    by (auto simp: Let_def)
  have "aggregate_score fcf p [x] = outcome_weight fcf p ''render_token'' x" using aggregate_first [OF n, of fcf x 0] by simp
  with r' assms(2) a(1) rest show ?thesis
    by (intro exI [of _ r'] exI [of _ "length names"]) (simp add: evaluate_def)
qed

section \<open>Failed logins in a working Redis\<close>

definition counter_value :: "store \<Rightarrow> string \<Rightarrow> int option" where
  "counter_value s k = (case live s k of None \<Rightarrow> Some 0 | Some (RStr v) \<Rightarrow> py_int v | Some _ \<Rightarrow> None)"

lemma incr_counter:
  assumes "counter_value s k = Some n"
  shows "run_cmd (INCR k) s = (IntR (n + 1), rewrite k (RStr (str_int (n + 1))) s)"
  using assms by (auto simp: counter_value_def split: option.splits rval.splits)

lemma counter_value_put: "counter_value (put k (RStr (str_int n)) (Some t) s) j = (if j = k then (if clock s < t then Some n else Some 0) else counter_value s j)"
  by (simp add: counter_value_def live_put)

lemma counter_value_rewrite: "counter_value (rewrite k (RStr (str_int n)) s) j = (if j = k then Some n else counter_value s j)"
  by (simp add: counter_value_def)

lemma cred_keys: "cred_account_key E i \<noteq> cred_ip_key ip" "cred_ip_key ip \<noteq> cred_account_key E i"
  by (auto simp: cred_account_key_def cred_ip_key_def)

lemma two_counters:
  assumes "counter_value s a = Some n" and "counter_value s b = Some m" and "a \<noteq> b" and "0 < ttl"
  shows "\<exists>s'. run_cmds [INCR a, EXPIRE a ttl, INCR b, EXPIRE b ttl] s = ([IntR (n + 1), IntR 1, IntR (m + 1), IntR 1], s') \<and>
     counter_value s' a = Some (n + 1) \<and> counter_value s' b = Some (m + 1)"
proof -
  define s1 where "s1 = rewrite a (RStr (str_int (n + 1))) s"
  define s2 where "s2 = put a (RStr (str_int (n + 1))) (Some (clock s1 + of_int ttl)) s1"
  have 1: "run_cmd (INCR a) s = (IntR (n + 1), s1)" using incr_counter [OF assms(1)] by (simp add: s1_def)
  have 2: "run_cmd (EXPIRE a ttl) s1 = (IntR 1, s2)" using assms(4) by (simp add: s1_def s2_def)
  have b: "counter_value s2 b = Some m" using assms(2,3) by (simp add: s2_def s1_def counter_value_put counter_value_rewrite)
  define s3 where "s3 = rewrite b (RStr (str_int (m + 1))) s2"
  define s4 where "s4 = put b (RStr (str_int (m + 1))) (Some (clock s3 + of_int ttl)) s3"
  have 3: "run_cmd (INCR b) s2 = (IntR (m + 1), s3)" using incr_counter [OF b] by (simp add: s3_def)
  have 4: "run_cmd (EXPIRE b ttl) s3 = (IntR 1, s4)" using assms(4) by (simp add: s3_def s4_def)
  have "counter_value s4 a = Some (n + 1)" "counter_value s4 b = Some (m + 1)"
    using assms(3,4) by (simp_all add: s4_def s3_def s2_def counter_value_put counter_value_rewrite)
  then show ?thesis by (intro exI [of _ s4]) (simp del: run_cmd.simps add: 1 2 3 4)
qed

definition attack_observed :: "form_conf \<Rightarrow> 'r env \<Rightarrow> string \<Rightarrow> string \<Rightarrow> signal" where
  "attack_observed fcf E identifier ip = Credential_attack_observed (hash_identifier E identifier)
     (DJANGO_WAF_FORM_CREDENTIAL_THROTTLE_LIMIT fcf) (DJANGO_WAF_FORM_CREDENTIAL_THROTTLE_WINDOW fcf) ip"

lemma record_failure_counts:
  assumes "form_ready E store_of" and "identifier \<noteq> []" and ip: "ip = resolve_client_ip cf request" "ip \<noteq> []"
    and "0 < DJANGO_WAF_FORM_CREDENTIAL_THROTTLE_WINDOW fcf"
    and n: "counter_value (store_of (server w)) (cred_account_key E identifier) = Some (int n)"
    and m: "counter_value (store_of (server w)) (cred_ip_key ip) = Some m"
  shows "\<exists>w'. waf_record_credential_failure cf fcf E request identifier w = (Inr (int n + 1, m + 1), w') \<and>
     counter_value (store_of (server w')) (cred_account_key E identifier) = Some (int (Suc n)) \<and>
     counter_value (store_of (server w')) (cred_ip_key ip) = Some (m + 1) \<and>
     signals w' = signals w @ (if int (Suc n) = DJANGO_WAF_FORM_CREDENTIAL_THROTTLE_LIMIT fcf then [attack_observed fcf E identifier ip] else [])"
proof -
  let ?w = "DJANGO_WAF_FORM_CREDENTIAL_THROTTLE_WINDOW fcf"
  let ?cs = "[INCR (cred_account_key E identifier), EXPIRE (cred_account_key E identifier) ?w, INCR (cred_ip_key ip), EXPIRE (cred_ip_key ip) ?w]"
  from two_counters [OF n m cred_keys(1) assms(5)] obtain s' where s': "run_cmds ?cs (store_of (server w)) = ([IntR (int n + 1), IntR 1, IntR (m + 1), IntR 1], s')"
    "counter_value s' (cred_account_key E identifier) = Some (int n + 1)" "counter_value s' (cred_ip_key ip) = Some (m + 1)" by blast
  from assms(1) have up: "redis_up (redis E) store_of" and b: "get_redis_client E = Some (redis E)"
    by (simp_all add: form_ready_def get_redis_client_def)
  from redis_up.up_run [OF up s'(1)] obtain r' where r': "redis E ?cs (server w) = (Inr [IntR (int n + 1), IntR 1, IntR (m + 1), IntR 1], r')" "store_of r' = s'"
    by auto
  have rec: "on_redis (record_credential_failure E (redis E) identifier ip ?w) w = (Inr (int n + 1, m + 1), w\<lparr>server := r'\<rparr>)"
    using assms(2) ip(2) r'(1) by (simp add: on_redis_def record_credential_failure_def pipeline_def reply_int_def Let_def)
  show ?thesis
  proof (cases "int (Suc n) = DJANGO_WAF_FORM_CREDENTIAL_THROTTLE_LIMIT fcf")
    case True
    then show ?thesis using rec b assms(2) ip s'(2,3) r'(2)
      by (simp add: waf_record_credential_failure_def swallow_apply send_def Let_def attack_observed_def)
  next
    case False
    then show ?thesis using rec b assms(2) ip s'(2,3) r'(2) by (simp add: waf_record_credential_failure_def Let_def)
  qed
qed

section \<open>Theorems\<close>

text \<open>
  C14. The verdict of a form is what its defences add up to. An evaluation that returns has run the
  configured defences in the canonical order (only \<open>render_token\<close> for a signed-in user of a form that
  skips them), each outcome of the result being what the defence of that name answered in the world
  the defences before it left. A blocking outcome ends the chain and makes the verdict "blocked";
  without one every defence ran, and the verdict is "blocked" when the total reaches the block
  threshold, "flagged" when it reaches the flag threshold only, "passed" otherwise. The total is
  the sum over the outcomes that did not pass of the form's weight for the defence, else the site's,
  else the score of the outcome.
\<close>

theorem form_verdict_is_aggregate:
  assumes "FormProtection_init f ds ws sk c = Inr p" and "DJANGO_WAF_FORM_PROTECTION_ENABLED fcf"
    and "evaluate cf fcf E S p request d w = (Inr res, w')"
    and "names = filter (\<lambda>n. n \<in> set ds \<and> (n = ''render_token'' \<or> \<not> (sk \<and> is_authenticated_request request))) CANONICAL_ORDER"
  shows "\<exists>answers. defences_ran cf fcf E S f c request d w answers (fr_token_payload res) w' \<and>
     fr_outcomes res = map snd answers \<and> map fst answers = take (length answers) names \<and>
     fr_total_score res = (\<Sum>x\<leftarrow>answers. points ws (DJANGO_WAF_FORM_DEFENCE_WEIGHTS fcf) x) \<and>
     list_all (\<lambda>x. o_verdict (snd x) \<noteq> Block) (butlast answers) \<and>
     (if answers \<noteq> [] \<and> o_verdict (snd (last answers)) = Block then fr_verdict res = Form_blocked
      else length answers = length names \<and>
        (fr_verdict res = Form_blocked \<longleftrightarrow> DJANGO_WAF_FORM_BLOCK_THRESHOLD fcf \<le> fr_total_score res) \<and>
        (fr_verdict res = Form_flagged \<longleftrightarrow> fr_total_score res < DJANGO_WAF_FORM_BLOCK_THRESHOLD fcf \<and>
           DJANGO_WAF_FORM_FLAG_THRESHOLD fcf \<le> fr_total_score res))"
  by (rule chain_verdict [OF assms])

definition empty_config :: form_config where
  "empty_config = \<lparr>cfg_token_ttl = None, cfg_field_names = None, cfg_min_fill_seconds = None, cfg_max_fill_seconds = None,
     cfg_ip_limit = None, cfg_limit = None, cfg_difficulty = None, cfg_token_nonce = None\<rparr>"

definition contact_form :: FormProtection where
  "contact_form = \<lparr>p_form_id = ''contact'', p_raw_defence_names = [''honeypot'', ''time_trap'', ''render_token''],
     p_defence_names = [''render_token'', ''honeypot'', ''time_trap''], p_weights = [], p_skip_for_authenticated = False,
     p_config = empty_config\<rparr>"

lemma contact_form_init:
  "FormProtection_init ''contact'' [''honeypot'', ''time_trap'', ''render_token''] [] False empty_config = Inr contact_form"
  by (simp add: FormProtection_init_def order_defences_def CANONICAL_ORDER_def contact_form_def)

theorem form_verdict_is_aggregate_witness:
  "\<exists>res w' answers. evaluate default_conf default_form_conf demo_env demo_site contact_form example_request [] empty_world = (Inr res, w') \<and>
     fr_verdict res = Form_blocked \<and>
     defences_ran default_conf default_form_conf demo_env demo_site ''contact'' empty_config example_request [] empty_world
       answers (fr_token_payload res) w' \<and> fr_outcomes res = map snd answers \<and> map fst answers = [''render_token'']"
proof -
  have en: "DJANGO_WAF_FORM_PROTECTION_ENABLED default_form_conf" by (simp add: default_form_conf_def)
  obtain res where res: "evaluate default_conf default_form_conf demo_env demo_site contact_form example_request [] empty_world = (Inr res, empty_world)"
    "fr_verdict res = Form_blocked" "length (fr_outcomes res) = 1"
    using en by (simp add: evaluate_def active_names_def contact_form_def defence_evaluate_def render_token_evaluate_def evaluate_context_def dget_def Let_def)
  from form_verdict_is_aggregate [OF contact_form_init en res(1) refl] obtain answers where
    "defences_ran default_conf default_form_conf demo_env demo_site ''contact'' empty_config example_request [] empty_world
       answers (fr_token_payload res) empty_world" "fr_outcomes res = map snd answers"
    "map fst answers = take (length answers) (filter (\<lambda>n. n \<in> set [''honeypot'', ''time_trap'', ''render_token''] \<and>
       (n = ''render_token'' \<or> \<not> (False \<and> is_authenticated_request example_request))) CANONICAL_ORDER)" by blast
  with res show ?thesis by (auto simp: CANONICAL_ORDER_def)
qed

text \<open>
  C12. An honest submission passes: a visitor who gets a form's token, fills the form in a plausible
  time, leaves the hidden fields empty and submits from the same address with the same browser is
  let through with score zero, whichever of the four token-based defences the form uses, and the
  evaluation leaves the store as it was, so the token stays unspent until the form is accepted.
\<close>

theorem honest_submission_passes:
  assumes "token_format cf E S" and "form_ready E store_of" and "DJANGO_WAF_FORM_PROTECTION_ENABLED fcf"
    and "0 < DJANGO_WAF_FORM_FLAG_THRESHOLD fcf" and "0 < DJANGO_WAF_FORM_BLOCK_THRESHOLD fcf"
    and "FormProtection_init form_id ds ws sk c = Inr p" and "''render_token'' \<in> set ds" and "set ds \<subseteq> set BASIC_DEFENCES"
    and "issue_token cf (E\<lparr>time_now := t0\<rparr>) S fresh form_id (resolve_client_ip cf request) uid (user_agent_of request) None None = (token, payload)"
    and "payload_ok E payload" and "dget d ''waf_token'' [] = token"
    and "live (store_of (server w)) (marker_key fresh) \<noteq> None"
    and "quiet fcf E S p request d payload"
    and "time_now E - t0 \<le> of_int (cfg_get (cfg_token_ttl (p_config p)) (DJANGO_WAF_FORM_TOKEN_TTL fcf))"
  shows "\<exists>r' k. store_of r' = store_of (server w) \<and> evaluate cf fcf E S p request d w =
     (Inr \<lparr>fr_verdict = Form_passed, fr_total_score = 0, fr_outcomes = replicate k passed, fr_token_payload = Some payload\<rparr>, w\<lparr>server := r'\<rparr>)"
proof -
  note iss = issued_verifies [OF assms(1,9,10)]
  have tok: "dget d TOKEN_FIELD_NAME [] = token" using assms(11) by (simp add: TOKEN_FIELD_NAME_def)
  let ?x = "token_outcome cf fcf E (evaluate_context p request d None) (live (store_of (server w)) (marker_key (tp_nonce payload)) \<noteq> None) payload"
  have x: "?x = passed"
    using assms(12,14) iss(3) by (auto simp: token_outcome_def evaluate_context_def config_for_def Let_def)
  have v: "resolve_verdict fcf 0 = Form_passed" using assms(4,5) by (simp add: resolve_verdict_def)
  from quiet_submission [OF assms(2,3,6,7,8) tok iss(2,1) assms(13) x [symmetric]] obtain r' k where
    "store_of r' = store_of (server w)" "evaluate cf fcf E S p request d w = (Inr \<lparr>fr_verdict = Form_passed, fr_total_score = 0,
      fr_outcomes = passed # replicate k passed, fr_token_payload = Some payload\<rparr>, w\<lparr>server := r'\<rparr>)"
    using v by auto
  then show ?thesis by (intro exI [of _ r'] exI [of _ "Suc k"]) simp
qed

text \<open>A concrete submission: the token was rendered ten seconds ago.\<close>

definition demo_payload :: TokenPayload where
  "demo_payload = \<lparr>tp_form_id = ''contact'', tp_ip = ''10.0.0.1'', tp_user_id = [], tp_render_time = 990, tp_nonce = ''n1'', tp_ua_hash = []\<rparr>"

definition demo_token :: "string \<Rightarrow> string" where
  "demo_token f = b64_token (seal (token_sign default_conf demo_site) (utf8 (TokenPayload_encode demo_env (demo_payload\<lparr>tp_form_id := f\<rparr>))))"

definition marked_world :: "store world" where
  "marked_world = empty_world\<lparr>server := put (marker_key ''n1'') (RStr ''1'') (Some 3600) fresh_store\<rparr>"

lemma demo_request_facts [simp]:
  "resolve_client_ip default_conf example_request = ''10.0.0.1''" "user_agent_of example_request = []"
  by (simp_all add: example_request_def user_agent_of_def default_conf_def resolve_client_ip_def is_trusted_proxy_def dget_def Let_def
      split: option.splits)

lemma demo_env_facts [simp]: "sha256 demo_env = (\<lambda>s. s)" "time_now demo_env = 1000" "isoformat demo_env = demo_isoformat"
  by (simp_all add: demo_env_def)

lemma demo_issue:
  "issue_token default_conf (demo_env\<lparr>time_now := 990\<rparr>) demo_site ''n1'' f ''10.0.0.1'' [] [] None None = (demo_token f, demo_payload\<lparr>tp_form_id := f\<rparr>)"
  by (simp add: issue_token_def demo_token_def demo_payload_def hash_user_agent_def Let_def TokenPayload_encode_def)

lemma demo_payload_ok: "BAR \<notin> set f \<Longrightarrow> payload_ok demo_env (demo_payload\<lparr>tp_form_id := f\<rparr>)"
proof -
  have "demo_isoformat 990 = ''990/1''" by code_simp
  then show "BAR \<notin> set f \<Longrightarrow> payload_ok demo_env (demo_payload\<lparr>tp_form_id := f\<rparr>)"
    by (simp add: payload_ok_def demo_payload_def BAR_def)
qed

lemma demo_form_ready: "form_ready demo_env (\<lambda>s. s)"
  by (simp add: form_ready_def demo_env_def mem.redis_up_axioms)

lemma demo_marked: "live (server marked_world) (marker_key ''n1'') \<noteq> None"
  by (simp add: marked_world_def live_put fresh_store_def)

lemma demo_quiet: "quiet default_form_conf demo_env demo_site contact_form example_request [(''waf_token'', t)] (demo_payload\<lparr>tp_form_id := f\<rparr>)"
proof -
  have "honeypot_names default_form_conf demo_site ''contact'' empty_config = [''url'', ''website'']" by code_simp
  then show ?thesis
    by (simp add: quiet_def contact_form_def dget_def hash_user_agent_def demo_payload_def empty_config_def cfg_get_def default_form_conf_def Let_def)
qed

lemmas demo_submission = demo_form_ready contact_form_init

theorem honest_submission_passes_witness:
  "\<exists>k w'. evaluate default_conf default_form_conf demo_env demo_site contact_form example_request [(''waf_token'', demo_token ''contact'')] marked_world =
     (Inr \<lparr>fr_verdict = Form_passed, fr_total_score = 0, fr_outcomes = replicate k passed, fr_token_payload = Some demo_payload\<rparr>, w')"
proof -
  have iss: "issue_token default_conf (demo_env\<lparr>time_now := 990\<rparr>) demo_site ''n1'' ''contact'' (resolve_client_ip default_conf example_request) []
      (user_agent_of example_request) None None = (demo_token ''contact'', demo_payload)"
    using demo_issue [of "''contact''"] by (simp add: demo_payload_def)
  have ok: "payload_ok demo_env demo_payload" using demo_payload_ok [of "''contact''"] by (simp add: demo_payload_def BAR_def)
  have q: "quiet default_form_conf demo_env demo_site contact_form example_request [(''waf_token'', demo_token ''contact'')] demo_payload"
    using demo_quiet [of _ "''contact''"] by (simp add: demo_payload_def)
  have "\<exists>r' k. r' = server marked_world \<and> evaluate default_conf default_form_conf demo_env demo_site contact_form example_request
      [(''waf_token'', demo_token ''contact'')] marked_world = (Inr \<lparr>fr_verdict = Form_passed, fr_total_score = 0,
        fr_outcomes = replicate k passed, fr_token_payload = Some demo_payload\<rparr>, marked_world\<lparr>server := r'\<rparr>)"
    by (rule honest_submission_passes [OF demo_tokens.token_format_axioms demo_form_ready _ _ _ contact_form_init _ _ iss ok _ demo_marked q])
      (simp_all add: default_form_conf_def BASIC_DEFENCES_def dget_def contact_form_def empty_config_def cfg_get_def)
  then show ?thesis by blast
qed

lemma blocked_by_token:
  assumes "form_ready E store_of" and "DJANGO_WAF_FORM_PROTECTION_ENABLED fcf"
    and init: "FormProtection_init f ds ws sk c = Inr p" and ds: "''render_token'' \<in> set ds"
    and tok: "dget d TOKEN_FIELD_NAME [] = token" "token \<noteq> []" "verify_token cf E S token = Inr payload"
    and x: "x = token_outcome cf fcf E (evaluate_context p request d None) (live (store_of (server w)) (marker_key (tp_nonce payload)) \<noteq> None) payload"
    and blk: "o_verdict x = Block"
  shows "\<exists>r'. evaluate cf fcf E S p request d w = (Inr \<lparr>fr_verdict = Form_blocked, fr_total_score = outcome_weight fcf p ''render_token'' x,
     fr_outcomes = [x], fr_token_payload = None\<rparr>, w\<lparr>server := r'\<rparr>)"
proof -
  obtain rest where o: "order_defences ds = ''render_token'' # rest" "''render_token'' \<notin> set rest"
    using order_defences_token [OF ds] by blast
  have n: "p_defence_names p = ''render_token'' # rest" using init_names [OF init] o by simp
  obtain names where a: "active_names p request = ''render_token'' # names" using active_names_token [OF n o(2)] .
  have "aggregate_score fcf p [x] = outcome_weight fcf p ''render_token'' x" using aggregate_first [OF n, of fcf x 0] by simp
  with chain_token_step [OF assms(1) tok x, of names] blk a assms(2) show ?thesis by (auto simp: evaluate_def)
qed

lemma later_env: "form_ready (E\<lparr>time_now := t\<rparr>) store_of = form_ready E store_of" "verify_token cf (E\<lparr>time_now := t\<rparr>) S = verify_token cf E S"
proof -
  have f: "fromisoformat (E\<lparr>time_now := t\<rparr>) = fromisoformat E" by simp
  have d: "TokenPayload_decode (E\<lparr>time_now := t\<rparr>) = TokenPayload_decode E" by (rule ext) (unfold TokenPayload_decode_def f, rule refl)
  show "verify_token cf (E\<lparr>time_now := t\<rparr>) S = verify_token cf E S" by (rule ext) (unfold verify_token_def d, rule refl)
qed (simp add: form_ready_def)

text \<open>
  C13. A render token is spent once: after the form was accepted and its marker consumed, the same
  token is refused as a replay from the sixth second after rendering until it expires, whoever
  submits it and with whatever other data.
\<close>

theorem spent_token_is_refused:
  assumes "token_format cf E S" and "form_ready E store_of" and "DJANGO_WAF_FORM_PROTECTION_ENABLED fcf"
    and "FormProtection_init form_id ds ws sk c = Inr p" and "''render_token'' \<in> set ds"
    and "issue_token cf (E\<lparr>time_now := t0\<rparr>) S fresh form_id ip uid ua None None = (token, payload)"
    and "payload_ok E payload" and "dget d ''waf_token'' [] = token"
    and "5 < t2 - t0" and "t2 - t0 \<le> of_int (cfg_get (cfg_token_ttl (p_config p)) (DJANGO_WAF_FORM_TOKEN_TTL fcf))"
  shows "\<exists>w'. evaluate cf fcf (E\<lparr>time_now := t2\<rparr>) S p request d (snd (consume_token_marker E (Some payload) w)) =
     (Inr \<lparr>fr_verdict = Form_blocked, fr_total_score = outcome_weight fcf p ''render_token'' (blocked ''render_token:replayed'' 5),
        fr_outcomes = [blocked ''render_token:replayed'' 5], fr_token_payload = None\<rparr>, w')"
proof -
  let ?E = "E\<lparr>time_now := t2\<rparr>"
  note iss = issued_verifies [OF assms(1,6,7)]
  have ready: "form_ready ?E store_of" and v: "verify_token cf ?E S token = Inr payload"
    using assms(2) iss(1) by (simp_all add: later_env)
  from consume_removes [OF assms(2), of payload w] obtain r' where
    r': "consume_token_marker E (Some payload) w = (Inr (), w\<lparr>server := r'\<rparr>)"
      "store_of r' = remove (marker_key (tp_nonce payload)) (store_of (server w))" by blast
  have gone: "live (store_of (server (w\<lparr>server := r'\<rparr>))) (marker_key (tp_nonce payload)) = None"
    using r'(2) by (simp add: live_remove)
  have tok: "dget d TOKEN_FIELD_NAME [] = token" using assms(8) by (simp add: TOKEN_FIELD_NAME_def)
  have x: "token_outcome cf fcf ?E (evaluate_context p request d None)
      (live (store_of (server (w\<lparr>server := r'\<rparr>))) (marker_key (tp_nonce payload)) \<noteq> None) payload = blocked ''render_token:replayed'' 5"
    unfolding gone using assms(9,10) iss(3)
    by (auto simp: token_outcome_def evaluate_context_def config_for_def MARKER_GRACE_SECONDS_def Let_def)
  from blocked_by_token [OF ready assms(3,4,5) tok iss(2) v x [symmetric]] r'(1) show ?thesis by auto
qed

theorem spent_token_is_refused_witness:
  "\<exists>w'. evaluate default_conf default_form_conf (demo_env\<lparr>time_now := 1001\<rparr>) demo_site contact_form example_request
      [(''waf_token'', demo_token ''contact'')] (snd (consume_token_marker demo_env (Some demo_payload) marked_world)) =
     (Inr \<lparr>fr_verdict = Form_blocked, fr_total_score = 5, fr_outcomes = [blocked ''render_token:replayed'' 5], fr_token_payload = None\<rparr>, w')"
proof -
  have iss: "issue_token default_conf (demo_env\<lparr>time_now := 990\<rparr>) demo_site ''n1'' ''contact'' ''10.0.0.1'' [] [] None None = (demo_token ''contact'', demo_payload)"
    using demo_issue [of "''contact''"] by (simp add: demo_payload_def)
  have ok: "payload_ok demo_env demo_payload" using demo_payload_ok [of "''contact''"] by (simp add: demo_payload_def BAR_def)
  have en: "DJANGO_WAF_FORM_PROTECTION_ENABLED default_form_conf" by (simp add: default_form_conf_def)
  have wt: "outcome_weight default_form_conf contact_form ''render_token'' (blocked ''render_token:replayed'' 5) = 5"
    by (simp add: outcome_weight_def contact_form_def default_form_conf_def)
  show ?thesis
    using spent_token_is_refused [OF demo_tokens.token_format_axioms demo_form_ready en contact_form_init _ iss ok,
      of "[(''waf_token'', demo_token ''contact'')]" 1001 example_request marked_world]
    unfolding wt by (simp add: dget_def contact_form_def empty_config_def cfg_get_def default_form_conf_def)
qed

text \<open>
  Nothing ties a render token to the form it was rendered for: a token issued for one form is
  accepted, with score zero, by every other form of the site, although the payload names the form
  and is documented as scoped to it. The same holds for the user the token names.
\<close>

theorem token_of_another_form_accepted:
  assumes "token_format cf E S" and "form_ready E store_of" and "DJANGO_WAF_FORM_PROTECTION_ENABLED fcf"
    and "0 < DJANGO_WAF_FORM_FLAG_THRESHOLD fcf" and "0 < DJANGO_WAF_FORM_BLOCK_THRESHOLD fcf"
    and "FormProtection_init form_id ds ws sk c = Inr p" and "''render_token'' \<in> set ds" and "set ds \<subseteq> set BASIC_DEFENCES"
    and "other_form \<noteq> form_id"
    and "issue_token cf (E\<lparr>time_now := t0\<rparr>) S fresh other_form (resolve_client_ip cf request) other_user (user_agent_of request) None None = (token, payload)"
    and "payload_ok E payload" and "dget d ''waf_token'' [] = token"
    and "live (store_of (server w)) (marker_key fresh) \<noteq> None"
    and "quiet fcf E S p request d payload"
    and "time_now E - t0 \<le> of_int (cfg_get (cfg_token_ttl (p_config p)) (DJANGO_WAF_FORM_TOKEN_TTL fcf))"
  shows "\<exists>res w'. evaluate cf fcf E S p request d w = (Inr res, w') \<and> fr_verdict res = Form_passed \<and> fr_total_score res = 0 \<and>
     (\<exists>tp. fr_token_payload res = Some tp \<and> tp_form_id tp = other_form \<and> tp_user_id tp = other_user)"
proof -
  note iss = issued_verifies [OF assms(1,10,11)]
  have tok: "dget d TOKEN_FIELD_NAME [] = token" using assms(12) by (simp add: TOKEN_FIELD_NAME_def)
  have x: "token_outcome cf fcf E (evaluate_context p request d None) (live (store_of (server w)) (marker_key (tp_nonce payload)) \<noteq> None) payload = passed"
    using assms(13,15) iss(3) by (auto simp: token_outcome_def evaluate_context_def config_for_def Let_def)
  have v: "resolve_verdict fcf 0 = Form_passed" using assms(4,5) by (simp add: resolve_verdict_def)
  from quiet_submission [OF assms(2,3,6,7,8) tok iss(2,1) assms(14) x [symmetric]] v iss(3) show ?thesis by auto
qed

theorem token_of_another_form_accepted_witness:
  "\<exists>res w'. evaluate default_conf default_form_conf demo_env demo_site contact_form example_request
      [(''waf_token'', demo_token ''newsletter'')] marked_world = (Inr res, w') \<and> fr_verdict res = Form_passed \<and> fr_total_score res = 0 \<and>
     (\<exists>tp. fr_token_payload res = Some tp \<and> tp_form_id tp = ''newsletter'' \<and> tp_user_id tp = [])"
proof -
  let ?p = "demo_payload\<lparr>tp_form_id := ''newsletter''\<rparr>"
  have iss: "issue_token default_conf (demo_env\<lparr>time_now := 990\<rparr>) demo_site ''n1'' ''newsletter'' (resolve_client_ip default_conf example_request) []
      (user_agent_of example_request) None None = (demo_token ''newsletter'', ?p)" using demo_issue [of "''newsletter''"] by simp
  have ok: "payload_ok demo_env ?p" by (rule demo_payload_ok) (simp add: BAR_def)
  show ?thesis
    by (rule token_of_another_form_accepted [OF demo_tokens.token_format_axioms demo_form_ready _ _ _ contact_form_init _ _ _ iss ok _ demo_marked demo_quiet])
      (simp_all add: default_form_conf_def BASIC_DEFENCES_def dget_def contact_form_def empty_config_def cfg_get_def)
qed

text \<open>
  With the default weights a change of address blocks: a submission that is beyond reproach but
  for an address that differs from the one at rendering gets the outcome "flag" with score 3 from
  the render token defence, which means to let roaming clients through; the default weight of that
  defence replaces the score by 5, the block threshold, and the submission is rejected.
\<close>

theorem address_change_blocks_by_default:
  assumes "token_format cf E S" and "form_ready E store_of"
    and "FormProtection_init form_id ds [] sk c = Inr p" and "''render_token'' \<in> set ds" and "set ds \<subseteq> set BASIC_DEFENCES"
    and "issue_token cf (E\<lparr>time_now := t0\<rparr>) S fresh form_id ip uid (user_agent_of request) None None = (token, payload)"
    and "payload_ok E payload" and "dget d ''waf_token'' [] = token"
    and "live (store_of (server w)) (marker_key fresh) \<noteq> None"
    and "quiet default_form_conf E S p request d payload"
    and "time_now E - t0 \<le> of_int (cfg_get (cfg_token_ttl (p_config p)) (DJANGO_WAF_FORM_TOKEN_TTL default_form_conf))"
    and "ip \<noteq> []" and "resolve_client_ip cf request \<noteq> ip"
  shows "\<exists>k r'. evaluate cf default_form_conf E S p request d w =
     (Inr \<lparr>fr_verdict = Form_blocked, fr_total_score = 5, fr_outcomes = flagged 3 ''render_token:ip_changed'' # replicate k passed,
        fr_token_payload = Some payload\<rparr>, w\<lparr>server := r'\<rparr>)"
proof -
  note iss = issued_verifies [OF assms(1,6,7)]
  have tok: "dget d TOKEN_FIELD_NAME [] = token" using assms(8) by (simp add: TOKEN_FIELD_NAME_def)
  have en: "DJANGO_WAF_FORM_PROTECTION_ENABLED default_form_conf" by (simp add: default_form_conf_def)
  let ?x = "flagged 3 ''render_token:ip_changed''"
  have x: "token_outcome cf default_form_conf E (evaluate_context p request d None) (live (store_of (server w)) (marker_key (tp_nonce payload)) \<noteq> None) payload = ?x"
    using assms(9,11,12,13) iss(3) by (auto simp: token_outcome_def evaluate_context_def config_for_def Let_def)
  have "p_weights p = []" using assms(3) by (auto simp: FormProtection_init_def split: if_splits)
  then have wt: "outcome_weight default_form_conf p ''render_token'' ?x = 5" by (simp add: outcome_weight_def default_form_conf_def)
  have "resolve_verdict default_form_conf 5 = Form_blocked" by (simp add: resolve_verdict_def default_form_conf_def)
  with quiet_submission [OF assms(2) en assms(3,4,5) tok iss(2,1) assms(10) x [symmetric]] wt show ?thesis by auto
qed

theorem address_change_blocks_by_default_witness:
  "\<exists>k r'. evaluate default_conf default_form_conf demo_env demo_site contact_form
      (example_request\<lparr>META := [(''REMOTE_ADDR'', ''203.0.113.9'')]\<rparr>) [(''waf_token'', demo_token ''contact'')] marked_world =
     (Inr \<lparr>fr_verdict = Form_blocked, fr_total_score = 5, fr_outcomes = flagged 3 ''render_token:ip_changed'' # replicate k passed,
        fr_token_payload = Some demo_payload\<rparr>, marked_world\<lparr>server := r'\<rparr>)"
proof -
  let ?r = "example_request\<lparr>META := [(''REMOTE_ADDR'', ''203.0.113.9'')]\<rparr>"
  have r: "resolve_client_ip default_conf ?r = ''203.0.113.9''" "user_agent_of ?r = []"
    by (simp_all add: user_agent_of_def default_conf_def resolve_client_ip_def is_trusted_proxy_def dget_def Let_def split: option.splits)
  have iss: "issue_token default_conf (demo_env\<lparr>time_now := 990\<rparr>) demo_site ''n1'' ''contact'' ''10.0.0.1'' [] (user_agent_of ?r) None None = (demo_token ''contact'', demo_payload)"
    using demo_issue [of "''contact''"] unfolding r by (simp add: demo_payload_def)
  have ok: "payload_ok demo_env demo_payload" using demo_payload_ok [of "''contact''"] by (simp add: demo_payload_def BAR_def)
  have q: "quiet default_form_conf demo_env demo_site contact_form ?r [(''waf_token'', demo_token ''contact'')] demo_payload"
    using demo_quiet [of "demo_token ''contact''" "''contact''"] unfolding quiet_def r by (simp add: demo_payload_def)
  show ?thesis
    by (rule address_change_blocks_by_default [OF demo_tokens.token_format_axioms demo_form_ready contact_form_init _ _ iss ok _ demo_marked q])
      (simp_all add: r default_form_conf_def BASIC_DEFENCES_def dget_def contact_form_def empty_config_def cfg_get_def)
qed

lemma judged: "\<exists>x w1. try_except (defence_evaluate cf fcf E S n ctx) (\<lambda>_. ret passed) w = (Inr x, w1)"
  by (cases "defence_evaluate cf fcf E S n ctx w", case_tac a) auto

lemma chain_returns:
  "''render_token'' \<notin> set names \<Longrightarrow> \<exists>res w'. evaluate_chain cf fcf E S p request d names outs tp w = (Inr res, w')"
proof (induction names arbitrary: outs tp w)
  case (Cons n names)
  obtain x w1 where x: "try_except (defence_evaluate cf fcf E S n (evaluate_context p request d tp)) (\<lambda>_. ret passed) w = (Inr x, w1)"
    using judged by blast
  from x Cons.IH [of "outs @ [x]" tp w1] Cons.prems show ?case by (auto simp: Let_def)
qed (simp add: Let_def)

lemma chain_token_raises:
  assumes tf: "token_format cf E S" and names: "''render_token'' \<notin> set names" and tok: "dget d TOKEN_FIELD_NAME [] = token"
  shows "fst (evaluate_chain cf fcf E S p request d (''render_token'' # names) [] None w) = Inl e \<longleftrightarrow>
     e = TypeError \<and> token \<noteq> [] \<and> verify_token cf E S token = Inl TypeError"
proof -
  let ?m = "defence_evaluate cf fcf E S ''render_token'' (evaluate_context p request d None)"
  obtain x w1 where x: "try_except ?m (\<lambda>_. ret passed) w = (Inr x, w1)" using judged by blast
  have m: "?m = render_token_evaluate cf fcf E S (evaluate_context p request d None)" by (simp add: defence_evaluate_def)
  have sub: "ec_submitted_data (evaluate_context p request d None) = d" by (simp add: evaluate_context_def)
  consider "token = []" | "token \<noteq> []" "verify_token cf E S token = Inl ValueError" | "token \<noteq> []" "verify_token cf E S token = Inl TypeError"
    | payload where "token \<noteq> []" "verify_token cf E S token = Inr payload"
    using token_format.verify_raises [OF tf, of token] by (cases "verify_token cf E S token") auto
  then show ?thesis
  proof cases
    case 1
    then show ?thesis using tok by (simp add: m render_token_evaluate_def sub Let_def)
  next
    case 2
    then show ?thesis using tok by (simp add: m render_token_evaluate_def sub Let_def)
  next
    case 3
    then show ?thesis using tok by (auto simp: m render_token_evaluate_def parse_submitted_payload_def sub Let_def)
  next
    case 4
    then have p: "parse_submitted_payload cf E S d = Inr (Some payload)" using tok by (simp add: parse_submitted_payload_def)
    obtain res w' where "evaluate_chain cf fcf E S p request d names [x] (Some payload) w1 = (Inr res, w')"
      using chain_returns [OF names] by blast
    with 4 p x show ?thesis by (auto simp: Let_def)
  qed
qed

text \<open>
  C29. A form with a render token crashes on a token whose signature is not ASCII, and on nothing
  else: evaluation raises exactly when the submitted token is the base64url form of valid UTF-8
  whose part after the last bar contains a character outside ASCII, and then it raises
  \<open>TypeError\<close>, which the documented contract of token verification excludes.
\<close>

theorem evaluation_raises_only_on_non_ascii_signature:
  assumes "token_format cf E S" and "DJANGO_WAF_FORM_PROTECTION_ENABLED fcf"
    and "FormProtection_init f ds ws sk c = Inr p" and "''render_token'' \<in> set ds" and "dget d ''waf_token'' [] = token"
  shows "fst (evaluate cf fcf E S p request d w) = Inl e \<longleftrightarrow> e = TypeError \<and> is_ascii token \<and>
     (\<exists>raw q sig. urlsafe_b64decode (token @ b64_padding token) = Some raw \<and> utf8_valid raw \<and> rcut BAR raw = Some (q, sig) \<and> \<not> is_ascii sig)"
proof -
  obtain rest where o: "order_defences ds = ''render_token'' # rest" "''render_token'' \<notin> set rest"
    using order_defences_token [OF assms(4)] by blast
  have n: "p_defence_names p = ''render_token'' # rest" using init_names [OF assms(3)] o by simp
  obtain names where a: "active_names p request = ''render_token'' # names" "set names \<subseteq> set rest" using active_names_token [OF n o(2)] .
  have tok: "dget d TOKEN_FIELD_NAME [] = token" using assms(5) by (simp add: TOKEN_FIELD_NAME_def)
  have "verify_token cf E S [] \<noteq> Inl TypeError"
    by (simp add: verify_token_def urlsafe_b64decode_def b64_padding_def is_ascii_def utf8_valid_def unseal_def rcut_def)
  then have "fst (evaluate cf fcf E S p request d w) = Inl e \<longleftrightarrow> e = TypeError \<and> verify_token cf E S token = Inl TypeError"
    using chain_token_raises [OF assms(1) _ tok, of names fcf p request w e] a o(2) assms(2) by (auto simp: evaluate_def)
  then show ?thesis unfolding token_format.verify_raises_TypeError_iff [OF assms(1)] .
qed

theorem evaluation_raises_only_on_non_ascii_signature_witness:
  "fst (evaluate default_conf default_form_conf demo_env demo_site contact_form example_request [(''waf_token'', ''fMOp'')] empty_world) =
     Inl TypeError"
proof -
  have en: "DJANGO_WAF_FORM_PROTECTION_ENABLED default_form_conf" by (simp add: default_form_conf_def)
  have "is_ascii ''fMOp''" "urlsafe_b64decode (''fMOp'' @ b64_padding ''fMOp'') = Some [CHR ''|'', CHR 0xC3, CHR 0xA9]"
    "utf8_valid [CHR ''|'', CHR 0xC3, CHR 0xA9]" "rcut BAR [CHR ''|'', CHR 0xC3, CHR 0xA9] = Some ([], [CHR 0xC3, CHR 0xA9])"
    "\<not> is_ascii [CHR 0xC3, CHR 0xA9]" by code_simp+
  then show ?thesis
    by (subst evaluation_raises_only_on_non_ascii_signature [OF demo_tokens.token_format_axioms en contact_form_init, of _ "''fMOp''"])
      (auto simp: dget_def)
qed

text \<open>
  A credential attack is reported once: however often the login of one identifier fails within
  the window, starting from no recorded failure, the signal to the account owner's handler is sent
  exactly once, by the failure that reaches the limit, and not at all below it.
\<close>

theorem credential_attack_reported_once:
  assumes "form_ready E store_of" and "identifier \<noteq> []" and "ip = resolve_client_ip cf request" and "ip \<noteq> []"
    and "0 < DJANGO_WAF_FORM_CREDENTIAL_THROTTLE_WINDOW fcf" and "0 < DJANGO_WAF_FORM_CREDENTIAL_THROTTLE_LIMIT fcf"
    and "live (store_of (server w)) (cred_account_key E identifier) = None" and "live (store_of (server w)) (cred_ip_key ip) = None"
  shows "signals (((\<lambda>w. snd (waf_record_credential_failure cf fcf E request identifier w)) ^^ n) w) =
     signals w @ (if DJANGO_WAF_FORM_CREDENTIAL_THROTTLE_LIMIT fcf \<le> int n then [attack_observed fcf E identifier ip] else [])"
proof -
  let ?f = "\<lambda>w. snd (waf_record_credential_failure cf fcf E request identifier w)"
  have "counter_value (store_of (server ((?f ^^ n) w))) (cred_account_key E identifier) = Some (int n) \<and>
      counter_value (store_of (server ((?f ^^ n) w))) (cred_ip_key ip) = Some (int n) \<and>
      signals ((?f ^^ n) w) = signals w @ (if DJANGO_WAF_FORM_CREDENTIAL_THROTTLE_LIMIT fcf \<le> int n then [attack_observed fcf E identifier ip] else [])"
  proof (induction n)
    case 0
    then show ?case using assms(6,7,8) by (simp add: counter_value_def)
  next
    case (Suc n)
    from record_failure_counts [OF assms(1-5), of "(?f ^^ n) w" n "int n"] Suc obtain w' where
      "waf_record_credential_failure cf fcf E request identifier ((?f ^^ n) w) = (Inr (int n + 1, int n + 1), w')"
      "counter_value (store_of (server w')) (cred_account_key E identifier) = Some (int (Suc n))"
      "counter_value (store_of (server w')) (cred_ip_key ip) = Some (int n + 1)"
      "signals w' = signals ((?f ^^ n) w) @ (if int (Suc n) = DJANGO_WAF_FORM_CREDENTIAL_THROTTLE_LIMIT fcf then [attack_observed fcf E identifier ip] else [])"
      by blast
    then show ?case using Suc by auto
  qed
  then show ?thesis by blast
qed

theorem credential_attack_reported_once_witness:
  "signals (((\<lambda>w. snd (waf_record_credential_failure default_conf default_form_conf demo_env example_request ''bob'' w)) ^^ 8) empty_world) =
     [Credential_attack_observed ''bob'' 5 900 ''10.0.0.1'']"
proof -
  have l: "DJANGO_WAF_FORM_CREDENTIAL_THROTTLE_LIMIT default_form_conf = 5" "DJANGO_WAF_FORM_CREDENTIAL_THROTTLE_WINDOW default_form_conf = 900"
    by (simp_all add: default_form_conf_def)
  have "signals (((\<lambda>w. snd (waf_record_credential_failure default_conf default_form_conf demo_env example_request ''bob'' w)) ^^ 8) empty_world) =
     signals empty_world @ (if DJANGO_WAF_FORM_CREDENTIAL_THROTTLE_LIMIT default_form_conf \<le> int 8
       then [attack_observed default_form_conf demo_env ''bob'' ''10.0.0.1''] else [])"
    by (rule credential_attack_reported_once [OF demo_form_ready]) (simp_all add: l empty_world_def live_def fresh_store_def)
  then show ?thesis by (simp add: l attack_observed_def hash_identifier_def empty_world_def)
qed

end
