(* ===== verification/FormEntry.thy ===== *)
theory FormEntry
  imports FormProtection Middleware "HOL-Library.List_Lexorder" "HOL-Library.Char_ord"
begin

text \<open>
  The entry points of form protection: \<open>ProtectedForm\<close> of \<open>forms/mixin.py\<close> and
  \<open>waf_protect_post\<close> of \<open>forms/decorators.py\<close>, with the redirect of a flagged submission through
  the challenge and its replay. The decorated view takes the request, \<open>request.waf_form_result\<close>
  and the session, and returns its response with the session it leaves. A response that is an
  error leaves the session unsaved, so nothing is said about the session when the handler raises.
\<close>

section \<open>Query strings\<close>

text \<open>\<open>urllib.parse.urlencode\<close>: letters, digits and \<open>_.-~\<close> stand for themselves.\<close>

definition quote_safe :: "char \<Rightarrow> bool" where
  "quote_safe c = (let n = ord c in (48 \<le> n \<and> n \<le> 57) \<or> (65 \<le> n \<and> n \<le> 90) \<or> (97 \<le> n \<and> n \<le> 122) \<or>
     c \<in> {CHR ''_'', CHR ''.'', CHR ''-'', CHR ''~''})"

definition upper_hex :: "nat \<Rightarrow> char" where
  "upper_hex d = chr (if d < 10 then 48 + d else 55 + d)"

definition quote_plus :: "string \<Rightarrow> string" where
  "quote_plus s = concat (map (\<lambda>c. if quote_safe c then [c] else if c = CHR '' '' then ''+''
     else [CHR ''%'', upper_hex (ord c div 16), upper_hex (ord c mod 16)]) (utf8 s))"

definition join_amp :: "string list \<Rightarrow> string" where
  "join_amp ps = join CHR ''&'' ps"

definition urlencode :: "strdict \<Rightarrow> string" where
  "urlencode d = join_amp (map (\<lambda>(k, v). quote_plus k @ ''='' @ quote_plus v) d)"

section \<open>Form mixin\<close>

definition waf_fields ::
  "conf \<Rightarrow> form_conf \<Rightarrow> 'r env \<Rightarrow> site \<Rightarrow> string \<Rightarrow> FormProtection \<Rightarrow> request \<Rightarrow> ('r world, string) py" where
  "waf_fields cf fcf E S fresh p request =
     andThen (render_fields cf fcf E S fresh p request)
       (\<lambda>all_fields. ret (concat (map (\<lambda>k. dget all_fields k []) (sort (map fst all_fields)))))"

text \<open>\<open>clean\<close> after the form's own validation: the result is left in \<open>waf_result\<close>, and a blocked
  submission raises.\<close>

definition protected_clean ::
  "conf \<Rightarrow> form_conf \<Rightarrow> 'r env \<Rightarrow> site \<Rightarrow> rat \<Rightarrow> FormProtection \<Rightarrow> request \<Rightarrow> strdict \<Rightarrow> ('r world, FormEvaluationResult) py" where
  "protected_clean cf fcf E S draw p request self_data =
     andThen (evaluate cf fcf E S p request self_data) (\<lambda>result.
     andThen (log_form_submission cf fcf E draw (p_form_id p) request result) (\<lambda>_.
     andThen (if fr_verdict result = Form_passed then consume_token_marker E (fr_token_payload result) else ret ()) (\<lambda>_.
       if fr_verdict result = Form_blocked then raise ValidationError else ret result)))"

section \<open>View decorator\<close>

record 'r form_view =
  view_func :: "request \<Rightarrow> FormEvaluationResult option \<Rightarrow> session option \<Rightarrow> ('r world, HttpResponse \<times> session option) py"
  debug_setting :: bool
  fresh_session_key :: string

text \<open>\<open>format(x, ".1f")\<close>.\<close>

definition format_1f :: "rat \<Rightarrow> string" where
  "format_1f q = (let n = round_half_even (10 * q); a = \<bar>n\<bar>
     in (if n < 0 then ''-'' else []) @ str_int (a div 10) @ ''.'' @ str_int (a mod 10))"

definition flagged_defence_names :: "FormEvaluationResult \<Rightarrow> string" where
  "flagged_defence_names result =
     (let names = join CHR '','' (map (\<lambda>x. name_from_reason (o_reason x))
            (filter (\<lambda>x. o_verdict x \<noteq> Pass \<and> CHR '':'' \<in> set (o_reason x)) (fr_outcomes result)))
      in if names = [] then ''none'' else names)"

definition maybe_attach_debug_header ::
  "'r form_view \<Rightarrow> string \<Rightarrow> FormEvaluationResult \<Rightarrow> HttpResponse \<Rightarrow> HttpResponse" where
  "maybe_attach_debug_header V form_id result response =
     (if \<not> debug_setting V then response
      else set_header ''X-WAF-Form-Verdict'' (FormVerdict_value (fr_verdict result) @ ''; score='' @
        format_1f (fr_total_score result) @ ''; defences='' @ flagged_defence_names result @ ''; form_id='' @ form_id) response)"

definition maybe_redirect_to_challenge ::
  "conf \<Rightarrow> form_conf \<Rightarrow> 'r env \<Rightarrow> site \<Rightarrow> 'r app \<Rightarrow> 'r form_view \<Rightarrow> request \<Rightarrow> session option \<Rightarrow> string \<Rightarrow>
   ('r world, HttpResponse option \<times> session option) py" where
  "maybe_redirect_to_challenge cf fcf E S A V request session form_id =
     (if \<not> DJANGO_WAF_FORM_CHALLENGE_ON_FLAG fcf then ret (None, session)
      else (let post_url = req_path request; ip = resolve_client_ip cf request;
                (session_key, session') = store_in_session (time_now E) (fresh_session_key V) session form_id post_url (POST request)
        in case session_key of
             None \<Rightarrow> ret (None, session')
           | Some k \<Rightarrow>
               (let replay_token = issue_replay_token cf S (time_now E) form_id ip k;
                    challenge_path = (if DJANGO_WAF_CHALLENGE_URL cf \<noteq> [] then Some (DJANGO_WAF_CHALLENGE_URL cf)
                      else reverse_url A ''django_waf:challenge'')
                in case challenge_path of
                     None \<Rightarrow> raise NoReverseMatch
                   | Some cp \<Rightarrow> ret (Some (redirect_to (iri_to_uri A (cp @ ''?'' @
                       urlencode [(''next'', post_url), (''form_replay'', replay_token)]))), session'))))"

definition rejection :: HttpResponse where
  "rejection = http_response 403 ''Submission rejected. Please try again.''"

definition handle_post ::
  "conf \<Rightarrow> form_conf \<Rightarrow> 'r env \<Rightarrow> site \<Rightarrow> 'r app \<Rightarrow> 'r form_view \<Rightarrow> string \<Rightarrow> FormProtection \<Rightarrow> request \<Rightarrow> session option \<Rightarrow>
   ('r world, HttpResponse \<times> session option) py" where
  "handle_post cf fcf E S A V form_id p request session =
     andThen (evaluate cf fcf E S p request (POST request)) (\<lambda>result.
     andThen (log_form_submission cf fcf E (random_draw A) form_id request result) (\<lambda>_.
       if fr_verdict result = Form_blocked
       then ret (maybe_attach_debug_header V form_id result rejection, session)
       else andThen (if fr_verdict result = Form_flagged
              then maybe_redirect_to_challenge cf fcf E S A V request session form_id else ret (None, session))
         (\<lambda>(challenge_response, session).
            case challenge_response of
              Some response \<Rightarrow> ret (maybe_attach_debug_header V form_id result response, session)
            | None \<Rightarrow>
                andThen (view_func V request (Some result) session) (\<lambda>(response, session).
                andThen (if fr_verdict result = Form_passed then consume_token_marker E (fr_token_payload result) else ret ()) (\<lambda>_.
                  ret (maybe_attach_debug_header V form_id result response, session))))))"

definition try_replay ::
  "conf \<Rightarrow> 'r env \<Rightarrow> site \<Rightarrow> string \<Rightarrow> request \<Rightarrow> session option \<Rightarrow> py_exc + (request \<times> session option) option" where
  "try_replay cf E S form_id request session =
     (case verify_replay_token cf S (time_now E) (dget (req_GET request) ''form_replay'' []) (resolve_client_ip cf request) of
        Inl e \<Rightarrow> Inl e
      | Inr None \<Rightarrow> Inr None
      | Inr (Some (token_form_id, session_key)) \<Rightarrow>
          if token_form_id \<noteq> form_id then Inr None
          else (case fetch_from_session (time_now E) session session_key of
              None \<Rightarrow> Inr None
            | Some record \<Rightarrow>
                if rr_form_id record \<noteq> form_id then Inr None
                else Inr (Some (request\<lparr>POST := rr_data record, req_method := ''POST''\<rparr>,
                  discard_from_session session session_key))))"

definition waf_protect_post ::
  "conf \<Rightarrow> form_conf \<Rightarrow> 'r env \<Rightarrow> site \<Rightarrow> 'r app \<Rightarrow> 'r form_view \<Rightarrow> string \<Rightarrow> FormProtection \<Rightarrow> request \<Rightarrow> session option \<Rightarrow>
   ('r world, HttpResponse \<times> session option) py" where
  "waf_protect_post cf fcf E S A V form_id p request session =
     (let plain = (if req_method request \<noteq> ''POST'' then view_func V request None session
                   else handle_post cf fcf E S A V form_id p request session) in
      if req_method request = ''GET'' \<and> dget (req_GET request) ''form_replay'' [] \<noteq> []
      then (case try_replay cf E S form_id request session of
          Inl e \<Rightarrow> raise e
        | Inr None \<Rightarrow> plain
        | Inr (Some (replayed, session')) \<Rightarrow> handle_post cf fcf E S A V form_id p replayed session')
      else plain)"

section \<open>Replay of a flagged submission\<close>

lemma token_field_sensitive: "is_sensitive_field ''waf_token''"
  unfolding is_sensitive_field_iff by code_simp

lemma dget_absent: "(\<And>v. (k, v) \<notin> set d) \<Longrightarrow> dget d k x = x"
  by (auto simp: dget_def split: option.split dest: map_of_SomeD)

lemma stored_record_has_no_token:
  assumes "session_reachable (Some s)" and "map_of (current_stash s) k = Some r"
  shows "dget (rr_data r) ''waf_token'' [] = []"
proof (rule dget_absent)
  fix v
  from reachable_stash_ok [OF assms(1)] map_of_SomeD [OF assms(2)] have "names_no_secret r"
    by (auto simp: stash_ok_def list_all_iff)
  with token_field_sensitive show "(''waf_token'', v) \<notin> set (rr_data r)" by (auto simp: names_no_secret_def list_all_iff)
qed

lemma missing_token_blocks:
  assumes "DJANGO_WAF_FORM_PROTECTION_ENABLED fcf" and "FormProtection_init f ds ws sk c = Inr p" and "''render_token'' \<in> set ds"
    and "dget d ''waf_token'' [] = []"
  shows "evaluate cf fcf E S p request d w = (Inr \<lparr>fr_verdict = Form_blocked,
     fr_total_score = outcome_weight fcf p ''render_token'' (blocked ''render_token:missing'' 5),
     fr_outcomes = [blocked ''render_token:missing'' 5], fr_token_payload = None\<rparr>, w)"
proof -
  obtain rest where o: "order_defences ds = ''render_token'' # rest" "''render_token'' \<notin> set rest"
    using order_defences_token [OF assms(3)] by blast
  have n: "p_defence_names p = ''render_token'' # rest" using init_names [OF assms(2)] o by simp
  obtain names where a: "active_names p request = ''render_token'' # names" using active_names_token [OF n o(2)] .
  have "aggregate_score fcf p [x] = outcome_weight fcf p ''render_token'' x" for x using aggregate_first [OF n, of fcf x 0] by simp
  then show ?thesis using assms(1,4) a
    by (simp add: evaluate_def defence_evaluate_def render_token_evaluate_def evaluate_context_def TOKEN_FIELD_NAME_def Let_def)
qed

lemma log_returns: "fst (log_form_submission cf fcf E draw form_id request result w) = Inr ()"
  by (simp add: log_form_submission_def maybe_emit_passed_signal_def dispatch_signal_def swallow_result Let_def)

text \<open>
  C37. The challenge detour of a flagged form cannot succeed while the form uses render tokens: when
  a visitor comes back from the challenge with a valid replay token, the submission restored from
  the session has lost its render token, because the field is called \<open>waf_token\<close> and names with
  "token" are not stored, so it is rejected with 403 and the view never runs.
\<close>

theorem replayed_submission_rejected:
  assumes "DJANGO_WAF_FORM_PROTECTION_ENABLED fcf" and "FormProtection_init form_id ds ws sk c = Inr p" and "''render_token'' \<in> set ds"
    and "session_reachable (Some s)" and "req_method request = ''GET''" and "dget (req_GET request) ''form_replay'' [] \<noteq> []"
    and "try_replay cf E S form_id request (Some s) = Inr (Some (replayed, s'))"
  shows "\<exists>response. fst (waf_protect_post cf fcf E S A V form_id p request (Some s) w) = Inr (response, s') \<and> status_code response = 403"
proof -
  from assms(7) obtain k r where r: "fetch_from_session (time_now E) (Some s) k = Some r" "replayed = request\<lparr>POST := rr_data r, req_method := ''POST''\<rparr>"
    by (auto simp: try_replay_def split: sum.splits option.splits if_splits)
  from r(1) have "map_of (current_stash s) k = Some r" by (auto simp: fetch_from_session_def split: option.splits if_splits)
  from stored_record_has_no_token [OF assms(4) this] r(2) have d: "dget (POST replayed) ''waf_token'' [] = []" by simp
  note ev = missing_token_blocks [OF assms(1,2,3) d]
  let ?res = "\<lparr>fr_verdict = Form_blocked, fr_total_score = outcome_weight fcf p ''render_token'' (blocked ''render_token:missing'' 5),
     fr_outcomes = [blocked ''render_token:missing'' 5], fr_token_payload = None\<rparr>"
  obtain w1 where l: "log_form_submission cf fcf E (random_draw A) form_id replayed ?res w = (Inr (), w1)"
    using log_returns [of cf fcf E "random_draw A" form_id replayed ?res w] by (metis prod.collapse)
  have "handle_post cf fcf E S A V form_id p replayed s' w = (Inr (maybe_attach_debug_header V form_id ?res rejection, s'), w1)"
    using l by (simp add: handle_post_def ev)
  moreover have "status_code (maybe_attach_debug_header V form_id ?res rejection) = 403"
    by (simp add: maybe_attach_debug_header_def rejection_def)
  ultimately show ?thesis using assms(5,6,7) by (simp add: waf_protect_post_def Let_def)
qed

text \<open>A concrete detour: the submission was parked under \<open>k1\<close> and the visitor is back.\<close>

definition parked_session :: session where
  "parked_session = the (snd (store_in_session 1000 ''k1'' (Some demo_session) ''contact'' ''/shop/''
     [(''name'', ''a''), (''waf_token'', ''b'')]))"

definition replay_request :: request where
  "replay_request = example_request\<lparr>req_GET := [(''form_replay'', issue_replay_token default_conf demo_site 1000 ''contact'' ''10.0.0.1'' ''k1'')]\<rparr>"

definition demo_view :: "store form_view" where
  "demo_view = \<lparr>view_func = (\<lambda>_ _ s. ret (http_response 200 ''ok'', s)), debug_setting = False, fresh_session_key = ''k2''\<rparr>"

theorem replayed_submission_rejected_witness:
  "\<exists>response s'. fst (waf_protect_post default_conf default_form_conf demo_env demo_site demo_app demo_view ''contact'' contact_form
      replay_request (Some parked_session) empty_world) = Inr (response, s') \<and> status_code response = 403"
proof -
  let ?d = "[(''name'', ''a''), (''waf_token'', ''b'')]"
  let ?t = "issue_replay_token default_conf demo_site 1000 ''contact'' ''10.0.0.1'' ''k1''"
  have e: "current_stash demo_session = []" by (simp add: demo_session_def current_stash_def)
  have p: "snd (store_in_session 1000 ''k1'' (Some demo_session) ''contact'' ''/shop/'' ?d) = Some parked_session"
    unfolding parked_session_def by (simp add: store_in_session_def Let_def)
  have sr: "session_reachable (Some parked_session)"
    using session_reachable.stored [OF session_reachable.start [OF e], of 1000 "''k1''" "''contact''" "''/shop/''" ?d] unfolding p .
  have f: "fetch_from_session (time_now demo_env) (Some parked_session) ''k1'' = Some \<lparr>rr_form_id = ''contact'', rr_post_url = ''/shop/'',
      rr_data = filter_sensitive_fields ?d, rr_stored_at = \<lfloor>1000 :: rat\<rfloor>\<rparr>"
    unfolding p [symmetric] by (rule fetch_stored [OF session_reachable.start [OF e]]) (simp_all add: e)
  have b: "BAR \<notin> set ''contact''" "BAR \<notin> set ''10.0.0.1''" "BAR \<notin> set ''k1''" by (simp_all add: BAR_def)
  have v: "verify_replay_token default_conf demo_site 1000 ?t ''10.0.0.1'' = Inr (Some (''contact'', ''k1''))"
    using verify_replay_issued [OF demo_tokens.signer b, of 1000 default_conf] by simp
  then have t: "?t \<noteq> []" by (auto simp: verify_replay_token_def)
  have q: "dget (req_GET replay_request) ''form_replay'' [] = ?t" "resolve_client_ip default_conf replay_request = ''10.0.0.1''"
    "req_method replay_request = ''GET''"
    using demo_request_facts(1) by (simp_all add: replay_request_def dget_def resolve_client_ip_def example_request_def)
  obtain r s' where r: "try_replay default_conf demo_env demo_site ''contact'' replay_request (Some parked_session) = Inr (Some (r, s'))"
    using v f q by (simp add: try_replay_def)
  have en: "DJANGO_WAF_FORM_PROTECTION_ENABLED default_form_conf" by (simp add: default_form_conf_def)
  have "\<exists>response. fst (waf_protect_post default_conf default_form_conf demo_env demo_site demo_app demo_view ''contact'' contact_form
      replay_request (Some parked_session) empty_world) = Inr (response, s') \<and> status_code response = 403"
    by (rule replayed_submission_rejected [OF en contact_form_init _ sr q(3) _ r]) (use t q in simp_all)
  then show ?thesis by blast
qed

end
