(* ===== verification/Detectors.thy ===== *)
theory Detectors
  imports AutoRules RuleCaching RuleMatching
begin

text \<open>
  The six anomaly detectors of \<open>services/anomaly_detector.py\<close>, \<open>run_all_detectors\<close> and
  \<open>auto_rule_review_outcomes\<close>. A detector reads the request log (or the reputation table), selects
  suspects by a function on the rows, and proposes an automatic rule for each through
  \<open>_get_or_create_auto_rule\<close> (theory \<open>AutoRules\<close>). The rows of a grouped query come in no order the
  code relies on; the order of first occurrence stands for it. Numbers in the evidence of a rule
  are given as the text they have in its notes.
\<close>

section \<open>Proposals\<close>

record proposal =
  pr_name :: string
  pr_rule_type :: RuleType
  pr_match_type :: string
  pr_pattern :: string
  pr_action :: RuleAction
  pr_confidence :: rat
  pr_evidence :: strdict

definition emit_anomaly_signal :: "'r env \<Rightarrow> BlockRule \<Rightarrow> AnomalyType \<Rightarrow> strdict \<Rightarrow> ('r world, unit) py" where
  "emit_anomaly_signal E rule anomaly_type details = swallow (send E (Anomaly_detected (br_id rule) anomaly_type details))"

text \<open>The body of every detector's loop: the rules it adds to \<open>created_rules\<close>.\<close>

definition propose_rule ::
  "conf \<Rightarrow> 'r env \<Rightarrow> rat \<Rightarrow> string \<Rightarrow> AnomalyType \<Rightarrow> bool \<Rightarrow> bool \<Rightarrow> proposal \<Rightarrow> ('r world, BlockRule list) py" where
  "propose_rule cf E expires detector_name anomaly_type dry_run count_refresh_as_created p =
     andThen (get_or_create_auto_rule cf E (pr_name p) (RuleType_value (pr_rule_type p)) (pr_match_type p) (pr_pattern p)
         (RuleAction_value (pr_action p)) expires dry_run detector_name (Some (pr_confidence p)) (Some (pr_evidence p))
         count_refresh_as_created)
       (\<lambda>(rule, created).
          if \<not> created then ret []
          else andThen (if dry_run then ret () else emit_anomaly_signal E rule anomaly_type (pr_evidence p))
            (\<lambda>_. ret [rule]))"

fun collect :: "('a \<Rightarrow> ('w, 'b list) py) \<Rightarrow> 'a list \<Rightarrow> ('w, 'b list) py" where
  "collect f [] = ret []"
| "collect f (x # xs) = andThen (f x) (\<lambda>a. andThen (collect f xs) (\<lambda>b. ret (a @ b)))"

definition auto_expiry :: "detector_conf \<Rightarrow> 'r env \<Rightarrow> rat" where
  "auto_expiry dc E = time_now E + of_int (DJANGO_WAF_AUTO_RULE_EXPIRY_HOURS dc * 3600)"

definition minutes_ago :: "'r env \<Rightarrow> int \<Rightarrow> rat" where
  "minutes_ago E n = time_now E - of_int (n * 60)"

definition since :: "rat \<Rightarrow> RequestLog list \<Rightarrow> RequestLog list" where
  "since cutoff rows = filter (\<lambda>r. cutoff \<le> rl_timestamp r) rows"

text \<open>\<open>round(x, 2)\<close> as text, for a number that is not negative.\<close>

definition two_decimals :: "rat \<Rightarrow> string" where
  "two_decimals q = (let n = round_half_even (100 * q)
     in str_int (n div 100) @ ''.'' @ str_int (n mod 100 div 10) @ (if n mod 10 = 0 then [] else str_int (n mod 10)))"

section \<open>User-Agent rotation\<close>

definition ua_rotation_rows :: "rat \<Rightarrow> int \<Rightarrow> RequestLog list \<Rightarrow> (string \<times> int) list" where
  "ua_rotation_rows cutoff threshold logs =
     (let rows = since cutoff logs
      in filter (\<lambda>(_, n). threshold < n)
           (map (\<lambda>ip. (ip, int (card (rl_user_agent ` set (RequestLog_for_ip ip rows))))) (firsts (map rl_ip_address rows))))"

definition ua_rotation_proposal :: "int \<Rightarrow> int \<Rightarrow> string \<times> int \<Rightarrow> proposal" where
  "ua_rotation_proposal window_minutes effective_threshold row = (case row of (ip, distinct_ua_count) \<Rightarrow>
     \<lparr>pr_name = ''Auto: UA rotation from '' @ ip, pr_rule_type = IP, pr_match_type = ''exact'', pr_pattern = ip,
      pr_action = CHALLENGE,
      pr_confidence = scaled_confidence (of_int distinct_ua_count) (of_int effective_threshold) (of_int (effective_threshold * 2)),
      pr_evidence = [(''distinct_ua_count'', str_int distinct_ua_count), (''window_minutes'', str_int window_minutes)]\<rparr>)"

definition detect_ua_rotation ::
  "conf \<Rightarrow> detector_conf \<Rightarrow> 'r env \<Rightarrow> int \<Rightarrow> int option \<Rightarrow> bool \<Rightarrow> bool \<Rightarrow> ('r world, BlockRule list) py" where
  "detect_ua_rotation cf dc E window_minutes threshold dry_run refresh =
     (let effective_threshold = (case threshold of None \<Rightarrow> DJANGO_WAF_ANOMALY_THRESHOLD_DISTINCT_UAS dc | Some t \<Rightarrow> t);
          cutoff = minutes_ago E window_minutes
      in andThen (db E (read_state (\<lambda>w. ua_rotation_rows cutoff effective_threshold (RequestLogs w))))
           (collect (\<lambda>row. propose_rule cf E (auto_expiry dc E) ''detect_ua_rotation'' UA_ROTATION dry_run refresh
              (ua_rotation_proposal window_minutes effective_threshold row))))"

section \<open>Subnet burst\<close>

text \<open>\<open>statistics.median\<close>: an integer for an odd number of values, the mean of the two middle
  ones as a float otherwise. Multiples of one half have an exact text.\<close>

definition median :: "int list \<Rightarrow> rat" where
  "median xs = (let s = sort xs; n = length xs in
     if odd n then of_int (s ! (n div 2)) else of_int (s ! (n div 2 - 1) + s ! (n div 2)) / 2)"

definition half_text :: "bool \<Rightarrow> rat \<Rightarrow> string" where
  "half_text whole q = str_int \<lfloor>q\<rfloor> @ (if whole then [] else if q = of_int \<lfloor>q\<rfloor> then ''.0'' else ''.5'')"

definition subnets_of :: "string list \<Rightarrow> string list" where
  "subnets_of ips = concat (map (\<lambda>ip. case get_subnet_prefix ip of Inl _ \<Rightarrow> [] | Inr s \<Rightarrow> [s]) ips)"

definition subnet_burst_rows :: "int \<Rightarrow> (string \<times> int) list \<Rightarrow> (string \<times> int) list" where
  "subnet_burst_rows min_count subnet_counts =
     (let burst_threshold = median (map snd subnet_counts) * 3
      in filter (\<lambda>(_, count). \<not> (count < min_count \<and> of_int count \<le> burst_threshold)) subnet_counts)"

definition subnet_burst_proposal :: "int \<Rightarrow> (string \<times> int) list \<Rightarrow> string \<times> int \<Rightarrow> proposal" where
  "subnet_burst_proposal min_count subnet_counts row = (case row of (subnet, count) \<Rightarrow>
     (let median_count = median (map snd subnet_counts); burst_threshold = median_count * 3;
          whole = odd (length subnet_counts)
      in \<lparr>pr_name = ''Auto: subnet burst from '' @ subnet, pr_rule_type = CIDR, pr_match_type = ''cidr'', pr_pattern = subnet,
          pr_action = CHALLENGE, pr_confidence = scaled_confidence (of_int count) burst_threshold (burst_threshold * 2),
          pr_evidence = [(''count'', str_int count), (''median'', half_text whole median_count),
            (''threshold'', half_text whole burst_threshold), (''min_count'', str_int min_count)]\<rparr>))"

definition detect_subnet_burst ::
  "conf \<Rightarrow> detector_conf \<Rightarrow> 'r env \<Rightarrow> int \<Rightarrow> bool \<Rightarrow> bool \<Rightarrow> ('r world, BlockRule list) py" where
  "detect_subnet_burst cf dc E window_minutes dry_run refresh =
     andThen (db E (read_state (\<lambda>w. map rl_ip_address (since (minutes_ago E window_minutes) (RequestLogs w)))))
       (\<lambda>logs. let subnet_counts = group_counts (subnets_of logs);
                   min_count = DJANGO_WAF_ANOMALY_THRESHOLD_SUBNET_BURST_MIN_COUNT dc
          in if subnet_counts = [] then ret []
             else collect (\<lambda>row. propose_rule cf E (auto_expiry dc E) ''detect_subnet_burst'' SUBNET_FLOOD dry_run refresh
                    (subnet_burst_proposal min_count subnet_counts row)) (subnet_burst_rows min_count subnet_counts))"

section \<open>Challenge farms\<close>

definition challenge_farm_rows :: "rat \<Rightarrow> IPReputation list \<Rightarrow> IPReputation list" where
  "challenge_farm_rows cutoff rows = filter (\<lambda>r. (case ip_last_seen_at r of None \<Rightarrow> False | Some t \<Rightarrow> cutoff \<le> t) \<and>
     10 < ip_challenge_failures r \<and> ip_challenge_passes r < 2) rows"

definition challenge_farm_proposal :: "IPReputation \<Rightarrow> proposal" where
  "challenge_farm_proposal rep =
     \<lparr>pr_name = ''Auto: challenge farm from '' @ ip_ip_address rep, pr_rule_type = IP, pr_match_type = ''exact'',
      pr_pattern = ip_ip_address rep, pr_action = BLOCK,
      pr_confidence = scaled_confidence (of_int (ip_challenge_failures rep)) 10 20,
      pr_evidence = [(''challenge_failures'', str_int (ip_challenge_failures rep)),
        (''challenge_passes'', str_int (ip_challenge_passes rep))]\<rparr>"

definition detect_challenge_farms ::
  "conf \<Rightarrow> detector_conf \<Rightarrow> 'r env \<Rightarrow> int \<Rightarrow> bool \<Rightarrow> bool \<Rightarrow> ('r world, BlockRule list) py" where
  "detect_challenge_farms cf dc E window_hours dry_run refresh =
     andThen (db E (read_state (\<lambda>w. challenge_farm_rows (time_now E - of_int (window_hours * 3600)) (IPReputations w))))
       (collect (\<lambda>rep. propose_rule cf E (auto_expiry dc E) ''detect_challenge_farms'' CHALLENGE_FARM dry_run refresh
          (challenge_farm_proposal rep)))"

section \<open>Unsolved challenges\<close>

definition challenged_by_ip :: "rat \<Rightarrow> RequestLog list \<Rightarrow> (string \<times> int) list" where
  "challenged_by_ip cutoff logs = group_counts (map rl_ip_address
     (filter (\<lambda>r. rl_verdict r = CHALLENGED \<and> rl_source r = MIDDLEWARE) (since cutoff logs)))"

definition solved_ips_of :: "string set \<Rightarrow> rat \<Rightarrow> ChallengeToken list \<Rightarrow> string set" where
  "solved_ips_of ips cutoff tokens = set (map ct_ip_address (filter (\<lambda>t. ct_ip_address t \<in> ips \<and> ct_status t = SOLVED \<and>
     (case ct_solved_at t of None \<Rightarrow> False | Some s \<Rightarrow> cutoff \<le> s)) tokens))"

definition non_root :: "rat \<Rightarrow> string list \<Rightarrow> RequestLog list \<Rightarrow> RequestLog list" where
  "non_root cutoff ips logs = filter (\<lambda>r. rl_ip_address r \<in> set ips \<and> rl_path r \<noteq> ''/'') (since cutoff logs)"

definition count_of :: "(string \<times> int) list \<Rightarrow> string \<Rightarrow> int" where
  "count_of counts ip = (case map_of counts ip of None \<Rightarrow> 0 | Some n \<Rightarrow> n)"

text \<open>The rows of the loop that reach the rule, with the number of challenges, of requests off the
  root and of those without referer.\<close>

definition unsolved_ip_rows ::
  "(string \<times> int) list \<Rightarrow> string set \<Rightarrow> rat \<Rightarrow> (string \<times> int) list \<Rightarrow> (string \<times> int) list \<Rightarrow> (string \<times> int \<times> int \<times> int) list" where
  "unsolved_ip_rows candidates solved_ips referer_ratio non_root_counts empty_referer_counts =
     filter (\<lambda>(ip, _, non_root_count, empty_count).
         ip \<notin> solved_ips \<and> non_root_count \<noteq> 0 \<and> \<not> of_int empty_count / of_int non_root_count < referer_ratio)
       (map (\<lambda>(ip, challenged). (ip, challenged, count_of non_root_counts ip, count_of empty_referer_counts ip)) candidates)"

definition unsolved_ip_proposal :: "int \<Rightarrow> rat \<Rightarrow> string \<times> int \<times> int \<times> int \<Rightarrow> proposal" where
  "unsolved_ip_proposal window_minutes referer_ratio row = (case row of (ip, challenged_count, non_root_count, empty_count) \<Rightarrow>
     (let empty_referer_ratio = of_int empty_count / of_int non_root_count
      in \<lparr>pr_name = ''Auto: unsolved challenges from '' @ ip, pr_rule_type = IP, pr_match_type = ''exact'', pr_pattern = ip,
          pr_action = BLOCK, pr_confidence = scaled_confidence empty_referer_ratio referer_ratio (1 - referer_ratio),
          pr_evidence = [(''challenged_count'', str_int challenged_count),
            (''empty_referer_ratio'', two_decimals empty_referer_ratio),
            (''non_root_requests'', str_int non_root_count), (''window_minutes'', str_int window_minutes)]\<rparr>))"

definition detect_unsolved_challenges_per_ip ::
  "conf \<Rightarrow> 'r env \<Rightarrow> (string \<times> int) list \<Rightarrow> string set \<Rightarrow> rat \<Rightarrow> int \<Rightarrow> int \<Rightarrow> rat \<Rightarrow> rat \<Rightarrow> bool \<Rightarrow> bool \<Rightarrow>
   ('r world, BlockRule list) py" where
  "detect_unsolved_challenges_per_ip cf E challenged solved_ips cutoff window_minutes min_challenged referer_ratio expires dry_run refresh =
     (let candidates = filter (\<lambda>(_, n). min_challenged \<le> n) challenged; candidate_ips = map fst candidates
      in if candidates = [] then ret []
         else andThen (db E (read_state (\<lambda>w. group_counts (map rl_ip_address (non_root cutoff candidate_ips (RequestLogs w))))))
           (\<lambda>non_root_counts.
              andThen (db E (read_state (\<lambda>w. group_counts (map rl_ip_address
                  (filter (\<lambda>r. rl_referer r = []) (non_root cutoff candidate_ips (RequestLogs w)))))))
                (\<lambda>empty_referer_counts.
                   collect (\<lambda>row. propose_rule cf E expires ''detect_unsolved_challenges'' UNSOLVED_CHALLENGE dry_run refresh
                       (unsolved_ip_proposal window_minutes referer_ratio row))
                     (unsolved_ip_rows candidates solved_ips referer_ratio non_root_counts empty_referer_counts))))"

text \<open>\<open>subnet_totals\<close> and \<open>subnet_ips\<close> of the loop, and the subnets that pass its three tests.\<close>

definition subnet_members :: "(string \<times> int) list \<Rightarrow> string \<Rightarrow> (string \<times> int) list" where
  "subnet_members challenged subnet = filter (\<lambda>(ip, _). get_subnet_prefix ip = Inr subnet) challenged"

definition unsolved_subnet_rows ::
  "detector_conf \<Rightarrow> (string \<times> int) list \<Rightarrow> string set \<Rightarrow> (string \<times> int \<times> int) list" where
  "unsolved_subnet_rows dc challenged solved_ips =
     concat (map (\<lambda>subnet.
         let members = subnet_members challenged subnet;
             total_count = sum_list (map snd members); distinct_ips = fst ` set members
         in if total_count < DJANGO_WAF_UNSOLVED_SUBNET_MIN_CHALLENGED dc \<or>
               int (card distinct_ips) < DJANGO_WAF_UNSOLVED_SUBNET_MIN_IPS dc then []
            else if distinct_ips \<inter> solved_ips \<noteq> {} then []
            else [(subnet, total_count, int (card distinct_ips))])
       (firsts (subnets_of (map fst challenged))))"

text \<open>The stage of a subnet: a block only where this detector's own challenge rule is active.\<close>

definition already_challenged :: "string \<Rightarrow> BlockRule list \<Rightarrow> bool" where
  "already_challenged subnet rows =
     (case BlockRule_ordering (filter (\<lambda>r. br_rule_type r = RuleType_value CIDR \<and> br_pattern r = subnet \<and> br_source r = AUTO \<and>
         br_action r = RuleAction_value CHALLENGE \<and> br_is_active r) rows) of
        [] \<Rightarrow> False
      | r # _ \<Rightarrow> ''detect_unsolved_challenges'' \<in> set (split CHR '','' (br_detectors r)))"

definition unsolved_subnet_proposal :: "detector_conf \<Rightarrow> int \<Rightarrow> RuleAction \<Rightarrow> string \<times> int \<times> int \<Rightarrow> proposal" where
  "unsolved_subnet_proposal dc window_minutes stage_action row = (case row of (subnet, total_count, ips) \<Rightarrow>
     \<lparr>pr_name = ''Auto: unsolved challenges from '' @ subnet @ '' ('' @ str_int ips @ '' IPs)'', pr_rule_type = CIDR,
      pr_match_type = ''cidr'', pr_pattern = subnet, pr_action = stage_action,
      pr_confidence = scaled_confidence (of_int total_count) (of_int (DJANGO_WAF_UNSOLVED_SUBNET_MIN_CHALLENGED dc))
        (of_int (DJANGO_WAF_UNSOLVED_SUBNET_MIN_CHALLENGED dc * 2)),
      pr_evidence = [(''subnet_challenged_count'', str_int total_count), (''distinct_ips'', str_int ips),
        (''window_minutes'', str_int window_minutes)]\<rparr>)"

definition detect_unsolved_challenges_by_subnet ::
  "conf \<Rightarrow> detector_conf \<Rightarrow> 'r env \<Rightarrow> (string \<times> int) list \<Rightarrow> string set \<Rightarrow> int \<Rightarrow> rat \<Rightarrow> bool \<Rightarrow> bool \<Rightarrow>
   ('r world, BlockRule list) py" where
  "detect_unsolved_challenges_by_subnet cf dc E challenged solved_ips window_minutes expires dry_run refresh =
     collect (\<lambda>row. andThen (db E (read_state (\<lambda>w. already_challenged (fst row) (BlockRules w))))
         (\<lambda>again. propose_rule cf E expires ''detect_unsolved_challenges'' UNSOLVED_CHALLENGE dry_run refresh
            (unsolved_subnet_proposal dc window_minutes (if again then BLOCK else CHALLENGE) row)))
       (unsolved_subnet_rows dc challenged solved_ips)"

definition detect_unsolved_challenges ::
  "conf \<Rightarrow> detector_conf \<Rightarrow> 'r env \<Rightarrow> int \<Rightarrow> int option \<Rightarrow> rat option \<Rightarrow> int option \<Rightarrow> bool \<Rightarrow> bool \<Rightarrow>
   ('r world, BlockRule list) py" where
  "detect_unsolved_challenges cf dc E window_minutes min_challenged referer_ratio subnet_window_minutes dry_run refresh =
     (let effective_min_challenged = (case min_challenged of None \<Rightarrow> DJANGO_WAF_UNSOLVED_MIN_CHALLENGED dc | Some n \<Rightarrow> n);
          effective_referer_ratio = (case referer_ratio of None \<Rightarrow> DJANGO_WAF_UNSOLVED_REFERER_RATIO dc | Some q \<Rightarrow> q);
          effective_subnet_window = (case subnet_window_minutes of None \<Rightarrow> DJANGO_WAF_UNSOLVED_SUBNET_WINDOW_MINUTES dc | Some n \<Rightarrow> n);
          cutoff = minutes_ago E window_minutes;
          solve_cutoff = time_now E - of_int (DJANGO_WAF_UNSOLVED_SOLVE_EXEMPTION_WINDOW_HOURS dc * 3600)
      in andThen (db E (read_state (\<lambda>w. challenged_by_ip cutoff (RequestLogs w)))) (\<lambda>challenged.
         andThen (db E (read_state (\<lambda>w. challenged_by_ip (minutes_ago E effective_subnet_window) (RequestLogs w)))) (\<lambda>challenged_for_subnet.
         andThen (db E (read_state (\<lambda>w. solved_ips_of (fst ` set challenged \<union> fst ` set challenged_for_subnet) solve_cutoff
             (ChallengeTokens w)))) (\<lambda>solved_ips.
         andThen (detect_unsolved_challenges_per_ip cf E challenged solved_ips cutoff window_minutes effective_min_challenged
             effective_referer_ratio (auto_expiry dc E) dry_run refresh) (\<lambda>a.
         andThen (detect_unsolved_challenges_by_subnet cf dc E challenged_for_subnet solved_ips effective_subnet_window
             (auto_expiry dc E) dry_run refresh) (\<lambda>b. ret (a @ b)))))))"

section \<open>Cloud spray\<close>

text \<open>\<open>BARE_ORIGIN_REFERER_RE\<close>, \<open>^https?://[^/]+$\<close>.\<close>

definition bare_origin :: "string \<Rightarrow> bool" where
  "bare_origin s = list_ex (\<lambda>p. startswith s p \<and> drop (length p) s \<noteq> [] \<and> CHR ''/'' \<notin> set (drop (length p) s))
     [''http://'', ''https://'']"

definition no_referer :: "RequestLog list \<Rightarrow> RequestLog list" where
  "no_referer rows = filter (\<lambda>r. rl_referer r = [] \<or> bare_origin (rl_referer r)) rows"

definition spray_uas :: "int \<Rightarrow> nat \<Rightarrow> RequestLog list \<Rightarrow> string list" where
  "spray_uas min_ips top_n rows =
     (let named = filter (\<lambda>r. rl_user_agent r \<noteq> []) (no_referer rows);
          annotated = map (\<lambda>ua. (ua, int (card (rl_ip_address ` set (filter (\<lambda>r. rl_user_agent r = ua) named)))))
            (firsts (map rl_user_agent named))
      in map fst (take top_n (sort_key (\<lambda>x. - snd x) (filter (\<lambda>(_, n). min_ips \<le> n) annotated))))"

definition spray_ips :: "int \<Rightarrow> string \<Rightarrow> RequestLog list \<Rightarrow> string list" where
  "spray_ips max_per_ip ua rows = map fst (filter (\<lambda>(_, n). n \<le> max_per_ip)
     (group_counts (map rl_ip_address (no_referer (filter (\<lambda>r. rl_user_agent r = ua) rows)))))"

definition spray_ua_proposal :: "int \<Rightarrow> int \<Rightarrow> string list \<Rightarrow> string \<Rightarrow> proposal" where
  "spray_ua_proposal min_ips window_minutes suspicious_ips ua =
     (let n = int (length suspicious_ips)
      in \<lparr>pr_name = ''Auto: cloud spray UA ('' @ str_int n @ '' IPs, UA: '' @ take 40 ua @ '')'', pr_rule_type = UA,
          pr_match_type = ''exact'', pr_pattern = ua, pr_action = CHALLENGE,
          pr_confidence = scaled_confidence (of_int n) (of_int min_ips) (of_int (min_ips * 2)),
          pr_evidence = [(''distinct_ips'', str_int n), (''user_agent'', take 200 ua), (''window_minutes'', str_int window_minutes)]\<rparr>)"

definition spray_subnet_proposal :: "int \<Rightarrow> int \<Rightarrow> string list \<Rightarrow> string \<Rightarrow> string \<times> int \<Rightarrow> proposal" where
  "spray_subnet_proposal min_ips window_minutes suspicious_ips ua row = (case row of (subnet, count) \<Rightarrow>
     \<lparr>pr_name = ''Auto: cloud spray from '' @ subnet @ '' ('' @ str_int count @ '' IPs, UA: '' @ take 40 ua @ '')'',
      pr_rule_type = CIDR, pr_match_type = ''cidr'', pr_pattern = subnet, pr_action = CHALLENGE,
      pr_confidence = scaled_confidence (of_int count) (of_int min_ips) (of_int (min_ips * 2)),
      pr_evidence = [(''subnet'', subnet), (''ip_count'', str_int count), (''total_spray_ips'', str_int (int (length suspicious_ips))),
        (''user_agent'', take 200 ua), (''window_minutes'', str_int window_minutes)]\<rparr>)"

text \<open>A negative slice bound is a \<open>ValueError\<close> of the ORM.\<close>

definition detect_cloud_spray ::
  "conf \<Rightarrow> detector_conf \<Rightarrow> 'r env \<Rightarrow> int \<Rightarrow> bool \<Rightarrow> bool \<Rightarrow> ('r world, BlockRule list) py" where
  "detect_cloud_spray cf dc E window_minutes dry_run refresh =
     (let cutoff = minutes_ago E window_minutes; min_ips = DJANGO_WAF_CLOUD_SPRAY_MIN_IPS dc;
          max_per_ip = DJANGO_WAF_CLOUD_SPRAY_MAX_REQUESTS_PER_IP dc; top_n = DJANGO_WAF_CLOUD_SPRAY_TOP_N dc;
          propose = propose_rule cf E (auto_expiry dc E) ''detect_cloud_spray'' CLOUD_SPRAY dry_run refresh
      in if top_n < 0 then raise ValueError
         else andThen (db E (read_state (\<lambda>w. spray_uas min_ips (nat top_n) (since cutoff (RequestLogs w)))))
           (collect (\<lambda>ua.
              andThen (db E (read_state (\<lambda>w. spray_ips max_per_ip ua (since cutoff (RequestLogs w))))) (\<lambda>suspicious_ips.
                if int (length suspicious_ips) < min_ips then ret []
                else andThen (if DJANGO_WAF_CLOUD_SPRAY_UA_RULE dc
                       then propose (spray_ua_proposal min_ips window_minutes suspicious_ips ua) else ret []) (\<lambda>a.
                     andThen (collect (\<lambda>row. propose (spray_subnet_proposal min_ips window_minutes suspicious_ips ua row))
                         (filter (\<lambda>(_, count). \<not> count < 2) (group_counts (subnets_of suspicious_ips)))) (\<lambda>b.
                       ret (a @ b)))))))"

section \<open>Scrapers\<close>

definition scraper_candidates :: "int \<Rightarrow> RequestLog list \<Rightarrow> (string \<times> int \<times> int) list" where
  "scraper_candidates min_requests rows =
     (let reached_app = filter (\<lambda>r. rl_verdict r \<in> {ALLOWED, LOGGED}) rows
      in filter (\<lambda>(_, total_count, _). min_requests \<le> total_count)
           (map (\<lambda>ip. (ip, int (length (RequestLog_for_ip ip reached_app)),
               int (length (filter (\<lambda>r. rl_response_code r = 404) (RequestLog_for_ip ip reached_app)))))
             (firsts (map rl_ip_address reached_app))))"

definition qualifying_rows :: "rat \<Rightarrow> (string \<times> int \<times> int) list \<Rightarrow> (string \<times> int \<times> int) list" where
  "qualifying_rows ratio_floor candidates =
     filter (\<lambda>(_, total_count, count_404). \<not> of_int count_404 / of_int total_count < ratio_floor) candidates"

text \<open>The second half of the pair of \<open>allow_check_available\<close> and \<open>cache\<close>: \<open>None\<close> when there is no
  Redis or the rules cannot be loaded.\<close>

definition allow_rules_for_run :: "'r env \<Rightarrow> bool \<Rightarrow> ('r world, json list option) py" where
  "allow_rules_for_run E needed =
     (if \<not> needed then ret (Some [])
      else (case get_redis_client E of
          None \<Rightarrow> ret None
        | Some _ \<Rightarrow> try_except (andThen (load_rule_cache E) (\<lambda>cache. ret (Some (cache_allow_rules cache)))) (\<lambda>_. ret None)))"

definition user_agents_by_ip :: "string list \<Rightarrow> RequestLog list \<Rightarrow> (string \<times> string list) list" where
  "user_agents_by_ip ips rows = map (\<lambda>ip. (ip, firsts (map rl_user_agent (RequestLog_for_ip ip rows))))
     (firsts (map rl_ip_address (filter (\<lambda>r. rl_ip_address r \<in> set ips) rows)))"

fun scraper_candidate_matches_allow_rule ::
  "conf \<Rightarrow> 'r env \<Rightarrow> string \<Rightarrow> string list \<Rightarrow> json list \<Rightarrow> ('r world, bool) py" where
  "scraper_candidate_matches_allow_rule cf E ip [] rules = ret False"
| "scraper_candidate_matches_allow_rule cf E ip (ua # uas) rules =
     andThen (try_except (andThen (check_allow_rules cf E ip ua rules) (\<lambda>m. ret (m \<noteq> None))) (\<lambda>_. ret True))
       (\<lambda>matched. if matched then ret True else scraper_candidate_matches_allow_rule cf E ip uas rules)"

definition scraper_proposal :: "rat \<Rightarrow> int \<Rightarrow> RuleAction \<Rightarrow> string \<times> int \<times> int \<Rightarrow> proposal" where
  "scraper_proposal ratio_floor window_minutes action row = (case row of (ip, total_count, count_404) \<Rightarrow>
     (let ratio = of_int count_404 / of_int total_count
      in \<lparr>pr_name = ''Auto: scraper 404 ratio from '' @ ip, pr_rule_type = IP, pr_match_type = ''exact'', pr_pattern = ip,
          pr_action = action, pr_confidence = scaled_confidence ratio ratio_floor (1 - ratio_floor),
          pr_evidence = [(''total_requests'', str_int total_count), (''count_404'', str_int count_404), (''ratio'', two_decimals ratio),
            (''window_minutes'', str_int window_minutes)]\<rparr>))"

definition detect_scraper_404_ratio ::
  "conf \<Rightarrow> detector_conf \<Rightarrow> 'r env \<Rightarrow> int option \<Rightarrow> bool \<Rightarrow> bool \<Rightarrow> ('r world, BlockRule list) py" where
  "detect_scraper_404_ratio cf dc E window_minutes dry_run refresh =
     (let effective_window = (case window_minutes of None \<Rightarrow> DJANGO_WAF_SCRAPER_404_WINDOW_MINUTES dc | Some n \<Rightarrow> n);
          ratio_floor = DJANGO_WAF_SCRAPER_404_RATIO dc;
          action = (if DJANGO_WAF_SCRAPER_404_ACTION_BLOCK dc then BLOCK else CHALLENGE);
          cutoff = minutes_ago E effective_window
      in andThen (db E (read_state (\<lambda>w. scraper_candidates (DJANGO_WAF_SCRAPER_404_MIN_REQUESTS dc) (since cutoff (RequestLogs w)))))
           (\<lambda>candidates. let rows = qualifying_rows ratio_floor candidates in
              andThen (allow_rules_for_run E (rows \<noteq> [])) (\<lambda>rules.
              andThen (if rows = [] then ret []
                  else db E (read_state (\<lambda>w. user_agents_by_ip (map fst rows) (since cutoff (RequestLogs w))))) (\<lambda>uas.
                collect (\<lambda>row. case rules of
                     None \<Rightarrow> ret []
                   | Some allow_rules \<Rightarrow>
                       andThen (scraper_candidate_matches_allow_rule cf E (fst row)
                           (case map_of uas (fst row) of None \<Rightarrow> [[]] | Some l \<Rightarrow> l) allow_rules)
                         (\<lambda>excluded. if excluded then ret []
                            else propose_rule cf E (auto_expiry dc E) ''detect_scraper_404_ratio'' SCRAPER_404 dry_run refresh
                              (scraper_proposal ratio_floor effective_window action row))) rows))))"

section \<open>All detectors\<close>

record detector_counts =
  ua_rotation_rules :: nat
  subnet_burst_rules :: nat
  challenge_farm_rules :: nat
  unsolved_challenge_rules :: nat
  cloud_spray_rules :: nat
  scraper_404_rules :: nat
  total_rules_created :: nat

definition run_all_detectors ::
  "conf \<Rightarrow> detector_conf \<Rightarrow> 'r env \<Rightarrow> int option \<Rightarrow> bool \<Rightarrow> bool \<Rightarrow> ('r world, detector_counts) py" where
  "run_all_detectors cf dc E window_minutes dry_run refresh =
     (let win = (\<lambda>d. case window_minutes of None \<Rightarrow> d | Some n \<Rightarrow> n);
          window_hours = (case window_minutes of None \<Rightarrow> 24 | Some n \<Rightarrow> max 1 (- ((- n) div 60)))
      in andThen (detect_ua_rotation cf dc E (win 5) None dry_run refresh) (\<lambda>ua_rules.
         andThen (detect_subnet_burst cf dc E (win 15) dry_run refresh) (\<lambda>subnet_rules.
         andThen (detect_challenge_farms cf dc E window_hours dry_run refresh) (\<lambda>farm_rules.
         andThen (detect_unsolved_challenges cf dc E (win 60) None None None dry_run refresh) (\<lambda>unsolved_rules.
         andThen (detect_cloud_spray cf dc E (win 30) dry_run refresh) (\<lambda>spray_rules.
         andThen (detect_scraper_404_ratio cf dc E window_minutes dry_run refresh) (\<lambda>scraper_rules.
           ret \<lparr>ua_rotation_rules = length ua_rules, subnet_burst_rules = length subnet_rules,
             challenge_farm_rules = length farm_rules, unsolved_challenge_rules = length unsolved_rules,
             cloud_spray_rules = length spray_rules, scraper_404_rules = length scraper_rules,
             total_rules_created = length ua_rules + length subnet_rules + length farm_rules + length unsolved_rules +
               length spray_rules + length scraper_rules\<rparr>)))))))"

record review_counts =
  rc_pending :: nat
  rc_confirmed :: nat
  rc_rejected :: nat
  rc_expired_unreviewed :: nat
  rc_not_applicable :: nat
  rc_total :: nat

definition auto_rule_review_outcomes :: "'r env \<Rightarrow> int \<Rightarrow> ('r world, review_counts) py" where
  "auto_rule_review_outcomes E window_hours = andThen (db E (read_state (\<lambda>w.
       filter (\<lambda>r. (br_source r = AUTO \<or> br_review_status r \<noteq> NOT_APPLICABLE) \<and>
         time_now E - of_int (window_hours * 3600) \<le> br_created_at r) (BlockRules w))))
     (\<lambda>rows. let counts = (\<lambda>s. length (filter (\<lambda>r. br_review_status r = s) rows))
        in ret \<lparr>rc_pending = counts PENDING_REVIEW, rc_confirmed = counts CONFIRMED, rc_rejected = counts REJECTED,
             rc_expired_unreviewed = counts EXPIRED_UNREVIEWED, rc_not_applicable = counts NOT_APPLICABLE,
             rc_total = counts PENDING_REVIEW + counts CONFIRMED + counts REJECTED + counts EXPIRED_UNREVIEWED +
               counts NOT_APPLICABLE\<rparr>)"

section \<open>What a run of the detectors keeps\<close>

text \<open>The interface between the detectors and the rule table: a predicate on the state that the
  guarded write path keeps, that survives the writes of other processes, and that says nothing
  about Redis and the caches, is kept by every detector, on every outcome. For a dry run only the
  preview has to keep it, and no signal is sent.\<close>

locale detector_invariant =
  fixes cf :: conf and E :: "'r env" and dry_run :: bool and P :: "'r world \<Rightarrow> bool"
  assumes rule_kept: "keeps P (get_or_create_auto_rule cf E n rt mt p a ex dry_run dn co ev cr)"
    and signal_kept: "\<not> dry_run \<Longrightarrow> P w \<Longrightarrow> P (w\<lparr>signals := sigs\<rparr>)"
    and rivals_kept: "P w \<Longrightarrow> P (w\<lparr>BlockRules := rivals E k (BlockRules w), db_ops := j\<rparr>)"
    and redis_free: "P w \<Longrightarrow> P (w\<lparr>server := r\<rparr>)"
    and cache_free: "P w \<Longrightarrow> P (w\<lparr>process_cache := c, process_cache_version := v\<rparr>)"
    and memo_free: "P w \<Longrightarrow> P (w\<lparr>ua_pattern_cache := m\<rparr>)"
begin

lemma keeps_query: "keeps P (db E (read_state f))"
  using rivals_kept by (simp add: keeps_def db_def Let_def)

lemma keeps_redis: "keeps P (on_redis m)"
  using redis_free by (simp add: keeps_def on_redis_def split: prod.splits)

lemma keeps_pure: "frames (\<lambda>w. w) m \<Longrightarrow> keeps P m"
  by (simp add: keeps_def frames_def)

lemma keeps_memo_ua: "keeps P (memo_ua_pattern p c)"
  using memo_free by (simp add: keeps_def memo_ua_pattern_def)

lemma keeps_compiled: "keeps P (compile_ua_patterns E rules)"
proof (induction rules)
  case Nil
  show ?case unfolding compile_ua_patterns.simps by (rule keeps_ret)
next
  case (Cons r rules)
  have "keeps P (compile_ua_rule E r p mt)" for p mt
    unfolding compile_ua_rule_def invalid_ua_pattern_def by (intro keep_intros keeps_memo_ua keeps_pure frames_item_str)
  with Cons show ?case unfolding compile_ua_patterns.simps by (intro keep_intros keeps_pure [OF frames_item_str])
qed

lemma keeps_lock: "keeps P (acquire_attempts E n)"
proof (induction n)
  case 0
  show ?case unfolding acquire_attempts.simps by (rule keeps_ret)
next
  case (Suc n)
  then have "keeps P (case b of True \<Rightarrow> ret True | False \<Rightarrow> acquire_attempts E n)" for b
    by (cases b) (simp_all add: keeps_def)
  then show ?case unfolding acquire_attempts.simps by (intro keep_intros keeps_redis)
qed

lemma keeps_rebuild: "keeps P (rebuild_rule_cache E v key)"
  unfolding rebuild_rule_cache_def acquire_rebuild_lock_def release_rebuild_lock_def rebuild_rule_cache_from_db_def swallow_def
  by (intro keep_intros keeps_finally keeps_lock keeps_query keeps_redis keeps_compiled)

lemma keeps_load: "keeps P (load_rule_cache E)"
proof -
  have rem: "keeps P (remember v c)" for v c
    unfolding remember_def using cache_free by (intro keep_intros) (simp add: keeps_def)
  have al: "frames (\<lambda>w. w) (as_list j)" for j
    by (auto simp: as_list_def frames_def split: option.splits json.splits)
  have dec: "keeps P (decode_cached_rules E v t)" for v t
    unfolding decode_cached_rules_def
    by (auto split: option.splits json.splits intro!: keep_intros keeps_compiled keeps_pure [OF al])
  have "keeps P (fetch_rule_cache E v)" for v
    unfolding fetch_rule_cache_def Let_def by (intro keep_intros keeps_redis keeps_rebuild rem dec)
  then show ?thesis unfolding load_rule_cache_def
    by (auto split: option.splits prod.splits intro!: keep_intros keeps_redis)
qed

lemma keeps_check_allow: "keeps P (check_allow_rules cf E ip ua rules)"
proof (induction rules)
  case Nil
  show ?case unfolding check_allow_rules.simps by (rule keeps_ret)
next
  case (Cons r rules)
  have item: "keeps P (item_str d k)" for d k by (rule keeps_pure [OF frames_item_str])
  have ex: "keeps P (is_cached_rule_expired E r)"
    unfolding is_cached_rule_expired_def
    by (auto split: option.splits json.splits intro!: keep_intros)
  have ua: "keeps P (match_ua E ua p mt)" for p mt
    unfolding match_ua_def get_compiled_ua_regex_def Let_def by (intro keep_intros keeps_memo_ua)
  have m: "keeps P (rule_matches E r ip ua)"
    unfolding rule_matches_def
    by (intro keep_intros item ua) (auto split: option.splits intro!: keep_intros ua)
  have rd: "keeps P (rdns_rejects cf E r ip)"
    unfolding rdns_rejects_def verify_rdns_def Let_def by (intro keep_intros item keeps_redis)
  show ?case unfolding check_allow_rules.simps by (intro keep_intros ex m rd item Cons)
qed

lemma keeps_propose: "keeps P (propose_rule cf E ex dn ty dry_run cr p)"
proof -
  have s: "keeps P (emit_anomaly_signal E r ty d)" if "\<not> dry_run" for r d
    unfolding emit_anomaly_signal_def swallow_def using signal_kept [OF that]
    by (intro keep_intros) (auto simp: keeps_def send_def Let_def)
  have "keeps P (case x of (rule, created) \<Rightarrow> if \<not> created then ret []
      else andThen (if dry_run then ret () else emit_anomaly_signal E rule ty (pr_evidence p)) (\<lambda>_. ret [rule]))" for x
    using s by (cases x; cases dry_run) (simp_all add: keeps_def emit_anomaly_signal_def swallow_apply)
  then show ?thesis unfolding propose_rule_def by (intro keep_intros rule_kept)
qed

lemma keeps_collect: "(\<And>x. keeps P (f x)) \<Longrightarrow> keeps P (collect f xs)"
proof (induction xs)
  case Nil
  show ?case unfolding collect.simps by (rule keeps_ret)
next
  case (Cons x xs)
  show ?case unfolding collect.simps by (intro keep_intros Cons)
qed

lemma keeps_scraper_match: "keeps P (scraper_candidate_matches_allow_rule cf E ip uas rules)"
proof (induction uas)
  case Nil
  show ?case unfolding scraper_candidate_matches_allow_rule.simps by (rule keeps_ret)
next
  case (Cons u uas)
  then show ?case unfolding scraper_candidate_matches_allow_rule.simps by (intro keep_intros keeps_check_allow)
qed

lemmas detector_keeps = keeps_query keeps_propose keeps_collect keeps_load keeps_scraper_match

lemma keeps_each:
  "keeps P (detect_ua_rotation cf dc E wm t dry_run cr)" "keeps P (detect_subnet_burst cf dc E wm dry_run cr)"
  "keeps P (detect_challenge_farms cf dc E wm dry_run cr)" "keeps P (detect_cloud_spray cf dc E wm dry_run cr)"
  unfolding detect_ua_rotation_def detect_subnet_burst_def detect_challenge_farms_def detect_cloud_spray_def Let_def
  by (intro keep_intros detector_keeps)+

lemma keeps_unsolved: "keeps P (detect_unsolved_challenges cf dc E wm mc rr sw dry_run cr)"
  unfolding detect_unsolved_challenges_def detect_unsolved_challenges_per_ip_def detect_unsolved_challenges_by_subnet_def Let_def
  by (intro keep_intros detector_keeps)

lemma keeps_scraper: "keeps P (detect_scraper_404_ratio cf dc E wm dry_run cr)"
proof -
  have "keeps P (allow_rules_for_run E b)" for b
    unfolding allow_rules_for_run_def by (intro keep_intros detector_keeps)
  then show ?thesis unfolding detect_scraper_404_ratio_def Let_def by (intro keep_intros detector_keeps)
qed

lemma keeps_run_all: "keeps P (run_all_detectors cf dc E wm dry_run cr)"
  unfolding run_all_detectors_def Let_def by (intro keep_intros keeps_each keeps_unsolved keeps_scraper)

end

lemma detector_invariant_decided:
  assumes "rivals_insert E"
  shows "detector_invariant cf E dry (decided lookup i a s)"
proof
  show "keeps (decided lookup i a s) (get_or_create_auto_rule cf E n rt mt p ac ex dry dn co ev cr)"
    for n rt mt p ac ex dn co ev cr by (rule keeps_decided [OF assms])
  show "decided lookup i a s (w\<lparr>BlockRules := rivals E k (BlockRules w), db_ops := j\<rparr>)" if "decided lookup i a s w" for w k j
    by (rule decided_rivals [OF assms that])
qed (simp_all add: decided_def)

lemma detector_invariant_wf:
  assumes "rivals_insert E"
  shows "detector_invariant cf E dry (\<lambda>w. wf_table (BlockRules w))"
proof
  show "keeps (\<lambda>w. wf_table (BlockRules w)) (get_or_create_auto_rule cf E n rt mt p ac ex dry dn co ev cr)"
    for n rt mt p ac ex dn co ev cr by (rule keeps_wf_table [OF assms])
  show "wf_table (BlockRules (w\<lparr>BlockRules := rivals E k (BlockRules w), db_ops := j\<rparr>))" if "wf_table (BlockRules w)" for w :: "'a world" and k j
    using assms that by (simp add: rivals_insert_def) metis
qed simp_all

lemma detector_invariant_manual:
  assumes "rivals_insert E" and "\<forall>q \<in> K. br_source q \<noteq> AUTO"
  shows "detector_invariant cf E dry (undisturbed K)"
proof
  show "keeps (undisturbed K) (get_or_create_auto_rule cf E n rt mt p ac ex dry dn co ev cr)"
    for n rt mt p ac ex dn co ev cr by (rule keeps_undisturbed_guarded [OF assms])
  show "undisturbed K (w\<lparr>BlockRules := rivals E k (BlockRules w), db_ops := j\<rparr>)" if "undisturbed K w" for w k j
    by (rule undisturbed_rivals [OF assms(1) that])
qed (simp_all add: undisturbed_def)

text \<open>The tables and what has been announced.\<close>

definition tables :: "'r world \<Rightarrow> BlockRule list \<times> AllowRule list \<times> RequestLog list \<times> ChallengeToken list \<times> IPReputation list \<times> signal list" where
  "tables w = (BlockRules w, AllowRules w, RequestLogs w, ChallengeTokens w, IPReputations w, signals w)"

lemma detector_invariant_dry:
  assumes "\<And>n rows. rivals E n rows = rows"
  shows "detector_invariant cf E True (\<lambda>w. tables w = t)"
proof
  show "keeps (\<lambda>w. tables w = t) (get_or_create_auto_rule cf E n rt mt p ac ex True dn co ev cr)"
    for n rt mt p ac ex dn co ev cr
    by (auto simp: keeps_def get_or_create_auto_rule_def preview_auto_rule_def andThen_def db_def Let_def assms tables_def
        split: option.splits prod.splits sum.splits)
qed (simp_all add: tables_def assms)

interpretation demo_dry: detector_invariant default_conf demo_env True "\<lambda>w. tables w = t"
  by (rule detector_invariant_dry) (simp add: demo_env_def)

interpretation demo_review: detector_invariant default_conf demo_env dry "decided lookup i a s"
  by (rule detector_invariant_decided) (simp add: rivals_insert_def demo_env_def)

section \<open>Exactly the suspects\<close>

definition proposal_key :: "proposal \<Rightarrow> auto_lookup" where
  "proposal_key p = \<lparr>lk_rule_type = RuleType_value (pr_rule_type p), lk_pattern = pr_pattern p, lk_action = RuleAction_value (pr_action p)\<rparr>"

definition in_table :: "auto_lookup \<Rightarrow> 'r world \<Rightarrow> bool" where
  "in_table lk w = (filter (has_key lk) (BlockRules w) \<noteq> [])"

lemma in_table_iff: "in_table lk w \<longleftrightarrow> (\<exists>r \<in> set (BlockRules w). has_key lk r)"
  by (simp add: in_table_def filter_empty_conv)

lemma filter_key_cases:
  assumes "wf_table rows"
  obtains "filter (has_key lk) rows = []" | q where "filter (has_key lk) rows = [q]"
proof (cases "filter (has_key lk) rows")
  case (Cons q qs)
  then have "q \<in> set (filter (has_key lk) rows)" by simp
  then have "filter (has_key lk) rows = [q]" by (intro filter_key_le1 [OF assms]) simp_all
  then show ?thesis using that by blast
qed (use that in blast)

lemma in_table_replace:
  assumes "wf_table (BlockRules w)" and "filter (has_key lk) (BlockRules w) = [q]"
    and "BlockRules w' = map (\<lambda>x. if br_id x = br_id q then apply_defaults d q else x) (BlockRules w)"
  shows "in_table lk' w' \<longleftrightarrow> in_table lk' w"
proof -
  have q: "q \<in> set (BlockRules w)" using assms(2) by (auto dest: filter_eq_ConsD)
  have "x = q" if "x \<in> set (BlockRules w)" "br_id x = br_id q" for x
    using assms(1) q that by (auto simp: wf_table_def distinct_map inj_on_def)
  then have "has_key lk' (if br_id x = br_id q then apply_defaults d q else x) = has_key lk' x" if "x \<in> set (BlockRules w)" for x
    using that by auto
  then show ?thesis unfolding in_table_iff assms(3) set_map bex_simps(7) by (rule bex_cong [OF refl])
qed

definition with_pattern :: "string \<Rightarrow> BlockRule list \<Rightarrow> BlockRule list" where
  "with_pattern s rows = filter (\<lambda>r. br_pattern r = s) rows"

lemma with_pattern_replace:
  assumes "wf_table rows" and "q \<in> set rows" and "s \<noteq> br_pattern q"
  shows "with_pattern s (map (\<lambda>x. if br_id x = br_id q then apply_defaults d q else x) rows) = with_pattern s rows"
proof -
  have "x = q" if "x \<in> set rows" "br_id x = br_id q" for x
    using assms(1,2) that by (auto simp: wf_table_def distinct_map inj_on_def)
  moreover have "br_pattern (apply_defaults d q) = br_pattern q" by (simp add: apply_defaults_def)
  ultimately show ?thesis using assms(3) unfolding with_pattern_def by (induction rows) auto
qed

lemma propose_calm:
  assumes E: "calm_db E" and ids: "fresh_ids E w" and wf: "wf_table (BlockRules w)"
  shows "\<exists>rs w'. propose_rule cf E ex dn ty False cr p w = (Inr rs, w') \<and>
     (if in_table (proposal_key p) w then rs = [] else \<exists>r. rs = [r] \<and> has_key (proposal_key p) r) \<and>
     (\<forall>lk. in_table lk w' \<longleftrightarrow> in_table lk w \<or> lk = proposal_key p) \<and>
     (\<forall>s. s \<noteq> pr_pattern p \<longrightarrow> with_pattern s (BlockRules w') = with_pattern s (BlockRules w)) \<and>
     fresh_ids E w' \<and> wf_table (BlockRules w') \<and> others w' = others w"
proof -
  define lk where "lk = proposal_key p"
  define d where "d = auto_rule_defaults cf (pr_name p) (pr_match_type p) ex dn (Some (pr_confidence p)) (Some (pr_evidence p))"
  have body: "propose_rule cf E ex dn ty False cr p = andThen (write_auto_rule E lk d dn) (\<lambda>(rule, created).
      if \<not> created then ret [] else andThen (emit_anomaly_signal E rule ty (pr_evidence p)) (\<lambda>_. ret [rule]))"
    unfolding propose_rule_def get_or_create_auto_rule_def lk_def proposal_key_def d_def Let_def if_False ..
  have kept: "wf_table (BlockRules (snd (write_auto_rule E lk d dn w)))"
  proof -
    have "rivals_insert E" using E by (auto simp: calm_db_def rivals_insert_def)
    from keeps_undisturbed_write [OF this, of "{}" lk] wf show ?thesis by (simp add: keeps_def undisturbed_def)
  qed
  from wf show ?thesis
  proof (cases rule: filter_key_cases [where lk = lk])
    case 1
    let ?u = "uuid4 E (uuids_used w)"
    from write_new_calm [OF E ids 1, of d dn] obtain r w1 where w1: "write_auto_rule E lk d dn w = (Inr (r, True), w1)"
      "BlockRules w1 = BlockRules w @ [r]" "uuids_used w1 = Suc (uuids_used w)" "others w1 = others w" "has_key lk r" "br_id r = ?u"
      by (auto simp: new_rule_def apply_defaults_def has_key_def)
    define w2 where "w2 = snd (send E (Anomaly_detected (br_id r) ty (pr_evidence p)) w1)"
    have w2: "BlockRules w2 = BlockRules w1" "uuids_used w2 = uuids_used w1" "others w2 = others w1"
      by (simp_all add: w2_def send_def Let_def others_def)
    have "in_table lk' w2 \<longleftrightarrow> in_table lk' w \<or> lk' = lk" for lk'
      using w1(5) has_key_unique [OF w1(5), of lk'] by (simp add: in_table_iff w2(1) w1(2)) blast
    moreover have "fresh_ids E w2"
      using ids by (simp add: fresh_ids_def w2(1,2) w1(2,3,6) inj_eq)
    moreover have "\<not> in_table lk w" using 1 by (simp add: in_table_def)
    moreover have "propose_rule cf E ex dn ty False cr p w = (Inr [r], w2)"
      unfolding body using w1(1) by (simp add: emit_anomaly_signal_def w2_def)
    moreover have "with_pattern s (BlockRules w2) = with_pattern s (BlockRules w)" if "s \<noteq> pr_pattern p" for s
      using w1(5) that by (simp add: w2(1) w1(2) with_pattern_def has_key_def lk_def proposal_key_def)
    ultimately show ?thesis using kept w1 w2 unfolding lk_def by auto
  next
    case (2 q)
    from write_known_calm [OF E 2, of d dn] obtain d' w1 where w1: "write_auto_rule E lk d dn w = (Inr (apply_defaults d' q, False), w1)"
      "BlockRules w1 = map (\<lambda>x. if br_id x = br_id q then apply_defaults d' q else x) (BlockRules w)"
      "uuids_used w1 = uuids_used w" "others w1 = others w" by blast
    have it: "in_table lk' w1 \<longleftrightarrow> in_table lk' w" for lk' by (rule in_table_replace [OF wf 2 w1(2)])
    have "br_id ` set (BlockRules w1) \<subseteq> br_id ` set (BlockRules w)"
      unfolding w1(2) by (auto intro: rev_image_eqI)
    then have "fresh_ids E w1" using ids w1(3) by (auto simp: fresh_ids_def)
    moreover have "in_table lk w" using 2 by (simp add: in_table_def)
    moreover have "propose_rule cf E ex dn ty False cr p w = (Inr [], w1)" unfolding body using w1(1) by simp
    moreover have "q \<in> set (BlockRules w)" "has_key lk q" using 2 by (auto dest: filter_eq_ConsD)
    then have "with_pattern s (BlockRules w1) = with_pattern s (BlockRules w)" if "s \<noteq> pr_pattern p" for s
      unfolding w1(2) using that by (intro with_pattern_replace [OF wf]) (simp_all add: has_key_def lk_def proposal_key_def)
    ultimately show ?thesis using kept w1 it unfolding lk_def by auto
  qed
qed

lemma collect_calm:
  assumes E: "calm_db E" and ids: "fresh_ids E w" and wf: "wf_table (BlockRules w)"
    and dist: "distinct (map (\<lambda>x. proposal_key (f x)) xs)"
  shows "\<exists>rs w'. collect (\<lambda>x. propose_rule cf E ex dn ty False cr (f x)) xs w = (Inr rs, w') \<and>
     list_all2 has_key (filter (\<lambda>lk. \<not> in_table lk w) (map (\<lambda>x. proposal_key (f x)) xs)) rs \<and>
     (\<forall>lk. in_table lk w' \<longleftrightarrow> in_table lk w \<or> lk \<in> (\<lambda>x. proposal_key (f x)) ` set xs) \<and>
     fresh_ids E w' \<and> wf_table (BlockRules w') \<and> others w' = others w"
  using assms(2-)
proof (induction xs arbitrary: w)
  case Nil
  then show ?case by simp
next
  case (Cons x xs)
  from propose_calm [OF E Cons.prems(1,2), of cf ex dn ty cr "f x"] obtain r1 w1 where
    p1: "propose_rule cf E ex dn ty False cr (f x) w = (Inr r1, w1)"
    "if in_table (proposal_key (f x)) w then r1 = [] else \<exists>r. r1 = [r] \<and> has_key (proposal_key (f x)) r"
    "\<And>lk. in_table lk w1 \<longleftrightarrow> in_table lk w \<or> lk = proposal_key (f x)"
    "fresh_ids E w1" "wf_table (BlockRules w1)" "others w1 = others w" by blast
  from Cons.IH [OF p1(4,5)] Cons.prems(3) obtain r2 w2 where
    p2: "collect (\<lambda>x. propose_rule cf E ex dn ty False cr (f x)) xs w1 = (Inr r2, w2)"
    "list_all2 has_key (filter (\<lambda>lk. \<not> in_table lk w1) (map (\<lambda>x. proposal_key (f x)) xs)) r2"
    "\<And>lk. in_table lk w2 \<longleftrightarrow> in_table lk w1 \<or> lk \<in> (\<lambda>x. proposal_key (f x)) ` set xs"
    "fresh_ids E w2" "wf_table (BlockRules w2)" "others w2 = others w1" by auto
  have "filter (\<lambda>lk. \<not> in_table lk w1) (map (\<lambda>x. proposal_key (f x)) xs) = filter (\<lambda>lk. \<not> in_table lk w) (map (\<lambda>x. proposal_key (f x)) xs)"
  proof (rule filter_cong [OF refl])
    fix lk assume "lk \<in> set (map (\<lambda>x. proposal_key (f x)) xs)"
    then have "lk \<noteq> proposal_key (f x)" using Cons.prems(3) by (metis distinct.simps(2) list.simps(9))
    then show "(\<not> in_table lk w1) = (\<not> in_table lk w)" using p1(3) by simp
  qed
  with p1(2) p2(2) have "list_all2 has_key (filter (\<lambda>lk. \<not> in_table lk w) (map (\<lambda>x. proposal_key (f x)) (x # xs))) (r1 @ r2)"
    by (auto split: if_splits)
  moreover have "collect (\<lambda>x. propose_rule cf E ex dn ty False cr (f x)) (x # xs) w = (Inr (r1 @ r2), w2)"
    using p1(1) p2(1) by simp
  moreover have "in_table lk w2 \<longleftrightarrow> in_table lk w \<or> lk \<in> (\<lambda>x. proposal_key (f x)) ` set (x # xs)" for lk
    unfolding p2(3) p1(3) by auto
  ultimately show ?case using p1(6) p2(4-6) by (intro exI [of _ "r1 @ r2"] exI [of _ w2]) simp
qed

lemma query_calm: "calm_db E \<Longrightarrow> db E (read_state f) w = (Inr (f (w\<lparr>db_ops := Suc (db_ops w)\<rparr>)), w\<lparr>db_ops := Suc (db_ops w)\<rparr>)"
  by (simp add: db_calm)

lemma calm_db_ops [simp]:
  "fresh_ids E (w\<lparr>db_ops := n\<rparr>) = fresh_ids E w" "in_table lk (w\<lparr>db_ops := n\<rparr>) = in_table lk w"
  "others (w\<lparr>db_ops := n\<rparr>) = others w"
  by (simp_all add: fresh_ids_def in_table_def others_def)

definition rotators :: "rat \<Rightarrow> int \<Rightarrow> RequestLog list \<Rightarrow> string set" where
  "rotators cutoff threshold logs = {ip. threshold <
     int (card {rl_user_agent r |r. r \<in> set logs \<and> rl_ip_address r = ip \<and> cutoff \<le> rl_timestamp r})}"

lemma ua_rotation_rows_exact:
  assumes "0 \<le> threshold"
  shows "fst ` set (ua_rotation_rows cutoff threshold logs) = rotators cutoff threshold logs"
    and "distinct (map fst (ua_rotation_rows cutoff threshold logs))"
proof -
  have img: "rl_user_agent ` set (RequestLog_for_ip ip (since cutoff logs)) =
      {rl_user_agent r |r. r \<in> set logs \<and> rl_ip_address r = ip \<and> cutoff \<le> rl_timestamp r}" for ip
    by (auto simp: RequestLog_for_ip_def since_def)
  have in_log: "ip \<in> rl_ip_address ` set (since cutoff logs)" if "ip \<in> rotators cutoff threshold logs" for ip
  proof (rule ccontr)
    assume "ip \<notin> rl_ip_address ` set (since cutoff logs)"
    then have "{rl_user_agent r |r. r \<in> set logs \<and> rl_ip_address r = ip \<and> cutoff \<le> rl_timestamp r} = {}"
      by (auto simp: since_def)
    with that assms show False by (simp add: rotators_def)
  qed
  show "fst ` set (ua_rotation_rows cutoff threshold logs) = rotators cutoff threshold logs"
    using in_log by (force simp: ua_rotation_rows_def Let_def img rotators_def)
  have "map fst (ua_rotation_rows cutoff threshold logs) = filter (\<lambda>ip. ip \<in> rotators cutoff threshold logs)
      (firsts (map rl_ip_address (since cutoff logs)))"
    by (simp add: ua_rotation_rows_def Let_def filter_map o_def img rotators_def case_prod_unfold)
  then show "distinct (map fst (ua_rotation_rows cutoff threshold logs))" by simp
qed

definition rule_key :: "RuleType \<Rightarrow> string \<Rightarrow> RuleAction \<Rightarrow> auto_lookup" where
  "rule_key ty pattern action = \<lparr>lk_rule_type = RuleType_value ty, lk_pattern = pattern, lk_action = RuleAction_value action\<rparr>"

lemma rule_key_inject [simp]: "rule_key ty p a = rule_key ty p' a \<longleftrightarrow> p = p'"
  by (simp add: rule_key_def)

lemma list_all2_patterns: "list_all2 has_key (map (\<lambda>p. rule_key ty p a) ps) rs \<Longrightarrow> map br_pattern rs = ps"
  by (induction ps arbitrary: rs) (auto simp: list_all2_Cons1 has_key_def rule_key_def)

text \<open>A detector that proposes one rule for each of a list of distinct patterns.\<close>

lemma collect_patterns:
  assumes E: "calm_db E" and ids: "fresh_ids E w" and wf: "wf_table (BlockRules w)"
    and key: "\<And>x. proposal_key (f x) = rule_key ty (pat x) a" and dist: "distinct (map pat xs)"
  shows "\<exists>rs w'. collect (\<lambda>x. propose_rule cf E ex dn an False cr (f x)) xs w = (Inr rs, w') \<and>
     map br_pattern rs = filter (\<lambda>p. \<not> in_table (rule_key ty p a) w) (map pat xs) \<and>
     (\<forall>p. in_table (rule_key ty p a) w' \<longleftrightarrow> in_table (rule_key ty p a) w \<or> p \<in> pat ` set xs) \<and>
     others w' = others w"
proof -
  have keys: "map (\<lambda>x. proposal_key (f x)) xs = map (\<lambda>p. rule_key ty p a) (map pat xs)" by (simp add: key)
  have "distinct (map (\<lambda>x. proposal_key (f x)) xs)"
    unfolding keys using dist by (simp add: distinct_map inj_on_def)
  from collect_calm [OF E ids wf this, of cf ex dn an cr] obtain rs w' where
    c: "collect (\<lambda>x. propose_rule cf E ex dn an False cr (f x)) xs w = (Inr rs, w')"
      "list_all2 has_key (filter (\<lambda>lk. \<not> in_table lk w) (map (\<lambda>x. proposal_key (f x)) xs)) rs"
      "\<And>lk. in_table lk w' \<longleftrightarrow> in_table lk w \<or> lk \<in> (\<lambda>x. proposal_key (f x)) ` set xs" "others w' = others w" by blast
  have "filter (\<lambda>lk. \<not> in_table lk w) (map (\<lambda>p. rule_key ty p a) (map pat xs)) =
      map (\<lambda>p. rule_key ty p a) (filter (\<lambda>p. \<not> in_table (rule_key ty p a) w) (map pat xs))" by (simp add: filter_map o_def)
  with c(2) have "map br_pattern rs = filter (\<lambda>p. \<not> in_table (rule_key ty p a) w) (map pat xs)"
    unfolding keys by (intro list_all2_patterns [where ty = ty and a = a]) simp
  moreover have "in_table (rule_key ty p a) w' \<longleftrightarrow> in_table (rule_key ty p a) w \<or> p \<in> pat ` set xs" for p
    unfolding c(3) key by auto
  ultimately show ?thesis using c(1,4) by blast
qed

section \<open>Properties\<close>

text \<open>
  C20. Detection is exact: in a calm database, \<open>detect_ua_rotation\<close> returns, and an address has an automatic
  challenge rule afterwards if and only if it had one before or sent more than the threshold of
  different User-Agents within the window; the rules it reports as created are those of the
  addresses that had none, each once.
\<close>

theorem ua_rotation_flags_exactly_the_rotators:
  assumes E: "calm_db E" and ids: "fresh_ids E w" and wf: "wf_table (BlockRules w)" and t: "0 \<le> threshold"
  shows "\<exists>rs w'. detect_ua_rotation cf dc E window_minutes (Some threshold) False refresh w = (Inr rs, w') \<and>
     (\<forall>ip. in_table (rule_key IP ip CHALLENGE) w' \<longleftrightarrow> in_table (rule_key IP ip CHALLENGE) w \<or>
        ip \<in> rotators (minutes_ago E window_minutes) threshold (RequestLogs w)) \<and>
     distinct (map br_pattern rs) \<and> set (map br_pattern rs) =
       {ip \<in> rotators (minutes_ago E window_minutes) threshold (RequestLogs w). \<not> in_table (rule_key IP ip CHALLENGE) w}"
proof -
  let ?rows = "ua_rotation_rows (minutes_ago E window_minutes) threshold (RequestLogs w)"
  let ?w = "w\<lparr>db_ops := Suc (db_ops w)\<rparr>"
  note exact = ua_rotation_rows_exact [OF t, of "minutes_ago E window_minutes" "RequestLogs w"]
  have key: "proposal_key (ua_rotation_proposal window_minutes threshold x) = rule_key IP (fst x) CHALLENGE" for x
    by (simp add: proposal_key_def rule_key_def ua_rotation_proposal_def case_prod_unfold)
  have "fresh_ids E ?w" "wf_table (BlockRules ?w)" using ids wf by simp_all
  from collect_patterns [OF E this key exact(2), of cf "auto_expiry dc E" "''detect_ua_rotation''" UA_ROTATION refresh] obtain rs w' where
    c: "collect (\<lambda>row. propose_rule cf E (auto_expiry dc E) ''detect_ua_rotation'' UA_ROTATION False refresh
        (ua_rotation_proposal window_minutes threshold row)) ?rows ?w = (Inr rs, w')"
      "map br_pattern rs = filter (\<lambda>p. \<not> in_table (rule_key IP p CHALLENGE) w) (map fst ?rows)"
      "\<forall>p. in_table (rule_key IP p CHALLENGE) w' \<longleftrightarrow> in_table (rule_key IP p CHALLENGE) w \<or> p \<in> fst ` set ?rows" by auto
  have "detect_ua_rotation cf dc E window_minutes (Some threshold) False refresh w = (Inr rs, w')"
    using c(1) by (simp add: detect_ua_rotation_def query_calm [OF E])
  moreover have "distinct (map br_pattern rs)" "set (map br_pattern rs) =
       {ip \<in> rotators (minutes_ago E window_minutes) threshold (RequestLogs w). \<not> in_table (rule_key IP ip CHALLENGE) w}"
    unfolding c(2) using exact by auto
  ultimately show ?thesis using c(3) unfolding exact(1) by blast
qed

definition example_log :: "string \<Rightarrow> string \<Rightarrow> RequestLog" where
  "example_log ip ua = \<lparr>rl_timestamp = 900, rl_ip_address = ip, rl_user_agent = ua, rl_path = ''/shop/'', rl_method = ''GET'',
     rl_verdict = ALLOWED, rl_matched_rule_id = None, rl_matched_rule_type = [], rl_anomaly_score = None, rl_response_code = 200,
     rl_referer = [], rl_http_fingerprint = [], rl_fingerprint_verdict = [], rl_country_code = [], rl_source = MIDDLEWARE,
     rl_source_event_id = []\<rparr>"

lemma example_log_facts [simp]:
  "rl_timestamp (example_log ip ua) = 900" "rl_ip_address (example_log ip ua) = ip" "rl_user_agent (example_log ip ua) = ua"
  by (simp_all add: example_log_def)

lemma demo_calm_db: "calm_db demo_env" "fresh_ids demo_env empty_world" "wf_table (BlockRules empty_world)"
  by (simp_all add: calm_db_def demo_env_def fresh_ids_def empty_world_def wf_table_def)

lemma demo_calm_logs: "fresh_ids demo_env (empty_world\<lparr>RequestLogs := ls\<rparr>)" "wf_table (BlockRules (empty_world\<lparr>RequestLogs := ls\<rparr>))"
  using demo_calm_db by (simp_all add: fresh_ids_def)

theorem ua_rotation_flags_exactly_the_rotators_witness:
  "\<exists>rs w'. detect_ua_rotation default_conf default_detector_conf demo_env 5 (Some 1) False False
      (empty_world\<lparr>RequestLogs := [example_log ''203.0.113.9'' ''a'', example_log ''203.0.113.9'' ''b'', example_log ''203.0.113.8'' ''a'']\<rparr>) = (Inr rs, w') \<and>
     in_table (rule_key IP ''203.0.113.9'' CHALLENGE) w' \<and> \<not> in_table (rule_key IP ''203.0.113.8'' CHALLENGE) w'"
proof -
  let ?ls = "[example_log ''203.0.113.9'' ''a'', example_log ''203.0.113.9'' ''b'', example_log ''203.0.113.8'' ''a'']"
  let ?w = "empty_world\<lparr>RequestLogs := ?ls\<rparr>"
  have no: "\<not> in_table lk ?w" for lk by (simp add: in_table_def empty_world_def)
  have rot: "''203.0.113.9'' \<in> rotators (minutes_ago demo_env 5) 1 ?ls" "''203.0.113.8'' \<notin> rotators (minutes_ago demo_env 5) 1 ?ls"
    using ua_rotation_rows_exact(1) [of 1 "minutes_ago demo_env 5" ?ls, symmetric]
    by (simp_all add: ua_rotation_rows_def since_def minutes_ago_def demo_env_def firsts_def RequestLog_for_ip_def del: set_filter)
  from ua_rotation_flags_exactly_the_rotators [OF demo_calm_db(1) demo_calm_logs, of 1 default_conf default_detector_conf 5 False ?ls] no rot
  show ?thesis by auto
qed

lemma subnet_burst_patterns: "fst ` set (subnet_burst_rows m (group_counts xs)) =
   {s. s \<in> set xs \<and> (m \<le> int (count_list xs s) \<or> median (map snd (group_counts xs)) * 3 < of_nat (count_list xs s))}"
  "distinct (map fst (subnet_burst_rows m (group_counts xs)))"
proof -
  show "fst ` set (subnet_burst_rows m (group_counts xs)) =
   {s. s \<in> set xs \<and> (m \<le> int (count_list xs s) \<or> median (map snd (group_counts xs)) * 3 < of_nat (count_list xs s))}"
    by (force simp: subnet_burst_rows_def Let_def in_group_counts)
  show "distinct (map fst (subnet_burst_rows m (group_counts xs)))"
    unfolding subnet_burst_rows_def Let_def by (rule distinct_map_filter [OF distinct_group_counts])
qed

text \<open>
  C33. No amount of other traffic hides a busy subnet: in a calm database, \<open>detect_subnet_burst\<close> leaves an
  automatic challenge rule for exactly the subnets that had one, that reach the absolute floor, or
  that exceed three times the median of the subnets seen. Either condition is enough, where the
  function's documentation asks for both; in particular the floor alone decides, whatever an
  attacker does to the median.
\<close>

theorem subnet_burst_floor_or_ratio:
  assumes E: "calm_db E" and ids: "fresh_ids E w" and wf: "wf_table (BlockRules w)"
    and seen_def: "seen = subnets_of (map rl_ip_address (since (minutes_ago E window_minutes) (RequestLogs w)))"
  shows "\<exists>rs w'. detect_subnet_burst cf dc E window_minutes False refresh w = (Inr rs, w') \<and>
     (\<forall>s. in_table (rule_key CIDR s CHALLENGE) w' \<longleftrightarrow> in_table (rule_key CIDR s CHALLENGE) w \<or>
        (s \<in> set seen \<and> (DJANGO_WAF_ANOMALY_THRESHOLD_SUBNET_BURST_MIN_COUNT dc \<le> int (count_list seen s) \<or>
           median (map snd (group_counts seen)) * 3 < of_nat (count_list seen s))))"
proof -
  let ?m = "DJANGO_WAF_ANOMALY_THRESHOLD_SUBNET_BURST_MIN_COUNT dc"
  let ?w = "w\<lparr>db_ops := Suc (db_ops w)\<rparr>"
  have key: "proposal_key (subnet_burst_proposal ?m (group_counts seen) x) = rule_key CIDR (fst x) CHALLENGE" for x
    by (simp add: proposal_key_def rule_key_def subnet_burst_proposal_def case_prod_unfold Let_def)
  have "fresh_ids E ?w" "wf_table (BlockRules ?w)" using ids wf by simp_all
  from collect_patterns [OF E this key subnet_burst_patterns(2) [of ?m seen], of cf "auto_expiry dc E" "''detect_subnet_burst''" SUBNET_FLOOD refresh]
  obtain rs w' where
    c: "collect (\<lambda>row. propose_rule cf E (auto_expiry dc E) ''detect_subnet_burst'' SUBNET_FLOOD False refresh
        (subnet_burst_proposal ?m (group_counts seen) row)) (subnet_burst_rows ?m (group_counts seen)) ?w = (Inr rs, w')"
      "\<forall>p. in_table (rule_key CIDR p CHALLENGE) w' \<longleftrightarrow> in_table (rule_key CIDR p CHALLENGE) w \<or>
        p \<in> fst ` set (subnet_burst_rows ?m (group_counts seen))" by auto
  show ?thesis
  proof (cases "group_counts seen = []")
    case True
    then have "seen = []" by (simp add: group_counts_def)
    with True have "detect_subnet_burst cf dc E window_minutes False refresh w = (Inr [], ?w)"
      by (simp add: detect_subnet_burst_def query_calm [OF E] Let_def seen_def)
    with \<open>seen = []\<close> show ?thesis by simp
  next
    case False
    then have "detect_subnet_burst cf dc E window_minutes False refresh w = (Inr rs, w')"
      using c(1) by (simp add: detect_subnet_burst_def query_calm [OF E] Let_def seen_def)
    with c(2) show ?thesis unfolding subnet_burst_patterns(1) by blast
  qed
qed

theorem subnet_burst_floor_or_ratio_witness:
  "\<exists>rs w'. detect_subnet_burst default_conf (default_detector_conf\<lparr>DJANGO_WAF_ANOMALY_THRESHOLD_SUBNET_BURST_MIN_COUNT := 2\<rparr>)
      demo_env 15 False False
      (empty_world\<lparr>RequestLogs := [example_log ''203.0.113.9'' ''a'', example_log ''203.0.113.8'' ''b'']\<rparr>) = (Inr rs, w') \<and>
     in_table (rule_key CIDR ''203.0.113.0/24'' CHALLENGE) w'"
proof -
  let ?dc = "default_detector_conf\<lparr>DJANGO_WAF_ANOMALY_THRESHOLD_SUBNET_BURST_MIN_COUNT := 2\<rparr>"
  let ?ls = "[example_log ''203.0.113.9'' ''a'', example_log ''203.0.113.8'' ''b'']"
  have p: "get_subnet_prefix ''203.0.113.9'' = Inr ''203.0.113.0/24''" "get_subnet_prefix ''203.0.113.8'' = Inr ''203.0.113.0/24''"
    by code_simp+
  have seen: "subnets_of (map rl_ip_address (since (minutes_ago demo_env 15) ?ls)) = [''203.0.113.0/24'', ''203.0.113.0/24'']"
    by (simp add: subnets_of_def since_def minutes_ago_def demo_env_def example_log_def p)
  from subnet_burst_floor_or_ratio [OF demo_calm_db(1) demo_calm_logs refl, of default_conf ?dc 15 False ?ls] seen
  show ?thesis by auto
qed

text \<open>
  C31. Automatic detection never undoes an operator's decision. Whatever a run of all six detectors meets on
  the way (database errors, rules inserted by concurrent processes, Redis failures, receivers that raise), a
  rule that was confirmed or rejected is still there afterwards. If it is no longer automatic (a rule
  confirmed on the dashboard becomes an administrator's rule) the row is the same in every column. If it is
  still automatic it keeps its identifier, type, pattern, action, source, active flag and review status; a
  detector that finds it again may refresh its name, match type, expiry, confidence, notes and list of
  detectors. The rule table still satisfies its constraints.
\<close>

theorem detectors_respect_review:
  assumes E: "rivals_insert E" and wf: "wf_table (BlockRules w)" and r: "r \<in> set (BlockRules w)"
    and dec: "br_review_status r \<in> {CONFIRMED, REJECTED}"
    and w'_def: "w' = snd (run_all_detectors cf dc E window_minutes dry_run refresh w)"
  shows "wf_table (BlockRules w') \<and> (if br_source r \<noteq> AUTO then r \<in> set (BlockRules w')
     else (\<exists>q \<in> set (BlockRules w'). br_id q = br_id r \<and> br_rule_type q = br_rule_type r \<and> br_pattern q = br_pattern r \<and>
       br_action q = br_action r \<and> br_source q = br_source r \<and> br_is_active q = br_is_active r \<and> br_review_status q = br_review_status r))"
proof (cases "br_source r = AUTO")
  case True
  let ?lk = "\<lparr>lk_rule_type = br_rule_type r, lk_pattern = br_pattern r, lk_action = br_action r\<rparr>"
  have "decided ?lk (br_id r) (br_is_active r) (br_review_status r) w"
    using decided_start [OF wf r _ dec] True by (simp add: has_key_def)
  then have "decided ?lk (br_id r) (br_is_active r) (br_review_status r) w'"
    using detector_invariant.keeps_run_all [OF detector_invariant_decided [OF E]] unfolding keeps_def w'_def by blast
  then show ?thesis using True by (auto simp: decided_iff undisturbed_def has_key_def)
next
  case False
  have "undisturbed {r} w" using wf r by (simp add: undisturbed_def)
  then have "undisturbed {r} w'"
    using detector_invariant.keeps_run_all [OF detector_invariant_manual [OF E, of "{r}"]] False unfolding keeps_def w'_def by simp
  then show ?thesis using False by (simp add: undisturbed_def)
qed

theorem detectors_respect_review_witness:
  "list_ex (\<lambda>q. br_id q = 7 \<and> br_is_active q = False \<and> br_review_status q = REJECTED)
     (BlockRules (snd (run_all_detectors default_conf default_detector_conf demo_env None False False
       (empty_world\<lparr>BlockRules := [example_rule\<lparr>br_is_active := False, br_review_status := REJECTED\<rparr>]\<rparr>)))) \<and>
   example_rule\<lparr>br_source := ADMIN, br_review_status := CONFIRMED\<rparr> \<in> set
     (BlockRules (snd (run_all_detectors default_conf default_detector_conf demo_env None False False
       (empty_world\<lparr>BlockRules := [example_rule\<lparr>br_source := ADMIN, br_review_status := CONFIRMED\<rparr>]\<rparr>))))"
proof -
  have e: "rivals_insert demo_env" by (simp add: rivals_insert_def demo_env_def)
  let ?w = "\<lambda>r. empty_world\<lparr>BlockRules := [r]\<rparr>"
  let ?a = "example_rule\<lparr>br_is_active := False, br_review_status := REJECTED\<rparr>" and ?m = "example_rule\<lparr>br_source := ADMIN, br_review_status := CONFIRMED\<rparr>"
  have t: "wf_table (BlockRules (?w r))" "r \<in> set (BlockRules (?w r))" for r by (simp_all add: wf_table_def)
  from detectors_respect_review [OF e t _ refl, of ?a default_conf default_detector_conf None False False]
    detectors_respect_review [OF e t _ refl, of ?m default_conf default_detector_conf None False False]
  show ?thesis by (auto simp: example_rule_def list_ex_iff)
qed

text \<open>
  C18. A dry run only looks: when nobody else writes, \<open>run_all_detectors\<close> with \<open>dry_run\<close> leaves every
  table as it was and sends no signal, also when it fails half-way.
\<close>

theorem dry_run_changes_nothing:
  assumes "\<And>n rows. rivals E n rows = rows"
  shows "tables (snd (run_all_detectors cf dc E window_minutes True refresh w)) = tables w"
  using detector_invariant.keeps_run_all [OF detector_invariant_dry [OF assms]] unfolding keeps_def by blast

theorem dry_run_changes_nothing_witness:
  "tables (snd (run_all_detectors default_conf default_detector_conf demo_env None True False
     (empty_world\<lparr>RequestLogs := [example_log ''203.0.113.9'' ''a'']\<rparr>))) = tables (empty_world\<lparr>RequestLogs := [example_log ''203.0.113.9'' ''a'']\<rparr>)"
  by (rule dry_run_changes_nothing) (simp add: demo_env_def)

lemma already_challenged_pattern: "already_challenged s rows = already_challenged s (with_pattern s rows)"
proof -
  have "filter (\<lambda>r. br_rule_type r = RuleType_value CIDR \<and> br_pattern r = s \<and> br_source r = AUTO \<and>
         br_action r = RuleAction_value CHALLENGE \<and> br_is_active r) (with_pattern s rows) =
      filter (\<lambda>r. br_rule_type r = RuleType_value CIDR \<and> br_pattern r = s \<and> br_source r = AUTO \<and>
         br_action r = RuleAction_value CHALLENGE \<and> br_is_active r) rows"
    unfolding with_pattern_def filter_filter by (rule filter_cong) auto
  then show ?thesis unfolding already_challenged_def by simp
qed

definition stage :: "bool \<Rightarrow> RuleAction" where
  "stage again = (if again then BLOCK else CHALLENGE)"

lemma stages_calm:
  assumes E: "calm_db E" and ids: "fresh_ids E w" and wf: "wf_table (BlockRules w)" and dist: "distinct (map fst rows)"
  shows "\<exists>rs w'. collect (\<lambda>row. andThen (db E (read_state (\<lambda>w. already_challenged (fst row) (BlockRules w))))
         (\<lambda>again. propose_rule cf E ex dn ty False cr (unsolved_subnet_proposal dc wm (if again then BLOCK else CHALLENGE) row)))
       rows w = (Inr rs, w') \<and>
     (\<forall>lk. in_table lk w' \<longleftrightarrow> in_table lk w \<or>
        lk \<in> (\<lambda>row. rule_key CIDR (fst row) (stage (already_challenged (fst row) (BlockRules w)))) ` set rows)"
  using assms(2-)
proof (induction rows arbitrary: w)
  case Nil
  then show ?case by simp
next
  case (Cons row rows)
  let ?w = "w\<lparr>db_ops := Suc (db_ops w)\<rparr>"
  define again where "again = already_challenged (fst row) (BlockRules w)"
  define p where "p = unsolved_subnet_proposal dc wm (if again then BLOCK else CHALLENGE) row"
  have key: "proposal_key p = rule_key CIDR (fst row) (stage again)" "pr_pattern p = fst row"
    by (simp_all add: p_def proposal_key_def rule_key_def unsolved_subnet_proposal_def case_prod_unfold stage_def)
  from propose_calm [OF E, of ?w cf ex dn ty cr p] Cons.prems(1,2) obtain r1 w1 where
    w1: "propose_rule cf E ex dn ty False cr p ?w = (Inr r1, w1)" "\<And>lk. in_table lk w1 \<longleftrightarrow> in_table lk w \<or> lk = proposal_key p"
      "\<And>s. s \<noteq> fst row \<Longrightarrow> with_pattern s (BlockRules w1) = with_pattern s (BlockRules w)" "fresh_ids E w1" "wf_table (BlockRules w1)"
    unfolding key(2) by auto
  have d: "distinct (map fst rows)" using Cons.prems(3) by simp
  from Cons.IH [OF w1(4,5) d] obtain r2 w2 where
    w2: "collect (\<lambda>row. andThen (db E (read_state (\<lambda>w. already_challenged (fst row) (BlockRules w))))
         (\<lambda>again. propose_rule cf E ex dn ty False cr (unsolved_subnet_proposal dc wm (if again then BLOCK else CHALLENGE) row)))
       rows w1 = (Inr r2, w2)"
      "\<And>lk. in_table lk w2 \<longleftrightarrow> in_table lk w1 \<or>
        lk \<in> (\<lambda>row. rule_key CIDR (fst row) (stage (already_challenged (fst row) (BlockRules w1)))) ` set rows" by blast
  have "already_challenged (fst x) (BlockRules w1) = already_challenged (fst x) (BlockRules w)" if "x \<in> set rows" for x
  proof -
    have "fst x \<noteq> fst row" using Cons.prems(3) that by (metis distinct.simps(2) image_eqI list.set_map list.simps(9))
    from w1(3) [OF this] show ?thesis by (metis already_challenged_pattern)
  qed
  then have img: "(\<lambda>row. rule_key CIDR (fst row) (stage (already_challenged (fst row) (BlockRules w1)))) ` set rows =
      (\<lambda>row. rule_key CIDR (fst row) (stage (already_challenged (fst row) (BlockRules w)))) ` set rows" by (simp cong: image_cong)
  have "in_table lk w2 \<longleftrightarrow> in_table lk w \<or>
        lk \<in> (\<lambda>row. rule_key CIDR (fst row) (stage (already_challenged (fst row) (BlockRules w)))) ` set (row # rows)" for lk
    unfolding w2(2) w1(2) img key(1) again_def by auto
  moreover have "collect (\<lambda>row. andThen (db E (read_state (\<lambda>w. already_challenged (fst row) (BlockRules w))))
         (\<lambda>again. propose_rule cf E ex dn ty False cr (unsolved_subnet_proposal dc wm (if again then BLOCK else CHALLENGE) row)))
       (row # rows) w = (Inr (r1 @ r2), w2)"
    using w1(1) w2(1) by (simp add: query_calm [OF E] again_def [symmetric] p_def)
  ultimately show ?case by blast
qed

lemma distinct_unsolved_subnets: "distinct (map fst (unsolved_subnet_rows dc challenged solved))"
proof -
  have "map fst (concat (map f xs)) = filter (\<lambda>x. f x \<noteq> []) xs" if "\<And>x. f x = [] \<or> (\<exists>y. f x = [(x, y)])"
    for f :: "string \<Rightarrow> (string \<times> int \<times> int) list" and xs
  proof (induction xs)
    case (Cons x xs)
    then show ?case using that [of x] by auto
  qed simp
  then have "map fst (unsolved_subnet_rows dc challenged solved) = filter (\<lambda>s. (let members = subnet_members challenged s;
             total_count = sum_list (map snd members); distinct_ips = fst ` set members
         in if total_count < DJANGO_WAF_UNSOLVED_SUBNET_MIN_CHALLENGED dc \<or>
               int (card distinct_ips) < DJANGO_WAF_UNSOLVED_SUBNET_MIN_IPS dc then []
            else if distinct_ips \<inter> solved \<noteq> {} then []
            else [(s, total_count, int (card distinct_ips))]) \<noteq> []) (firsts (subnets_of (map fst challenged)))"
    unfolding unsolved_subnet_rows_def by (simp only: Let_def) (simp split: if_splits)
  then show ?thesis by simp
qed

text \<open>What the promotion rests on: an active automatic challenge rule of the subnet among whose
  detectors is this one.\<close>

definition own_challenge :: "string \<Rightarrow> BlockRule \<Rightarrow> bool" where
  "own_challenge s r = (has_key (rule_key CIDR s CHALLENGE) r \<and> br_is_active r \<and>
     ''detect_unsolved_challenges'' \<in> set (split CHR '','' (br_detectors r)))"

lemma already_challenged_iff:
  assumes "wf_table rows"
  shows "already_challenged s rows \<longleftrightarrow> (\<exists>r \<in> set rows. own_challenge s r)"
proof -
  let ?lk = "rule_key CIDR s CHALLENGE"
  have sel: "filter (\<lambda>r. br_rule_type r = RuleType_value CIDR \<and> br_pattern r = s \<and> br_source r = AUTO \<and>
      br_action r = RuleAction_value CHALLENGE \<and> br_is_active r) rows = filter br_is_active (filter (has_key ?lk) rows)"
    unfolding filter_filter by (rule filter_cong) (auto simp: has_key_def rule_key_def)
  show ?thesis
  proof (rule filter_key_cases [OF assms, of ?lk])
    assume "filter (has_key ?lk) rows = []"
    then show ?thesis unfolding already_challenged_def sel
      by (auto simp: BlockRule_ordering_def own_challenge_def filter_empty_conv)
  next
    fix q assume q: "filter (has_key ?lk) rows = [q]"
    then have "q \<in> set (filter (has_key ?lk) rows)" by simp
    then have "q \<in> set rows" "has_key ?lk q" by simp_all
    moreover have "r = q" if "r \<in> set rows" "has_key ?lk r" for r
      using filter_key_le1 [OF assms that] q by simp
    ultimately have "(\<exists>r \<in> set rows. own_challenge s r) \<longleftrightarrow> own_challenge s q" unfolding own_challenge_def by blast
    with q \<open>has_key ?lk q\<close> show ?thesis unfolding already_challenged_def sel
      by (auto simp: BlockRule_ordering_def own_challenge_def)
  qed
qed

text \<open>
  C32. A subnet is blocked only on its second offence: in a calm database, \<open>_detect_unsolved_challenges_by_subnet\<close>
  returns; among the suspected subnets, one that already has an active challenge rule bearing this
  detector's own name gets a block rule, any other gets a challenge rule and no block rule, and
  subnets that are not suspected get neither.
\<close>

theorem subnet_block_needs_own_challenge:
  assumes E: "calm_db E" and ids: "fresh_ids E w" and wf: "wf_table (BlockRules w)"
    and s: "suspects = fst ` set (unsolved_subnet_rows dc challenged solved_ips)"
  shows "\<exists>rs w'. detect_unsolved_challenges_by_subnet cf dc E challenged solved_ips window_minutes expires False refresh w = (Inr rs, w') \<and>
     (\<forall>s. in_table (rule_key CIDR s BLOCK) w' \<longleftrightarrow>
        in_table (rule_key CIDR s BLOCK) w \<or> s \<in> suspects \<and> (\<exists>r \<in> set (BlockRules w). own_challenge s r)) \<and>
     (\<forall>s. in_table (rule_key CIDR s CHALLENGE) w' \<longleftrightarrow>
        in_table (rule_key CIDR s CHALLENGE) w \<or> s \<in> suspects \<and> \<not> (\<exists>r \<in> set (BlockRules w). own_challenge s r))"
proof -
  have "rule_key CIDR s a \<in> (\<lambda>row. rule_key CIDR (fst row) (stage (already_challenged (fst row) (BlockRules w)))) `
      set (unsolved_subnet_rows dc challenged solved_ips) \<longleftrightarrow> s \<in> suspects \<and> a = stage (already_challenged s (BlockRules w))"
    if "a \<in> {BLOCK, CHALLENGE}" for s a
    using that unfolding s by (auto simp: rule_key_def stage_def image_iff split: if_splits)
  note keys = this [of BLOCK, OF insertI1] this [of CHALLENGE, OF insertI2, OF insertI1]
  from stages_calm [OF E ids wf distinct_unsolved_subnets [of dc challenged solved_ips], of cf expires "''detect_unsolved_challenges''"
      UNSOLVED_CHALLENGE refresh dc window_minutes] obtain rs w' where
    w': "detect_unsolved_challenges_by_subnet cf dc E challenged solved_ips window_minutes expires False refresh w = (Inr rs, w')"
      "\<And>lk. in_table lk w' \<longleftrightarrow> in_table lk w \<or> lk \<in> (\<lambda>row. rule_key CIDR (fst row) (stage (already_challenged (fst row) (BlockRules w)))) `
      set (unsolved_subnet_rows dc challenged solved_ips)" unfolding detect_unsolved_challenges_by_subnet_def by blast
  show ?thesis unfolding already_challenged_iff [OF wf, symmetric]
    by (rule exI [of _ rs], rule exI [of _ w']) (use w'(1) in \<open>simp only: w'(2) keys, simp add: stage_def\<close>)
qed

theorem subnet_block_needs_own_challenge_witness:
  "\<exists>rs w'. detect_unsolved_challenges_by_subnet default_conf
      (default_detector_conf\<lparr>DJANGO_WAF_UNSOLVED_SUBNET_MIN_CHALLENGED := 2, DJANGO_WAF_UNSOLVED_SUBNET_MIN_IPS := 2\<rparr>)
      demo_env [(''203.0.113.9'', 1), (''203.0.113.8'', 1)] {} 360 5000 False False empty_world = (Inr rs, w') \<and>
     in_table (rule_key CIDR ''203.0.113.0/24'' CHALLENGE) w' \<and> \<not> in_table (rule_key CIDR ''203.0.113.0/24'' BLOCK) w'"
proof -
  let ?dc = "default_detector_conf\<lparr>DJANGO_WAF_UNSOLVED_SUBNET_MIN_CHALLENGED := 2, DJANGO_WAF_UNSOLVED_SUBNET_MIN_IPS := 2\<rparr>"
  let ?ch = "[(''203.0.113.9'', 1), (''203.0.113.8'', 1)]"
  have p: "get_subnet_prefix ''203.0.113.9'' = Inr ''203.0.113.0/24''" "get_subnet_prefix ''203.0.113.8'' = Inr ''203.0.113.0/24''"
    by code_simp+
  have rows: "fst ` set (unsolved_subnet_rows ?dc ?ch {}) = {''203.0.113.0/24''}"
    by (simp add: unsolved_subnet_rows_def subnets_of_def p firsts_def subnet_members_def)
  have a: "BlockRules empty_world = []" "\<not> in_table lk empty_world" for lk
    by (simp_all add: empty_world_def in_table_def)
  from subnet_block_needs_own_challenge [OF demo_calm_db refl, where cf = default_conf and dc = ?dc and challenged = ?ch and
      solved_ips = "{}" and window_minutes = 360 and expires = 5000 and refresh = False] rows a
  show ?thesis by auto
qed

end
