(* ===== verification/Tasks.thy ===== *)
theory Tasks
  imports Detectors
begin

text \<open>
  The maintenance tasks of \<open>tasks.py\<close>: retention (\<open>prune_request_logs\<close>, \<open>prune_challenge_tokens\<close>,
  \<open>prune_stale_rules\<close>), \<open>expire_rules\<close>, \<open>update_ip_reputation\<close> and \<open>flush_rule_hit_counts\<close>. A bulk
  \<open>update\<close> or \<open>delete\<close> of a queryset is one database operation; only \<open>delete\<close> fires receivers, one
  per row. Date arithmetic does not leave the range of \<open>datetime\<close>.
\<close>

section \<open>Invalidation by a task\<close>

text \<open>\<open>cache_answers\<close> says whether the Django cache that the fallback writes responds;
  \<open>get_redis_connection\<close> raises unless the cache alias has the Redis backend and is reachable.\<close>

definition get_redis_connection :: "'r env \<Rightarrow> ('r world, 'r redis) py" where
  "get_redis_connection E = (case backend E of
      Redis_backend \<Rightarrow> ret (redis E)
    | Other_backend \<Rightarrow> raise NotImplementedError
    | Unreachable \<Rightarrow> raise RedisError)"

definition cache_get :: "bool \<Rightarrow> string \<Rightarrow> ('r world, int option) py" where
  "cache_get answers k = (if answers then read_state (\<lambda>w. map_of (django_cache w) k) else raise CacheError)"

definition cache_put :: "bool \<Rightarrow> string \<Rightarrow> int \<Rightarrow> ('r world, unit) py" where
  "cache_put answers k v = (if answers then cache_set k v else raise CacheError)"

definition invalidate_rule_cache_redis :: "'r env \<Rightarrow> bool \<Rightarrow> ('r world, unit) py" where
  "invalidate_rule_cache_redis E cache_answers =
     try_except (andThen (get_redis_connection E) (\<lambda>client. on_redis (r_exec client (INCR RULES_VERSION_KEY))))
       (\<lambda>_. andThen (cache_get cache_answers RULES_VERSION_KEY) (\<lambda>old.
          cache_put cache_answers RULES_VERSION_KEY ((case old of None \<Rightarrow> 0 | Some n \<Rightarrow> n) + 1)))"

section \<open>Retention\<close>

definition prune_request_logs :: "ops_conf \<Rightarrow> 'r env \<Rightarrow> int option \<Rightarrow> ('r world, nat) py" where
  "prune_request_logs oc E days =
     (let retention_days = (case days of None \<Rightarrow> DJANGO_WAF_LOG_RETENTION_DAYS oc | Some d \<Rightarrow> d);
          cutoff = time_now E - of_int (retention_days * 86400)
      in db E (\<lambda>w. (Inr (length (filter (\<lambda>r. rl_timestamp r < cutoff) (RequestLogs w))),
           w\<lparr>RequestLogs := filter (\<lambda>r. \<not> rl_timestamp r < cutoff) (RequestLogs w)\<rparr>)))"

definition prune_challenge_tokens :: "'r env \<Rightarrow> int \<Rightarrow> ('r world, nat) py" where
  "prune_challenge_tokens E hours =
     (let cutoff = time_now E - of_int (hours * 3600);
          doomed = (\<lambda>t. ct_status t \<in> {PENDING, FAILED} \<and> ct_expires_at t < cutoff)
      in db E (\<lambda>w. (Inr (length (filter doomed (ChallengeTokens w))),
           w\<lparr>ChallengeTokens := filter (\<lambda>t. \<not> doomed t) (ChallengeTokens w)\<rparr>)))"

record prune_result =
  deleted_count :: nat
  pr_dry_run :: bool

definition prune_stale_rules :: "ops_conf \<Rightarrow> 'r env \<Rightarrow> int option \<Rightarrow> ('r world, prune_result) py" where
  "prune_stale_rules oc E days =
     (let retention_days = (case days of None \<Rightarrow> DJANGO_WAF_RULE_RETENTION_DAYS oc | Some d \<Rightarrow> d);
          stale = BlockRule_stale (time_now E) retention_days
      in if \<not> DJANGO_WAF_RULE_PRUNE_ENABLED oc
         then andThen (db E (read_state (\<lambda>w. length (stale (BlockRules w)))))
           (\<lambda>_. ret \<lparr>deleted_count = 0, pr_dry_run = True\<rparr>)
         else andThen (db E (\<lambda>w. (Inr (stale (BlockRules w)),
               w\<lparr>BlockRules := filter (\<lambda>r. r \<notin> set (stale (BlockRules w))) (BlockRules w)\<rparr>)))
           (\<lambda>doomed. andThen (delete_each E doomed)
              (\<lambda>_. ret \<lparr>deleted_count = length doomed, pr_dry_run = False\<rparr>)))"

section \<open>Expiry\<close>

record expire_result =
  expired_block_count :: nat
  expired_allow_count :: nat
  expired_count :: nat
  expired_unreviewed_count :: nat

definition past :: "'r env \<Rightarrow> rat option \<Rightarrow> bool" where
  "past E e = (case e of None \<Rightarrow> False | Some t \<Rightarrow> t \<le> time_now E)"

definition unreviewed_expired :: "'r env \<Rightarrow> BlockRule \<Rightarrow> bool" where
  "unreviewed_expired E r = (br_source r = AUTO \<and> br_review_status r = PENDING_REVIEW \<and> past E (br_expires_at r))"

definition expire_rules :: "'r env \<Rightarrow> bool \<Rightarrow> ('r world, expire_result) py" where
  "expire_rules E cache_answers =
     andThen (db E (\<lambda>w. (Inr (length (BlockRule_expired (time_now E) (BlockRules w))),
         w\<lparr>BlockRules := map (\<lambda>r. if br_is_active r \<and> past E (br_expires_at r) then r\<lparr>br_is_active := False\<rparr> else r) (BlockRules w)\<rparr>)))
       (\<lambda>blocks. andThen (db E (\<lambda>w. (Inr (length (AllowRule_expired (time_now E) (AllowRules w))),
         w\<lparr>AllowRules := map (\<lambda>r. if ar_is_active r \<and> past E (ar_expires_at r) then r\<lparr>ar_is_active := False\<rparr> else r) (AllowRules w)\<rparr>)))
       (\<lambda>allows. andThen (db E (\<lambda>w. (Inr (length (filter (unreviewed_expired E) (BlockRules w))),
         w\<lparr>BlockRules := map (\<lambda>r. if unreviewed_expired E r then r\<lparr>br_review_status := EXPIRED_UNREVIEWED\<rparr> else r) (BlockRules w)\<rparr>)))
       (\<lambda>unreviewed. andThen (if 0 < blocks + allows then swallow (invalidate_rule_cache_redis E cache_answers) else ret ())
       (\<lambda>_. ret \<lparr>expired_block_count = blocks, expired_allow_count = allows, expired_count = blocks + allows,
              expired_unreviewed_count = unreviewed\<rparr>))))"

section \<open>Reputation\<close>

record ip_stat =
  st_ip :: string
  st_total :: int
  st_blocked :: int
  st_challenged :: int
  st_distinct_ua :: int

definition ip_stats :: "RequestLog list \<Rightarrow> ip_stat list" where
  "ip_stats rows = map (\<lambda>ip. let mine = RequestLog_for_ip ip rows in
      \<lparr>st_ip = ip, st_total = int (length mine),
       st_blocked = int (length (filter (\<lambda>r. rl_verdict r = BLOCKED) mine)),
       st_challenged = int (length (filter (\<lambda>r. rl_verdict r = CHALLENGED) mine)),
       st_distinct_ua = int (card (rl_user_agent ` set mine))\<rparr>) (firsts (map rl_ip_address rows))"

definition unsolved_rate :: "int \<Rightarrow> int \<Rightarrow> rat" where
  "unsolved_rate challenged passes =
     (if 0 < challenged \<and> passes = 0 then 1
      else if 0 < challenged then max 0 (1 - of_int passes / of_int challenged) else 0)"

definition threat_score :: "int \<Rightarrow> ip_stat \<Rightarrow> int \<Rightarrow> int \<Rightarrow> rat" where
  "threat_score threshold st passes failures =
     (let block_rate = (if 0 < st_total st then of_int (st_blocked st) / of_int (st_total st) else 0);
          challenge_fail_rate = of_int failures / of_int (passes + failures + 1);
          ua_diversity = min (of_int (st_distinct_ua st) / of_int threshold) 1
      in min (block_rate * (1 / 5) + unsolved_rate (st_challenged st) passes * (7 / 20) +
              challenge_fail_rate * (1 / 4) + ua_diversity * (1 / 5)) 1)"

definition reputation_row :: "'r env \<Rightarrow> int \<Rightarrow> ip_stat \<Rightarrow> int \<Rightarrow> int \<Rightarrow> IPReputation" where
  "reputation_row E threshold st passes failures =
     \<lparr>ip_ip_address = st_ip st, ip_total_requests = st_total st, ip_blocked_requests = st_blocked st,
      ip_challenged_requests = st_challenged st, ip_challenge_passes = passes, ip_challenge_failures = failures,
      ip_distinct_ua_count = st_distinct_ua st,
      ip_threat_score = of_int (round_half_even (100 * threat_score threshold st passes failures)) / 100,
      ip_last_seen_at = Some (time_now E), ip_window_start = Some (time_now E - 86400),
      ip_window_end = Some (time_now E)\<rparr>"

text \<open>\<open>update_or_create\<close> by the unique address; \<open>True\<close> when a row was created.\<close>

definition upsert_reputation :: "'r env \<Rightarrow> IPReputation \<Rightarrow> ('r world, bool) py" where
  "upsert_reputation E row = db E (\<lambda>w.
     if list_ex (\<lambda>r. ip_ip_address r = ip_ip_address row) (IPReputations w)
     then (Inr False, w\<lparr>IPReputations := map (\<lambda>r. if ip_ip_address r = ip_ip_address row then row else r) (IPReputations w)\<rparr>)
     else (Inr True, w\<lparr>IPReputations := IPReputations w @ [row]\<rparr>))"

definition update_one :: "detector_conf \<Rightarrow> 'r env \<Rightarrow> ip_stat \<Rightarrow> ('r world, bool) py" where
  "update_one dc E st =
     andThen (db E (read_state (\<lambda>w. int (length (filter (\<lambda>t. ct_ip_address t = st_ip st \<and> ct_status t = SOLVED) (ChallengeTokens w))))))
       (\<lambda>passes. andThen (db E (read_state (\<lambda>w. int (length (filter (\<lambda>t. ct_ip_address t = st_ip st \<and> ct_status t \<in> {EXPIRED, FAILED}) (ChallengeTokens w))))))
       (\<lambda>failures. if DJANGO_WAF_ANOMALY_THRESHOLD_DISTINCT_UAS dc = 0 then raise ZeroDivisionError
          else upsert_reputation E (reputation_row E (DJANGO_WAF_ANOMALY_THRESHOLD_DISTINCT_UAS dc) st passes failures)))"

fun update_each :: "detector_conf \<Rightarrow> 'r env \<Rightarrow> ip_stat list \<Rightarrow> nat \<Rightarrow> nat \<Rightarrow> ('r world, nat \<times> nat) py" where
  "update_each dc E [] updated created = ret (updated, created)"
| "update_each dc E (st # sts) updated created = andThen (update_one dc E st)
     (\<lambda>was_created. if was_created then update_each dc E sts updated (Suc created)
        else update_each dc E sts (Suc updated) created)"

record reputation_result =
  updated_count :: nat
  created_count :: nat
  ips_seen :: nat

definition update_ip_reputation :: "detector_conf \<Rightarrow> 'r env \<Rightarrow> ('r world, reputation_result) py" where
  "update_ip_reputation dc E =
     andThen (db E (read_state (\<lambda>w. ip_stats (since (time_now E - 86400) (RequestLogs w)))))
       (\<lambda>sts. andThen (update_each dc E sts 0 0)
          (\<lambda>(updated, created). ret \<lparr>updated_count = updated, created_count = created, ips_seen = length sts\<rparr>))"

section \<open>Hit counters\<close>

definition r_keys :: "'r redis \<Rightarrow> string \<Rightarrow> ('r, string list) py" where
  "r_keys C p = andThen (r_call C (KEYS p)) (\<lambda>rep. case rep of KeysR ks \<Rightarrow> ret ks | _ \<Rightarrow> raise RedisError)"

definition attempt :: "('w, 'a) py \<Rightarrow> ('w, 'a option) py" where
  "attempt m = try_except (andThen m (\<lambda>x. ret (Some x))) (\<lambda>_. ret None)"

text \<open>The pipeline of \<open>GET\<close> and \<open>DEL\<close>, then \<open>int(get_result or 0)\<close>.\<close>

definition take_counter :: "'r redis \<Rightarrow> string \<Rightarrow> ('r world, int) py" where
  "take_counter client key = andThen (on_redis (client [GET key, DEL key])) (\<lambda>reps. case reps of
      [NilR, _] \<Rightarrow> ret 0
    | [BulkR v, _] \<Rightarrow> (if v = [] then ret 0 else (case int_text v of None \<Rightarrow> raise ValueError | Some n \<Rightarrow> ret n))
    | _ \<Rightarrow> raise ValueError)"

definition credit :: "'r env \<Rightarrow> uuid \<Rightarrow> int \<Rightarrow> BlockRule \<Rightarrow> BlockRule" where
  "credit E u count r = (if br_id r = u then r\<lparr>br_hit_count := br_hit_count r + count, br_last_hit_at := Some (time_now E)\<rparr> else r)"

definition add_hits :: "'r env \<Rightarrow> string \<Rightarrow> int \<Rightarrow> ('r world, nat) py" where
  "add_hits E rule_id count = (case parse_uuid rule_id of
      None \<Rightarrow> raise ValidationError
    | Some u \<Rightarrow> db E (\<lambda>w. (Inr (length (filter (\<lambda>r. br_id r = u) (BlockRules w))),
          w\<lparr>BlockRules := map (credit E u count) (BlockRules w)\<rparr>)))"

definition HITS_PREFIX :: string where
  "HITS_PREFIX = ''waf:rule_hits:''"

text \<open>One turn of the loop: what it adds to \<open>flushed\<close> and to \<open>errors\<close>.\<close>

definition flush_key :: "'r env \<Rightarrow> 'r redis \<Rightarrow> string \<Rightarrow> ('r world, nat \<times> nat) py" where
  "flush_key E client key = andThen (attempt (take_counter client key)) (\<lambda>c. case c of
      None \<Rightarrow> ret (0, 1)
    | Some count \<Rightarrow>
        if count \<le> 0 then ret (0, 0)
        else andThen (attempt (add_hits E (drop (length HITS_PREFIX) key) count)) (\<lambda>u. case u of
            None \<Rightarrow> ret (0, 1)
          | Some updated \<Rightarrow> ret (if updated \<noteq> 0 then 1 else 0, 0)))"

fun flush_keys :: "'r env \<Rightarrow> 'r redis \<Rightarrow> string list \<Rightarrow> nat \<Rightarrow> nat \<Rightarrow> ('r world, nat \<times> nat) py" where
  "flush_keys E client [] flushed errors = ret (flushed, errors)"
| "flush_keys E client (key # ks) flushed errors =
     andThen (flush_key E client key) (\<lambda>(f, e). flush_keys E client ks (flushed + f) (errors + e))"

record flush_result =
  fl_flushed :: nat
  fl_keys_seen :: nat
  fl_errors :: nat

definition flush_rule_hit_counts :: "'r env \<Rightarrow> ('r world, flush_result) py" where
  "flush_rule_hit_counts E = andThen (attempt (get_redis_connection E)) (\<lambda>conn. case conn of
      None \<Rightarrow> ret \<lparr>fl_flushed = 0, fl_keys_seen = 0, fl_errors = 0\<rparr>
    | Some client \<Rightarrow> andThen (attempt (on_redis (r_keys client HITS_PREFIX))) (\<lambda>keys. case keys of
          None \<Rightarrow> ret \<lparr>fl_flushed = 0, fl_keys_seen = 0, fl_errors = 1\<rparr>
        | Some ks \<Rightarrow> andThen (flush_keys E client ks 0 0)
            (\<lambda>(flushed, errors). ret \<lparr>fl_flushed = flushed, fl_keys_seen = length ks, fl_errors = errors\<rparr>)))"

section \<open>A rejection survives maintenance\<close>

text \<open>What the tasks do to a row: the columns that identify it stay, and a rejected row keeps its
  status and stays inactive.\<close>

definition keeps_rejection :: "(BlockRule \<Rightarrow> BlockRule) \<Rightarrow> bool" where
  "keeps_rejection f = (\<forall>r. br_id (f r) = br_id r \<and> br_source (f r) = br_source r \<and> auto_key (f r) = auto_key r \<and>
     (\<not> br_is_active r \<and> br_review_status r = REJECTED \<longrightarrow> \<not> br_is_active (f r) \<and> br_review_status (f r) = REJECTED))"

lemma wf_table_map:
  assumes "keeps_rejection f" and "wf_table rows"
  shows "wf_table (map f rows)"
proof -
  have "map br_id (map f rows) = map br_id rows" using assms(1) by (simp add: keeps_rejection_def)
  moreover have "map auto_key (filter (\<lambda>r. br_source r = AUTO) (map f rows)) = map auto_key (filter (\<lambda>r. br_source r = AUTO) rows)"
    using assms(1) by (simp add: keeps_rejection_def filter_map comp_def)
  ultimately show ?thesis using assms(2) by (simp add: wf_table_def del: map_map)
qed

lemma decided_map:
  assumes f: "keeps_rejection f" and d: "decided lk i False REJECTED w"
  shows "decided lk i False REJECTED (w\<lparr>BlockRules := map f (BlockRules w)\<rparr>)"
proof -
  from d obtain q where q: "filter (has_key lk) (BlockRules w) = [q]" "br_id q = i" "\<not> br_is_active q" "br_review_status q = REJECTED"
    by (auto simp: decided_def)
  have "has_key lk (f r) = has_key lk r" for r using f by (auto simp: keeps_rejection_def has_key_def auto_key_def)
  then have "filter (has_key lk) (map f (BlockRules w)) = [f q]" using q(1) by (simp add: filter_map comp_def)
  with q f d wf_table_map [OF f] show ?thesis by (simp add: decided_def keeps_rejection_def)
qed

lemma decided_filter:
  assumes d: "decided lk i False REJECTED w" and p: "\<And>r. br_review_status r = REJECTED \<Longrightarrow> p r"
  shows "decided lk i False REJECTED (w\<lparr>BlockRules := filter p (BlockRules w)\<rparr>)"
proof -
  from d obtain q where q: "filter (has_key lk) (BlockRules w) = [q]" "br_id q = i" "\<not> br_is_active q" "br_review_status q = REJECTED"
    by (auto simp: decided_def)
  have "filter (has_key lk) (filter p (BlockRules w)) = filter p (filter (has_key lk) (BlockRules w))"
    by (simp add: conj_commute)
  with q p d wf_table_filter show ?thesis by (simp add: decided_def)
qed

lemma keeps_rejection_updates:
  "keeps_rejection (\<lambda>r. if br_is_active r \<and> b r then r\<lparr>br_is_active := False\<rparr> else r)"
  "keeps_rejection (\<lambda>r. if unreviewed_expired E r then r\<lparr>br_review_status := EXPIRED_UNREVIEWED\<rparr> else r)"
  "keeps_rejection (credit E u n)"
  by (simp_all add: keeps_rejection_def auto_key_def unreviewed_expired_def credit_def)

text \<open>What every maintenance task keeps, as one interface: a predicate on the state that survives the
  writes of other processes, the writes to the tables the tasks own, changes of rows that keep
  rejections, and the removal of rows that are not rejected.\<close>

locale maintenance_invariant =
  fixes E :: "'r env" and P :: "'r world \<Rightarrow> bool"
  assumes rivals_kept: "P w \<Longrightarrow> P (w\<lparr>BlockRules := rivals E k (BlockRules w), db_ops := j\<rparr>)"
    and rows_kept: "keeps_rejection f \<Longrightarrow> P w \<Longrightarrow> P (w\<lparr>BlockRules := map f (BlockRules w)\<rparr>)"
    and removal_kept: "P w \<Longrightarrow> (\<And>r. br_review_status r = REJECTED \<Longrightarrow> p r) \<Longrightarrow> P (w\<lparr>BlockRules := filter p (BlockRules w)\<rparr>)"
    and tables_free: "P w \<Longrightarrow> P (w\<lparr>RequestLogs := a\<rparr>)" "P w \<Longrightarrow> P (w\<lparr>ChallengeTokens := b\<rparr>)"
      "P w \<Longrightarrow> P (w\<lparr>IPReputations := c\<rparr>)" "P w \<Longrightarrow> P (w\<lparr>AllowRules := d\<rparr>)"
    and server_free: "P w \<Longrightarrow> P (w\<lparr>server := r\<rparr>)" and django_cache_free: "P w \<Longrightarrow> P (w\<lparr>django_cache := e\<rparr>)"
    and signals_free: "P w \<Longrightarrow> P (w\<lparr>signals := g\<rparr>)"
begin

lemma kept_db: "keeps P m \<Longrightarrow> keeps P (db E m)"
  using rivals_kept by (simp add: keeps_def db_def Let_def)

lemma kept_write: "(\<And>w. P w \<Longrightarrow> P (g w)) \<Longrightarrow> keeps P (\<lambda>w. (Inr (f w), g w))"
  by (simp add: keeps_def)

lemma kept_redis: "keeps P (on_redis m)"
  using server_free by (simp add: keeps_def on_redis_def split: prod.splits)

lemma kept_connection: "keeps P (get_redis_connection E)"
  unfolding get_redis_connection_def by (cases "backend E") (auto simp: keeps_def)

lemma kept_cache: "keeps P (cache_get b k)" "keeps P (cache_put b k v)" "keeps P (cache_incr k)" "keeps P (cache_set k v)"
  using django_cache_free
  by (auto simp: keeps_def cache_get_def cache_put_def cache_set_def cache_incr_def split: option.splits)

lemma kept_swallow: "keeps P m \<Longrightarrow> keeps P (swallow m)"
  unfolding swallow_def by (intro keep_intros)

lemma kept_attempt: "keeps P m \<Longrightarrow> keeps P (attempt m)"
  unfolding attempt_def by (intro keep_intros)

lemma kept_delete_handler: "keeps P (on_block_rule_delete E i)"
proof -
  have "keeps P (case backend E of Redis_backend \<Rightarrow> on_redis (r_exec (redis E) (INCR RULES_VERSION_KEY))
      | Other_backend \<Rightarrow> try_except (cache_incr RULES_VERSION_KEY) (\<lambda>e. if e = ValueError then cache_set RULES_VERSION_KEY 1 else raise e)
      | Unreachable \<Rightarrow> raise RedisError)"
    by (cases "backend E") (auto intro!: keep_intros kept_redis kept_cache)
  moreover have "keeps P (send E (Rule_saved i None))" using signals_free by (simp add: keeps_def send_def Let_def)
  ultimately show ?thesis unfolding on_block_rule_delete_def invalidate_rule_cache_def emit_rule_saved_def
    by (intro keep_intros kept_swallow)
qed

lemma kept_delete_each: "keeps P (delete_each E rs)"
proof (induction rs)
  case (Cons r rs)
  then show ?case unfolding delete_each.simps by (intro keep_intros kept_delete_handler)
qed (unfold delete_each.simps, rule keeps_ret)

lemma kept_prunes:
  "keeps P (prune_request_logs oc E days)" "keeps P (prune_challenge_tokens E hours)"
  unfolding prune_request_logs_def prune_challenge_tokens_def Let_def
  by (intro kept_db kept_write tables_free, assumption)+

lemma kept_prune_stale: "keeps P (prune_stale_rules oc E days)"
proof -
  have "r \<notin> set (BlockRule_stale t n rows)" if "br_review_status r = REJECTED" for r t n rows
    using that by (simp add: BlockRule_stale_def Let_def)
  then have "keeps P (\<lambda>w. (Inr (BlockRule_stale t n (BlockRules w)),
      w\<lparr>BlockRules := filter (\<lambda>r. r \<notin> set (BlockRule_stale t n (BlockRules w))) (BlockRules w)\<rparr>))" for t n
    using removal_kept by (simp add: keeps_def)
  then show ?thesis unfolding prune_stale_rules_def Let_def by (intro keep_intros kept_db kept_delete_each)
qed

lemma kept_expire: "keeps P (expire_rules E answers)"
proof -
  have "keeps P (invalidate_rule_cache_redis E answers)"
    unfolding invalidate_rule_cache_redis_def by (intro keep_intros kept_connection kept_redis kept_cache)
  then show ?thesis unfolding expire_rules_def
    by (intro keep_intros kept_db kept_swallow kept_write rows_kept tables_free(4) keeps_rejection_updates) assumption+
qed

lemma kept_reputation: "keeps P (update_ip_reputation dc E)"
proof -
  have "keeps P (upsert_reputation E row)" for row
    unfolding upsert_reputation_def by (rule kept_db) (use tables_free(3) in \<open>simp add: keeps_def\<close>)
  then have one: "keeps P (update_one dc E st)" for st unfolding update_one_def by (intro keep_intros kept_db)
  have "keeps P (update_each dc E sts u c)" for sts u c
  proof (induction sts arbitrary: u c)
    case (Cons st sts)
    then show ?case unfolding update_each.simps by (intro keep_intros one)
  qed (unfold update_each.simps, rule keeps_ret)
  then show ?thesis unfolding update_ip_reputation_def
    unfolding case_prod_unfold by (intro keep_intros kept_db)
qed

lemma kept_flush: "keeps P (flush_rule_hit_counts E)"
proof -
  have take: "keeps P (take_counter client key)" for client key
    unfolding take_counter_def
    by (intro keep_intros kept_redis) (auto simp: keeps_def split: list.splits redis_reply.splits option.splits)
  have add: "keeps P (add_hits E i n)" for i n
    unfolding add_hits_def by (intro keep_intros kept_db kept_write rows_kept keeps_rejection_updates)
  have one: "keeps P (flush_key E client key)" for client key
    unfolding flush_key_def by (intro keep_intros kept_attempt take add)
  have "keeps P (flush_keys E client ks f e)" for client ks f e
  proof (induction ks arbitrary: f e)
    case (Cons k ks)
    then show ?case unfolding flush_keys.simps case_prod_unfold by (intro keep_intros one)
  qed (unfold flush_keys.simps, rule keeps_ret)
  then show ?thesis unfolding flush_rule_hit_counts_def case_prod_unfold
    by (intro keep_intros kept_attempt kept_connection kept_redis)
qed

end

lemma maintenance_invariant_rejected:
  assumes "rivals_insert E"
  shows "maintenance_invariant E (decided lk i False REJECTED)"
proof
  fix w k j assume "decided lk i False REJECTED w"
  then show "decided lk i False REJECTED (w\<lparr>BlockRules := rivals E k (BlockRules w), db_ops := j\<rparr>)"
    by (rule decided_rivals [OF assms])
qed (simp_all add: decided_map decided_filter, simp_all add: decided_def)

interpretation demo_maintenance: maintenance_invariant demo_env "decided lk i False REJECTED" for lk i
  by (rule maintenance_invariant_rejected) (simp add: rivals_insert_def demo_env_def)

text \<open>Any sequence of detector runs and maintenance tasks, each with its own settings and environment:
  failures, receivers and the clock may change from step to step, and other processes may insert
  rules.\<close>

inductive maintained :: "'r world \<Rightarrow> 'r world \<Rightarrow> bool" for w where
  start: "maintained w w"
| detection: "maintained w v \<Longrightarrow> rivals_insert E \<Longrightarrow> maintained w (snd (run_all_detectors cf dc E win dry refresh v))"
| expiry: "maintained w v \<Longrightarrow> rivals_insert E \<Longrightarrow> maintained w (snd (expire_rules E answers v))"
| rule_pruning: "maintained w v \<Longrightarrow> rivals_insert E \<Longrightarrow> maintained w (snd (prune_stale_rules oc E days v))"
| log_pruning: "maintained w v \<Longrightarrow> rivals_insert E \<Longrightarrow> maintained w (snd (prune_request_logs oc E days v))"
| token_pruning: "maintained w v \<Longrightarrow> rivals_insert E \<Longrightarrow> maintained w (snd (prune_challenge_tokens E hours v))"
| reputation: "maintained w v \<Longrightarrow> rivals_insert E \<Longrightarrow> maintained w (snd (update_ip_reputation dc E v))"
| flushing: "maintained w v \<Longrightarrow> rivals_insert E \<Longrightarrow> maintained w (snd (flush_rule_hit_counts E v))"

lemma maintained_decided:
  assumes "maintained w v" and "decided lk i False REJECTED w"
  shows "decided lk i False REJECTED v"
  using assms
proof (induction rule: maintained.induct)
  case (detection v E cf dc win dry refresh)
  then show ?case
    using detector_invariant.keeps_run_all [OF detector_invariant_decided [OF detection.hyps(2)]] unfolding keeps_def by blast
next
  case (expiry v E answers)
  then show ?case
    using maintenance_invariant.kept_expire [OF maintenance_invariant_rejected] unfolding keeps_def by blast
next
  case (rule_pruning v E oc days)
  then show ?case
    using maintenance_invariant.kept_prune_stale [OF maintenance_invariant_rejected] unfolding keeps_def by blast
next
  case (log_pruning v E oc days)
  then show ?case
    using maintenance_invariant.kept_prunes(1) [OF maintenance_invariant_rejected] unfolding keeps_def by blast
next
  case (token_pruning v E hours)
  then show ?case
    using maintenance_invariant.kept_prunes(2) [OF maintenance_invariant_rejected] unfolding keeps_def by blast
next
  case (reputation v E dc)
  then show ?case
    using maintenance_invariant.kept_reputation [OF maintenance_invariant_rejected] unfolding keeps_def by blast
next
  case (flushing v E)
  then show ?case
    using maintenance_invariant.kept_flush [OF maintenance_invariant_rejected] unfolding keeps_def by blast
qed simp

text \<open>
  A rejection is final: take an automatic rule that an operator rejected, and let detectors, expiry,
  all prune tasks, the reputation update and the hit-count flush run in any order, as often as they
  like, with any failures of Redis and the database and with rules inserted by other processes. The
  rejected row is still there, still rejected and inactive, and no automatic rule with its type,
  pattern and action is active.
\<close>

theorem rejected_rule_stays_rejected:
  assumes run: "maintained w v" and wf: "wf_table (BlockRules w)" and r: "r \<in> set (BlockRules w)" and src: "br_source r = AUTO"
    and rej: "br_review_status r = REJECTED" "\<not> br_is_active r"
  shows "(\<exists>q \<in> set (BlockRules v). br_id q = br_id r \<and> auto_key q = auto_key r \<and> br_review_status q = REJECTED) \<and>
    (\<forall>q \<in> set (BlockRules v). br_source q = AUTO \<and> auto_key q = auto_key r \<longrightarrow> \<not> br_is_active q)"
proof -
  let ?lk = "\<lparr>lk_rule_type = br_rule_type r, lk_pattern = br_pattern r, lk_action = br_action r\<rparr>"
  have key: "has_key ?lk q \<longleftrightarrow> br_source q = AUTO \<and> auto_key q = auto_key r" for q by (auto simp: has_key_def auto_key_def)
  have "decided ?lk (br_id r) False REJECTED w"
    using decided_start [OF wf r, of ?lk] src rej key by simp
  from maintained_decided [OF run this] obtain q where
    q: "filter (has_key ?lk) (BlockRules v) = [q]" "br_id q = br_id r" "\<not> br_is_active q" "br_review_status q = REJECTED"
    by (auto simp: decided_def)
  then have "q \<in> set (filter (has_key ?lk) (BlockRules v))" by simp
  moreover have "x = q" if "x \<in> set (BlockRules v)" "has_key ?lk x" for x
  proof -
    have "x \<in> set (filter (has_key ?lk) (BlockRules v))" using that by simp
    then show ?thesis unfolding q(1) by simp
  qed
  ultimately show ?thesis using q(2-) key by auto
qed

theorem rejected_rule_stays_rejected_witness:
  "\<exists>q \<in> set (BlockRules (snd (prune_stale_rules (default_ops_conf\<lparr>DJANGO_WAF_RULE_PRUNE_ENABLED := True\<rparr>)
       (demo_env\<lparr>time_now := 100000000\<rparr>) None (snd (expire_rules demo_env True
         (empty_world\<lparr>BlockRules := [example_rule\<lparr>br_is_active := False, br_review_status := REJECTED, br_expires_at := Some 1\<rparr>]\<rparr>)))))).
     br_id q = 7 \<and> br_review_status q = REJECTED"
proof -
  let ?r = "example_rule\<lparr>br_is_active := False, br_review_status := REJECTED, br_expires_at := Some 1\<rparr>"
  let ?w = "empty_world\<lparr>BlockRules := [?r]\<rparr>"
  have e: "rivals_insert demo_env" "rivals_insert (demo_env\<lparr>time_now := 100000000\<rparr>)" by (simp_all add: rivals_insert_def demo_env_def)
  have t: "wf_table (BlockRules ?w)" "?r \<in> set (BlockRules ?w)" "br_source ?r = AUTO" "br_review_status ?r = REJECTED" "\<not> br_is_active ?r"
    by (simp_all add: wf_table_def example_rule_def)
  have id: "br_id ?r = 7" by (simp add: example_rule_def)
  have run: "maintained ?w (snd (prune_stale_rules (default_ops_conf\<lparr>DJANGO_WAF_RULE_PRUNE_ENABLED := True\<rparr>)
       (demo_env\<lparr>time_now := 100000000\<rparr>) None (snd (expire_rules demo_env True ?w))))"
    by (intro maintained.rule_pruning maintained.expiry maintained.start e)
  from rejected_rule_stays_rejected [OF run t] id show ?thesis by auto
qed

section \<open>Expiry changes nothing in force\<close>

lemma filter_map_same:
  assumes "\<And>x. p (f x) = p x" and "\<And>x. p x \<Longrightarrow> f x = x"
  shows "filter p (map f xs) = filter p xs"
  using assms by (induction xs) simp_all

lemma filter_map_none: "(\<And>x. \<not> p (f x)) \<Longrightarrow> filter p (map f xs) = []"
  by (induction xs) simp_all

lemma active_after:
  assumes "\<And>r. (br_is_active (f r) \<and> not_expired t (br_expires_at (f r))) = (br_is_active r \<and> not_expired t (br_expires_at r))"
    and "\<And>r. br_is_active r \<Longrightarrow> not_expired t (br_expires_at r) \<Longrightarrow> f r = r"
  shows "BlockRule_active t (map f rows) = BlockRule_active t rows"
  unfolding BlockRule_active_def using assms by (subst filter_map_same) auto

lemma invalidate_frames:
  "frames (\<lambda>w. (BlockRules w, AllowRules w)) (invalidate_rule_cache_redis E answers)"
  unfolding invalidate_rule_cache_redis_def get_redis_connection_def cache_get_def cache_put_def
  by (cases "backend E") (auto intro!: frame_intros)

lemma past_not_expired: "past E e \<longleftrightarrow> \<not> not_expired (time_now E) e"
  by (auto simp: past_def not_expired_def split: option.splits)

lemma expired_past:
  "BlockRule_expired (time_now E) rows = filter (\<lambda>r. br_is_active r \<and> past E (br_expires_at r)) rows"
  "AllowRule_expired (time_now E) arows = filter (\<lambda>r. ar_is_active r \<and> past E (ar_expires_at r)) arows"
  by (simp_all add: BlockRule_expired_def AllowRule_expired_def past_def)

text \<open>
  C0. Expiry only tidies up: with a working database that nobody else writes, \<open>expire_rules\<close> returns; the
  lists of active block and allow rules that evaluation loads are the same before and after; no rule
  is left that is flagged active although its time has passed, nor an automatic rule that awaits
  review although its time has passed; and the counts reported are the numbers of rules changed.
\<close>

theorem expire_rules_only_tidies:
  assumes E: "calm_db E"
  shows "\<exists>res w'. expire_rules E answers w = (Inr res, w') \<and>
    BlockRule_active (time_now E) (BlockRules w') = BlockRule_active (time_now E) (BlockRules w) \<and>
    AllowRule_active (time_now E) (AllowRules w') = AllowRule_active (time_now E) (AllowRules w) \<and>
    BlockRule_expired (time_now E) (BlockRules w') = [] \<and> AllowRule_expired (time_now E) (AllowRules w') = [] \<and>
    filter (unreviewed_expired E) (BlockRules w') = [] \<and>
    expired_count res = length (BlockRule_expired (time_now E) (BlockRules w)) + length (AllowRule_expired (time_now E) (AllowRules w)) \<and>
    expired_unreviewed_count res = length (filter (unreviewed_expired E) (BlockRules w))"
proof -
  let ?f = "\<lambda>r. if br_is_active r \<and> past E (br_expires_at r) then r\<lparr>br_is_active := False\<rparr> else r"
  let ?g = "\<lambda>r. if unreviewed_expired E r then r\<lparr>br_review_status := EXPIRED_UNREVIEWED\<rparr> else r"
  let ?a = "\<lambda>r. if ar_is_active r \<and> past E (ar_expires_at r) then r\<lparr>ar_is_active := False\<rparr> else r"
  let ?w = "w\<lparr>AllowRules := map ?a (AllowRules w), db_ops := Suc (Suc (Suc (db_ops w))), BlockRules := map ?g (map ?f (BlockRules w))\<rparr>"
  let ?n = "length (BlockRule_expired (time_now E) (BlockRules w)) + length (AllowRule_expired (time_now E) (AllowRules w))"
  let ?inv = "if 0 < ?n then swallow (invalidate_rule_cache_redis E answers) else ret ()"
  have un: "unreviewed_expired E (?f r) = unreviewed_expired E r" for r by (simp add: unreviewed_expired_def)
  then have len: "length (filter (unreviewed_expired E) (map ?f (BlockRules w))) = length (filter (unreviewed_expired E) (BlockRules w))"
    by (simp add: filter_map comp_def)
  obtain w' where w': "?inv ?w = (Inr (), w')" by (cases "0 < ?n") (auto simp: swallow_apply)
  have "frames (\<lambda>w. (BlockRules w, AllowRules w)) ?inv" by (auto intro!: frame_intros invalidate_frames)
  from framesD [OF this w'] have same: "BlockRules w' = map ?g (map ?f (BlockRules w))" "AllowRules w' = map ?a (AllowRules w)" by simp_all
  have run: "expire_rules E answers w = (Inr \<lparr>expired_block_count = length (BlockRule_expired (time_now E) (BlockRules w)),
      expired_allow_count = length (AllowRule_expired (time_now E) (AllowRules w)), expired_count = ?n,
      expired_unreviewed_count = length (filter (unreviewed_expired E) (BlockRules w))\<rparr>, w')"
    unfolding expire_rules_def using w' len by (simp add: db_calm [OF E])
  have "BlockRule_active (time_now E) (map ?g (map ?f (BlockRules w))) = BlockRule_active (time_now E) (BlockRules w)"
    by (rule trans [OF active_after active_after]) (auto simp: past_not_expired unreviewed_expired_def)
  moreover have "AllowRule_active (time_now E) (map ?a (AllowRules w)) = AllowRule_active (time_now E) (AllowRules w)"
    unfolding AllowRule_active_def by (rule filter_map_same) (auto simp: past_not_expired)
  moreover have "BlockRule_expired (time_now E) (map ?g (map ?f (BlockRules w))) = []"
    unfolding expired_past map_map by (rule filter_map_none) simp
  moreover have "AllowRule_expired (time_now E) (map ?a (AllowRules w)) = []"
    unfolding expired_past map_map by (rule filter_map_none) simp
  moreover have "filter (unreviewed_expired E) (map ?g (map ?f (BlockRules w))) = []"
    by (rule filter_map_none) (simp add: unreviewed_expired_def)
  ultimately show ?thesis using run same by auto
qed

theorem expire_rules_only_tidies_witness:
  "\<exists>res w'. expire_rules demo_env True (empty_world\<lparr>BlockRules := [example_rule\<lparr>br_expires_at := Some 1\<rparr>, example_rule]\<rparr>) = (Inr res, w') \<and>
     BlockRule_active 1000 (BlockRules w') = [example_rule] \<and> BlockRule_expired 1000 (BlockRules w') = []"
proof -
  have "BlockRule_active 1000 [example_rule\<lparr>br_expires_at := Some 1\<rparr>, example_rule] = [example_rule]"
    by (simp add: BlockRule_active_def not_expired_def example_rule_def)
  moreover have "time_now demo_env = 1000" by (simp add: demo_env_def)
  ultimately show ?thesis
    using expire_rules_only_tidies [OF demo_calm_db(1), of True "empty_world\<lparr>BlockRules := [example_rule\<lparr>br_expires_at := Some 1\<rparr>, example_rule]\<rparr>"]
    by (auto simp: empty_world_def)
qed

section \<open>Hits reach the database\<close>

text \<open>The counter of a rule in Redis, and a store whose counters are the ones the package writes.\<close>

definition pending_hits :: "store \<Rightarrow> uuid \<Rightarrow> int" where
  "pending_hits s u = (case live s (rule_hits_key (str_uuid u)) of
      Some (RStr v) \<Rightarrow> (case int_text v of Some n \<Rightarrow> n | None \<Rightarrow> 0) | _ \<Rightarrow> 0)"

definition hit_store :: "store \<Rightarrow> bool" where
  "hit_store s = (\<forall>k v. live s k = Some v \<and> startswith k HITS_PREFIX \<longrightarrow>
     (\<exists>u n. valid_uuid u \<and> k = rule_hits_key (str_uuid u) \<and> v = RStr (str_int n) \<and> 0 \<le> n \<and> n < 10 ^ 18))"

lemma hits_key_facts:
  "rule_hits_key i = HITS_PREFIX @ i" "startswith (rule_hits_key i) HITS_PREFIX" "drop (length HITS_PREFIX) (rule_hits_key i) = i"
  by (simp_all add: rule_hits_key_def HITS_PREFIX_def startswith_def)

lemma str_uuid_inject: "valid_uuid u \<Longrightarrow> valid_uuid v \<Longrightarrow> str_uuid u = str_uuid v \<longleftrightarrow> u = v"
  by (metis option.inject parse_str_uuid)

definition credited :: "'r env \<Rightarrow> (uuid \<Rightarrow> int) \<Rightarrow> BlockRule \<Rightarrow> BlockRule" where
  "credited E n r = (if 0 < n (br_id r)
     then r\<lparr>br_hit_count := br_hit_count r + n (br_id r), br_last_hit_at := Some (time_now E)\<rparr> else r)"

lemma flush_key_effect:
  assumes E: "calm E store_of" and u: "valid_uuid u" and n: "0 \<le> n" "n < 10 ^ 18"
    and l: "live (store_of (server w)) (rule_hits_key (str_uuid u)) = Some (RStr (str_int n))"
  shows "\<exists>f w'. flush_key E (redis E) (rule_hits_key (str_uuid u)) w = (Inr (f, 0), w') \<and>
     store_of (server w') = remove (rule_hits_key (str_uuid u)) (store_of (server w)) \<and>
     BlockRules w' = (if 0 < n then map (credit E u n) (BlockRules w) else BlockRules w)"
proof -
  let ?k = "rule_hits_key (str_uuid u)"
  have "run_cmds [GET ?k, DEL ?k] (store_of (server w)) = ([BulkR (str_int n), IntR 1], remove ?k (store_of (server w)))"
    using l by simp
  from redis_up.up_run [OF calm_up [OF E] this] obtain r' where
    r': "redis E [GET ?k, DEL ?k] (server w) = (Inr [BulkR (str_int n), IntR 1], r')" "store_of r' = remove ?k (store_of (server w))"
    by auto
  have take: "attempt (take_counter (redis E) ?k) w = (Inr (Some n), w\<lparr>server := r'\<rparr>)"
    using r'(1) int_text_small [OF n] by (simp add: attempt_def take_counter_def)
  have add: "add_hits E (str_uuid u) n v = (Inr (length (filter (\<lambda>r. br_id r = u) (BlockRules v))),
      v\<lparr>db_ops := Suc (db_ops v), BlockRules := map (credit E u n) (BlockRules v)\<rparr>)" for v
    unfolding add_hits_def using u by (simp add: RuleCaching.calm_db [OF E])
  show ?thesis
  proof (cases "0 < n")
    case True
    then show ?thesis using take r'(2) by (simp add: flush_key_def hits_key_facts attempt_def [of "add_hits _ _ _"] add)
  next
    case False
    then show ?thesis using take r'(2) by (simp add: flush_key_def)
  qed
qed

lemma credited_step:
  assumes "valid_uuid u" "\<And>r. r \<in> set rows \<Longrightarrow> valid_uuid (br_id r)" "m u = 0" "\<And>v. valid_uuid v \<Longrightarrow> v \<noteq> u \<Longrightarrow> m v = k v" "k u = n"
  shows "map (credited E m) (if 0 < n then map (credit E u n) rows else rows) = map (credited E k) rows"
proof -
  have "credited E m (if 0 < n then credit E u n r else r) = credited E k r" if "valid_uuid (br_id r)" for r
    using assms that by (cases "br_id r = u") (auto simp: credited_def credit_def)
  then show ?thesis using assms(2) by auto
qed

lemma flush_keys_effect:
  assumes E: "calm E store_of" and d: "distinct ks" and s: "hit_store (store_of (server w))"
    and all: "\<And>k. startswith k HITS_PREFIX \<and> live (store_of (server w)) k \<noteq> None \<longleftrightarrow> k \<in> set ks"
    and ids: "\<And>r. r \<in> set (BlockRules w) \<Longrightarrow> valid_uuid (br_id r)"
  shows "\<exists>f' w'. flush_keys E (redis E) ks f e w = (Inr (f', e), w') \<and>
     BlockRules w' = map (credited E (pending_hits (store_of (server w)))) (BlockRules w) \<and>
     (\<forall>k. live (store_of (server w')) k = (if startswith k HITS_PREFIX then None else live (store_of (server w)) k))"
  using d s all ids
proof (induction ks arbitrary: w f)
  case Nil
  then have none: "startswith k HITS_PREFIX \<Longrightarrow> live (store_of (server w)) k = None" for k by (metis empty_iff empty_set)
  then have "credited E (pending_hits (store_of (server w))) r = r" for r by (simp add: credited_def pending_hits_def hits_key_facts)
  then have "map (credited E (pending_hits (store_of (server w)))) rows = rows" for rows by (simp add: map_idI)
  with none show ?case by auto
next
  case (Cons k ks)
  let ?s = "store_of (server w)"
  have k: "startswith k HITS_PREFIX" "live ?s k \<noteq> None" using Cons.prems(3) [of k] by auto
  from Cons.prems(2) k obtain u n where u: "valid_uuid u" "k = rule_hits_key (str_uuid u)" "live ?s k = Some (RStr (str_int n))"
      "0 \<le> n" "n < 10 ^ 18" by (fastforce simp: hit_store_def)
  from flush_key_effect [OF E u(1,4,5) u(3) [unfolded u(2)]] obtain g w1 where
    w1: "flush_key E (redis E) k w = (Inr (g, 0), w1)" "store_of (server w1) = remove k ?s"
      "BlockRules w1 = (if 0 < n then map (credit E u n) (BlockRules w) else BlockRules w)" unfolding u(2) by blast
  have s1: "hit_store (store_of (server w1))" using Cons.prems(2) unfolding hit_store_def w1(2) live_remove by simp
  have all1: "startswith j HITS_PREFIX \<and> live (store_of (server w1)) j \<noteq> None \<longleftrightarrow> j \<in> set ks" for j
    using Cons.prems(1) Cons.prems(3) [of j] unfolding w1(2) live_remove by auto
  have ids1: "valid_uuid (br_id r)" if "r \<in> set (BlockRules w1)" for r
    using that Cons.prems(4) unfolding w1(3) by (auto simp: credit_def split: if_splits)
  have "distinct ks" using Cons.prems(1) by simp
  from Cons.IH [OF this s1 all1 ids1, of "f + g"] obtain f' w' where w': "flush_keys E (redis E) ks (f + g) e w1 = (Inr (f', e), w')"
      "BlockRules w' = map (credited E (pending_hits (store_of (server w1)))) (BlockRules w1)"
      "\<And>j. live (store_of (server w')) j = (if startswith j HITS_PREFIX then None else live (store_of (server w1)) j)" by blast
  have p: "pending_hits (remove k ?s) u = 0" "pending_hits ?s u = n"
    using u int_text_small [OF u(4,5)] by (simp_all add: pending_hits_def live_remove)
  have q: "pending_hits (remove k ?s) v = pending_hits ?s v" if "valid_uuid v" "v \<noteq> u" for v
    using that u(1,2) str_uuid_inject by (simp add: pending_hits_def live_remove hits_key_facts)
  have "BlockRules w' = map (credited E (pending_hits ?s)) (BlockRules w)"
    unfolding w'(2) w1(2,3) using u(1) Cons.prems(4) p q by (intro credited_step)
  moreover have "flush_keys E (redis E) (k # ks) f e w = (Inr (f', e), w')" using w1(1) w'(1) by simp
  moreover have "live (store_of (server w')) j = (if startswith j HITS_PREFIX then None else live ?s j)" for j
    unfolding w'(3) w1(2) live_remove using k(1) by auto
  ultimately show ?case by blast
qed

lemma keys_listed:
  assumes up: "redis_up C store_of"
  shows "\<exists>ks r'. r_keys C p r = (Inr ks, r') \<and> store_of r' = store_of r \<and> distinct ks \<and>
     (\<forall>k. k \<in> set ks \<longleftrightarrow> startswith k p \<and> live (store_of r) k \<noteq> None)"
proof -
  let ?ks = "remdups (filter (\<lambda>k. startswith k p \<and> live (store_of r) k \<noteq> None) (map fst (data (store_of r))))"
  have "run_cmd (KEYS p) (store_of r) = (KeysR ?ks, store_of r)" by simp
  from redis_up.up_call [OF up this] obtain r' where r': "r_call C (KEYS p) r = (Inr (KeysR ?ks), r')" "store_of r' = store_of r" by auto
  have dom: "k \<in> fst ` set (data (store_of r))" if "live (store_of r) k \<noteq> None" for k
  proof (rule ccontr)
    assume "\<not> ?thesis"
    then have "map_of (data (store_of r)) k = None" by (simp add: map_of_eq_None_iff)
    with that show False by (simp add: live_def)
  qed
  have "k \<in> set ?ks \<longleftrightarrow> startswith k p \<and> live (store_of r) k \<noteq> None" for k
    unfolding set_remdups set_filter set_map using dom by blast
  moreover have "distinct ?ks" by simp
  moreover have "r_keys C p r = (Inr ?ks, r')" unfolding r_keys_def using r'(1) by simp
  ultimately show ?thesis using r'(2) by blast
qed

lemma flush_effect:
  assumes E: "calm E store_of" and be: "backend E = Redis_backend" and s: "hit_store (store_of (server w))"
    and ids: "\<And>r. r \<in> set (BlockRules w) \<Longrightarrow> valid_uuid (br_id r)"
  shows "\<exists>res w'. flush_rule_hit_counts E w = (Inr res, w') \<and> fl_errors res = 0 \<and>
     BlockRules w' = map (credited E (pending_hits (store_of (server w)))) (BlockRules w) \<and>
     (\<forall>k. live (store_of (server w')) k = (if startswith k HITS_PREFIX then None else live (store_of (server w)) k))"
proof -
  from keys_listed [OF calm_up [OF E], of HITS_PREFIX "server w"] obtain ks r' where
    ks: "r_keys (redis E) HITS_PREFIX (server w) = (Inr ks, r')" "store_of r' = store_of (server w)" "distinct ks"
      "\<And>k. startswith k HITS_PREFIX \<and> live (store_of r') k \<noteq> None \<longleftrightarrow> k \<in> set ks" by auto
  let ?w = "w\<lparr>server := r'\<rparr>"
  from flush_keys_effect [OF E ks(3), of ?w 0 0] s ks(2,4) ids obtain f' w' where
    w': "flush_keys E (redis E) ks 0 0 ?w = (Inr (f', 0), w')"
      "BlockRules w' = map (credited E (pending_hits (store_of (server w)))) (BlockRules w)"
      "\<And>k. live (store_of (server w')) k = (if startswith k HITS_PREFIX then None else live (store_of (server w)) k)" by auto
  have c: "attempt (get_redis_connection E) w = (Inr (Some (redis E)), w)" by (simp add: attempt_def get_redis_connection_def be)
  have k: "attempt (on_redis (r_keys (redis E) HITS_PREFIX)) w = (Inr (Some ks), ?w)" using ks(1) by (simp add: attempt_def)
  have "flush_rule_hit_counts E w = (Inr \<lparr>fl_flushed = f', fl_keys_seen = length ks, fl_errors = 0\<rparr>, w')"
    unfolding flush_rule_hit_counts_def using c k w'(1) by simp
  with w' show ?thesis by auto
qed

lemma record_hit_effect:
  assumes up: "redis_up (redis E) store_of" and s: "hit_store (store_of (server w))" and u: "valid_uuid u"
    and b: "pending_hits (store_of (server w)) u < 10 ^ 18 - 1"
    and w'_def: "w' = snd (record_rule_hit E (str_uuid u) w)"
  shows "BlockRules w' = BlockRules w" "hit_store (store_of (server w'))"
    "valid_uuid v \<Longrightarrow> pending_hits (store_of (server w')) v = pending_hits (store_of (server w)) v + (if v = u then 1 else 0)"
proof -
  let ?k = "rule_hits_key (str_uuid u)" and ?s = "store_of (server w)"
  have cnt: "live ?s ?k = None \<or> (\<exists>n. live ?s ?k = Some (RStr (str_int n)) \<and> 0 \<le> n \<and> n < 10 ^ 18)"
    using s hits_key_facts(2) [of "str_uuid u"] unfolding hit_store_def by (cases "live ?s ?k") fastforce+
  then have "counter_key ?s ?k" by (auto simp: counter_key_def)
  from redis_up.up_incr [OF up this] obtain r1 n where
    r1: "r_exec (redis E) (INCR ?k) (server w) = (Inr (), r1)" "store_of r1 = rewrite ?k (RStr (str_int (n + 1))) ?s"
      "live ?s ?k = None \<and> n = 0 \<or> live ?s ?k = Some (RStr (str_int n))" by blast
  have n: "pending_hits ?s u = n" "0 \<le> n" "n < 10 ^ 18" using cnt r1(3) int_text_small by (auto simp: pending_hits_def)
  have ex: "run_cmd (EXPIRE ?k (86400 * 2)) (store_of r1) = (IntR 1, put ?k (RStr (str_int (n + 1))) (Some (clock ?s + 172800)) (store_of r1))"
    by (simp add: r1(2))
  then have "fst (run_cmd (EXPIRE ?k (86400 * 2)) (store_of r1)) \<noteq> ErrR" by (simp only: fst_conv) simp
  from redis_up.up_exec [OF up this] ex obtain r2 where r2: "r_exec (redis E) (EXPIRE ?k (86400 * 2)) r1 = (Inr (), r2)"
      "store_of r2 = put ?k (RStr (str_int (n + 1))) (Some (clock ?s + 172800)) (store_of r1)" by auto
  have w': "w' = w\<lparr>server := r2\<rparr>" using r1(1) r2(1) by (simp add: w'_def record_rule_hit_def swallow_apply)
  have l: "live (store_of r2) j = (if j = ?k then Some (RStr (str_int (n + 1))) else live ?s j)" for j
    by (simp add: r2(2) r1(2) live_put)
  show "BlockRules w' = BlockRules w" by (simp add: w')
  have "n + 1 < 10 ^ 18" using b n(1) by simp
  then show "hit_store (store_of (server w'))" using s n(2) u unfolding hit_store_def w' by (auto simp: l)
  show "pending_hits (store_of (server w')) v = pending_hits ?s v + (if v = u then 1 else 0)" if "valid_uuid v"
  proof (cases "v = u")
    case True
    with n \<open>n + 1 < 10 ^ 18\<close> show ?thesis using int_text_small [of "n + 1"] by (simp add: pending_hits_def [of "store_of r2"] w' l)
  next
    case False
    then have "rule_hits_key (str_uuid v) \<noteq> ?k" using that u str_uuid_inject by (simp add: hits_key_facts)
    with False show ?thesis by (simp add: pending_hits_def w' l)
  qed
qed

lemma record_hits_effect:
  assumes "redis_up (redis E) store_of" "hit_store (store_of (server w))" "valid_uuid u"
    and "pending_hits (store_of (server w)) u + int n < 10 ^ 18"
    and "w' = ((\<lambda>v. snd (record_rule_hit E (str_uuid u) v)) ^^ n) w"
  shows "BlockRules w' = BlockRules w \<and> hit_store (store_of (server w')) \<and>
    (\<forall>v. valid_uuid v \<longrightarrow> pending_hits (store_of (server w')) v = pending_hits (store_of (server w)) v + (if v = u then int n else 0))"
  using assms(4,5)
proof (induction n arbitrary: w')
  case (Suc n)
  let ?v = "((\<lambda>v. snd (record_rule_hit E (str_uuid u) v)) ^^ n) w"
  from Suc.prems(1) have "pending_hits (store_of (server w)) u + int n < 10 ^ 18" by simp
  note ih = Suc.IH [OF this refl]
  with Suc.prems(1) assms(3) have "pending_hits (store_of (server ?v)) u < 10 ^ 18 - 1" by simp
  note step = record_hit_effect [OF assms(1) _ assms(3) this refl]
  show ?case using ih step unfolding Suc.prems(2) by simp
qed (use assms(2) in simp)

text \<open>
  C19. No hit is lost or counted twice: with Redis and the database working, when a rule was hit \<open>n\<close> times
  (\<open>_record_rule_hit\<close>) on top of whatever counters were pending, the next \<open>flush_rule_hit_counts\<close> reports
  no error, adds to every rule exactly its pending count (for this rule, \<open>n\<close> more than before the
  hits), changes nothing else of a rule but the time of its last hit, and leaves no counter behind,
  so that a second flush adds nothing.
\<close>

theorem recorded_hits_reach_the_database:
  assumes E: "calm E store_of" "backend E = Redis_backend" and s: "hit_store (store_of (server w))"
    and ids: "\<And>r. r \<in> set (BlockRules w) \<Longrightarrow> valid_uuid (br_id r)" and u: "valid_uuid u"
    and b: "pending_hits (store_of (server w)) u + int n < 10 ^ 18"
  shows "\<exists>res w'. flush_rule_hit_counts E (((\<lambda>v. snd (record_rule_hit E (str_uuid u) v)) ^^ n) w) = (Inr res, w') \<and> fl_errors res = 0 \<and>
    map br_hit_count (BlockRules w') = map (\<lambda>r. br_hit_count r + max 0 (pending_hits (store_of (server w)) (br_id r)) +
      (if br_id r = u then int n else 0)) (BlockRules w) \<and>
    map (\<lambda>r. r\<lparr>br_hit_count := 0, br_last_hit_at := None\<rparr>) (BlockRules w') = map (\<lambda>r. r\<lparr>br_hit_count := 0, br_last_hit_at := None\<rparr>) (BlockRules w) \<and>
    (\<forall>v. pending_hits (store_of (server w')) v = 0)"
proof -
  let ?w1 = "((\<lambda>v. snd (record_rule_hit E (str_uuid u) v)) ^^ n) w"
  note rec = record_hits_effect [OF calm_up [OF E(1)] s u b refl]
  have nn: "0 \<le> pending_hits (store_of (server w)) v" for v
    using s hits_key_facts(2) [of "str_uuid v"] int_text_small unfolding hit_store_def pending_hits_def
    by (cases "live (store_of (server w)) (rule_hits_key (str_uuid v))") fastforce+
  from rec ids flush_effect [OF E, of ?w1] obtain res w' where
    w': "flush_rule_hit_counts E ?w1 = (Inr res, w')" "fl_errors res = 0"
      "BlockRules w' = map (credited E (pending_hits (store_of (server ?w1)))) (BlockRules w)"
      "\<And>k. startswith k HITS_PREFIX \<Longrightarrow> live (store_of (server w')) k = None" by auto
  have "pending_hits (store_of (server w')) v = 0" for v using w'(4) hits_key_facts(2) by (simp add: pending_hits_def)
  moreover have "br_hit_count (credited E (pending_hits (store_of (server ?w1))) r) =
      br_hit_count r + max 0 (pending_hits (store_of (server w)) (br_id r)) + (if br_id r = u then int n else 0)"
    if "r \<in> set (BlockRules w)" for r
    using rec ids [OF that] nn [of "br_id r"] by (auto simp: credited_def)
  moreover have "(credited E p r)\<lparr>br_hit_count := 0, br_last_hit_at := None\<rparr> = r\<lparr>br_hit_count := 0, br_last_hit_at := None\<rparr>" for p r
    by (simp add: credited_def)
  ultimately show ?thesis using w'(1,2) by (auto simp: w'(3))
qed

theorem recorded_hits_reach_the_database_witness:
  "\<exists>res w'. flush_rule_hit_counts demo_env (((\<lambda>v. snd (record_rule_hit demo_env (str_uuid 7) v)) ^^ 3)
      (empty_world\<lparr>BlockRules := [example_rule]\<rparr>)) = (Inr res, w') \<and> map br_hit_count (BlockRules w') = [3]"
proof -
  let ?w = "empty_world\<lparr>BlockRules := [example_rule]\<rparr>"
  have s: "server ?w = fresh_store" "live fresh_store k = None" for k by (simp_all add: empty_world_def fresh_store_def live_def)
  have h: "hit_store (server ?w)" "pending_hits (server ?w) v = 0" for v by (simp_all add: s hit_store_def pending_hits_def)
  have i: "valid_uuid (br_id r)" if "r \<in> set (BlockRules ?w)" for r using that by (simp add: example_rule_def valid_uuid_def)
  have u: "valid_uuid 7" "backend demo_env = Redis_backend" by (simp_all add: valid_uuid_def demo_env_def)
  have "pending_hits (server ?w) 7 + int 3 < 10 ^ 18" using h by simp
  from recorded_hits_reach_the_database [OF demo_calm u(2) h(1) i u(1) this] h(2) show ?thesis
    by (auto simp: example_rule_def)
qed

end
