(* ===== verification/AccessLog.thy ===== *)
theory AccessLog
  imports Tasks ClientIp
begin

text \<open>
  \<open>parse_access_log\<close> of \<open>tasks.py\<close> and its helpers. The access log is a parameter: its size, the text
  lines from an offset on and the offset reached at the end, or an \<open>OSError\<close>. Django's address
  validator and the normal form in which an address column stores an address are parameters too. The line pattern
  is matched by ordered choice over greedy pieces, which is how a backtracking engine finds its
  first match, with the groups it captures.
\<close>

section \<open>Matching with captures\<close>

text \<open>A matcher returns all ways to match a prefix, in the order a backtracking engine tries them:
  what was consumed (the groups so far) and the rest.\<close>

type_synonym matcher = "string \<Rightarrow> (string list \<times> string) list"

definition greedy :: "bool \<Rightarrow> (char \<Rightarrow> bool) \<Rightarrow> nat \<Rightarrow> matcher" where
  "greedy capture p least s =
     (let run = length (takeWhile p s)
      in map (\<lambda>n. (if capture then [take n s] else [], drop n s)) (rev [least..<Suc run]))"

definition lit :: "string \<Rightarrow> matcher" where
  "lit t s = (if startswith s t then [([], drop (length t) s)] else [])"

fun in_order :: "matcher list \<Rightarrow> matcher" where
  "in_order [] s = [([], s)]"
| "in_order (m # ms) s = concat (map (\<lambda>(g, r). map (\<lambda>(h, r'). (g @ h, r')) (in_order ms r)) (m s))"

text \<open>\<open>(?:m)?\<close>, whose groups are empty when it is skipped.\<close>

definition optionally :: "nat \<Rightarrow> matcher \<Rightarrow> matcher" where
  "optionally groups m s = m s @ [(replicate groups [], s)]"

definition first_match :: "matcher \<Rightarrow> string \<Rightarrow> (string list \<times> string) option" where
  "first_match m s = (case m s of [] \<Rightarrow> None | x # _ \<Rightarrow> Some x)"

definition spaces :: matcher where
  "spaces = greedy False is_space 1"

definition AGENT_RE :: matcher where
  "AGENT_RE = optionally 1 (in_order [spaces, lit [DQ], greedy False (\<lambda>c. c \<noteq> DQ) 0, lit [DQ], spaces,
        lit [DQ], greedy True (\<lambda>c. c \<noteq> DQ) 0, lit [DQ]])"

definition LOG_RE :: matcher where
  "LOG_RE = in_order
     [greedy True (\<lambda>c. \<not> is_space c) 1, spaces, lit ''-'', spaces, lit ''-'', spaces,
      lit ''['', greedy True (\<lambda>c. c \<noteq> CHR '']'') 1, lit '']'', spaces,
      lit [DQ], greedy True (\<lambda>c. \<not> is_space c) 1, spaces, greedy True (\<lambda>c. \<not> is_space c) 1, spaces,
      greedy False (\<lambda>c. \<not> is_space c) 1, lit [DQ], spaces, greedy True is_digit 1, spaces, greedy False (\<lambda>c. \<not> is_space c) 1,
      AGENT_RE]"

section \<open>Helpers\<close>

definition infer_verdict_from_status :: "int \<Rightarrow> string \<Rightarrow> Verdict" where
  "infer_verdict_from_status status_code path =
     (if status_code = 403 then BLOCKED
      else if status_code = 429 then THROTTLED
      else if status_code = 302 \<and> contains_sub ''/waf/challenge'' path then CHALLENGED
      else ALLOWED)"

text \<open>\<open>datetime.strptime\<close> with \<open>%d/%b/%Y:%H:%M:%S %z\<close>: the directives as the patterns of the module
  \<open>_strptime\<close> (ordered alternatives, month names of the C locale in any case), then the range
  checks of \<open>datetime\<close>. \<open>None\<close> is \<open>ValueError\<close>.\<close>

definition digits :: "nat \<Rightarrow> (string \<Rightarrow> bool) \<Rightarrow> matcher" where
  "digits n ok s = (if n \<le> length s \<and> list_all is_digit (take n s) \<and> ok (take n s) then [([take n s], drop n s)] else [])"

definition either :: "matcher list \<Rightarrow> matcher" where
  "either ms s = concat (map (\<lambda>m. m s) ms)"

definition blank_digit :: "(string \<Rightarrow> bool) \<Rightarrow> matcher" where
  "blank_digit ok s = (case s of CHR '' '' # r \<Rightarrow> digits 1 ok r | _ \<Rightarrow> [])"

definition MONTHS :: "string list" where
  "MONTHS = [''jan'', ''feb'', ''mar'', ''apr'', ''may'', ''jun'', ''jul'', ''aug'', ''sep'', ''oct'', ''nov'', ''dec'']"

definition month_name :: matcher where
  "month_name s = (if lower (take 3 s) \<in> set MONTHS then [([lower (take 3 s)], drop 3 s)] else [])"

definition day_re :: matcher where
  "day_re = either [digits 2 (\<lambda>t. int_of_digits t \<in> {30, 31}), digits 2 (\<lambda>t. int_of_digits t \<in> {10..29}),
     digits 2 (\<lambda>t. int_of_digits t \<in> {1..9}), digits 1 (\<lambda>t. int_of_digits t \<noteq> 0), blank_digit (\<lambda>t. int_of_digits t \<noteq> 0)]"

definition hour_re :: matcher where
  "hour_re = either [digits 2 (\<lambda>t. int_of_digits t \<in> {20..23}), digits 2 (\<lambda>t. int_of_digits t < 20), digits 1 (\<lambda>_. True),
     blank_digit (\<lambda>_. True)]"

definition minute_re :: matcher where
  "minute_re = either [digits 2 (\<lambda>t. int_of_digits t < 60), digits 1 (\<lambda>_. True)]"

definition second_re :: matcher where
  "second_re = either [digits 2 (\<lambda>t. int_of_digits t \<in> {60, 61}), digits 2 (\<lambda>t. int_of_digits t < 60), digits 1 (\<lambda>_. True)]"

text \<open>\<open>%z\<close>: a sign, hours and minutes with an optional colon, and \<open>Z\<close>; seconds of the offset are
  left out, so a time stamp that carries them counts as malformed here.\<close>

definition zone_re :: matcher where
  "zone_re = either
     [in_order [(\<lambda>s. case s of c # r \<Rightarrow> if c \<in> set ''+-'' then [([[c]], r)] else [] | [] \<Rightarrow> []), digits 2 (\<lambda>_. True),
        either [lit '':'', lit []], digits 2 (\<lambda>t. int_of_digits t < 60)],
      (\<lambda>s. if startswith s ''Z'' then [([''+'', ''00'', ''00''], drop 1 s)] else [])]"

definition TIME_RE :: matcher where
  "TIME_RE = in_order [day_re, lit ''/'', month_name, lit ''/'', digits 4 (\<lambda>_. True), lit '':'', hour_re, lit '':'', minute_re, lit '':'', second_re,
     spaces, zone_re]"

definition leap :: "int \<Rightarrow> bool" where
  "leap y = (y mod 4 = 0 \<and> (y mod 100 \<noteq> 0 \<or> y mod 400 = 0))"

definition month_days :: "int \<Rightarrow> nat \<Rightarrow> int" where
  "month_days y m = (if m = 1 then (if leap y then 29 else 28) else if m \<in> {3, 5, 8, 10} then 30 else 31)"

text \<open>Days since 1 January 1970 of a date; months count from zero.\<close>

definition day_number :: "int \<Rightarrow> nat \<Rightarrow> int \<Rightarrow> int" where
  "day_number y m d = 365 * (y - 1) + (y - 1) div 4 - (y - 1) div 100 + (y - 1) div 400 +
     sum_list (map (month_days y) [0..<m]) + d - 719163"

fun index_of :: "'a \<Rightarrow> 'a list \<Rightarrow> nat" where
  "index_of x [] = 0"
| "index_of x (y # ys) = (if x = y then 0 else Suc (index_of x ys))"

definition strptime_nginx :: "string \<Rightarrow> rat option" where
  "strptime_nginx s = (case first_match TIME_RE s of
      Some ([day, mon, year, hour, minute, sec, sign, zh, zm], []) \<Rightarrow>
        (let y = int_of_digits year; m = index_of mon MONTHS; d = int_of_digits day; ss = int_of_digits sec;
             zone = int_of_digits zh * 3600 + int_of_digits zm * 60
         in if 1 \<le> y \<and> d \<le> month_days y m \<and> ss < 60 \<and> zone < 86400
            then Some (of_int (day_number y m d * 86400 + int_of_digits hour * 3600 + int_of_digits minute * 60 + ss
              - (if sign = ''-'' then - zone else zone)))
            else None)
    | _ \<Rightarrow> None)"

definition parse_nginx_timestamp :: "'r env \<Rightarrow> string \<Rightarrow> rat" where
  "parse_nginx_timestamp E timestamp_str = (case strptime_nginx timestamp_str of None \<Rightarrow> time_now E | Some t \<Rightarrow> t)"

definition build_source_event_id :: "'r env \<Rightarrow> string \<Rightarrow> string \<Rightarrow> string \<Rightarrow> string \<Rightarrow> int \<Rightarrow> string" where
  "build_source_event_id E ip timestamp_str verb path status_code =
     take 64 (sha256 E (ip @ ''|'' @ timestamp_str @ ''|'' @ verb @ ''|'' @ path @ ''|'' @ str_int status_code))"

section \<open>The task\<close>

record log_env =
  open_log :: "string \<Rightarrow> (int \<times> (int \<Rightarrow> (string list \<times> int) option)) option"
  valid_address :: "string \<Rightarrow> bool"
  stored_address :: "string \<Rightarrow> string"

definition MAX_SMALLINT :: int where
  "MAX_SMALLINT = 32767"

definition log_row :: "'r env \<Rightarrow> log_env \<Rightarrow> string \<Rightarrow> string \<Rightarrow> string \<Rightarrow> string \<Rightarrow> int \<Rightarrow> string \<Rightarrow> RequestLog" where
  "log_row E L ip timestamp_str verb path status_code user_agent =
     \<lparr>rl_timestamp = parse_nginx_timestamp E timestamp_str, rl_ip_address = stored_address L ip, rl_user_agent = user_agent,
      rl_path = path, rl_method = verb, rl_verdict = infer_verdict_from_status status_code path,
      rl_matched_rule_id = None, rl_matched_rule_type = [], rl_anomaly_score = None, rl_response_code = status_code,
      rl_referer = [], rl_http_fingerprint = [], rl_fingerprint_verdict = [], rl_country_code = [],
      rl_source = NGINX_LOG, rl_source_event_id = build_source_event_id E ip timestamp_str verb path status_code\<rparr>"

text \<open>One turn of the loop: an exception, a skipped line, or a row.\<close>

definition parse_line :: "'r env \<Rightarrow> log_env \<Rightarrow> string \<Rightarrow> py_exc + RequestLog option" where
  "parse_line E L line = (case first_match LOG_RE (strip line) of
      Some ([ip, timestamp_str, verb, path, status, user_agent], _) \<Rightarrow>
        (case int_text status of
           None \<Rightarrow> Inl ValueError
         | Some status_code \<Rightarrow>
             if \<not> valid_address L ip then Inr None
             else if MAX_SMALLINT < status_code then Inr None
             else Inr (Some (log_row E L ip timestamp_str (take 16 verb) (take 2048 path) status_code (take 1024 user_agent))))
    | _ \<Rightarrow> Inr None)"

fun parse_lines :: "'r env \<Rightarrow> log_env \<Rightarrow> string list \<Rightarrow> py_exc + RequestLog option list" where
  "parse_lines E L [] = Inr []"
| "parse_lines E L (line # lines) = (case parse_line E L line of
      Inl e \<Rightarrow> Inl e
    | Inr x \<Rightarrow> (case parse_lines E L lines of Inl e \<Rightarrow> Inl e | Inr xs \<Rightarrow> Inr (x # xs)))"

text \<open>\<open>bulk_create(ignore_conflicts=True)\<close> under the partial unique constraint on the event identity.\<close>

definition event_taken :: "RequestLog \<Rightarrow> RequestLog list \<Rightarrow> bool" where
  "event_taken r rows = (rl_source r = NGINX_LOG \<and> rl_source_event_id r \<noteq> [] \<and>
     list_ex (\<lambda>q. rl_source q = NGINX_LOG \<and> rl_source_event_id q = rl_source_event_id r) rows)"

fun bulk_create :: "RequestLog list \<Rightarrow> RequestLog list \<Rightarrow> RequestLog list" where
  "bulk_create [] rows = rows"
| "bulk_create (r # rs) rows = bulk_create rs (if event_taken r rows then rows else rows @ [r])"

record ingest_result =
  parsed_lines :: nat
  created_records :: nat
  skipped_lines :: nat

definition offset_key :: "string \<Rightarrow> string" where
  "offset_key path = ''django_waf:access_log_offset:'' @ path"

definition somes :: "'a option list \<Rightarrow> 'a list" where
  "somes xs = concat (map (\<lambda>x. case x of None \<Rightarrow> [] | Some y \<Rightarrow> [y]) xs)"

definition store_rows :: "'r env \<Rightarrow> RequestLog list \<Rightarrow> ('r world, unit) py" where
  "store_rows E rs = (if rs = [] then ret ()
     else db E (update_state (\<lambda>w. w\<lparr>RequestLogs := bulk_create rs (RequestLogs w)\<rparr>)))"

text \<open>An \<open>OSError\<close> while reading is logged and reports what was counted so far, which is nothing
  here because the lines are read at once.\<close>

definition parse_access_log ::
  "ops_conf \<Rightarrow> 'r env \<Rightarrow> bool \<Rightarrow> log_env \<Rightarrow> string \<Rightarrow> ('r world, ingest_result) py" where
  "parse_access_log oc E cache_answers L log_path =
     (let path = (if log_path = [] then DJANGO_WAF_ACCESS_LOG_PATH oc else log_path);
          nothing = \<lparr>parsed_lines = 0, created_records = 0, skipped_lines = 0\<rparr>
      in if path = [] then ret nothing
         else (case open_log L path of
             None \<Rightarrow> ret nothing
           | Some (bytes, read_from) \<Rightarrow>
               andThen (cache_get cache_answers (offset_key path)) (\<lambda>stored.
                 let offset = (case stored of None \<Rightarrow> 0 | Some n \<Rightarrow> if bytes < n then 0 else n)
                 in case read_from offset of
                      None \<Rightarrow> ret nothing
                    | Some (lines, new_offset) \<Rightarrow>
                        (case parse_lines E L lines of
                           Inl e \<Rightarrow> raise e
                         | Inr xs \<Rightarrow>
                             andThen (store_rows E (somes xs)) (\<lambda>_. andThen (cache_put cache_answers (offset_key path) new_offset)
                               (\<lambda>_. ret \<lparr>parsed_lines = length lines, created_records = length (somes xs),
                                    skipped_lines = length lines - length (somes xs)\<rparr>))))))"

section \<open>The first match\<close>

definition starts :: "matcher \<Rightarrow> string \<Rightarrow> string list \<Rightarrow> string \<Rightarrow> bool" where
  "starts m s g r = (\<exists>more. m s = (g, r) # more)"

named_theorems first_choice \<open>what the pieces of a pattern match first\<close>

lemma starts_first_match: "starts m s g r \<Longrightarrow> first_match m s = Some (g, r)"
  by (auto simp: starts_def first_match_def)

lemma starts_greedy:
  assumes "\<And>c. c \<in> set t \<Longrightarrow> p c" and "rest = [] \<or> \<not> p (hd rest)" and "n \<le> length t"
  shows "starts (greedy b p n) (t @ rest) (if b then [t] else []) rest"
proof -
  have "takeWhile p (t @ rest) = t"
    using assms(1,2) by (cases rest) (simp_all add: takeWhile_append)
  then have "greedy b p n (t @ rest) = map (\<lambda>n. (if b then [take n (t @ rest)] else [], drop n (t @ rest))) (length t # rev [n..<length t])"
    using assms(3) by (simp add: greedy_def Let_def)
  then show ?thesis unfolding starts_def by (cases b) auto
qed

lemma starts_lit: "starts (lit t) (t @ rest) [] rest"
  by (simp add: starts_def lit_def)

lemma starts_done: "starts (in_order []) s [] s"
  by (simp add: starts_def)

lemma starts_cons: "starts m s g r \<Longrightarrow> starts (in_order ms) r h r' \<Longrightarrow> starts (in_order (m # ms)) s (g @ h) r'"
  by (auto simp: starts_def)

lemma starts_optionally: "starts m s g r \<Longrightarrow> starts (optionally n m) s g r"
  by (auto simp: starts_def optionally_def)

text \<open>A greedy word takes the quote that ends it, fails, and gives it back.\<close>

lemma starts_quoted_word:
  assumes "\<And>c. c \<in> set t \<Longrightarrow> \<not> is_space c" and "t \<noteq> []" and "starts (in_order ms) (CHR '' '' # rest) g r"
  shows "starts (in_order (greedy False (\<lambda>c. \<not> is_space c) 1 # lit [DQ] # ms)) (t @ DQ # CHR '' '' # rest) g r"
proof -
  have sp: "is_space CHR '' ''" "\<not> is_space DQ" by (simp_all add: is_space_def ord_def)
  have run: "takeWhile (\<lambda>c. \<not> is_space c) (t @ DQ # CHR '' '' # rest) = t @ [DQ]"
    using assms(1) sp by (simp add: takeWhile_append)
  have "rev [1..<Suc (length (t @ [DQ]))] = Suc (length t) # length t # rev [1..<length t]"
    using assms(2) by (cases t) simp_all
  then have "greedy False (\<lambda>c. \<not> is_space c) 1 (t @ DQ # CHR '' '' # rest) =
      ([], CHR '' '' # rest) # ([], DQ # CHR '' '' # rest) # map (\<lambda>n. ([], drop n (t @ DQ # CHR '' '' # rest))) (rev [1..<length t])"
    unfolding greedy_def Let_def run by simp
  moreover have "lit [DQ] (CHR '' '' # rest) = []" by (simp add: lit_def startswith_def)
  moreover have "lit [DQ] (DQ # CHR '' '' # rest) = [([], CHR '' '' # rest)]" by (simp add: lit_def startswith_def)
  ultimately show ?thesis using assms(3) by (auto simp: starts_def)
qed

text \<open>A line in the combined format of nginx.\<close>

definition combined_line :: "string \<Rightarrow> string \<Rightarrow> string \<Rightarrow> string \<Rightarrow> string \<Rightarrow> string \<Rightarrow> string \<Rightarrow> string \<Rightarrow> string \<Rightarrow> string" where
  "combined_line ip t verb path proto status bytes referer ua =
     ip @ '' - - ['' @ t @ ''] '' @ [DQ] @ verb @ '' '' @ path @ '' '' @ proto @ [DQ] @ '' '' @ status @ '' '' @ bytes @
     '' '' @ [DQ] @ referer @ [DQ] @ '' '' @ [DQ] @ ua @ [DQ]"

definition word :: "string \<Rightarrow> bool" where
  "word s = (s \<noteq> [] \<and> (\<forall>c \<in> set s. \<not> is_space c))"

lemma blank_facts: "is_space CHR '' ''" "\<not> is_space DQ" "\<not> is_space CHR ''-''" "\<not> is_space CHR ''[''" "\<not> is_digit CHR '' ''"
  by (simp_all add: is_space_def is_digit_def ord_def)

lemma starts_blank: "rest \<noteq> [] \<Longrightarrow> \<not> is_space (hd rest) \<Longrightarrow> starts spaces (CHR '' '' # rest) [] rest"
  using starts_greedy [of "'' ''" is_space rest 1 False] blank_facts by (simp add: spaces_def)

lemma starts_blank_word: "word x \<Longrightarrow> starts spaces (CHR '' '' # x @ rest) [] (x @ rest)"
  by (rule starts_blank) (cases x, auto simp: word_def)+

lemma starts_word:
  "word x \<Longrightarrow> starts (greedy b (\<lambda>c. \<not> is_space c) 1) (x @ CHR '' '' # rest) (if b then [x] else []) (CHR '' '' # rest)"
  using blank_facts by (intro starts_greedy) (auto simp: word_def Suc_le_eq)

lemma starts_until: "c \<notin> set x \<Longrightarrow> n \<le> length x \<Longrightarrow> starts (greedy b (\<lambda>d. d \<noteq> c) n) (x @ c # rest) (if b then [x] else []) (c # rest)"
  by (rule starts_greedy) auto

lemma starts_char: "starts (lit [c]) (c # rest) [] rest"
  using starts_lit [of "[c]" rest] by simp

lemma agent_matched:
  assumes "DQ \<notin> set referer" "DQ \<notin> set ua"
  shows "starts AGENT_RE ('' '' @ [DQ] @ referer @ [DQ] @ '' '' @ [DQ] @ ua @ [DQ]) [ua] []"
proof -
  have "starts (in_order [spaces, lit [DQ], greedy True (\<lambda>c. c \<noteq> DQ) 0, lit [DQ]]) (CHR '' '' # DQ # ua @ [DQ]) [ua] []"
    using starts_cons [OF starts_blank [of "DQ # ua @ [DQ]"] starts_cons [OF starts_char
      starts_cons [OF starts_until [OF assms(2), of 0 True] starts_cons [OF starts_char starts_done]]]] blank_facts by simp
  then show ?thesis unfolding AGENT_RE_def
    using starts_cons [OF starts_blank [of "DQ # referer @ DQ # CHR '' '' # DQ # ua @ [DQ]"] starts_cons [OF starts_char
      starts_cons [OF starts_until [OF assms(1), of 0 False] starts_cons [OF starts_char]]]] blank_facts
    by (intro starts_optionally) simp
qed

lemma status_matched:
  assumes "word bytes" "status \<noteq> []" "\<And>c. c \<in> set status \<Longrightarrow> is_digit c" and rest: "starts AGENT_RE (CHR '' '' # rest) [ua] []"
  shows "starts (in_order [spaces, greedy True is_digit 1, spaces, greedy False (\<lambda>c. \<not> is_space c) 1, AGENT_RE])
    (CHR '' '' # status @ CHR '' '' # bytes @ CHR '' '' # rest) [status, ua] []"
proof -
  have "\<not> is_space c" if "is_digit c" for c using that by (auto simp: is_digit_def is_space_def Let_def)
  then have st: "word status" using assms(2,3) by (auto simp: word_def)
  have "starts (greedy True is_digit 1) (status @ CHR '' '' # bytes @ CHR '' '' # rest) [status] (CHR '' '' # bytes @ CHR '' '' # rest)"
    using starts_greedy [of status is_digit "CHR '' '' # bytes @ CHR '' '' # rest" 1 True] assms(2,3) blank_facts by (simp add: Suc_le_eq)
  from starts_cons [OF starts_blank_word [OF st] starts_cons [OF this starts_cons [OF starts_blank_word [OF assms(1)]
      starts_cons [OF starts_word [OF assms(1), of False] starts_cons [OF rest starts_done]]]]]
  show ?thesis by simp
qed

lemma request_matched:
  assumes "word verb" "word path" "word proto" and rest: "starts (in_order ms) (CHR '' '' # rest) g r"
  shows "starts (in_order (greedy True (\<lambda>c. \<not> is_space c) 1 # spaces # greedy True (\<lambda>c. \<not> is_space c) 1 # spaces #
      greedy False (\<lambda>c. \<not> is_space c) 1 # lit [DQ] # ms)) (verb @ CHR '' '' # path @ CHR '' '' # proto @ DQ # CHR '' '' # rest)
    (verb # path # g) r"
proof -
  have "starts (in_order (greedy False (\<lambda>c. \<not> is_space c) 1 # lit [DQ] # ms)) (proto @ DQ # CHR '' '' # rest) g r"
    using assms(3) by (intro starts_quoted_word rest) (auto simp: word_def)
  from starts_cons [OF starts_word [OF assms(1), of True] starts_cons [OF starts_blank_word [OF assms(2)]
      starts_cons [OF starts_word [OF assms(2), of True] starts_cons [OF starts_blank_word [OF assms(3)] this]]]]
  show ?thesis by simp
qed

lemma combined_line_matched:
  assumes "word ip" "word verb" "word path" "word proto" "word bytes" "t \<noteq> []" "CHR '']'' \<notin> set t"
    and "status \<noteq> []" "\<And>c. c \<in> set status \<Longrightarrow> is_digit c" "DQ \<notin> set referer" "DQ \<notin> set ua"
  shows "starts LOG_RE (combined_line ip t verb path proto status bytes referer ua) [ip, t, verb, path, status, ua] []"
proof -
  have "starts AGENT_RE (CHR '' '' # DQ # referer @ DQ # CHR '' '' # DQ # ua @ [DQ]) [ua] []"
    using agent_matched [OF assms(10,11)] by simp
  note rest = request_matched [OF assms(2-4) status_matched [OF assms(5,8,9) this]]
  have "1 \<le> length t" using assms(6) by (simp add: Suc_le_eq)
  note time = starts_until [OF assms(7) this, of True]
  from starts_cons [OF starts_word [OF assms(1), of True] starts_cons [OF starts_blank [OF list.distinct(2)] starts_cons [OF starts_char
      starts_cons [OF starts_blank [OF list.distinct(2)] starts_cons [OF starts_char starts_cons [OF starts_blank [OF list.distinct(2)]
      starts_cons [OF starts_char starts_cons [OF time starts_cons [OF starts_char
      starts_cons [OF starts_blank [OF list.distinct(2)] starts_cons [OF starts_char rest]]]]]]]]]]] blank_facts
  show ?thesis unfolding LOG_RE_def combined_line_def by simp
qed

lemma strip_combined:
  assumes "word ip" and nl: "\<And>c. c \<in> set nl \<Longrightarrow> is_space c"
  shows "strip (combined_line ip t verb path proto status bytes referer ua @ nl) = combined_line ip t verb path proto status bytes referer ua"
proof -
  have "rstrip_by is_space ((x @ [DQ]) @ nl) = x @ [DQ]" for x
    unfolding rstrip_by_def rev_append using nl blank_facts(2) by (subst dropWhile_append2) auto
  moreover have "lstrip_by is_space (ip @ x) = ip @ x" for x
    using assms(1) by (cases ip) (auto simp: word_def lstrip_by_def)
  moreover have "combined_line ip t verb path proto status bytes referer ua =
      (ip @ '' - - ['' @ t @ ''] '' @ [DQ] @ verb @ '' '' @ path @ '' '' @ proto @ [DQ] @ '' '' @ status @ '' '' @ bytes @
     '' '' @ [DQ] @ referer @ [DQ] @ '' '' @ [DQ] @ ua) @ [DQ]" by (simp add: combined_line_def)
  ultimately show ?thesis unfolding strip_def by (metis append_assoc)
qed

text \<open>The fields of a line as nginx writes them: words without blanks, a time without a bracket,
  digits, and quoted texts without quotes.\<close>

record log_fields =
  lf_ip :: string
  lf_time :: string
  lf_verb :: string
  lf_path :: string
  lf_proto :: string
  lf_status :: string
  lf_bytes :: string
  lf_referer :: string
  lf_ua :: string

definition fields_ok :: "log_fields \<Rightarrow> bool" where
  "fields_ok f = (word (lf_ip f) \<and> word (lf_verb f) \<and> word (lf_path f) \<and> word (lf_proto f) \<and> word (lf_bytes f) \<and>
     lf_time f \<noteq> [] \<and> CHR '']'' \<notin> set (lf_time f) \<and> lf_status f \<noteq> [] \<and> list_all is_digit (lf_status f) \<and>
     DQ \<notin> set (lf_referer f) \<and> DQ \<notin> set (lf_ua f))"

definition line_of :: "log_fields \<Rightarrow> string" where
  "line_of f = combined_line (lf_ip f) (lf_time f) (lf_verb f) (lf_path f) (lf_proto f) (lf_status f) (lf_bytes f) (lf_referer f) (lf_ua f) @ [chr 10]"

lemma parse_line_of:
  assumes "fields_ok f"
  shows "parse_line E L (line_of f) = (case int_text (lf_status f) of
      None \<Rightarrow> Inl ValueError
    | Some code \<Rightarrow> if \<not> valid_address L (lf_ip f) \<or> MAX_SMALLINT < code then Inr None
        else Inr (Some (log_row E L (lf_ip f) (lf_time f) (take 16 (lf_verb f)) (take 2048 (lf_path f)) code (take 1024 (lf_ua f)))))"
proof -
  have "is_space (chr 10)" by (simp add: is_space_def ord_chr)
  then have "strip (line_of f) = combined_line (lf_ip f) (lf_time f) (lf_verb f) (lf_path f) (lf_proto f) (lf_status f) (lf_bytes f) (lf_referer f) (lf_ua f)"
    unfolding line_of_def using assms by (intro strip_combined) (auto simp: fields_ok_def)
  moreover have "starts LOG_RE (combined_line (lf_ip f) (lf_time f) (lf_verb f) (lf_path f) (lf_proto f) (lf_status f) (lf_bytes f) (lf_referer f) (lf_ua f))
      [lf_ip f, lf_time f, lf_verb f, lf_path f, lf_status f, lf_ua f] []"
    using assms by (intro combined_line_matched) (auto simp: fields_ok_def list_all_iff)
  ultimately show ?thesis using starts_first_match by (simp add: parse_line_def split: option.split)
qed

lemma int_text_long:
  "(\<And>c. c \<in> set s \<Longrightarrow> is_digit c) \<Longrightarrow> 4300 < length s \<Longrightarrow> int_text s = None"
  by (simp add: int_text_def INT_MAX_STR_DIGITS_def filter_id_conv)

lemma parse_line_error: "parse_line E L line = Inl e \<Longrightarrow> e = ValueError"
  by (auto simp: parse_line_def split: option.splits list.splits if_splits)

lemma parse_lines_error: "line \<in> set lines \<Longrightarrow> parse_line E L line = Inl e \<Longrightarrow> parse_lines E L lines = Inl ValueError"
  by (induction lines) (auto split: sum.splits dest: parse_line_error)

text \<open>
  C20. What the log says is what is stored: a line in nginx's combined format, whose words have no blanks and
  whose quoted texts have no quotes, gives back its fields. With an address the column accepts and
  a status code up to 32767 it becomes a row with these fields (method, path and User-Agent cut to the
  width of their columns), the verdict the status stands for, and the event identity of the line;
  with another address or a larger status it is skipped.
\<close>

theorem combined_line_becomes_row:
  assumes "fields_ok f" and "lf_status f = str_int code" and "0 \<le> code" "code < 10 ^ 18"
  shows "parse_line E L (line_of f) = Inr (if valid_address L (lf_ip f) \<and> code \<le> 32767
     then Some \<lparr>rl_timestamp = parse_nginx_timestamp E (lf_time f), rl_ip_address = stored_address L (lf_ip f), rl_user_agent = take 1024 (lf_ua f),
      rl_path = take 2048 (lf_path f), rl_method = take 16 (lf_verb f),
      rl_verdict = (if code = 403 then BLOCKED else if code = 429 then THROTTLED
        else if code = 302 \<and> contains_sub ''/waf/challenge'' (take 2048 (lf_path f)) then CHALLENGED else ALLOWED),
      rl_matched_rule_id = None, rl_matched_rule_type = [], rl_anomaly_score = None, rl_response_code = code,
      rl_referer = [], rl_http_fingerprint = [], rl_fingerprint_verdict = [], rl_country_code = [],
      rl_source = NGINX_LOG, rl_source_event_id = take 64 (sha256 E (lf_ip f @ ''|'' @ lf_time f @ ''|'' @ take 16 (lf_verb f) @ ''|'' @
        take 2048 (lf_path f) @ ''|'' @ str_int code))\<rparr>
     else None)"
  using parse_line_of [OF assms(1), of E L] int_text_small [OF assms(3,4)]
  by (simp add: assms(2) MAX_SMALLINT_def log_row_def infer_verdict_from_status_def build_source_event_id_def)

definition example_fields :: log_fields where
  "example_fields = \<lparr>lf_ip = ''203.0.113.9'', lf_time = ''23/Mar/2026:10:00:00 +0000'', lf_verb = ''GET'', lf_path = ''/x'', lf_proto = ''HTTP/1.1'',
     lf_status = ''403'', lf_bytes = ''12'', lf_referer = ''-'', lf_ua = ''curl/8''\<rparr>"

lemma example_fields_ok: "fields_ok example_fields" "fields_ok (example_fields\<lparr>lf_status := replicate (Suc n) CHR ''1''\<rparr>)"
  by (simp_all add: fields_ok_def example_fields_def word_def is_space_def is_digit_def ord_def list_all_iff)

definition example_log_env :: "string list \<Rightarrow> log_env" where
  "example_log_env lines = \<lparr>open_log = (\<lambda>_. Some (100, \<lambda>off. if off = 0 then Some (lines, 100) else Some ([], 100))),
     valid_address = is_valid_ip, stored_address = (\<lambda>s. s)\<rparr>"

theorem combined_line_becomes_row_witness:
  "\<exists>r. parse_line demo_env (example_log_env []) (line_of example_fields) = Inr (Some r) \<and>
     rl_ip_address r = ''203.0.113.9'' \<and> rl_verdict r = BLOCKED \<and> rl_response_code r = 403 \<and> rl_timestamp r = 1774260000"
proof -
  have s: "lf_status example_fields = str_int 403" by (simp add: example_fields_def) code_simp
  have v: "valid_address (example_log_env []) (lf_ip example_fields)" unfolding example_log_env_def example_fields_def log_env.simps log_fields.simps by code_simp
  have t: "strptime_nginx ''23/Mar/2026:10:00:00 +0000'' = Some 1774260000" by code_simp
  from combined_line_becomes_row [OF example_fields_ok(1) s, of demo_env "example_log_env []"] v show ?thesis
    by (simp add: example_fields_def example_log_env_def parse_nginx_timestamp_def t)
qed

text \<open>
  C22. One line can stop ingestion for good: if the part of the access log that is read contains a line in combined
  format whose status has more than 4300 digits, the task raises \<open>ValueError\<close> and changes nothing, neither
  the log table nor the stored offset, so the well-formed lines around it are not imported either and
  every later run that reads the same part fails in the same way.
\<close>

theorem oversized_status_stops_ingestion:
  assumes path: "log_path \<noteq> []" "open_log L log_path = Some (bytes, read_from)" "map_of (django_cache w) (offset_key log_path) = stored"
    and read: "read_from (case stored of None \<Rightarrow> 0 | Some n \<Rightarrow> if bytes < n then 0 else n) = Some (lines, end)"
    and bad: "line_of f \<in> set lines" "fields_ok f" "4300 < length (lf_status f)"
  shows "parse_access_log oc E True L log_path w = (Inl ValueError, w)"
proof -
  have "parse_line E L (line_of f) = Inl ValueError"
    using parse_line_of [OF bad(2), of E L] int_text_long [of "lf_status f"] bad(2,3) by (simp add: fields_ok_def list_all_iff)
  from parse_lines_error [OF bad(1) this] show ?thesis
    using path read by (simp add: parse_access_log_def cache_get_def Let_def)
qed

theorem oversized_status_stops_ingestion_witness:
  "parse_access_log default_ops_conf demo_env True
     (example_log_env [line_of example_fields, line_of (example_fields\<lparr>lf_status := replicate 5000 CHR ''1''\<rparr>)]) ''access.log'' empty_world
   = (Inl ValueError, empty_world)"
proof -
  let ?f = "example_fields\<lparr>lf_status := replicate (Suc 4999) CHR ''1''\<rparr>"
  have e: "(5000 :: nat) = Suc 4999" by simp
  have "django_cache empty_world = []" by (simp add: empty_world_def)
  then show ?thesis unfolding e
    using oversized_status_stops_ingestion [OF _ _ refl, where f = ?f and w = empty_world and log_path = "''access.log''" and
        L = "example_log_env [line_of example_fields, line_of ?f]" and bytes = 100 and E = demo_env and oc = default_ops_conf and
        lines = "[line_of example_fields, line_of ?f]"] example_fields_ok(2) [of 4999]
    by (simp add: example_log_env_def del: replicate_Suc)
qed

section \<open>Reading the log twice\<close>

text \<open>The partial unique constraint of the log table.\<close>

definition nginx_events :: "RequestLog list \<Rightarrow> string list" where
  "nginx_events rows = map rl_source_event_id (filter (\<lambda>r. rl_source r = NGINX_LOG \<and> rl_source_event_id r \<noteq> []) rows)"

lemma event_taken_iff: "event_taken r rows \<longleftrightarrow>
    rl_source r = NGINX_LOG \<and> rl_source_event_id r \<noteq> [] \<and> rl_source_event_id r \<in> set (nginx_events rows)"
  by (auto simp: event_taken_def nginx_events_def list_ex_iff intro: rev_image_eqI)

lemma nginx_events_append [simp]: "nginx_events (xs @ ys) = nginx_events xs @ nginx_events ys"
  by (simp add: nginx_events_def)

lemma bulk_create_events:
  "set (nginx_events (bulk_create rs rows)) = set (nginx_events rows) \<union> set (nginx_events rs)"
proof (induction rs arbitrary: rows)
  case (Cons r rs)
  have "set (nginx_events (r # rs)) = set (nginx_events [r]) \<union> set (nginx_events rs)"
    using nginx_events_append [of "[r]" rs] by simp
  then show ?case using Cons.IH by (auto simp: event_taken_iff) (simp_all add: nginx_events_def split: if_splits)
qed (simp add: nginx_events_def)

lemma bulk_create_unique: "distinct (nginx_events rows) \<Longrightarrow> distinct (nginx_events (bulk_create rs rows))"
proof (induction rs arbitrary: rows)
  case (Cons r rs)
  have "distinct (nginx_events (if event_taken r rows then rows else rows @ [r]))"
    using Cons.prems by (auto simp: event_taken_iff) (auto simp: nginx_events_def split: if_splits)
  then show ?case using Cons.IH by simp
qed simp

lemma event_taken_mono: "event_taken r rows \<Longrightarrow> event_taken r (rows @ added)"
  by (simp add: event_taken_def)

text \<open>Inserting appends, and only rows whose event was not there.\<close>

lemma bulk_create_appends: "\<exists>new. bulk_create rs rows = rows @ new \<and> (\<forall>q \<in> set new. q \<in> set rs \<and> \<not> event_taken q rows)"
proof (induction rs arbitrary: rows)
  case (Cons r rs)
  show ?case
  proof (cases "event_taken r rows")
    case True
    with Cons.IH [of rows] show ?thesis by auto
  next
    case False
    from Cons.IH [of "rows @ [r]"] obtain new where
      "bulk_create rs (rows @ [r]) = rows @ r # new" "\<forall>q \<in> set new. q \<in> set rs \<and> \<not> event_taken q (rows @ [r])" by auto
    with False event_taken_mono show ?thesis by (intro exI [of _ "r # new"]) auto
  qed
qed simp

lemma set_somes: "x \<in> set (somes xs) \<longleftrightarrow> Some x \<in> set xs"
  by (auto simp: somes_def split: option.splits)

lemma parse_lines_rows:
  "parse_lines E L lines = Inr xs \<Longrightarrow> Some r \<in> set xs \<longleftrightarrow> (\<exists>l \<in> set lines. parse_line E L l = Inr (Some r))"
  by (induction lines arbitrary: xs) (auto split: sum.splits)

lemma parse_line_Some:
  assumes "parse_line E L l = Inr (Some r)"
  obtains ip t verb path status ua rest code where
    "first_match LOG_RE (strip l) = Some ([ip, t, verb, path, status, ua], rest)" "int_text status = Some code" "valid_address L ip"
    "\<not> MAX_SMALLINT < code" "r = log_row E L ip t (take 16 verb) (take 2048 path) code (take 1024 ua)"
proof (cases "first_match LOG_RE (strip l)")
  case None
  with assms show ?thesis by (simp add: parse_line_def)
next
  case (Some gr)
  obtain g rest where gr: "gr = (g, rest)" by (cases gr)
  show ?thesis
  proof (cases "\<exists>ip t verb path status ua. g = [ip, t, verb, path, status, ua]")
    case True
    then obtain ip t verb path status ua where g: "g = [ip, t, verb, path, status, ua]" by blast
    show ?thesis using assms that Some gr g by (cases "int_text status") (auto simp: parse_line_def split: if_splits)
  next
    case False
    then have "parse_line E L l = Inr None" using Some gr by (simp add: parse_line_def split: list.split)
    with assms show ?thesis by simp
  qed
qed

lemma parse_line_row:
  assumes "parse_line E L l = Inr (Some r)"
  shows "rl_source r = NGINX_LOG" "(\<And>t. sha256 E t \<noteq> []) \<Longrightarrow> rl_source_event_id r \<noteq> []"
    "sha256 E2 = sha256 E \<Longrightarrow> \<exists>q. parse_line E2 L l = Inr (Some q) \<and> rl_source_event_id q = rl_source_event_id r"
proof -
  obtain ip t verb path status ua rest code where
    m: "first_match LOG_RE (strip l) = Some ([ip, t, verb, path, status, ua], rest)" "int_text status = Some code" "valid_address L ip"
    "\<not> MAX_SMALLINT < code" and r: "r = log_row E L ip t (take 16 verb) (take 2048 path) code (take 1024 ua)"
    by (rule parse_line_Some [OF assms])
  show "rl_source r = NGINX_LOG" by (simp add: r log_row_def)
  show "(\<And>t. sha256 E t \<noteq> []) \<Longrightarrow> rl_source_event_id r \<noteq> []" by (simp add: r log_row_def build_source_event_id_def)
  have "parse_line E2 L l = Inr (Some (log_row E2 L ip t (take 16 verb) (take 2048 path) code (take 1024 ua)))"
    using m by (simp add: parse_line_def)
  then show "sha256 E2 = sha256 E \<Longrightarrow> \<exists>q. parse_line E2 L l = Inr (Some q) \<and> rl_source_event_id q = rl_source_event_id r"
    by (simp add: r log_row_def build_source_event_id_def)
qed

lemma store_rows_cases:
  "RequestLogs (snd (store_rows E rs w)) = RequestLogs w \<or> RequestLogs (snd (store_rows E rs w)) = bulk_create rs (RequestLogs w)"
  "fst (store_rows E rs w) = Inr () \<Longrightarrow> RequestLogs (snd (store_rows E rs w)) = bulk_create rs (RequestLogs w)"
  by (simp_all add: store_rows_def db_def Let_def split: if_splits)

definition start_offset :: "string \<Rightarrow> int \<Rightarrow> 'r world \<Rightarrow> int" where
  "start_offset path bytes w = (case map_of (django_cache w) (offset_key path) of None \<Rightarrow> 0 | Some n \<Rightarrow> if bytes < n then 0 else n)"

lemma parse_access_log_run:
  assumes "log_path \<noteq> []" "open_log L log_path = Some (bytes, read_from)" "answers"
  shows "parse_access_log oc E answers L log_path w = (case read_from (start_offset log_path bytes w) of
      None \<Rightarrow> (Inr \<lparr>parsed_lines = 0, created_records = 0, skipped_lines = 0\<rparr>, w)
    | Some (lines, new_offset) \<Rightarrow> (case parse_lines E L lines of
          Inl e \<Rightarrow> (Inl e, w)
        | Inr xs \<Rightarrow> andThen (store_rows E (somes xs)) (\<lambda>_. andThen (cache_set (offset_key log_path) new_offset)
            (\<lambda>_. ret \<lparr>parsed_lines = length lines, created_records = length (somes xs), skipped_lines = length lines - length (somes xs)\<rparr>)) w))"
proof -
  have off: "(case map_of (django_cache w) (offset_key log_path) of None \<Rightarrow> 0 | Some n \<Rightarrow> if bytes < n then 0 else n) = start_offset log_path bytes w"
    by (simp add: start_offset_def)
  have "andThen (read_state (\<lambda>w. map_of (django_cache w) (offset_key log_path))) f w = f (map_of (django_cache w) (offset_key log_path)) w" for f :: "int option \<Rightarrow> ('a world, 'b) py"
    by simp
  then show ?thesis using assms
    by (simp add: parse_access_log_def cache_get_def cache_put_def Let_def off split: option.split sum.split)
qed

lemma cache_set_logs: "RequestLogs (snd (andThen (cache_set k v) (\<lambda>_. ret x) w)) = RequestLogs w"
  by (simp add: cache_set_def)

lemma stored_logs:
  assumes "w' = snd (andThen (store_rows E rs) (\<lambda>_. andThen (cache_set k v) (\<lambda>_. ret x)) w)"
  shows "RequestLogs w' = RequestLogs w \<or> RequestLogs w' = bulk_create rs (RequestLogs w)"
    "fst (andThen (store_rows E rs) (\<lambda>_. andThen (cache_set k v) (\<lambda>_. ret x)) w) = Inr res \<Longrightarrow> RequestLogs w' = bulk_create rs (RequestLogs w)"
proof -
  obtain y v' where st: "store_rows E rs w = (y, v')" by (cases "store_rows E rs w")
  have logs: "RequestLogs w' = RequestLogs v'" unfolding assms using st cache_set_logs [of k v x] by (cases y) simp_all
  then show "RequestLogs w' = RequestLogs w \<or> RequestLogs w' = bulk_create rs (RequestLogs w)"
    using store_rows_cases(1) [of E rs w] st by simp
  assume "fst (andThen (store_rows E rs) (\<lambda>_. andThen (cache_set k v) (\<lambda>_. ret x)) w) = Inr res"
  then have "y = Inr ()" using st by (cases y) simp_all
  with st logs show "RequestLogs w' = bulk_create rs (RequestLogs w)" using store_rows_cases(2) [of E rs w] by simp
qed

lemma ingested:
  assumes "log_path \<noteq> []" "open_log L log_path = Some (bytes, read_from)"
    and "w' = snd (parse_access_log oc E answers L log_path w)"
  shows "RequestLogs w' = RequestLogs w \<or> (\<exists>lines e xs. read_from (start_offset log_path bytes w) = Some (lines, e) \<and>
      parse_lines E L lines = Inr xs \<and> RequestLogs w' = bulk_create (somes xs) (RequestLogs w))"
proof (cases answers)
  case False
  then show ?thesis unfolding assms(3) using assms(1,2) by (simp add: parse_access_log_def cache_get_def Let_def)
next
  case True
  note run = parse_access_log_run [OF assms(1,2) True, of oc E w]
  show ?thesis
  proof (cases "read_from (start_offset log_path bytes w)")
    case None
    then show ?thesis unfolding assms(3) run by simp
  next
    case (Some le)
    obtain lines e where le: "le = (lines, e)" by (cases le)
    show ?thesis
    proof (cases "parse_lines E L lines")
      case (Inl x)
      then show ?thesis unfolding assms(3) run Some le by simp
    next
      case (Inr xs)
      then have "w' = snd (andThen (store_rows E (somes xs)) (\<lambda>_. andThen (cache_set (offset_key log_path) e)
          (\<lambda>_. ret \<lparr>parsed_lines = length lines, created_records = length (somes xs), skipped_lines = length lines - length (somes xs)\<rparr>)) w)"
        unfolding assms(3) run Some le by simp
      from stored_logs(1) [OF this] Some le Inr show ?thesis by blast
    qed
  qed
qed

lemma ingested_all:
  assumes "log_path \<noteq> []" "open_log L log_path = Some (bytes, read_from)" "read_from (start_offset log_path bytes w) = Some (lines, e)"
    and "parse_access_log oc E True L log_path w = (Inr res, w')"
  shows "\<exists>xs. parse_lines E L lines = Inr xs \<and> RequestLogs w' = bulk_create (somes xs) (RequestLogs w) \<and>
    map_of (django_cache w') (offset_key log_path) = Some e"
proof -
  note run = parse_access_log_run [OF assms(1,2) TrueI, of oc E w, unfolded assms(3,4)]
  then obtain xs where xs: "parse_lines E L lines = Inr xs" by (cases "parse_lines E L lines") auto
  with run have "(Inr res, w') = andThen (store_rows E (somes xs)) (\<lambda>_. andThen (cache_set (offset_key log_path) e)
      (\<lambda>_. ret \<lparr>parsed_lines = length lines, created_records = length (somes xs), skipped_lines = length lines - length (somes xs)\<rparr>)) w" by simp
  note st = this
  then have "RequestLogs w' = bulk_create (somes xs) (RequestLogs w)" using stored_logs(2) [OF refl] by (metis fst_conv snd_conv)
  moreover from st have "map_of (django_cache w') (offset_key log_path) = Some e"
    by (cases "store_rows E (somes xs) w"; cases "fst (store_rows E (somes xs) w)") (simp_all add: cache_set_def)
  ultimately show ?thesis using xs by blast
qed

text \<open>A file as its lines: the decoded text of each and the number of bytes it takes, terminator
  included. Seeking to the end of a line and iterating gives the lines after it, and \<open>tell()\<close> at the end is
  the size of the file. Nothing is said of reading from the middle of a line.\<close>

definition boundary :: "(string \<times> nat) list \<Rightarrow> nat \<Rightarrow> int" where
  "boundary pieces j = int (sum_list (map snd (take j pieces)))"

definition reads_lines :: "(string \<times> nat) list \<Rightarrow> int \<Rightarrow> (int \<Rightarrow> (string list \<times> int) option) \<Rightarrow> bool" where
  "reads_lines pieces bytes read_from \<longleftrightarrow> bytes = boundary pieces (length pieces) \<and>
     (\<forall>j \<le> length pieces. read_from (boundary pieces j) = Some (map fst (drop j pieces), bytes))"

lemma reads_all: "reads_lines pieces bytes read_from \<Longrightarrow> read_from 0 = Some (map fst pieces, bytes)"
  by (auto simp: reads_lines_def boundary_def dest!: spec [of _ 0])

text \<open>Files of single-byte characters are such files: the content cut after each newline.\<close>

fun file_lines :: "string \<Rightarrow> string list" where
  "file_lines [] = []"
| "file_lines (c # s) = (if c = chr 10 then [c] # file_lines s
     else (case file_lines s of [] \<Rightarrow> [[c]] | l # ls \<Rightarrow> (c # l) # ls))"

definition text_file :: "string \<Rightarrow> int \<times> (int \<Rightarrow> (string list \<times> int) option)" where
  "text_file content = (int (length content), \<lambda>off. Some (file_lines (drop (nat off) content), int (length content)))"

definition sized :: "string list \<Rightarrow> (string \<times> nat) list" where
  "sized ls = map (\<lambda>l. (l, length l)) ls"

lemma file_lines_line: "chr 10 \<notin> set l \<Longrightarrow> file_lines (l @ chr 10 # s) = (l @ [chr 10]) # file_lines s"
  by (induction l) auto

lemma file_lines_concat:
  assumes "list_all (\<lambda>l. l \<noteq> [] \<and> last l = chr 10 \<and> chr 10 \<notin> set (butlast l)) ls"
  shows "file_lines (concat ls) = ls"
  using assms
proof (induction ls)
  case (Cons l ls)
  then have "chr 10 \<notin> set (butlast l)" "l \<noteq> []" "last l = chr 10" by simp_all
  then have "file_lines (butlast l @ chr 10 # concat ls) = (butlast l @ [chr 10]) # file_lines (concat ls)"
    and "l = butlast l @ [chr 10]" by (simp add: file_lines_line, metis append_butlast_last_id)
  moreover from this(2) have "concat (l # ls) = butlast l @ chr 10 # concat ls" by (metis append.assoc append_Cons append_Nil concat.simps(2))
  ultimately have "file_lines (concat (l # ls)) = l # file_lines (concat ls)" by metis
  with Cons show ?case by simp
qed simp

lemma text_file_reads:
  assumes "list_all (\<lambda>l. l \<noteq> [] \<and> last l = chr 10 \<and> chr 10 \<notin> set (butlast l)) ls"
  shows "reads_lines (sized ls) (fst (text_file (concat ls))) (snd (text_file (concat ls)))"
proof -
  have b: "nat (boundary (sized ls) j) = length (concat (take j ls))" for j
    by (simp add: boundary_def sized_def length_concat take_map comp_def)
  have d: "drop (length (concat (take j ls))) (concat ls) = concat (drop j ls)" for j
    by (metis append_eq_conv_conj append_take_drop_id concat_append)
  have "list_all (\<lambda>l. l \<noteq> [] \<and> last l = chr 10 \<and> chr 10 \<notin> set (butlast l)) (drop j ls)" for j
    using assms by (auto simp: list_all_iff dest: in_set_dropD)
  then have "file_lines (concat (drop j ls)) = drop j ls" for j by (rule file_lines_concat)
  moreover have "int (length (concat ls)) = boundary (sized ls) (length (sized ls))"
    by (simp add: boundary_def sized_def length_concat comp_def)
  ultimately show ?thesis by (simp add: reads_lines_def text_file_def b d) (simp add: sized_def drop_map comp_def)
qed

lemma parse_line_open [simp]: "parse_line E (L\<lparr>open_log := f\<rparr>) l = parse_line E L l"
proof -
  have row: "log_row E (L\<lparr>open_log := f\<rparr>) = log_row E L" by (intro ext) (simp add: log_row_def)
  have valid: "valid_address (L\<lparr>open_log := f\<rparr>) = valid_address L" by simp
  show ?thesis unfolding parse_line_def row valid ..
qed

lemma start_on_boundary:
  assumes "reads_lines pieces bytes read_from" and "map_of (django_cache w) (offset_key path) \<in>
    insert None (Some ` ({n. bytes < n} \<union> boundary pieces ` {..length pieces}))"
  shows "\<exists>j \<le> length pieces. read_from (start_offset path bytes w) = Some (map fst (drop j pieces), bytes)"
proof -
  have "boundary pieces 0 = 0" by (simp add: boundary_def)
  then have "start_offset path bytes w \<in> boundary pieces ` {..length pieces}"
    using assms(2) by (auto simp: start_offset_def intro: rev_image_eqI [of 0])
  with assms(1) show ?thesis by (auto simp: reads_lines_def)
qed

lemma ingested_events:
  assumes "parse_lines E L lines = Inr xs" and "\<And>t. sha256 E t \<noteq> []" and "l \<in> set lines" "parse_line E L l = Inr (Some r)"
  shows "rl_source_event_id r \<in> set (nginx_events (bulk_create (somes xs) rows))"
proof -
  have "r \<in> set (somes xs)" using assms(3,4) parse_lines_rows [OF assms(1)] by (auto simp: set_somes)
  then have "rl_source_event_id r \<in> set (nginx_events (somes xs))"
    using parse_line_row(1,2) [OF assms(4)] assms(2) by (auto simp: nginx_events_def)
  then show ?thesis by (simp add: bulk_create_events)
qed

text \<open>
  C21. Reading the access log again adds nothing. Let a run without a stored offset return on a file of whole
  lines. Then every accepted line has a row with its event identity, identities stay unique, and the stored
  offset is the size of the file. Let a later run, at any time and whether it succeeds or fails, read the
  file as it is then, the same lines with perhaps more after them, with the offset evicted (the file is
  read from its start), beyond the end of the file (it is reset) or at the end of a line, which is what
  the task stores. It keeps every row of the table, and the rows it appends come from the added lines;
  on the same file it adds none. An offset in the middle of a line is not covered.
\<close>

theorem reingestion_adds_nothing:
  assumes path: "log_path \<noteq> []" "open_log L log_path = Some (bytes, read_from)" and whole: "reads_lines pieces bytes read_from"
    and hash: "\<And>t. sha256 E t \<noteq> []" "sha256 E2 = sha256 E"
    and run: "parse_access_log oc E True L log_path w = (Inr res, w1)" and cold: "map_of (django_cache w) (offset_key log_path) = None"
    and uniq: "distinct (nginx_events (RequestLogs w))"
    and later: "RequestLogs w2 = RequestLogs w1" "L2 = L\<lparr>open_log := opened\<rparr>" "opened log_path = Some (bytes2, read_from2)"
      "reads_lines (pieces @ added) bytes2 read_from2"
    and offset: "map_of (django_cache w2) (offset_key log_path) \<in>
      insert None (Some ` ({n. bytes2 < n} \<union> boundary (pieces @ added) ` {..length (pieces @ added)}))"
  shows "(\<forall>l \<in> set (map fst pieces). \<forall>r. parse_line E L l = Inr (Some r) \<longrightarrow> rl_source_event_id r \<in> set (nginx_events (RequestLogs w1))) \<and>
    distinct (nginx_events (RequestLogs w1)) \<and> map_of (django_cache w1) (offset_key log_path) = Some bytes \<and>
    (\<exists>new. RequestLogs (snd (parse_access_log oc2 E2 answers L2 log_path w2)) = RequestLogs w2 @ new \<and>
       (\<forall>q \<in> set new. \<exists>l \<in> set (map fst added). parse_line E2 L l = Inr (Some q)))"
proof -
  have "read_from (start_offset log_path bytes w) = Some (map fst pieces, bytes)"
    using reads_all [OF whole] cold by (simp add: start_offset_def)
  from ingested_all [OF path this run] obtain xs where xs: "parse_lines E L (map fst pieces) = Inr xs"
    "RequestLogs w1 = bulk_create (somes xs) (RequestLogs w)" "map_of (django_cache w1) (offset_key log_path) = Some bytes" by blast
  note in_events = ingested_events [OF xs(1) hash(1), of _ _ "RequestLogs w", folded xs(2)]
  have path2: "open_log L2 log_path = Some (bytes2, read_from2)" using later(2,3) by simp
  have "\<exists>new. RequestLogs (snd (parse_access_log oc2 E2 answers L2 log_path w2)) = RequestLogs w2 @ new \<and>
       (\<forall>q \<in> set new. \<exists>l \<in> set (map fst added). parse_line E2 L l = Inr (Some q))"
  proof (cases "RequestLogs (snd (parse_access_log oc2 E2 answers L2 log_path w2)) = RequestLogs w2")
    case False
    from start_on_boundary [OF later(4) offset] obtain j where
      j: "read_from2 (start_offset log_path bytes2 w2) = Some (map fst (drop j (pieces @ added)), bytes2)" by blast
    with ingested [OF path(1) path2 refl, of oc2 E2 answers w2] False obtain ys where
      ys: "parse_lines E2 L2 (map fst (drop j (pieces @ added))) = Inr ys"
        "RequestLogs (snd (parse_access_log oc2 E2 answers L2 log_path w2)) = bulk_create (somes ys) (RequestLogs w2)" by auto
    from bulk_create_appends [of "somes ys" "RequestLogs w2"] obtain new where new: "bulk_create (somes ys) (RequestLogs w2) = RequestLogs w2 @ new"
      "\<forall>q \<in> set new. q \<in> set (somes ys) \<and> \<not> event_taken q (RequestLogs w2)" by blast
    have "\<exists>l \<in> set (map fst added). parse_line E2 L l = Inr (Some q)" if q: "q \<in> set new" for q
    proof -
      from q new(2) parse_lines_rows [OF ys(1), of q] obtain l where
        l: "l \<in> set (map fst (drop j (pieces @ added)))" "parse_line E2 L l = Inr (Some q)" by (auto simp: set_somes later(2))
      have "l \<notin> set (map fst pieces)"
      proof
        assume "l \<in> set (map fst pieces)"
        moreover from parse_line_row(3) [OF l(2), of E] hash(2) obtain r where
          r: "parse_line E L l = Inr (Some r)" "rl_source_event_id r = rl_source_event_id q" by auto
        ultimately have "rl_source_event_id q \<in> set (nginx_events (RequestLogs w2))"
          using in_events [of l r] later(1) by simp
        then have "event_taken q (RequestLogs w2)"
          using parse_line_row(1) [OF l(2)] parse_line_row(2) [OF l(2)] hash by (simp add: event_taken_iff)
        with q new(2) show False by blast
      qed
      moreover have "set (drop j (pieces @ added)) \<subseteq> set pieces \<union> set added" using set_drop_subset [of j "pieces @ added"] by auto
      ultimately show ?thesis using l by auto
    qed
    with ys(2) new(1) show ?thesis by auto
  qed auto
  with in_events bulk_create_unique [OF uniq] xs(2,3) show ?thesis by simp
qed

text \<open>The witness reads a real content: one line, then the same file with a second line, whose offset was
  evicted in between.\<close>

definition example_line :: string where
  "example_line = line_of example_fields"

definition example_line2 :: string where
  "example_line2 = line_of (example_fields\<lparr>lf_path := ''/y''\<rparr>)"

definition content_env :: "string \<Rightarrow> log_env" where
  "content_env content = \<lparr>open_log = (\<lambda>_. Some (text_file content)), valid_address = is_valid_ip, stored_address = (\<lambda>s. s)\<rparr>"

lemma example_lines_whole:
  "list_all (\<lambda>l. l \<noteq> [] \<and> last l = chr 10 \<and> chr 10 \<notin> set (butlast l)) [example_line, example_line2]"
  "list_all (\<lambda>l. l \<noteq> [] \<and> last l = chr 10 \<and> chr 10 \<notin> set (butlast l)) [example_line]"
  unfolding example_line_def example_line2_def example_fields_def line_of_def combined_line_def by code_simp+

theorem reingestion_adds_nothing_witness:
  "\<exists>w1 new. let E = demo_env\<lparr>sha256 := \<lambda>t. ''x'' @ t\<rparr>; L = content_env example_line; L2 = content_env (example_line @ example_line2) in
    RequestLogs w1 \<noteq> [] \<and> snd (parse_access_log default_ops_conf E True L ''access.log'' empty_world) = w1 \<and>
    RequestLogs (snd (parse_access_log default_ops_conf (E\<lparr>time_now := 2000\<rparr>) True L2 ''access.log'' (w1\<lparr>django_cache := []\<rparr>))) =
      RequestLogs w1 @ new \<and> list_all (\<lambda>q. parse_line (E\<lparr>time_now := 2000\<rparr>) L example_line2 = Inr (Some q)) new"
proof -
  define L where "L = content_env example_line"
  define E where "E = demo_env\<lparr>sha256 := \<lambda>t. ''x'' @ t\<rparr>"
  define w1 where "w1 = snd (parse_access_log default_ops_conf E True L ''access.log'' empty_world)"
  have s: "lf_status example_fields = str_int 403" by (simp add: example_fields_def) code_simp
  have v: "valid_address L (lf_ip example_fields)"
    unfolding L_def content_env_def example_fields_def log_env.simps log_fields.simps by code_simp
  have "int_text (str_int 403) = Some 403" by (rule int_text_small) simp_all
  then obtain r where r: "parse_line E L example_line = Inr (Some r)"
    using parse_line_of [OF example_fields_ok(1), of E L] s v by (simp add: example_line_def MAX_SMALLINT_def)
  let ?f1 = "text_file example_line" and ?f2 = "text_file (example_line @ example_line2)"
  have path: "open_log L ''access.log'' = Some (fst ?f1, snd ?f1)" by (simp add: L_def content_env_def)
  have L2: "content_env (example_line @ example_line2) = L\<lparr>open_log := \<lambda>_. Some (fst ?f2, snd ?f2)\<rparr>"
    by (simp add: L_def content_env_def)
  have reads: "reads_lines (sized [example_line]) (fst ?f1) (snd ?f1)"
    "reads_lines (sized [example_line] @ sized [example_line2]) (fst ?f2) (snd ?f2)"
    using text_file_reads [OF example_lines_whole(2)] text_file_reads [OF example_lines_whole(1)] by (simp_all add: sized_def)
  have t: "\<not> event_taken r []" by (simp add: event_taken_def)
  have n: "nginx_events (RequestLogs empty_world) = []" "django_cache empty_world = []" by (simp_all add: nginx_events_def empty_world_def)
  have "snd ?f1 (start_offset ''access.log'' (fst ?f1) empty_world) = Some ([example_line], fst ?f1)"
    using reads_all [OF reads(1)] n by (simp add: start_offset_def sized_def)
  then have run: "parse_access_log default_ops_conf E True L ''access.log'' empty_world =
      (Inr \<lparr>parsed_lines = 1, created_records = 1, skipped_lines = 0\<rparr>, w1)" and w1: "RequestLogs w1 = [r]"
    unfolding w1_def parse_access_log_run [OF list.distinct(2) path TrueI]
    using r t by (simp_all add: somes_def store_rows_def db_def E_def demo_env_def empty_world_def cache_set_def)
  from reingestion_adds_nothing [OF list.distinct(2) path reads(1) _ _ run _ _ _ refl refl reads(2),
      where ?w2.0 = "w1\<lparr>django_cache := []\<rparr>" and ?E2.0 = "E\<lparr>time_now := 2000\<rparr>" and ?oc2.0 = default_ops_conf and answers = True] n
  obtain new where "RequestLogs (snd (parse_access_log default_ops_conf (E\<lparr>time_now := 2000\<rparr>) True (L\<lparr>open_log := \<lambda>_. Some (fst ?f2, snd ?f2)\<rparr>)
      ''access.log'' (w1\<lparr>django_cache := []\<rparr>))) = RequestLogs w1 @ new"
    "\<forall>q \<in> set new. parse_line (E\<lparr>time_now := 2000\<rparr>) L example_line2 = Inr (Some q)"
    by (auto simp: E_def sized_def)
  with run w1 show ?thesis unfolding Let_def L2 L_def [symmetric] E_def [symmetric]
    by (intro exI [of _ w1] exI [of _ new]) (simp add: list_all_iff)
qed

text \<open>Why the middle of a line matters: a file that was rotated and has outgrown the stored offset is read
  from wherever the offset falls. Two bytes into the example line the rest is again a line in combined
  format, and its row blames another address.\<close>

theorem mid_line_offset_blames_another:
  "snd (text_file example_line) 2 = Some ([drop 2 example_line], int (length example_line)) \<and>
   (\<exists>r. parse_line demo_env (content_env example_line) (drop 2 example_line) = Inr (Some r) \<and> rl_ip_address r = ''3.0.113.9'' \<and>
      rl_verdict r = BLOCKED)"
proof -
  let ?f = "example_fields\<lparr>lf_ip := ''3.0.113.9''\<rparr>"
  have d: "drop 2 example_line = line_of ?f"
    by (simp add: example_line_def line_of_def combined_line_def example_fields_def)
  have "file_lines (drop 2 example_line) = [drop 2 example_line]"
    unfolding example_line_def example_fields_def line_of_def combined_line_def by code_simp
  moreover have "fields_ok ?f" using example_fields_ok(1)
    by (simp add: fields_ok_def example_fields_def word_def is_space_def is_digit_def ord_def list_all_iff)
  moreover have "lf_status ?f = str_int 403" by (simp add: example_fields_def) code_simp
  moreover have "int_text (str_int 403) = Some 403" by (rule int_text_small) simp_all
  moreover have "is_valid_ip ''3.0.113.9''" by code_simp
  ultimately show ?thesis using parse_line_of [of ?f demo_env "content_env example_line"] unfolding d
    by (simp add: text_file_def MAX_SMALLINT_def content_env_def log_row_def infer_verdict_from_status_def) (simp add: d)
qed

end
