(* ===== verification/Blocklist.thy ===== *)
theory Blocklist
  imports Tasks
begin

text \<open>
  \<open>services/blocklist_generator.py\<close>: rendering the nginx variables from the active rules, putting the
  file in place with validation and rollback, and reloading nginx; and the task \<open>generate_blocklist\<close>.
  The state is a host: the package's state and the files on disk. What the operating system answers
  (failures of file operations, commands run, signals sent) is a parameter; the outcome of the test
  command may depend on the files, as \<open>nginx -t\<close> reads them.
\<close>

section \<open>Rendering\<close>

definition NL :: string where
  "NL = [chr 10]"

fun replace_char :: "char \<Rightarrow> string \<Rightarrow> string \<Rightarrow> string" where
  "replace_char c t [] = []"
| "replace_char c t (d # s) = (if d = c then t else [d]) @ replace_char c t s"

text \<open>\<open>re.escape\<close>: a backslash before each of the special characters.\<close>

definition re_special :: "char set" where
  "re_special = set (''()[]{}?*+-|^$.&~# '' @ BS @ [chr 9, chr 10, chr 13, chr 11, chr 12])"

definition re_escape :: "string \<Rightarrow> string" where
  "re_escape s = concat (map (\<lambda>c. if c \<in> re_special then BS @ [c] else [c]) s)"

definition nginx_escape_ua :: "string \<Rightarrow> string \<Rightarrow> string" where
  "nginx_escape_ua pattern match_type =
     (let p = strip pattern
      in if p = [] then []
         else if match_type = ''exact'' then [DQ] @ replace_char DQ (BS @ [DQ]) p @ [DQ]
         else if match_type \<in> {''regex'', ''contains''}
              then (if match_type = ''contains'' then [DQ] @ ''~*'' @ re_escape p @ [DQ] else [DQ] @ ''~*'' @ p @ [DQ])
         else [])"

text \<open>The loops with their set \<open>seen\<close>: the entries in the order of first occurrence.\<close>

fun unseen :: "string list \<Rightarrow> string list \<Rightarrow> string list" where
  "unseen seen [] = []"
| "unseen seen (e # es) = (if e \<noteq> [] \<and> e \<notin> set seen then e # unseen (e # seen) es else unseen seen es)"

definition entry_lines :: "string list \<Rightarrow> string list" where
  "entry_lines es = map (\<lambda>e. ''    '' @ e @ '' 1;'' @ NL) es"

definition render_ua_map :: "string \<Rightarrow> BlockRule list \<Rightarrow> string list" where
  "render_ua_map variable rules =
     [''map $http_user_agent '' @ variable @ '' {'' @ NL, ''    default 0;'' @ NL] @
     entry_lines (unseen [] (map (\<lambda>r. nginx_escape_ua (br_pattern r) (br_match_type r)) rules)) @ [''}'' @ NL @ NL]"

definition render_ip_geo :: "string \<Rightarrow> BlockRule list \<Rightarrow> string list" where
  "render_ip_geo variable rules =
     [''geo '' @ variable @ '' {'' @ NL, ''    default 0;'' @ NL] @
     entry_lines (unseen [] (map (\<lambda>r. strip (br_pattern r)) rules)) @ [''}'' @ NL @ NL]"

definition HEADER_LINES :: "string list" where
  "HEADER_LINES = [''# Generated by django-waf, do not edit manually'' @ NL,
     ''# This file is regenerated every 5 minutes by the generate_blocklist task.'' @ NL,
     ''# Declares variables only; see django_waf/conf/nginx/ for the reference'' @ NL,
     ''# enforcement snippet (block => 403, throttle => limit_req).'' @ NL @ NL]"

definition of_kind :: "string set \<Rightarrow> string \<Rightarrow> BlockRule list \<Rightarrow> BlockRule list" where
  "of_kind types action rules = filter (\<lambda>r. br_rule_type r \<in> types \<and> br_action r = action) rules"

definition blocklist_text :: "BlockRule list \<Rightarrow> string" where
  "blocklist_text rules = concat (HEADER_LINES @
     render_ua_map ''$waf_block_ua'' (of_kind {''ua''} ''block'' rules) @
     render_ua_map ''$waf_throttle_ua'' (of_kind {''ua''} ''throttle'' rules) @
     render_ip_geo ''$waf_block_ip'' (of_kind {''ip'', ''cidr''} ''block'' rules) @
     render_ip_geo ''$waf_throttle_ip'' (of_kind {''ip'', ''cidr''} ''throttle'' rules))"

section \<open>The host\<close>

datatype cmd_outcome = Exited int | Not_found | Timed_out | Os_failure

datatype kill_outcome = Sent | No_process | No_permission | Kill_failure

type_synonym disk = "(string \<times> string) list"

record 'r host =
  base :: "'r world"
  disk :: disk

record os =
  os_makedirs :: "string \<Rightarrow> py_exc option"
  os_mkstemp :: "string \<Rightarrow> py_exc + string"
  os_write :: "string \<Rightarrow> py_exc option"
  os_copy :: "string \<Rightarrow> py_exc option"
  os_rename :: "string \<Rightarrow> string \<Rightarrow> py_exc option"
  os_unlink :: "string \<Rightarrow> py_exc option"
  os_run :: "string list \<Rightarrow> disk \<Rightarrow> cmd_outcome"
  os_read :: "string \<Rightarrow> string option"
  os_kill :: "int \<Rightarrow> kill_outcome"

definition in_base :: "('r world, 'a) py \<Rightarrow> ('r host, 'a) py" where
  "in_base m h = (case m (base h) of (x, w') \<Rightarrow> (x, h\<lparr>base := w'\<rparr>))"

definition unless :: "py_exc option \<Rightarrow> ('s, unit) py \<Rightarrow> ('s, unit) py" where
  "unless failure m = (case failure of Some e \<Rightarrow> raise e | None \<Rightarrow> m)"

definition set_file :: "string \<Rightarrow> string \<Rightarrow> disk \<Rightarrow> disk" where
  "set_file p t d = (p, t) # filter (\<lambda>x. fst x \<noteq> p) d"

definition drop_file :: "string \<Rightarrow> disk \<Rightarrow> disk" where
  "drop_file p d = filter (\<lambda>x. fst x \<noteq> p) d"

definition write_file :: "os \<Rightarrow> string \<Rightarrow> string \<Rightarrow> ('r host, unit) py" where
  "write_file X p t = unless (os_write X p) (update_state (\<lambda>h. h\<lparr>disk := set_file p t (disk h)\<rparr>))"

text \<open>A file that is not there is a \<open>FileNotFoundError\<close>, a subclass of \<open>OSError\<close>.\<close>

definition with_file :: "string \<Rightarrow> (string \<Rightarrow> disk \<Rightarrow> disk) \<Rightarrow> ('r host, unit) py" where
  "with_file p f h = (case map_of (disk h) p of
      None \<Rightarrow> (Inl OSError, h) | Some t \<Rightarrow> (Inr (), h\<lparr>disk := f t (disk h)\<rparr>))"

definition unlink :: "os \<Rightarrow> string \<Rightarrow> ('r host, unit) py" where
  "unlink X p = unless (os_unlink X p) (with_file p (\<lambda>_. drop_file p))"

definition copy_file :: "os \<Rightarrow> string \<Rightarrow> string \<Rightarrow> ('r host, unit) py" where
  "copy_file X p q = unless (os_copy X p) (with_file p (set_file q))"

definition rename :: "os \<Rightarrow> string \<Rightarrow> string \<Rightarrow> ('r host, unit) py" where
  "rename X p q = unless (os_rename X p q) (with_file p (\<lambda>t d. set_file q t (drop_file p d)))"

text \<open>\<open>contextlib.suppress(OSError)\<close>, of which \<open>PermissionError\<close> is a subclass.\<close>

definition suppress_os :: "('s, unit) py \<Rightarrow> ('s, unit) py" where
  "suppress_os m = try_except m (\<lambda>e. if e \<in> {OSError, PermissionError} then ret () else raise e)"

section \<open>Activation\<close>

definition validate_nginx_config :: "ops_conf \<Rightarrow> os \<Rightarrow> ('r host, bool option) py" where
  "validate_nginx_config oc X = read_state (\<lambda>h. case os_run X (DJANGO_WAF_NGINX_TEST_COMMAND oc) (disk h) of
      Not_found \<Rightarrow> None
    | Timed_out \<Rightarrow> Some False
    | Os_failure \<Rightarrow> Some False
    | Exited n \<Rightarrow> Some (n = 0))"

definition activate_candidate :: "ops_conf \<Rightarrow> os \<Rightarrow> string \<Rightarrow> string \<Rightarrow> ('r host, unit) py" where
  "activate_candidate oc X tmp_path dest =
     (if \<not> DJANGO_WAF_NGINX_VALIDATE oc then rename X tmp_path dest
      else (let last_good = dest @ ''.last-good'' in
        andThen (read_state (\<lambda>h. map_of (disk h) dest \<noteq> None)) (\<lambda>had_previous.
        andThen (if had_previous then copy_file X dest last_good else ret ()) (\<lambda>_.
        andThen (rename X tmp_path dest) (\<lambda>_.
        andThen (validate_nginx_config oc X) (\<lambda>outcome.
          if outcome = Some False
          then (if had_previous then rename X last_good dest else suppress_os (unlink X dest))
          else (if had_previous then suppress_os (unlink X last_good) else ret ())))))))"

text \<open>\<open>os.path.dirname\<close>.\<close>

definition dirname :: "string \<Rightarrow> string" where
  "dirname p = (case rcut CHR ''/'' p of
      None \<Rightarrow> []
    | Some (d, _) \<Rightarrow> (let head = d @ ''/'' in
        if list_all (\<lambda>c. c = CHR ''/'') head then head else rstrip_by (\<lambda>c. c = CHR ''/'') head))"

definition generate_nginx_blocklist :: "ops_conf \<Rightarrow> 'r env \<Rightarrow> os \<Rightarrow> string \<Rightarrow> ('r host, nat) py" where
  "generate_nginx_blocklist oc E X output_path =
     (let dest = (if output_path = [] then DJANGO_WAF_NGINX_BLOCKLIST_PATH oc else output_path); conf_dir = dirname dest
      in andThen (in_base (db E (read_state (\<lambda>w. BlockRule_for_nginx (time_now E) (BlockRules w))))) (\<lambda>rules.
         andThen (if conf_dir = [] then ret () else unless (os_makedirs X conf_dir) (ret ())) (\<lambda>_.
         case os_mkstemp X (if conf_dir = [] then ''.'' else conf_dir) of
           Inl e \<Rightarrow> raise e
         | Inr tmp_path \<Rightarrow>
             andThen (update_state (\<lambda>h. h\<lparr>disk := set_file tmp_path [] (disk h)\<rparr>)) (\<lambda>_.
             andThen (try_except (write_file X tmp_path (blocklist_text rules))
               (\<lambda>e. andThen (suppress_os (unlink X tmp_path)) (\<lambda>_. raise e))) (\<lambda>_.
             andThen (activate_candidate oc X tmp_path dest) (\<lambda>_. ret (length rules)))))))"

section \<open>Reload\<close>

definition reload_via_command :: "os \<Rightarrow> string list \<Rightarrow> ('r host, bool) py" where
  "reload_via_command X command = read_state (\<lambda>h. case os_run X command (disk h) of
      Exited n \<Rightarrow> n = 0 | Not_found \<Rightarrow> False | Timed_out \<Rightarrow> False | Os_failure \<Rightarrow> False)"

text \<open>\<open>os.kill\<close> of a number outside the range of a C \<open>int\<close> raises \<open>OverflowError\<close>, which is no
  \<open>OSError\<close>.\<close>

definition reload_via_pid :: "os \<Rightarrow> string \<Rightarrow> ('r host, bool option) py" where
  "reload_via_pid X pid_path = (case os_read X pid_path of
      None \<Rightarrow> ret None
    | Some t \<Rightarrow> (case int_text (strip t) of
          None \<Rightarrow> ret None
        | Some pid \<Rightarrow>
            if \<not> (- (2 ^ 31) \<le> pid \<and> pid < 2 ^ 31) then raise OverflowError
            else (case os_kill X pid of
                Sent \<Rightarrow> ret (Some True)
              | No_process \<Rightarrow> ret (Some False)
              | No_permission \<Rightarrow> ret None
              | Kill_failure \<Rightarrow> ret (Some False))))"

definition reload_nginx :: "ops_conf \<Rightarrow> os \<Rightarrow> ('r host, bool) py" where
  "reload_nginx oc X =
     (let command = reload_via_command X (DJANGO_WAF_NGINX_RELOAD_COMMAND oc)
      in case DJANGO_WAF_NGINX_PID_PATH oc of
           None \<Rightarrow> command
         | Some p \<Rightarrow> (if p = [] then command
             else andThen (reload_via_pid X p) (\<lambda>r. case r of None \<Rightarrow> command | Some b \<Rightarrow> ret b)))"

section \<open>The task\<close>

record blocklist_result =
  rules_written :: nat
  reload_succeeded :: bool

definition generate_blocklist :: "ops_conf \<Rightarrow> 'r env \<Rightarrow> os \<Rightarrow> ('r host, blocklist_result) py" where
  "generate_blocklist oc E X =
     andThen (try_except (andThen (generate_nginx_blocklist oc E X []) (\<lambda>n. ret (Some n)))
         (\<lambda>e. if e = PermissionError then ret None else raise e))
       (\<lambda>count. case count of
          None \<Rightarrow> ret \<lparr>rules_written = 0, reload_succeeded = False\<rparr>
        | Some n \<Rightarrow> andThen (reload_nginx oc X) (\<lambda>success. ret \<lparr>rules_written = n, reload_succeeded = success\<rparr>))"

section \<open>What the file lists\<close>

lemma set_unseen: "set (unseen seen es) = {e \<in> set es. e \<noteq> [] \<and> e \<notin> set seen}"
  by (induction seen es rule: unseen.induct) auto

lemma distinct_unseen: "distinct (unseen seen es)"
  by (induction seen es rule: unseen.induct) (auto simp: set_unseen)

definition in_force :: "'r env \<Rightarrow> BlockRule \<Rightarrow> bool" where
  "in_force E r = (br_is_active r \<and> not_expired (time_now E) (br_expires_at r))"

lemma set_of_kind:
  assumes "types \<subseteq> {''ip'', ''cidr'', ''ua''}" "action \<in> {''block'', ''throttle''}"
  shows "set (of_kind types action (BlockRule_for_nginx (time_now E) rows)) =
    {r \<in> set rows. in_force E r \<and> br_rule_type r \<in> types \<and> br_action r = action}"
  using assms by (auto simp: of_kind_def BlockRule_for_nginx_def BlockRule_active_def in_force_def)

text \<open>The parts of the file, as an nginx reader sees them: a block declares a variable and lists keys.\<close>

definition block_text :: "string \<Rightarrow> string list \<Rightarrow> string" where
  "block_text opening keys = opening @ '' {'' @ NL @ ''    default 0;'' @ NL @ concat (map (\<lambda>e. ''    '' @ e @ '' 1;'' @ NL) keys) @ ''}'' @ NL @ NL"

text \<open>
  C23. The generated file says exactly what the rules say: it consists of the header and of four blocks; the
  keys of \<open>$waf_block_ip\<close> are the patterns of the block rules for addresses and networks that are active
  and not expired, those of \<open>$waf_throttle_ip\<close> the patterns of such throttle rules, the keys of the two
  User-Agent maps the escaped patterns of such User-Agent rules; no key occurs twice in a block, empty
  ones are left out, and challenge and log-only rules appear nowhere.
\<close>

theorem blocklist_lists_exactly_the_rules:
  fixes E :: "'r env"
  assumes keys: "\<And>types a. keys types a = {r \<in> set rows. br_is_active r \<and> not_expired (time_now E) (br_expires_at r) \<and>
      br_rule_type r \<in> types \<and> br_action r = a}"
  shows "\<exists>ub ut ib it. blocklist_text (BlockRule_for_nginx (time_now E) rows) = concat HEADER_LINES @
      block_text ''map $http_user_agent $waf_block_ua'' ub @ block_text ''map $http_user_agent $waf_throttle_ua'' ut @
      block_text ''geo $waf_block_ip'' ib @ block_text ''geo $waf_throttle_ip'' it \<and>
    distinct ub \<and> distinct ut \<and> distinct ib \<and> distinct it \<and>
    set ub = (\<lambda>r. nginx_escape_ua (br_pattern r) (br_match_type r)) ` keys {''ua''} ''block'' - {[]} \<and>
    set ut = (\<lambda>r. nginx_escape_ua (br_pattern r) (br_match_type r)) ` keys {''ua''} ''throttle'' - {[]} \<and>
    set ib = (\<lambda>r. strip (br_pattern r)) ` keys {''ip'', ''cidr''} ''block'' - {[]} \<and>
    set it = (\<lambda>r. strip (br_pattern r)) ` keys {''ip'', ''cidr''} ''throttle'' - {[]}"
proof -
  let ?rs = "BlockRule_for_nginx (time_now E) rows"
  let ?ua = "\<lambda>a. unseen [] (map (\<lambda>r. nginx_escape_ua (br_pattern r) (br_match_type r)) (of_kind {''ua''} a ?rs))"
  let ?ip = "\<lambda>a. unseen [] (map (\<lambda>r. strip (br_pattern r)) (of_kind {''ip'', ''cidr''} a ?rs))"
  have "set (of_kind types a ?rs) = keys types a" if "types \<subseteq> {''ip'', ''cidr'', ''ua''}" "a \<in> {''block'', ''throttle''}" for types a
    unfolding set_of_kind [OF that] by (simp add: keys in_force_def)
  then have sets: "set (?ua a) = (\<lambda>r. nginx_escape_ua (br_pattern r) (br_match_type r)) ` keys {''ua''} a - {[]}"
    "set (?ip a) = (\<lambda>r. strip (br_pattern r)) ` keys {''ip'', ''cidr''} a - {[]}" if "a \<in> {''block'', ''throttle''}" for a
    using that by (auto simp: set_unseen)
  have rendered: "blocklist_text ?rs = concat HEADER_LINES @
      block_text ''map $http_user_agent $waf_block_ua'' (?ua ''block'') @ block_text ''map $http_user_agent $waf_throttle_ua'' (?ua ''throttle'') @
      block_text ''geo $waf_block_ip'' (?ip ''block'') @ block_text ''geo $waf_throttle_ip'' (?ip ''throttle'')"
    by (simp add: blocklist_text_def render_ua_map_def render_ip_geo_def entry_lines_def block_text_def)
  show ?thesis by (intro exI conjI, rule rendered, (rule distinct_unseen)+) (rule sets, simp)+
qed

theorem blocklist_lists_exactly_the_rules_witness:
  "\<exists>ub ut ib it. blocklist_text (BlockRule_for_nginx (time_now demo_env) [example_rule, example_rule\<lparr>br_action := ''challenge''\<rparr>]) =
      concat HEADER_LINES @ block_text ''map $http_user_agent $waf_block_ua'' ub @ block_text ''map $http_user_agent $waf_throttle_ua'' ut @
      block_text ''geo $waf_block_ip'' ib @ block_text ''geo $waf_throttle_ip'' it \<and> set ib = {''203.0.113.9''} \<and> set ub = {} \<and> set it = {}"
proof -
  define keys where "keys types a = {r \<in> set [example_rule, example_rule\<lparr>br_action := ''challenge''\<rparr>]. br_is_active r \<and>
      not_expired (time_now demo_env) (br_expires_at r) \<and> br_rule_type r \<in> types \<and> br_action r = a}" for types a
  have s: "strip ''203.0.113.9'' = ''203.0.113.9''" by code_simp
  have "keys {''ip'', ''cidr''} ''block'' = {example_rule}" "keys {''ip'', ''cidr''} ''throttle'' = {}" "keys {''ua''} a = {}" for a
    by (auto simp: keys_def example_rule_def not_expired_def)
  with blocklist_lists_exactly_the_rules [of keys, OF keys_def] s show ?thesis by (simp add: example_rule_def) blast
qed

section \<open>Activation and rollback\<close>

lemma map_of_set_file [simp]: "map_of (set_file p t d) q = (if q = p then Some t else map_of d q)"
  by (simp add: set_file_def map_of_filter_neq)

lemma map_of_drop_file [simp]: "map_of (drop_file p d) q = (if q = p then None else map_of d q)"
  by (simp add: drop_file_def map_of_filter_neq)

definition os_works :: "os \<Rightarrow> bool" where
  "os_works X = ((\<forall>p. os_makedirs X p = None \<and> os_write X p = None \<and> os_copy X p = None \<and> os_unlink X p = None) \<and>
     (\<forall>p q. os_rename X p q = None))"

definition accepted :: "cmd_outcome \<Rightarrow> bool" where
  "accepted c = (c \<in> {Exited 0, Not_found})"

definition candidate_disk :: "string \<Rightarrow> string \<Rightarrow> string \<Rightarrow> disk \<Rightarrow> disk \<Rightarrow> bool" where
  "candidate_disk tmp dest new old d = (\<forall>p. map_of d p = (if p = dest then Some new
     else if p = dest @ ''.last-good'' \<and> map_of old dest \<noteq> None then map_of old dest else if p = tmp then None else map_of old p))"

lemma file_ops:
  assumes "os_works X" "map_of (disk h) p = Some t"
  shows "copy_file X p q h = (Inr (), h\<lparr>disk := set_file q t (disk h)\<rparr>)"
    "rename X p q h = (Inr (), h\<lparr>disk := set_file q t (drop_file p (disk h))\<rparr>)"
    "suppress_os (unlink X p) h = (Inr (), h\<lparr>disk := drop_file p (disk h)\<rparr>)"
  using assms by (simp_all add: os_works_def copy_file_def rename_def unlink_def unless_def with_file_def suppress_os_def)

lemma validate_outcome:
  "validate_nginx_config oc X h = (Inr v, h) \<Longrightarrow> v = Some False \<longleftrightarrow> \<not> accepted (os_run X (DJANGO_WAF_NGINX_TEST_COMMAND oc) (disk h))"
  by (auto simp: validate_nginx_config_def accepted_def split: cmd_outcome.splits)

lemma activate_effect:
  assumes X: "os_works X" and tmp: "map_of (disk h) tmp = Some new" "tmp \<noteq> dest" "tmp \<noteq> dest @ ''.last-good''"
    and val: "DJANGO_WAF_NGINX_VALIDATE oc"
  shows "\<exists>d h'. candidate_disk tmp dest new (disk h) d \<and> activate_candidate oc X tmp dest h = (Inr (), h') \<and>
     map_of (disk h') dest = (if accepted (os_run X (DJANGO_WAF_NGINX_TEST_COMMAND oc) d) then Some new else map_of (disk h) dest) \<and>
     (\<forall>p. p \<notin> {dest, dest @ ''.last-good'', tmp} \<longrightarrow> map_of (disk h') p = map_of (disk h) p)"
proof -
  let ?lg = "dest @ ''.last-good''"
  have lg: "?lg \<noteq> dest" "dest \<noteq> ?lg" by simp_all
  define h1 where "h1 = (case map_of (disk h) dest of None \<Rightarrow> h | Some old \<Rightarrow> h\<lparr>disk := set_file ?lg old (disk h)\<rparr>)"
  have h1: "map_of (disk h1) p = (if p = ?lg \<and> map_of (disk h) dest \<noteq> None then map_of (disk h) dest else map_of (disk h) p)" for p
    by (simp add: h1_def split: option.split)
  then have new: "map_of (disk h1) tmp = Some new" using tmp by simp
  define h2 where "h2 = h1\<lparr>disk := set_file dest new (drop_file tmp (disk h1))\<rparr>"
  obtain v where v: "validate_nginx_config oc X h2 = (Inr v, h2)" by (simp add: validate_nginx_config_def)
  have cand: "candidate_disk tmp dest new (disk h) (disk h2)" using lg tmp by (auto simp: candidate_disk_def h2_def h1)
  have copied: "(if map_of (disk h) dest \<noteq> None then copy_file X dest ?lg else ret ()) h = (Inr (), h1)"
    by (cases "map_of (disk h) dest") (simp_all add: h1_def file_ops(1) [OF X])
  have copy: "andThen (if map_of (disk h) dest \<noteq> None then copy_file X dest ?lg else ret ()) f h = f () h1" for f :: "unit \<Rightarrow> ('a host, unit) py"
    unfolding andThen_def copied by simp
  have moved: "rename X tmp dest h1 = (Inr (), h2)" unfolding h2_def by (rule file_ops(2) [OF X new])
  have run: "activate_candidate oc X tmp dest h =
      (if v = Some False then (if map_of (disk h) dest \<noteq> None then rename X ?lg dest else suppress_os (unlink X dest))
       else (if map_of (disk h) dest \<noteq> None then suppress_os (unlink X ?lg) else ret ())) h2"
    unfolding activate_candidate_def Let_def using val
    by (simp only: if_False not_True_eq_False andThen_Inr [OF read_state_apply] copy
        andThen_Inr [of "rename X tmp dest", OF moved] andThen_Inr [of "validate_nginx_config oc X", OF v])
  have d2: "map_of (disk h2) dest = Some new" by (simp add: h2_def)
  show ?thesis
  proof (cases "map_of (disk h) dest")
    case None
    then show ?thesis using cand run validate_outcome [OF v] file_ops(3) [OF X d2]
      by (intro exI [of _ "disk h2"] exI [of _ "if v = Some False then h2\<lparr>disk := drop_file dest (disk h2)\<rparr> else h2"])
        (simp add: h2_def h1)
  next
    case (Some old)
    then have l2: "map_of (disk h2) ?lg = Some old" using tmp lg by (simp add: h2_def h1)
    show ?thesis using cand run validate_outcome [OF v] file_ops(2,3) [OF X l2] Some lg
      by (intro exI [of _ "disk h2"] exI [of _ "if v = Some False then h2\<lparr>disk := set_file dest old (drop_file ?lg (disk h2))\<rparr>
            else h2\<lparr>disk := drop_file ?lg (disk h2)\<rparr>"]) (simp add: h2_def h1)
  qed
qed

text \<open>
  C24. A configuration that nginx rejects never stays: when the file operations work, validation is switched on and the
  temporary file is new, \<open>generate_nginx_blocklist\<close> returns the number of rules; afterwards the destination
  holds the new text if the test command, run with the candidate in place, succeeded or does not exist, and
  otherwise exactly what it held before (nothing, if there was nothing). Apart from the rollback copy and the
  temporary file no other file changes.
\<close>

theorem rejected_candidate_rolled_back:
  assumes db: "calm_db E" and X: "os_works X" "os_mkstemp X (if dirname dest = [] then ''.'' else dirname dest) = Inr tmp"
    and dest: "dest \<noteq> []" and tmp: "tmp \<noteq> dest" "tmp \<noteq> dest @ ''.last-good''" and val: "DJANGO_WAF_NGINX_VALIDATE oc"
    and rules: "rules = BlockRule_for_nginx (time_now E) (BlockRules (base h))"
  shows "\<exists>d h'. candidate_disk tmp dest (blocklist_text rules) (disk h) d \<and>
     generate_nginx_blocklist oc E X dest h = (Inr (length rules), h') \<and>
     map_of (disk h') dest = (if os_run X (DJANGO_WAF_NGINX_TEST_COMMAND oc) d \<in> {Exited 0, Not_found} then Some (blocklist_text rules) else map_of (disk h) dest) \<and>
     (\<forall>p. p \<notin> {dest, dest @ ''.last-good'', tmp} \<longrightarrow> map_of (disk h') p = map_of (disk h) p)"
proof -
  let ?h = "h\<lparr>base := (base h)\<lparr>db_ops := Suc (db_ops (base h))\<rparr>, disk := set_file tmp (blocklist_text rules) (set_file tmp [] (disk h))\<rparr>"
  have "map_of (disk ?h) tmp = Some (blocklist_text rules)" by simp
  from activate_effect [OF X(1) this tmp val] obtain d h' where
    d: "candidate_disk tmp dest (blocklist_text rules) (disk ?h) d" "activate_candidate oc X tmp dest ?h = (Inr (), h')"
      "map_of (disk h') dest = (if accepted (os_run X (DJANGO_WAF_NGINX_TEST_COMMAND oc) d) then Some (blocklist_text rules) else map_of (disk ?h) dest)"
      "\<And>p. p \<notin> {dest, dest @ ''.last-good'', tmp} \<Longrightarrow> map_of (disk h') p = map_of (disk ?h) p" by blast
  have "candidate_disk tmp dest (blocklist_text rules) (disk h) d" using d(1) tmp by (auto simp: candidate_disk_def)
  moreover have "generate_nginx_blocklist oc E X dest h = (Inr (length rules), h')"
    using X dest d(2) by (simp add: generate_nginx_blocklist_def in_base_def db_calm [OF db] os_works_def unless_def write_file_def rules Let_def)
  ultimately show ?thesis using d(3,4) tmp by (intro exI [of _ d] exI [of _ h']) (auto simp: accepted_def)
qed

definition demo_os :: "cmd_outcome \<Rightarrow> os" where
  "demo_os c = \<lparr>os_makedirs = (\<lambda>_. None), os_mkstemp = (\<lambda>_. Inr ''/etc/nginx/x.conf.tmp''), os_write = (\<lambda>_. None), os_copy = (\<lambda>_. None),
     os_rename = (\<lambda>_ _. None), os_unlink = (\<lambda>_. None), os_run = (\<lambda>_ _. c), os_read = (\<lambda>_. None), os_kill = (\<lambda>_. Sent)\<rparr>"

theorem rejected_candidate_rolled_back_witness:
  "\<exists>h'. generate_nginx_blocklist default_ops_conf demo_env (demo_os (Exited 1)) ''/etc/nginx/waf.conf''
      \<lparr>base = empty_world\<lparr>BlockRules := [example_rule]\<rparr>, disk = [(''/etc/nginx/waf.conf'', ''old'')]\<rparr> = (Inr 1, h') \<and>
    map_of (disk h') ''/etc/nginx/waf.conf'' = Some ''old''"
proof -
  let ?h = "\<lparr>base = empty_world\<lparr>BlockRules := [example_rule]\<rparr>, disk = [(''/etc/nginx/waf.conf'', ''old'')]\<rparr>"
  have r: "BlockRule_for_nginx (time_now demo_env) (BlockRules (base ?h)) = [example_rule]"
    by (simp add: BlockRule_for_nginx_def BlockRule_active_def example_rule_def not_expired_def)
  have X: "os_works (demo_os c)" "os_mkstemp (demo_os c) q = Inr ''/etc/nginx/x.conf.tmp''" "os_run (demo_os c) k d = c" for c q k d
    by (simp_all add: os_works_def demo_os_def)
  have v: "DJANGO_WAF_NGINX_VALIDATE default_ops_conf" by (simp add: default_ops_conf_def)
  from rejected_candidate_rolled_back [OF demo_calm_db(1) X(1) X(2) _ _ _ v refl, of "''/etc/nginx/waf.conf''" ?h "Exited 1"]
  show ?thesis unfolding r X(3) by auto
qed

text \<open>A pattern that ends in a backslash: the escape of an exact pattern covers quotes only, so the
  backslash escapes the closing quote.\<close>

lemma trailing_backslash_escapes_the_quote:
  "strip p = p \<Longrightarrow> p = x @ BS \<Longrightarrow> \<exists>y. nginx_escape_ua p ''exact'' = y @ BS @ [DQ]"
proof -
  assume p: "strip p = p" "p = x @ BS"
  have "replace_char c t (x @ y) = replace_char c t x @ replace_char c t y" for c t x y by (induction x) simp_all
  with p show ?thesis by (simp add: nginx_escape_ua_def Let_def)
qed

end
