(* ===== verification/ThreatFeed.thy ===== *)
theory ThreatFeed
  imports Blocklist
begin

text \<open>
  The synchronisation half of \<open>services/threat_feed.py\<close> and the task \<open>sync_threat_feed\<close>. The feed is
  data from the network: any Python value that JSON can produce. Fetching it, Django's \<open>parse_datetime\<close>
  and the conversion of a value by a decimal, integer or text column are parameters. Names in the
  database are ordered by code points.
\<close>

section \<open>Values of the feed\<close>

datatype pyfloat = Fin rat | NaN | PosInf | NegInf

datatype pyval = PNone | PBool bool | PInt int | PFloat pyfloat | PStr string | PList "pyval list" | PDict "(string \<times> pyval) list"

definition py_true :: "pyval \<Rightarrow> bool" where
  "py_true v = (case v of PNone \<Rightarrow> False | PBool b \<Rightarrow> b | PInt n \<Rightarrow> n \<noteq> 0 | PFloat f \<Rightarrow> f \<noteq> Fin 0
     | PStr s \<Rightarrow> s \<noteq> [] | PList vs \<Rightarrow> vs \<noteq> [] | PDict d \<Rightarrow> d \<noteq> [])"

text \<open>\<open>entry.get(k, dflt)\<close>; only dictionaries have it.\<close>

definition get_item :: "(string \<times> pyval) list \<Rightarrow> string \<Rightarrow> pyval \<Rightarrow> pyval" where
  "get_item d k dflt = (case map_of d k of None \<Rightarrow> dflt | Some v \<Rightarrow> v)"

text \<open>\<open>v in {...}\<close> for a set of strings: a list or dictionary is not hashable.\<close>

definition in_names :: "pyval \<Rightarrow> string set \<Rightarrow> py_exc + bool" where
  "in_names v names = (case v of PStr s \<Rightarrow> Inr (s \<in> names) | PList _ \<Rightarrow> Inl TypeError | PDict _ \<Rightarrow> Inl TypeError | _ \<Rightarrow> Inr False)"

text \<open>\<open>float\<close> of a text: blanks around, a sign, a decimal number with underscores between digits and an
  exponent, or the names of infinity and of not-a-number.\<close>

definition digits_or_none :: "string \<Rightarrow> bool" where
  "digits_or_none s = (s = [] \<or> digit_groups False s)"

definition plain_digits :: "string \<Rightarrow> string" where
  "plain_digits s = filter is_digit s"

definition exponent_of :: "string \<Rightarrow> int option" where
  "exponent_of s = (case s of
      CHR ''-'' # t \<Rightarrow> (if t \<noteq> [] \<and> digit_groups False t then Some (- int_of_digits (plain_digits t)) else None)
    | CHR ''+'' # t \<Rightarrow> (if t \<noteq> [] \<and> digit_groups False t then Some (int_of_digits (plain_digits t)) else None)
    | t \<Rightarrow> (if t \<noteq> [] \<and> digit_groups False t then Some (int_of_digits (plain_digits t)) else None))"

definition power_of_ten :: "int \<Rightarrow> rat" where
  "power_of_ten n = (if 0 \<le> n then 10 ^ nat n else 1 / 10 ^ nat (- n))"

definition decimal_of :: "string \<Rightarrow> rat option" where
  "decimal_of s =
     (let (mantissa, ex) = (case cut ''e'' s of None \<Rightarrow> (s, Some 0) | Some (a, b) \<Rightarrow> (a, exponent_of b));
          (whole, frac) = (case cut ''.'' mantissa of None \<Rightarrow> (mantissa, []) | Some (a, b) \<Rightarrow> (a, b))
      in if digits_or_none whole \<and> digits_or_none frac \<and> (whole \<noteq> [] \<or> frac \<noteq> [])
         then map_option (\<lambda>n. of_int (int_of_digits (plain_digits whole @ plain_digits frac)) *
                power_of_ten (n - int (length (plain_digits frac)))) ex
         else None)"

definition float_of_text :: "string \<Rightarrow> pyfloat option" where
  "float_of_text s =
     (let t = lower (strip s);
          (neg, u) = (case t of CHR ''-'' # r \<Rightarrow> (True, r) | CHR ''+'' # r \<Rightarrow> (False, r) | _ \<Rightarrow> (False, t))
      in if u \<in> {''inf'', ''infinity''} then Some (if neg then NegInf else PosInf)
         else if u = ''nan'' then Some NaN
         else map_option (\<lambda>q. Fin (if neg then - q else q)) (decimal_of u))"

text \<open>\<open>float(raw)\<close>; an integer beyond the range of a float raises \<open>OverflowError\<close>.\<close>

definition MAX_FLOAT :: int where
  "MAX_FLOAT = 2 ^ 1024 - 2 ^ 970"

definition to_float :: "pyval \<Rightarrow> py_exc + pyfloat" where
  "to_float v = (case v of
      PNone \<Rightarrow> Inl TypeError
    | PBool b \<Rightarrow> Inr (Fin (if b then 1 else 0))
    | PInt n \<Rightarrow> (if MAX_FLOAT \<le> \<bar>n\<bar> then Inl OverflowError else Inr (Fin (of_int n)))
    | PFloat f \<Rightarrow> Inr f
    | PStr s \<Rightarrow> (case float_of_text s of None \<Rightarrow> Inl ValueError | Some f \<Rightarrow> Inr f)
    | PList _ \<Rightarrow> Inl TypeError
    | PDict _ \<Rightarrow> Inl TypeError)"

fun float_less :: "pyfloat \<Rightarrow> pyfloat \<Rightarrow> bool" where
  "float_less NaN y = False"
| "float_less x NaN = False"
| "float_less (Fin a) (Fin b) = (a < b)"
| "float_less NegInf y = (y \<noteq> NegInf)"
| "float_less x PosInf = (x \<noteq> PosInf)"
| "float_less x y = False"

section \<open>Validation of an entry\<close>

definition KNOWN_RULE_TYPES :: "string set" where
  "KNOWN_RULE_TYPES = {''ip'', ''cidr'', ''ua'', ''composite''}"

definition KNOWN_MATCH_TYPES :: "string set" where
  "KNOWN_MATCH_TYPES = {''exact'', ''regex'', ''contains'', ''cidr''}"

definition KNOWN_ACTIONS :: "string set" where
  "KNOWN_ACTIONS = {''block'', ''challenge'', ''throttle'', ''log_only''}"

text \<open>\<open>None\<close> for a confidence that does not parse.\<close>

definition validate_confidence :: "(string \<times> pyval) list \<Rightarrow> py_exc + pyfloat option" where
  "validate_confidence entry = (case to_float (get_item entry ''confidence'' (PFloat (Fin 0))) of
      Inr f \<Rightarrow> Inr (Some f)
    | Inl e \<Rightarrow> if e \<in> {TypeError, ValueError} then Inr None else Inl e)"

definition validate_pattern :: "regex_engine \<Rightarrow> string \<Rightarrow> string \<Rightarrow> bool" where
  "validate_pattern X pattern match_type =
     (if pattern = [] \<or> 512 < length pattern then False
      else if match_type \<noteq> ''regex'' then True
      else (case validate_ua_regex_pattern X pattern of Inl _ \<Rightarrow> False | Inr _ \<Rightarrow> True))"

text \<open>The call on any value: \<open>len\<close> of a number fails, a list cannot be compiled, and a list or dictionary
  passes where no expression is compiled; the warning slices the value, which a dictionary refuses (with \<open>TypeError\<close>, or \<open>KeyError\<close> from Python 3.12
  on; both abort the synchronisation).\<close>

definition check_pattern :: "regex_engine \<Rightarrow> pyval \<Rightarrow> string \<Rightarrow> py_exc + bool" where
  "check_pattern X pattern match_type = (case pattern of
      PStr p \<Rightarrow> Inr (validate_pattern X p match_type)
    | PList vs \<Rightarrow> (if 512 < length vs then Inr False else if match_type \<noteq> ''regex'' then Inr True else Inl TypeError)
    | PDict d \<Rightarrow> (if length d \<le> 512 \<and> match_type \<noteq> ''regex'' then Inr True else Inl TypeError)
    | _ \<Rightarrow> Inl TypeError)"

record feed_env =
  fetch :: "string \<Rightarrow> py_exc + pyval"
  parse_datetime :: "string \<Rightarrow> py_exc + rat option"
  decimal_column :: "pyfloat \<Rightarrow> py_exc + rat"
  integer_column :: "pyval \<Rightarrow> py_exc + int"
  text_column :: "pyval \<Rightarrow> string"

record feed_item =
  it_rule_type :: string
  it_match_type :: string
  it_pattern :: string
  it_expires :: rat
  it_confidence :: pyfloat
  it_reporters :: "pyval option"

datatype verdict_of_entry = Skip | Allow_entry feed_item pyval | Block_entry feed_item string

text \<open>The tests of the loop body before the database is touched, in their order.\<close>

definition entry_expires :: "feed_env \<Rightarrow> rat \<Rightarrow> (string \<times> pyval) list \<Rightarrow> py_exc + rat" where
  "entry_expires F now entry =
     (let feed_expires = get_item entry ''expires'' PNone; dflt = now + 30 * 86400
      in if \<not> py_true feed_expires then Inr dflt
         else (case feed_expires of
             PStr s \<Rightarrow> (case parse_datetime F s of
                Inl e \<Rightarrow> Inl e | Inr None \<Rightarrow> Inr dflt | Inr (Some t) \<Rightarrow> Inr t)
           | _ \<Rightarrow> Inl TypeError))"

text \<open>The pattern goes into a set of keys before it goes to the database, so it must be hashable.\<close>

definition settle_entry :: "(string \<times> pyval) list \<Rightarrow> pyval \<Rightarrow> (string \<Rightarrow> feed_item) \<Rightarrow> py_exc + verdict_of_entry" where
  "settle_entry entry pattern item =
     (if get_item entry ''kind'' (PStr ''block'') = PStr ''allow''
      then (let rdns_pattern = get_item entry ''rdns_pattern'' (PStr [])
        in if \<not> py_true (get_item entry ''verify_rdns'' (PBool False)) \<or> \<not> py_true rdns_pattern
           then (case pattern of PDict _ \<Rightarrow> Inl TypeError | _ \<Rightarrow> Inr Skip)
           else (case pattern of PStr p \<Rightarrow> Inr (Allow_entry (item p) rdns_pattern) | _ \<Rightarrow> Inl TypeError))
      else (let action = get_item entry ''action'' (PStr ''block'')
        in case in_names action KNOWN_ACTIONS of
             Inl e \<Rightarrow> Inl e
           | Inr False \<Rightarrow> Inr Skip
           | Inr True \<Rightarrow> (case (pattern, action) of (PStr p, PStr a) \<Rightarrow> Inr (Block_entry (item p) a) | _ \<Rightarrow> Inl TypeError)))"

definition text_of :: "pyval \<Rightarrow> string" where
  "text_of v = (case v of PStr s \<Rightarrow> s | _ \<Rightarrow> [])"

definition check_valid :: "feed_env \<Rightarrow> 'r env \<Rightarrow> pyfloat \<Rightarrow> (string \<times> pyval) list \<Rightarrow> string \<Rightarrow> string \<Rightarrow> pyval \<Rightarrow> py_exc + verdict_of_entry" where
  "check_valid F E confidence entry rule_type match_type pattern = (case check_pattern (regex E) pattern match_type of
      Inl e \<Rightarrow> Inl e
    | Inr False \<Rightarrow> Inr Skip
    | Inr True \<Rightarrow> (case entry_expires F (time_now E) entry of
          Inl e \<Rightarrow> Inl e
        | Inr expires_at \<Rightarrow> settle_entry entry pattern (\<lambda>p.
            \<lparr>it_rule_type = rule_type, it_match_type = match_type, it_pattern = p, it_expires = expires_at,
             it_confidence = confidence, it_reporters = map_of entry ''reporters''\<rparr>)))"

definition check_entry :: "feed_env \<Rightarrow> 'r env \<Rightarrow> rat \<Rightarrow> pyval \<Rightarrow> py_exc + verdict_of_entry" where
  "check_entry F E threshold v = (case v of
      PDict entry \<Rightarrow>
        (case validate_confidence entry of
           Inl e \<Rightarrow> Inl e
         | Inr None \<Rightarrow> Inr Skip
         | Inr (Some confidence) \<Rightarrow>
             if float_less confidence (Fin threshold) \<or> float_less (Fin 1) confidence then Inr Skip
             else (let rule_type = get_item entry ''rule_type'' (PStr []); pattern = get_item entry ''pattern'' (PStr []);
                       match_type = get_item entry ''match_type'' (PStr ''exact'')
               in if \<not> py_true rule_type \<or> \<not> py_true pattern then Inr Skip
                  else (case in_names rule_type KNOWN_RULE_TYPES of
                      Inl e \<Rightarrow> Inl e
                    | Inr False \<Rightarrow> Inr Skip
                    | Inr True \<Rightarrow> (case in_names match_type KNOWN_MATCH_TYPES of
                          Inl e \<Rightarrow> Inl e
                        | Inr False \<Rightarrow> Inr Skip
                        | Inr True \<Rightarrow> check_valid F E confidence entry (text_of rule_type) (text_of match_type) pattern))))
    | _ \<Rightarrow> Inl AttributeError)"

section \<open>Writing the rules\<close>

definition feed_key :: "feed_item \<Rightarrow> string \<times> string" where
  "feed_key item = (it_rule_type item, it_pattern item)"

definition block_key :: "BlockRule \<Rightarrow> string \<times> string" where
  "block_key r = (br_rule_type r, br_pattern r)"

definition allow_key :: "AllowRule \<Rightarrow> string \<times> string" where
  "allow_key r = (ar_rule_type r, ar_pattern r)"

definition feed_name :: "feed_item \<Rightarrow> string" where
  "feed_name item = ''Feed: '' @ it_rule_type item @ '' '' @ take 50 (it_pattern item)"

definition today :: "'r env \<Rightarrow> int" where
  "today E = \<lfloor>time_now E / 86400\<rfloor>"

definition columns :: "feed_env \<Rightarrow> feed_item \<Rightarrow> int \<Rightarrow> ('w, rat \<times> int) py" where
  "columns F item old_reporters = (case decimal_column F (it_confidence item) of
      Inl e \<Rightarrow> raise e
    | Inr c \<Rightarrow> (case it_reporters item of
          None \<Rightarrow> ret (c, old_reporters)
        | Some v \<Rightarrow> (case integer_column F v of Inl e \<Rightarrow> raise e | Inr n \<Rightarrow> ret (c, n))))"

definition find_feed_block :: "feed_item \<Rightarrow> BlockRule list \<Rightarrow> BlockRule option" where
  "find_feed_block item rows = (case BlockRule_ordering (filter (\<lambda>r. br_source r = FEED \<and> block_key r = feed_key item) rows) of
      [] \<Rightarrow> None | r # _ \<Rightarrow> Some r)"

definition created_block :: "'r env \<Rightarrow> feed_item \<Rightarrow> string \<Rightarrow> rat \<Rightarrow> int \<Rightarrow> uuid \<Rightarrow> BlockRule" where
  "created_block E item action confidence reporters u =
     \<lparr>br_id = u, br_name = feed_name item, br_rule_type = it_rule_type item, br_match_type = it_match_type item,
      br_pattern = it_pattern item, br_action = action, br_priority = 100, br_is_active = True, br_source = FEED,
      br_expires_at = Some (it_expires item), br_hit_count = 0, br_last_hit_at = None, br_confidence = confidence, br_notes = [],
      br_review_status = NOT_APPLICABLE, br_reviewed_at = None, br_detectors = [], br_created_at = time_now E,
      br_feed_first_seen = Some (today E), br_feed_reporters = reporters\<rparr>"

definition updated_block :: "feed_item \<Rightarrow> string \<Rightarrow> rat \<Rightarrow> int \<Rightarrow> BlockRule \<Rightarrow> BlockRule" where
  "updated_block item action confidence reporters r =
     r\<lparr>br_action := action, br_match_type := it_match_type item, br_expires_at := Some (it_expires item),
       br_confidence := confidence, br_is_active := True, br_feed_reporters := reporters\<rparr>"

definition insert_block :: "'r env \<Rightarrow> (uuid \<Rightarrow> BlockRule) \<Rightarrow> ('r world, uuid) py" where
  "insert_block E row = db E (\<lambda>w. let u = uuid4 E (uuids_used w) in
     (Inr u, w\<lparr>uuids_used := Suc (uuids_used w), BlockRules := BlockRules w @ [row u]\<rparr>))"

text \<open>\<open>True\<close> when the rule is new. The transaction around the read and the write has nothing to undo: the
  save is its only write, and the receivers that run after it never raise.\<close>

definition write_block :: "feed_env \<Rightarrow> 'r env \<Rightarrow> feed_item \<Rightarrow> string \<Rightarrow> ('r world, bool) py" where
  "write_block F E item action =
     andThen (db E (read_state (\<lambda>w. find_feed_block item (BlockRules w)))) (\<lambda>existing. case existing of
        Some r \<Rightarrow> andThen (columns F item (br_feed_reporters r)) (\<lambda>(confidence, reporters).
            andThen (save_rule E (updated_block item action confidence reporters r)) (\<lambda>_.
            andThen (on_block_rule_save E (br_id r) False) (\<lambda>_. ret False)))
      | None \<Rightarrow> andThen (columns F item 0) (\<lambda>(confidence, reporters).
            andThen (insert_block E (created_block E item action confidence reporters)) (\<lambda>u.
            andThen (on_block_rule_save E u True) (\<lambda>_. ret True))))"

definition find_feed_allow :: "feed_item \<Rightarrow> AllowRule list \<Rightarrow> AllowRule option" where
  "find_feed_allow item rows = (case sort_key ar_name (filter (\<lambda>r. ar_source r = FEED \<and> allow_key r = feed_key item) rows) of
      [] \<Rightarrow> None | r # _ \<Rightarrow> Some r)"

definition save_allow :: "'r env \<Rightarrow> AllowRule \<Rightarrow> ('r world, unit) py" where
  "save_allow E r = db E (update_state (\<lambda>w. w\<lparr>AllowRules := map (\<lambda>q. if ar_id q = ar_id r then r else q) (AllowRules w)\<rparr>))"

definition created_allow :: "'r env \<Rightarrow> feed_item \<Rightarrow> string \<Rightarrow> bool \<Rightarrow> rat \<Rightarrow> int \<Rightarrow> uuid \<Rightarrow> AllowRule" where
  "created_allow E item rdns_pattern active confidence reporters u =
     \<lparr>ar_id = u, ar_name = feed_name item, ar_rule_type = it_rule_type item, ar_match_type = it_match_type item, ar_pattern = it_pattern item,
      ar_verify_rdns = True, ar_rdns_pattern = rdns_pattern, ar_is_active = active, ar_source = FEED,
      ar_expires_at = Some (it_expires item), ar_confidence = confidence, ar_feed_first_seen = Some (today E), ar_feed_reporters = reporters\<rparr>"

definition updated_allow :: "feed_item \<Rightarrow> string \<Rightarrow> bool \<Rightarrow> rat \<Rightarrow> int \<Rightarrow> AllowRule \<Rightarrow> AllowRule" where
  "updated_allow item rdns_pattern quarantine confidence reporters r =
     r\<lparr>ar_match_type := it_match_type item, ar_verify_rdns := True, ar_rdns_pattern := rdns_pattern,
       ar_expires_at := Some (it_expires item), ar_confidence := confidence, ar_feed_reporters := reporters,
       ar_is_active := (if quarantine then ar_is_active r else True)\<rparr>"

definition insert_allow :: "'r env \<Rightarrow> (uuid \<Rightarrow> AllowRule) \<Rightarrow> ('r world, uuid) py" where
  "insert_allow E row = db E (\<lambda>w. let u = uuid4 E (uuids_used w) in
     (Inr u, w\<lparr>uuids_used := Suc (uuids_used w), AllowRules := AllowRules w @ [row u]\<rparr>))"

definition write_allow :: "ops_conf \<Rightarrow> feed_env \<Rightarrow> 'r env \<Rightarrow> feed_item \<Rightarrow> pyval \<Rightarrow> ('r world, bool) py" where
  "write_allow oc F E item rdns_pattern =
     (let quarantine = DJANGO_WAF_FEED_QUARANTINE_ALLOW_RULES oc in
      andThen (db E (read_state (\<lambda>w. find_feed_allow item (AllowRules w)))) (\<lambda>existing. case existing of
        Some r \<Rightarrow> andThen (columns F item (ar_feed_reporters r)) (\<lambda>(confidence, reporters).
            andThen (save_allow E (updated_allow item (text_column F rdns_pattern) quarantine confidence reporters r)) (\<lambda>_.
            andThen (on_allow_rule_save E (ar_id r) False) (\<lambda>_. ret False)))
      | None \<Rightarrow> andThen (columns F item 0) (\<lambda>(confidence, reporters).
            andThen (insert_allow E (created_allow E item (text_column F rdns_pattern) (\<not> quarantine) confidence reporters)) (\<lambda>u.
            andThen (on_allow_rule_save E u True) (\<lambda>_. ret True)))))"

section \<open>Synchronisation\<close>

record sync_state =
  sy_created :: int
  sy_updated :: int
  sy_skipped :: int
  seen_block_keys :: "(string \<times> string) list"
  seen_allow_keys :: "(string \<times> string) list"

definition count_write :: "bool \<Rightarrow> sync_state \<Rightarrow> sync_state" where
  "count_write created st = (if created then st\<lparr>sy_created := sy_created st + 1\<rparr> else st\<lparr>sy_updated := sy_updated st + 1\<rparr>)"

fun sync_entries :: "ops_conf \<Rightarrow> feed_env \<Rightarrow> 'r env \<Rightarrow> rat \<Rightarrow> pyval list \<Rightarrow> sync_state \<Rightarrow> ('r world, sync_state) py" where
  "sync_entries oc F E threshold [] st = ret st"
| "sync_entries oc F E threshold (v # vs) st = (case check_entry F E threshold v of
      Inl e \<Rightarrow> raise e
    | Inr Skip \<Rightarrow> sync_entries oc F E threshold vs (st\<lparr>sy_skipped := sy_skipped st + 1\<rparr>)
    | Inr (Allow_entry item rdns_pattern) \<Rightarrow> andThen (write_allow oc F E item rdns_pattern)
        (\<lambda>c. sync_entries oc F E threshold vs (count_write c (st\<lparr>seen_allow_keys := feed_key item # seen_allow_keys st\<rparr>)))
    | Inr (Block_entry item action) \<Rightarrow> andThen (write_block F E item action)
        (\<lambda>c. sync_entries oc F E threshold vs (count_write c (st\<lparr>seen_block_keys := feed_key item # seen_block_keys st\<rparr>))))"

text \<open>\<open>save(update_fields=["is_active"])\<close> of a row that is gone raises.\<close>

definition deactivate_block :: "'r env \<Rightarrow> uuid \<Rightarrow> ('r world, unit) py" where
  "deactivate_block E u = andThen (db E (\<lambda>w. if u \<in> br_id ` set (BlockRules w)
       then (Inr (), w\<lparr>BlockRules := map (\<lambda>r. if br_id r = u then r\<lparr>br_is_active := False\<rparr> else r) (BlockRules w)\<rparr>)
       else (Inl DatabaseError, w)))
     (\<lambda>_. on_block_rule_save E u False)"

definition deactivate_allow :: "'r env \<Rightarrow> uuid \<Rightarrow> ('r world, unit) py" where
  "deactivate_allow E u = andThen (db E (\<lambda>w. if u \<in> ar_id ` set (AllowRules w)
       then (Inr (), w\<lparr>AllowRules := map (\<lambda>r. if ar_id r = u then r\<lparr>ar_is_active := False\<rparr> else r) (AllowRules w)\<rparr>)
       else (Inl DatabaseError, w)))
     (\<lambda>_. on_allow_rule_save E u False)"

fun each :: "('a \<Rightarrow> ('w, unit) py) \<Rightarrow> 'a list \<Rightarrow> ('w, unit) py" where
  "each f [] = ret ()"
| "each f (x # xs) = andThen (f x) (\<lambda>_. each f xs)"

definition expire_absent :: "'r env \<Rightarrow> sync_state \<Rightarrow> ('r world, int) py" where
  "expire_absent E st =
     andThen (db E (read_state (\<lambda>w. filter (\<lambda>r. br_source r = FEED \<and> br_is_active r \<and> block_key r \<notin> set (seen_block_keys st)) (BlockRules w)))) (\<lambda>blocks.
     andThen (each (\<lambda>r. deactivate_block E (br_id r)) blocks) (\<lambda>_.
     andThen (db E (read_state (\<lambda>w. filter (\<lambda>r. ar_source r = FEED \<and> ar_is_active r \<and> allow_key r \<notin> set (seen_allow_keys st)) (AllowRules w)))) (\<lambda>allows.
     andThen (each (\<lambda>r. deactivate_allow E (ar_id r)) allows) (\<lambda>_. ret (int (length blocks + length allows))))))"

text \<open>What a \<open>for\<close> loop runs over.\<close>

definition iterate :: "pyval \<Rightarrow> py_exc + pyval list" where
  "iterate v = (case v of
      PList vs \<Rightarrow> Inr vs
    | PStr s \<Rightarrow> Inr (map (\<lambda>c. PStr [c]) s)
    | PDict d \<Rightarrow> Inr (map (\<lambda>(k, _). PStr k) d)
    | _ \<Rightarrow> Inl TypeError)"

definition feed_entries :: "pyval \<Rightarrow> py_exc + pyval list" where
  "feed_entries feed_data = (case feed_data of
      PList vs \<Rightarrow> Inr vs
    | PDict d \<Rightarrow> iterate (get_item d ''rules'' (PList []))
    | _ \<Rightarrow> Inl AttributeError)"

record sync_result =
  sr_created :: int
  sr_updated :: int
  sr_expired :: int
  sr_skipped :: int
  sr_error :: bool

definition sync_feed :: "ops_conf \<Rightarrow> feed_env \<Rightarrow> 'r env \<Rightarrow> string \<Rightarrow> rat option \<Rightarrow> ('r world, sync_result) py" where
  "sync_feed oc F E feed_url min_confidence =
     (let url = (if feed_url = [] then DJANGO_WAF_FEED_URL oc else feed_url);
          threshold = (case min_confidence of None \<Rightarrow> DJANGO_WAF_FEED_MIN_CONFIDENCE oc | Some q \<Rightarrow> q)
      in case fetch F url of
           Inl _ \<Rightarrow> ret \<lparr>sr_created = 0, sr_updated = 0, sr_expired = 0, sr_skipped = 0, sr_error = True\<rparr>
         | Inr feed_data \<Rightarrow> (case feed_entries feed_data of
               Inl e \<Rightarrow> raise e
             | Inr vs \<Rightarrow>
                 andThen (sync_entries oc F E threshold vs \<lparr>sy_created = 0, sy_updated = 0, sy_skipped = 0, seen_block_keys = [], seen_allow_keys = []\<rparr>)
                   (\<lambda>st. andThen (expire_absent E st)
                   (\<lambda>expired. andThen (swallow (send E (Feed_synced (sy_created st) (sy_updated st) expired (sy_skipped st))))
                   (\<lambda>_. ret \<lparr>sr_created = sy_created st, sr_updated = sy_updated st, sr_expired = expired, sr_skipped = sy_skipped st, sr_error = False\<rparr>)))))"

definition sync_threat_feed :: "ops_conf \<Rightarrow> feed_env \<Rightarrow> 'r env \<Rightarrow> ('r world, sync_result option) py" where
  "sync_threat_feed oc F E = (if \<not> DJANGO_WAF_FEED_ENABLED oc then ret None
     else andThen (sync_feed oc F E [] None) (\<lambda>r. ret (Some r)))"

section \<open>What the feed can bring in\<close>

lemma in_names_True: "in_names v names = Inr True \<Longrightarrow> \<exists>s. v = PStr s \<and> s \<in> names"
  by (cases v) (auto simp: in_names_def)

definition admitted :: "'r env \<Rightarrow> feed_item \<Rightarrow> bool" where
  "admitted E item = (it_rule_type item \<in> KNOWN_RULE_TYPES \<and> it_match_type item \<in> KNOWN_MATCH_TYPES \<and>
     validate_pattern (regex E) (it_pattern item) (it_match_type item))"

lemma check_valid_items:
  assumes "rule_type \<in> KNOWN_RULE_TYPES" "match_type \<in> KNOWN_MATCH_TYPES"
  shows "check_valid F E c entry rule_type match_type pattern = Inr (Block_entry item action) \<Longrightarrow>
      admitted E item \<and> action \<in> KNOWN_ACTIONS"
    and "check_valid F E c entry rule_type match_type pattern = Inr (Allow_entry item rdns) \<Longrightarrow>
      admitted E item \<and> py_true rdns"
  using assms
  by (cases pattern; auto simp: check_valid_def settle_entry_def check_pattern_def admitted_def Let_def
      dest!: in_names_True split: sum.splits bool.splits if_splits pyval.splits)+

lemma check_entry_valid:
  assumes "check_entry F E threshold v = Inr res" "res \<noteq> Skip"
  shows "\<exists>entry c rule_type match_type pattern. rule_type \<in> KNOWN_RULE_TYPES \<and> match_type \<in> KNOWN_MATCH_TYPES \<and>
     check_valid F E c entry rule_type match_type pattern = Inr res"
proof (cases v)
  case (PDict entry)
  with assms show ?thesis
    by (auto simp: check_entry_def text_of_def Let_def dest!: in_names_True
        split: sum.splits option.splits if_splits bool.splits) blast
qed (use assms in \<open>simp_all add: check_entry_def\<close>)

lemma Block_entry_admitted:
  "check_entry F E threshold v = Inr (Block_entry item action) \<Longrightarrow> admitted E item \<and> action \<in> KNOWN_ACTIONS"
  using check_entry_valid check_valid_items(1) by blast

lemma Allow_entry_admitted:
  "check_entry F E threshold v = Inr (Allow_entry item rdns) \<Longrightarrow> admitted E item \<and> py_true rdns"
  using check_entry_valid check_valid_items(2) by blast

lemma keeps_value:
  assumes "keeps P m" "\<And>w x w'. P w \<Longrightarrow> m w = (Inr x, w') \<Longrightarrow> Q x" "\<And>x. Q x \<Longrightarrow> keeps P (f x)"
  shows "keeps P (andThen m f)"
  unfolding keeps_def
proof (intro allI impI)
  fix w assume "P w"
  obtain x w' where m: "m w = (x, w')" by (cases "m w")
  with assms(1) \<open>P w\<close> have "P w'" by (rule keepsD)
  with m assms(2) [OF \<open>P w\<close>] assms(3) show "P (snd (andThen m f w))"
    by (cases x) (simp_all add: andThen_def keeps_def)
qed

lemma find_feed_block_Some:
  "find_feed_block item rows = Some r \<Longrightarrow> r \<in> set rows \<and> br_source r = FEED \<and> block_key r = feed_key item"
  unfolding find_feed_block_def BlockRule_ordering_def
  by (auto split: list.splits dest!: arg_cong [where f = set])

lemma find_feed_allow_Some:
  "find_feed_allow item rows = Some r \<Longrightarrow> r \<in> set rows \<and> ar_source r = FEED \<and> allow_key r = feed_key item"
  unfolding find_feed_allow_def by (auto split: list.splits dest!: arg_cong [where f = set])

text \<open>A property of single rows that the writes of a synchronisation respect holds of every row
  afterwards, whatever the outcome.\<close>

locale feed_rows =
  fixes oc :: ops_conf and F :: feed_env and E :: "'r env" and B :: "BlockRule \<Rightarrow> bool" and A :: "AllowRule \<Rightarrow> bool"
  assumes rivals_rows: "\<forall>r\<in>set rows. B r \<Longrightarrow> \<forall>r\<in>set (rivals E k rows). B r"
    and block_off: "B r \<Longrightarrow> B (r\<lparr>br_is_active := False\<rparr>)"
    and allow_off: "A a \<Longrightarrow> A (a\<lparr>ar_is_active := False\<rparr>)"
    and block_created: "admitted E item \<Longrightarrow> action \<in> KNOWN_ACTIONS \<Longrightarrow> B (created_block E item action c n u)"
    and block_updated: "admitted E item \<Longrightarrow> action \<in> KNOWN_ACTIONS \<Longrightarrow> block_key r = feed_key item \<Longrightarrow> B r \<Longrightarrow>
      B (updated_block item action c n r)"
    and allow_created: "py_true v \<Longrightarrow>
      A (created_allow E item (text_column F v) (\<not> DJANGO_WAF_FEED_QUARANTINE_ALLOW_RULES oc) c n u)"
    and allow_updated: "py_true v \<Longrightarrow> A a \<Longrightarrow>
      A (updated_allow item (text_column F v) (DJANGO_WAF_FEED_QUARANTINE_ALLOW_RULES oc) c n a)"
begin

definition rows_ok :: "'r world \<Rightarrow> bool" where
  "rows_ok w = ((\<forall>r\<in>set (BlockRules w). B r) \<and> (\<forall>a\<in>set (AllowRules w). A a))"

lemma rows_ok_rivals: "rows_ok w \<Longrightarrow> rows_ok (w\<lparr>BlockRules := rivals E k (BlockRules w), db_ops := j\<rparr>)"
  using rivals_rows [of "BlockRules w" k] by (simp add: rows_ok_def)

lemma kept_db: "keeps rows_ok m \<Longrightarrow> keeps rows_ok (db E m)"
  using rows_ok_rivals by (simp add: keeps_def db_def Let_def)

lemma kept_frames: "frames BlockRules m \<Longrightarrow> frames AllowRules m \<Longrightarrow> keeps rows_ok m"
  by (simp add: keeps_def frames_def rows_ok_def)

lemma kept_handlers: "keeps rows_ok (on_block_rule_save E i c)" "keeps rows_ok (on_allow_rule_save E i c)"
  by (rule kept_frames [OF frames_handlers(1) frames_handlers(1)], simp_all)
    (rule kept_frames [OF frames_handlers(3) frames_handlers(3)], simp_all)

lemma kept_send: "keeps rows_ok (swallow (send E s))"
  by (rule kept_frames) (auto intro!: frame_intros)

lemma kept_deactivate: "keeps rows_ok (deactivate_block E i)" "keeps rows_ok (deactivate_allow E i)"
proof -
  have "keeps rows_ok (\<lambda>w. if i \<in> br_id ` set (BlockRules w)
       then (Inr (), w\<lparr>BlockRules := map (\<lambda>r. if br_id r = i then r\<lparr>br_is_active := False\<rparr> else r) (BlockRules w)\<rparr>)
       else (Inl DatabaseError, w))"
    using block_off by (auto simp: keeps_def rows_ok_def)
  then show "keeps rows_ok (deactivate_block E i)"
    unfolding deactivate_block_def by (intro keep_intros kept_db kept_handlers)
  have "keeps rows_ok (\<lambda>w. if i \<in> ar_id ` set (AllowRules w)
       then (Inr (), w\<lparr>AllowRules := map (\<lambda>r. if ar_id r = i then r\<lparr>ar_is_active := False\<rparr> else r) (AllowRules w)\<rparr>)
       else (Inl DatabaseError, w))"
    using allow_off by (auto simp: keeps_def rows_ok_def)
  then show "keeps rows_ok (deactivate_allow E i)"
    unfolding deactivate_allow_def by (intro keep_intros kept_db kept_handlers)
qed

lemma kept_each: "(\<And>x. keeps rows_ok (f x)) \<Longrightarrow> keeps rows_ok (each f xs)"
proof (induction xs)
  case (Cons x xs)
  then show ?case unfolding each.simps by (intro keep_intros) auto
qed (unfold each.simps, rule keeps_ret)

lemma kept_expire_absent: "keeps rows_ok (expire_absent E st)"
  unfolding expire_absent_def by (intro keep_intros kept_db kept_each kept_deactivate)

lemma kept_found:
  assumes "\<And>w x. rows_ok w \<Longrightarrow> f w = x \<Longrightarrow> Q x" "\<And>x. Q x \<Longrightarrow> keeps rows_ok (k x)"
  shows "keeps rows_ok (andThen (db E (read_state f)) k)"
proof (rule keeps_value [where Q = Q])
  show "keeps rows_ok (db E (read_state f))" by (intro kept_db keep_intros)
next
  fix w x w' assume "rows_ok w" "db E (read_state f) w = (Inr x, w')"
  then have "x = f (w\<lparr>BlockRules := rivals E (db_ops w) (BlockRules w), db_ops := Suc (db_ops w)\<rparr>)"
    by (auto simp: db_def Let_def split: if_splits)
  moreover have "rows_ok (w\<lparr>BlockRules := rivals E (db_ops w) (BlockRules w), db_ops := Suc (db_ops w)\<rparr>)"
    using \<open>rows_ok w\<close> by (rule rows_ok_rivals)
  ultimately show "Q x" using assms(1) by blast
qed (rule assms(2))

lemma kept_columns: "(\<And>c n. keeps rows_ok (k (c, n))) \<Longrightarrow> keeps rows_ok (andThen (columns F item old) k)"
  unfolding columns_def by (intro keep_intros) (auto intro!: keep_intros split: sum.splits option.splits)

lemma kept_save_block: "B r \<Longrightarrow> keeps rows_ok (save_rule E r)"
  unfolding save_rule_def by (rule kept_db) (auto simp: keeps_def rows_ok_def)

lemma kept_save_allow: "A r \<Longrightarrow> keeps rows_ok (save_allow E r)"
  unfolding save_allow_def by (rule kept_db) (auto simp: keeps_def rows_ok_def)

lemma kept_insert_block: "(\<And>u. B (row u)) \<Longrightarrow> keeps rows_ok (insert_block E row)"
  unfolding insert_block_def by (rule kept_db) (simp add: keeps_def rows_ok_def Let_def)

lemma kept_insert_allow: "(\<And>u. A (row u)) \<Longrightarrow> keeps rows_ok (insert_allow E row)"
  unfolding insert_allow_def by (rule kept_db) (simp add: keeps_def rows_ok_def Let_def)

lemma kept_write_block:
  assumes "admitted E item" "action \<in> KNOWN_ACTIONS"
  shows "keeps rows_ok (write_block F E item action)"
  unfolding write_block_def
proof (rule kept_found [where Q = "\<lambda>x. case x of None \<Rightarrow> True | Some r \<Rightarrow> B r \<and> block_key r = feed_key item"])
  fix w x assume "rows_ok w" "find_feed_block item (BlockRules w) = x"
  then show "case x of None \<Rightarrow> True | Some r \<Rightarrow> B r \<and> block_key r = feed_key item"
    by (cases x) (auto simp: rows_ok_def dest!: find_feed_block_Some)
next
  fix x assume "case x of None \<Rightarrow> True | Some r \<Rightarrow> B r \<and> block_key r = feed_key item"
  with assms show "keeps rows_ok (case x of
        None \<Rightarrow> andThen (columns F item 0) (\<lambda>(confidence, reporters).
            andThen (insert_block E (created_block E item action confidence reporters)) (\<lambda>u.
            andThen (on_block_rule_save E u True) (\<lambda>_. ret True)))
      | Some r \<Rightarrow> andThen (columns F item (br_feed_reporters r)) (\<lambda>(confidence, reporters).
            andThen (save_rule E (updated_block item action confidence reporters r)) (\<lambda>_.
            andThen (on_block_rule_save E (br_id r) False) (\<lambda>_. ret False))))"
    by (cases x) (auto intro!: kept_columns keep_intros kept_handlers kept_insert_block kept_save_block block_created block_updated)
qed

lemma kept_write_allow:
  assumes "py_true v"
  shows "keeps rows_ok (write_allow oc F E item v)"
  unfolding write_allow_def Let_def
proof (rule kept_found [where Q = "\<lambda>x. case x of None \<Rightarrow> True | Some r \<Rightarrow> A r"])
  fix w x assume "rows_ok w" "find_feed_allow item (AllowRules w) = x"
  then show "case x of None \<Rightarrow> True | Some r \<Rightarrow> A r"
    by (cases x) (auto simp: rows_ok_def dest!: find_feed_allow_Some)
next
  let ?q = "DJANGO_WAF_FEED_QUARANTINE_ALLOW_RULES oc" and ?t = "text_column F v"
  fix x assume "case x of None \<Rightarrow> True | Some r \<Rightarrow> A r"
  with assms show "keeps rows_ok (case x of
        None \<Rightarrow> andThen (columns F item 0) (\<lambda>(confidence, reporters).
            andThen (insert_allow E (created_allow E item ?t (\<not> ?q) confidence reporters)) (\<lambda>u.
            andThen (on_allow_rule_save E u True) (\<lambda>_. ret True)))
      | Some r \<Rightarrow> andThen (columns F item (ar_feed_reporters r)) (\<lambda>(confidence, reporters).
            andThen (save_allow E (updated_allow item ?t ?q confidence reporters r)) (\<lambda>_.
            andThen (on_allow_rule_save E (ar_id r) False) (\<lambda>_. ret False))))"
    by (cases x) (auto intro!: kept_columns keep_intros kept_handlers kept_insert_allow kept_save_allow allow_created allow_updated)
qed

lemma kept_sync_entries: "keeps rows_ok (sync_entries oc F E threshold vs st)"
proof (induction vs arbitrary: st)
  case (Cons v vs)
  show ?case
  proof (cases "check_entry F E threshold v")
    case (Inr res)
    then show ?thesis using Cons
      by (cases res) (auto intro!: keep_intros kept_write_block kept_write_allow dest: Block_entry_admitted Allow_entry_admitted)
  qed (simp only: sync_entries.simps sum.case keeps_raise)
qed (simp only: sync_entries.simps keeps_ret)

lemma kept_sync_feed: "keeps rows_ok (sync_feed oc F E url min_confidence)"
  unfolding sync_feed_def Let_def
  by (auto intro!: keep_intros kept_sync_entries kept_expire_absent kept_send split: sum.splits)

lemma kept_sync: "keeps rows_ok (sync_threat_feed oc F E)"
  unfolding sync_threat_feed_def by (intro keep_intros kept_sync_feed)

lemma sync_rows_ok:
  assumes "\<forall>r\<in>set (BlockRules w). B r" "\<forall>a\<in>set (AllowRules w). A a"
  shows "(\<forall>r\<in>set (BlockRules (snd (sync_threat_feed oc F E w))). B r) \<and>
    (\<forall>a\<in>set (AllowRules (snd (sync_threat_feed oc F E w))). A a)"
  using kept_sync assms unfolding keeps_def rows_ok_def by blast

end

text \<open>The rows a feed may leave behind: known types and actions and a pattern that passed validation;
  for an allow rule, a reverse DNS check, and activity only where it was active before.\<close>

definition interpretable :: "'r env \<Rightarrow> BlockRule \<Rightarrow> bool" where
  "interpretable E r = (br_source r = FEED \<longrightarrow>
     br_rule_type r \<in> KNOWN_RULE_TYPES \<and> br_match_type r \<in> KNOWN_MATCH_TYPES \<and> br_action r \<in> KNOWN_ACTIONS \<and>
     validate_pattern (regex E) (br_pattern r) (br_match_type r))"

definition verified_allow :: "AllowRule \<Rightarrow> bool" where
  "verified_allow a = (ar_source a = FEED \<longrightarrow> ar_verify_rdns a \<and> ar_rdns_pattern a \<noteq> [])"

definition active_allow_ids :: "'r world \<Rightarrow> uuid set" where
  "active_allow_ids w = {ar_id a | a. a \<in> set (AllowRules w) \<and> ar_is_active a}"

definition truthy_text :: "feed_env \<Rightarrow> bool" where
  "truthy_text F = (\<forall>v. py_true v \<longrightarrow> text_column F v \<noteq> [])"

lemma feed_rows_interpretable:
  assumes "\<And>k rows. \<forall>r\<in>set rows. interpretable E r \<Longrightarrow> \<forall>r\<in>set (rivals E k rows). interpretable E r"
  shows "feed_rows oc F E (interpretable E) (\<lambda>_. True)"
proof unfold_locales
  fix rows k assume "\<forall>r\<in>set rows. interpretable E r"
  then show "\<forall>r\<in>set (rivals E k rows). interpretable E r" by (rule assms)
qed (auto simp: interpretable_def admitted_def created_block_def updated_block_def block_key_def feed_key_def)

lemma feed_rows_allow:
  assumes "DJANGO_WAF_FEED_QUARANTINE_ALLOW_RULES oc" "truthy_text F"
  shows "feed_rows oc F E (\<lambda>_. True) (\<lambda>a. (ar_is_active a \<longrightarrow> ar_id a \<in> ids) \<and> verified_allow a)"
  by unfold_locales (use assms in \<open>auto simp: verified_allow_def truthy_text_def created_allow_def updated_allow_def\<close>)

definition demo_feed :: "pyval \<Rightarrow> feed_env" where
  "demo_feed v = \<lparr>fetch = (\<lambda>_. Inr v), parse_datetime = (\<lambda>_. Inr None),
     decimal_column = (\<lambda>f. case f of Fin q \<Rightarrow> Inr q | _ \<Rightarrow> Inl ValidationError),
     integer_column = (\<lambda>v. case v of PInt n \<Rightarrow> Inr n | _ \<Rightarrow> Inl ValueError),
     text_column = (\<lambda>v. case v of PStr s \<Rightarrow> s | _ \<Rightarrow> ''value'')\<rparr>"

lemma demo_feed_text: "truthy_text (demo_feed v)"
  by (auto simp: truthy_text_def demo_feed_def py_true_def split: pyval.splits)

interpretation demo_blocks: feed_rows oc "demo_feed v" demo_env "interpretable demo_env" "\<lambda>_. True" for oc v
  by (rule feed_rows_interpretable) (simp add: demo_env_def)

definition crawler_entry :: pyval where
  "crawler_entry = PDict [(''kind'', PStr ''allow''), (''confidence'', PInt 1), (''rule_type'', PStr ''ua''), (''pattern'', PStr ''bot''),
     (''match_type'', PStr ''contains''), (''verify_rdns'', PBool True), (''rdns_pattern'', PStr ''bot.example'')]"

definition block_entry :: pyval where
  "block_entry = PDict [(''confidence'', PInt 1), (''rule_type'', PStr ''ip''), (''pattern'', PStr ''203.0.113.9'')]"

definition feed_conf :: ops_conf where
  "feed_conf = default_ops_conf\<lparr>DJANGO_WAF_FEED_ENABLED := True\<rparr>"

text \<open>
  C26. Quarantine holds: with it switched on, no outcome of a synchronisation with any feed makes an allow rule
  active that was not active before, and every allow rule of the feed demands a reverse DNS check with
  a pattern, so the feed alone never exempts a client from the rules.
\<close>

theorem feed_never_activates_allow:
  fixes E :: "'r env" and F :: feed_env
  assumes "DJANGO_WAF_FEED_QUARANTINE_ALLOW_RULES oc" and "truthy_text F"
    and "\<forall>a\<in>set (AllowRules w). verified_allow a"
  shows "active_allow_ids (snd (sync_threat_feed oc F E w)) \<subseteq> active_allow_ids w \<and>
    (\<forall>a\<in>set (AllowRules (snd (sync_threat_feed oc F E w))). verified_allow a)"
proof -
  let ?A = "\<lambda>a. (ar_is_active a \<longrightarrow> ar_id a \<in> active_allow_ids w) \<and> verified_allow a"
  have "\<forall>a\<in>set (AllowRules w). ?A a" using assms(3) by (auto simp: active_allow_ids_def)
  from feed_rows.sync_rows_ok [OF feed_rows_allow [OF assms(1,2)] _ this, where E = E]
  have "\<forall>a\<in>set (AllowRules (snd (sync_threat_feed oc F E w))). ?A a" by simp
  then show ?thesis by (auto simp: active_allow_ids_def)
qed

theorem feed_never_activates_allow_witness:
  "active_allow_ids (snd (sync_threat_feed feed_conf (demo_feed (PList [crawler_entry])) demo_env empty_world)) \<subseteq> active_allow_ids empty_world \<and>
    map ar_pattern (AllowRules (snd (sync_threat_feed feed_conf (demo_feed (PList [crawler_entry])) demo_env empty_world))) = [''bot'']"
proof -
  have "DJANGO_WAF_FEED_QUARANTINE_ALLOW_RULES feed_conf" by (simp add: feed_conf_def default_ops_conf_def)
  moreover have "\<forall>a\<in>set (AllowRules empty_world). verified_allow a" by (simp add: empty_world_def)
  moreover have "map ar_pattern (AllowRules (snd (sync_threat_feed feed_conf (demo_feed (PList [crawler_entry])) demo_env empty_world))) = [''bot'']"
    by code_simp
  ultimately show ?thesis using feed_never_activates_allow [OF _ demo_feed_text] by blast
qed

text \<open>
  C27. Whatever the feed contains and however a synchronisation ends, every block rule of the feed in the table has
  a rule type, match type and action the rule engine knows and a pattern that passed validation; an
  unrecognised action never reaches the engine. Other processes keep to the same.
\<close>

theorem feed_rules_stay_interpretable:
  fixes E :: "'r env" and F :: feed_env
  assumes "\<And>k rows. \<forall>r\<in>set rows. interpretable E r \<Longrightarrow> \<forall>r\<in>set (rivals E k rows). interpretable E r"
    and "\<forall>r\<in>set (BlockRules w). interpretable E r"
  shows "\<forall>r\<in>set (BlockRules (snd (sync_threat_feed oc F E w))). interpretable E r"
  using feed_rows.sync_rows_ok [OF feed_rows_interpretable [OF assms(1)] assms(2), where oc = oc and F = F] by simp

theorem feed_rules_stay_interpretable_witness:
  "list_all (interpretable demo_env) (BlockRules (snd (sync_threat_feed feed_conf (demo_feed (PList [block_entry])) demo_env empty_world))) \<and>
    map br_pattern (BlockRules (snd (sync_threat_feed feed_conf (demo_feed (PList [block_entry])) demo_env empty_world))) = [''203.0.113.9'']"
proof
  have "\<forall>r\<in>set (BlockRules (snd (sync_threat_feed feed_conf (demo_feed (PList [block_entry])) demo_env empty_world))). interpretable demo_env r"
    by (rule feed_rules_stay_interpretable) (simp_all add: demo_env_def empty_world_def)
  then show "list_all (interpretable demo_env) (BlockRules (snd (sync_threat_feed feed_conf (demo_feed (PList [block_entry])) demo_env empty_world)))"
    by (simp only: list_all_iff)
  show "map br_pattern (BlockRules (snd (sync_threat_feed feed_conf (demo_feed (PList [block_entry])) demo_env empty_world))) = [''203.0.113.9'']"
    by code_simp
qed

section \<open>A malformed entry\<close>

definition active_block_ids :: "BlockRule list \<Rightarrow> uuid set" where
  "active_block_ids rows = {br_id r | r. r \<in> set rows \<and> br_is_active r}"

definition rivals_leave_active :: "'r env \<Rightarrow> bool" where
  "rivals_leave_active E = (\<forall>k rows. active_block_ids rows \<subseteq> active_block_ids (rivals E k rows))"

lemma active_kept_db:
  fixes E :: "'r env"
  assumes "rivals_leave_active E" "keeps (\<lambda>w. i \<in> active_block_ids (BlockRules w)) m"
  shows "keeps (\<lambda>w. i \<in> active_block_ids (BlockRules w)) (db E m)"
  unfolding keeps_def
proof (intro allI impI)
  fix w :: "'r world" assume i: "i \<in> active_block_ids (BlockRules w)"
  let ?w = "w\<lparr>BlockRules := rivals E (db_ops w) (BlockRules w), db_ops := Suc (db_ops w)\<rparr>"
  have "i \<in> active_block_ids (BlockRules ?w)" using i assms(1) by (auto simp: rivals_leave_active_def)
  then have "i \<in> active_block_ids (BlockRules ?w) \<and> i \<in> active_block_ids (BlockRules (snd (m ?w)))"
    using assms(2) unfolding keeps_def by blast
  then show "i \<in> active_block_ids (BlockRules (snd (db E m w)))" by (simp add: db_def Let_def)
qed

lemma active_overwrite:
  assumes "br_is_active r" "i \<in> active_block_ids rows"
  shows "i \<in> active_block_ids (map (\<lambda>q. if br_id q = br_id r then r else q) rows)"
proof -
  from assms(2) obtain q where "q \<in> set rows" "br_is_active q" "br_id q = i" by (auto simp: active_block_ids_def)
  then have "(if br_id q = br_id r then r else q) \<in> set (map (\<lambda>q. if br_id q = br_id r then r else q) rows) \<and>
      br_id (if br_id q = br_id r then r else q) = i \<and> br_is_active (if br_id q = br_id r then r else q)"
    using assms(1) by auto
  then show ?thesis unfolding active_block_ids_def by blast
qed

lemma active_kept_handlers:
  "keeps (\<lambda>w. i \<in> active_block_ids (BlockRules w)) (on_block_rule_save E u c)"
  "keeps (\<lambda>w. i \<in> active_block_ids (BlockRules w)) (on_allow_rule_save E u c)"
  by (rule frames_keeps [OF frames_handlers(1)], simp_all) (rule frames_keeps [OF frames_handlers(3)], simp_all)

lemma active_kept_columns:
  "(\<And>c n. keeps P (k (c, n))) \<Longrightarrow> keeps P (andThen (columns F item old) k)"
  unfolding columns_def by (intro keep_intros) (auto intro!: keep_intros split: sum.splits option.splits)

lemma active_kept_write_block:
  assumes "rivals_leave_active E"
  shows "keeps (\<lambda>w. i \<in> active_block_ids (BlockRules w)) (write_block F E item action)"
proof -
  let ?P = "\<lambda>w. i \<in> active_block_ids (BlockRules w)"
  have "keeps ?P (save_rule E (updated_block item action c n r))" for c n r
    unfolding save_rule_def
    using active_overwrite [of "updated_block item action c n r" i]
    by (intro active_kept_db [OF assms]) (simp add: keeps_def updated_block_def)
  moreover have "keeps ?P (insert_block E row)" for row
    unfolding insert_block_def by (intro active_kept_db [OF assms]) (auto simp: keeps_def active_block_ids_def Let_def)
  ultimately show ?thesis unfolding write_block_def
    by (auto intro!: keep_intros active_kept_db [OF assms] active_kept_columns active_kept_handlers split: option.splits)
qed

lemma active_kept_write_allow:
  assumes "rivals_leave_active E"
  shows "keeps (\<lambda>w. i \<in> active_block_ids (BlockRules w)) (write_allow oc F E item v)"
proof -
  let ?P = "\<lambda>w. i \<in> active_block_ids (BlockRules w)"
  have "keeps ?P (save_allow E r)" for r
    unfolding save_allow_def by (intro active_kept_db [OF assms]) (simp add: keeps_def)
  moreover have "keeps ?P (insert_allow E row)" for row
    unfolding insert_allow_def by (intro active_kept_db [OF assms]) (simp add: keeps_def Let_def)
  ultimately show ?thesis unfolding write_allow_def Let_def
    by (auto intro!: keep_intros active_kept_db [OF assms] active_kept_columns active_kept_handlers split: option.splits)
qed

lemma active_kept_entries:
  assumes "rivals_leave_active E"
  shows "keeps (\<lambda>w. i \<in> active_block_ids (BlockRules w)) (sync_entries oc F E threshold vs st)"
proof (induction vs arbitrary: st)
  case (Cons v vs)
  show ?case
  proof (cases "check_entry F E threshold v")
    case (Inr res)
    then show ?thesis using Cons
      by (cases res) (auto intro!: keep_intros active_kept_write_block active_kept_write_allow assms)
  qed (simp only: sync_entries.simps sum.case keeps_raise)
qed (simp only: sync_entries.simps keeps_ret)

lemma sync_entries_raises:
  assumes "v \<in> set vs" "check_entry F E threshold v = Inl e"
  shows "\<exists>e'. fst (sync_entries oc F E threshold vs st w) = Inl e'"
  using assms(1)
proof (induction vs arbitrary: st w)
  case (Cons u vs)
  show ?case
  proof (cases "check_entry F E threshold u")
    case (Inr res)
    with assms(2) Cons.prems have "v \<in> set vs" by auto
    note IH = Cons.IH [OF this]
    show ?thesis
    proof (cases res)
      case (Allow_entry item r)
      with Inr IH show ?thesis
        by (cases "write_allow oc F E item r w") (auto simp: andThen_def split: sum.splits)
    next
      case (Block_entry item a)
      with Inr IH show ?thesis
        by (cases "write_block F E item a w") (auto simp: andThen_def split: sum.splits)
    qed (use Inr IH in simp)
  qed simp
qed simp

text \<open>Entries on which the validation itself raises: anything but an object, and a confidence that is an
  integer beyond the range of a float.\<close>

definition malformed :: "pyval \<Rightarrow> bool" where
  "malformed v = (case v of
      PDict d \<Rightarrow> (case map_of d ''confidence'' of Some (PInt n) \<Rightarrow> MAX_FLOAT \<le> \<bar>n\<bar> | _ \<Rightarrow> False)
    | _ \<Rightarrow> True)"

lemma malformed_raises: "malformed v \<Longrightarrow> \<exists>e. check_entry F E threshold v = Inl e"
  by (cases v) (auto simp: malformed_def check_entry_def validate_confidence_def get_item_def to_float_def
      split: option.splits pyval.splits)

lemma sync_entries_stops:
  assumes "check_entry F E threshold v = Inl e"
  shows "sync_entries oc F E threshold (xs @ v # ys) st = sync_entries oc F E threshold (xs @ [v]) st"
proof (induction xs arbitrary: st)
  case Nil
  show ?case using assms by simp
next
  case (Cons x xs)
  show ?case unfolding append_Cons sync_entries.simps Cons.IH by (rule refl)
qed

text \<open>
  C28. A single malformed entry stops the whole synchronisation: the task raises instead of skipping the entry, the
  entries after it do not matter (reading the feed does what reading it up to that entry does), and no rule that
  the feed has withdrawn is deactivated.
\<close>

theorem malformed_entry_stops_sync:
  fixes E :: "'r env" and F :: feed_env
  assumes "DJANGO_WAF_FEED_ENABLED oc" and "fetch F (DJANGO_WAF_FEED_URL oc) = Inr (PList vs)"
    and "v \<in> set vs" and "malformed v" and "rivals_leave_active E"
  shows "(\<exists>e. fst (sync_threat_feed oc F E w) = Inl e) \<and>
    active_block_ids (BlockRules w) \<subseteq> active_block_ids (BlockRules (snd (sync_threat_feed oc F E w))) \<and>
    (vs = xs @ v # ys \<longrightarrow> sync_entries oc F E (DJANGO_WAF_FEED_MIN_CONFIDENCE oc) vs st =
       sync_entries oc F E (DJANGO_WAF_FEED_MIN_CONFIDENCE oc) (xs @ [v]) st)"
proof -
  let ?st = "\<lparr>sy_created = 0, sy_updated = 0, sy_skipped = 0, seen_block_keys = [], seen_allow_keys = []\<rparr>"
  let ?m = "sync_entries oc F E (DJANGO_WAF_FEED_MIN_CONFIDENCE oc) vs ?st"
  from malformed_raises [OF assms(4)] obtain e0 where
    bad: "check_entry F E (DJANGO_WAF_FEED_MIN_CONFIDENCE oc) v = Inl e0" by blast
  from sync_entries_raises [OF assms(3) bad] obtain e where e: "fst (?m w) = Inl e" by blast
  then have "fst (sync_threat_feed oc F E w) = Inl e \<and> snd (sync_threat_feed oc F E w) = snd (?m w)"
    using assms(1,2) by (cases "?m w") (simp add: sync_threat_feed_def sync_feed_def feed_entries_def andThen_def)
  moreover have "active_block_ids (BlockRules w) \<subseteq> active_block_ids (BlockRules (snd (?m w)))"
    using active_kept_entries [OF assms(5)] unfolding keeps_def by blast
  ultimately show ?thesis using sync_entries_stops [OF bad, of oc xs ys st] by auto
qed

theorem malformed_entry_stops_sync_witness:
  "\<exists>e. fst (sync_threat_feed feed_conf (demo_feed (PList [block_entry, PStr ''203.0.113.9''])) demo_env empty_world) = Inl e"
proof -
  have "rivals_leave_active demo_env" by (simp add: rivals_leave_active_def demo_env_def)
  moreover have "DJANGO_WAF_FEED_ENABLED feed_conf" by (simp add: feed_conf_def)
  ultimately show ?thesis
    using malformed_entry_stops_sync [of feed_conf "demo_feed (PList [block_entry, PStr ''203.0.113.9''])" "[block_entry, PStr ''203.0.113.9'']"
        "PStr ''203.0.113.9''" demo_env empty_world]
    by (simp add: demo_feed_def malformed_def)
qed

section \<open>From the feed to nginx\<close>

definition address_entry :: "string \<Rightarrow> pyval" where
  "address_entry p = PDict [(''confidence'', PInt 1), (''rule_type'', PStr ''ip''), (''pattern'', PStr p)]"

lemma check_address_entry:
  fixes E :: "'r env"
  assumes "p \<noteq> []" "length p \<le> 512" "threshold \<le> 1"
  shows "check_entry F E threshold (address_entry p) = Inr (Block_entry \<lparr>it_rule_type = ''ip'', it_match_type = ''exact'', it_pattern = p,
     it_expires = time_now E + 30 * 86400, it_confidence = Fin 1, it_reporters = None\<rparr> ''block'')"
  using assms
  by (simp add: check_entry_def address_entry_def validate_confidence_def get_item_def to_float_def MAX_FLOAT_def py_true_def in_names_def
      KNOWN_RULE_TYPES_def KNOWN_MATCH_TYPES_def KNOWN_ACTIONS_def text_of_def check_valid_def check_pattern_def validate_pattern_def
      entry_expires_def settle_entry_def)

lemma line_in_concat: "x \<in> set xs \<Longrightarrow> \<exists>a b. concat xs = a @ x @ b"
proof -
  assume "x \<in> set xs"
  then obtain ys zs where "xs = ys @ x # zs" by (meson split_list)
  then have "concat xs = concat ys @ x @ concat zs" by simp
  then show ?thesis by blast
qed

text \<open>
  C29. The text of an address rule reaches the nginx configuration as the feed sent it: an entry of type \<open>ip\<close> whose pattern
  is any text of at most 512 characters without blanks at its ends, braces, semicolons and line breaks included, passes the
  validation, and the blocklist generated from the rule contains that text verbatim.
\<close>

theorem feed_address_reaches_nginx_verbatim:
  fixes E :: "'r env"
  assumes "p \<noteq> []" and "length p \<le> 512" and "strip p = p" and "threshold \<le> 1"
  shows "\<exists>item. check_entry F E threshold (address_entry p) = Inr (Block_entry item ''block'') \<and>
    (\<forall>c n u. \<exists>a b. blocklist_text (BlockRule_for_nginx (time_now E) [created_block E item ''block'' c n u]) = a @ ''    '' @ p @ '' 1;'' @ NL @ b)"
proof -
  let ?item = "\<lparr>it_rule_type = ''ip'', it_match_type = ''exact'', it_pattern = p,
     it_expires = time_now E + 30 * 86400, it_confidence = Fin 1, it_reporters = None\<rparr>"
  have "\<exists>a b. blocklist_text (BlockRule_for_nginx (time_now E) [created_block E ?item ''block'' c n u]) = a @ ''    '' @ p @ '' 1;'' @ NL @ b" for c n u
  proof -
    let ?r = "created_block E ?item ''block'' c n u"
    have r: "BlockRule_for_nginx (time_now E) [?r] = [?r]"
      by (simp add: BlockRule_for_nginx_def BlockRule_active_def created_block_def not_expired_def)
    have "''    '' @ p @ '' 1;'' @ NL \<in> set (render_ip_geo ''$waf_block_ip'' (of_kind {''ip'', ''cidr''} ''block'' [?r]))"
      using assms by (simp add: render_ip_geo_def of_kind_def entry_lines_def created_block_def)
    then have "\<exists>a b. concat (HEADER_LINES @ render_ua_map ''$waf_block_ua'' (of_kind {''ua''} ''block'' [?r]) @
        render_ua_map ''$waf_throttle_ua'' (of_kind {''ua''} ''throttle'' [?r]) @
        render_ip_geo ''$waf_block_ip'' (of_kind {''ip'', ''cidr''} ''block'' [?r]) @
        render_ip_geo ''$waf_throttle_ip'' (of_kind {''ip'', ''cidr''} ''throttle'' [?r])) = a @ (''    '' @ p @ '' 1;'' @ NL) @ b"
      by (intro line_in_concat) (simp only: set_append Un_iff simp_thms)
    then show ?thesis unfolding r blocklist_text_def by (simp only: append_assoc)
  qed
  with check_address_entry [OF assms(1,2,4)] show ?thesis by blast
qed

theorem feed_address_reaches_nginx_verbatim_witness:
  "\<exists>item. check_entry (demo_feed PNone) demo_env (1/2) (address_entry ''0.0.0.0/0 0; } evil { default'') = Inr (Block_entry item ''block'')"
proof -
  have "strip ''0.0.0.0/0 0; } evil { default'' = ''0.0.0.0/0 0; } evil { default''" by code_simp
  with feed_address_reaches_nginx_verbatim [of "''0.0.0.0/0 0; } evil { default''" "1/2" "demo_feed PNone" demo_env] show ?thesis by auto
qed

end
