(* ===== verification/FeedMirror.thy ===== *)
theory FeedMirror
  imports ThreatFeed
begin

text \<open>
  The functional correctness of \<open>sync_feed\<close>: after a synchronisation that returns, the active block
  rules of the feed are those of its entries that passed validation. The proof works with triples
  for runs that return a value.
\<close>

section \<open>Triples\<close>

definition gives :: "('w \<Rightarrow> bool) \<Rightarrow> ('w, 'a) py \<Rightarrow> ('a \<Rightarrow> 'w \<Rightarrow> bool) \<Rightarrow> bool" where
  "gives P m Q = (\<forall>w x w'. P w \<longrightarrow> m w = (Inr x, w') \<longrightarrow> Q x w')"

named_theorems gives_intros \<open>triples of the combinators\<close>

lemma givesD: "gives P m Q \<Longrightarrow> P w \<Longrightarrow> m w = (Inr x, w') \<Longrightarrow> Q x w'"
  unfolding gives_def by blast

lemma gives_weaken: "gives P m Q \<Longrightarrow> (\<And>x w. Q x w \<Longrightarrow> R x w) \<Longrightarrow> gives P m R"
  unfolding gives_def by blast

lemma gives_pre: "gives P m Q \<Longrightarrow> (\<And>w. R w \<Longrightarrow> P w) \<Longrightarrow> gives R m Q"
  unfolding gives_def by blast

lemma gives_ret [gives_intros]: "(\<And>w. P w \<Longrightarrow> Q x w) \<Longrightarrow> gives P (ret x) Q"
  by (simp add: gives_def)

lemma gives_raise [gives_intros]: "gives P (raise e) Q"
  by (simp add: gives_def)

lemma gives_read: "(\<And>w. P w \<Longrightarrow> Q (f w) w) \<Longrightarrow> gives P (read_state f) Q"
  by (simp add: gives_def)

lemma gives_update: "(\<And>w. P w \<Longrightarrow> Q () (g w)) \<Longrightarrow> gives P (update_state g) Q"
  by (simp add: gives_def)

lemma gives_andThen:
  assumes "gives P m Q" and "\<And>x. gives (Q x) (f x) R"
  shows "gives P (andThen m f) R"
  unfolding gives_def
proof (intro allI impI)
  fix w y w' assume "P w" "andThen m f w = (Inr y, w')"
  moreover obtain x v where "m w = (x, v)" by (cases "m w")
  ultimately show "R y w'" using givesD [OF assms(1)] givesD [OF assms(2)]
    by (cases x) (simp_all add: andThen_def, blast)
qed

lemma gives_frames: "frames g m \<Longrightarrow> gives (\<lambda>w. P (g w)) m (\<lambda>_ w. P (g w))"
  by (auto simp: gives_def frames_def) (metis snd_conv)

section \<open>The table\<close>

definition live_keys :: "BlockRule list \<Rightarrow> (string \<times> string) set" where
  "live_keys rows = block_key ` {r \<in> set rows. br_source r = FEED \<and> br_is_active r}"

text \<open>Nobody else writes, and the identifiers still to be drawn are new.\<close>

definition sole_writer :: "'r env \<Rightarrow> bool" where
  "sole_writer E = (rivals E = (\<lambda>_ rows. rows) \<and> inj (uuid4 E))"

definition fresh_ids :: "'r env \<Rightarrow> BlockRule list \<times> nat \<Rightarrow> bool" where
  "fresh_ids E t = (case t of (rows, n) \<Rightarrow> distinct (map br_id rows) \<and> (\<forall>k\<ge>n. uuid4 E k \<notin> br_id ` set rows))"

definition mirror_inv :: "'r env \<Rightarrow> (string \<times> string) set \<Rightarrow> BlockRule list \<times> nat \<Rightarrow> bool" where
  "mirror_inv E K t = (fresh_ids E t \<and> K \<subseteq> live_keys (fst t))"

abbreviation table :: "'r world \<Rightarrow> BlockRule list \<times> nat" where
  "table w \<equiv> (BlockRules w, uuids_used w)"

lemma frames_table_handlers:
  "frames (\<lambda>w. table w) (on_block_rule_save E u c)" "frames (\<lambda>w. table w) (on_allow_rule_save E u c)"
  by (rule frames_handlers; simp)+

lemma map_overwrite_ids: "map br_id (map (\<lambda>q. if br_id q = br_id r then r else q) rows) = map br_id rows"
  by simp

lemma mirror_overwrite:
  assumes inv: "mirror_inv E K (rows, n)" and r: "r \<in> set rows" "br_source r = FEED" "block_key r = k"
  shows "mirror_inv E (insert k K) (map (\<lambda>q. if br_id q = br_id r then updated_block item action c m r else q) rows, n)"
proof -
  let ?u = "updated_block item action c m r" let ?rows = "map (\<lambda>q. if br_id q = br_id r then ?u else q) rows"
  have u: "br_id ?u = br_id r" "br_source ?u = FEED" "br_is_active ?u" "block_key ?u = k"
    using r by (simp_all add: updated_block_def block_key_def)
  have ids: "map br_id ?rows = map br_id rows" using u(1) by simp
  then have "br_id ` set ?rows = br_id ` set rows" by (metis set_map)
  with ids inv have "fresh_ids E (?rows, n)" by (simp add: mirror_inv_def fresh_ids_def del: map_map set_map)
  moreover have mem: "?u \<in> set ?rows" using r(1) by force
  have "x \<in> live_keys ?rows" if "x \<in> live_keys rows" for x
  proof -
    from that obtain q where q: "q \<in> set rows" "br_source q = FEED" "br_is_active q" "block_key q = x"
      by (auto simp: live_keys_def)
    show ?thesis
    proof (cases "br_id q = br_id r")
      case True
      with q r(1) inv have "q = r" by (auto simp: mirror_inv_def fresh_ids_def distinct_map dest: inj_onD)
      with q r(3) u mem show ?thesis by (auto simp: live_keys_def image_iff)
    next
      case False
      with q(1) have "q \<in> set ?rows" by force
      with q show ?thesis by (auto simp: live_keys_def)
    qed
  qed
  moreover have "k \<in> live_keys ?rows" using mem u by (auto simp: live_keys_def image_iff)
  ultimately show ?thesis using inv by (auto simp: mirror_inv_def)
qed

lemma mirror_insert:
  assumes "sole_writer E" and "mirror_inv E K (rows, n)" and "feed_key item = k"
  shows "mirror_inv E (insert k K) (rows @ [created_block E item action c m (uuid4 E n)], Suc n)"
proof -
  let ?r = "created_block E item action c m (uuid4 E n)"
  have r: "br_id ?r = uuid4 E n" "br_source ?r = FEED" "br_is_active ?r" "block_key ?r = k"
    using assms(3) by (simp_all add: created_block_def block_key_def feed_key_def)
  have "uuid4 E j \<noteq> uuid4 E n" if "Suc n \<le> j" for j using that assms(1) by (auto simp: sole_writer_def dest: injD)
  with assms(2) r(1) have "fresh_ids E (rows @ [?r], Suc n)" by (auto simp: mirror_inv_def fresh_ids_def)
  moreover have "live_keys (rows @ [?r]) = insert k (live_keys rows)" using r by (auto simp: live_keys_def)
  ultimately show ?thesis using assms(2) by (auto simp: mirror_inv_def)
qed

lemma mirror_Suc: "mirror_inv E K (rows, n) \<Longrightarrow> mirror_inv E K (rows, Suc n)"
  by (auto simp: mirror_inv_def fresh_ids_def)

section \<open>The writes\<close>

lemma gives_db:
  fixes E :: "'r env"
  assumes "sole_writer E" and "gives (\<lambda>w. P (table w)) m Q"
  shows "gives (\<lambda>w. P (table w)) (db E m) Q"
  unfolding gives_def
proof (intro allI impI)
  fix w x w' assume "P (table w)" "db E m w = (Inr x, w')"
  then have "m (w\<lparr>BlockRules := BlockRules w, db_ops := Suc (db_ops w)\<rparr>) = (Inr x, w')"
    using assms(1) by (auto simp: db_def Let_def sole_writer_def split: if_splits)
  from givesD [OF assms(2) _ this] \<open>P (table w)\<close> show "Q x w'" by simp
qed

lemma gives_columns: "gives P (columns F item old) (\<lambda>_. P)"
  unfolding columns_def by (auto intro!: gives_intros split: sum.splits option.splits)

lemma gives_block_handler: "gives (\<lambda>w. P (table w)) (on_block_rule_save E u c) (\<lambda>_ w. P (table w))"
  by (rule gives_frames [OF frames_table_handlers(1)])

lemma gives_allow_handler: "gives (\<lambda>w. P (table w)) (on_allow_rule_save E u c) (\<lambda>_ w. P (table w))"
  by (rule gives_frames [OF frames_table_handlers(2)])

lemma gives_find:
  fixes E :: "'r env"
  assumes "sole_writer E"
  shows "gives (\<lambda>w. P (table w)) (db E (read_state (\<lambda>w. find_feed_block item (BlockRules w))))
     (\<lambda>x w. P (table w) \<and> x = find_feed_block item (fst (table w)))"
  by (rule gives_db [OF assms]) (simp add: gives_def)

lemma gives_save_block:
  fixes E :: "'r env"
  assumes "sole_writer E"
  shows "gives (\<lambda>w. mirror_inv E K (table w) \<and> Some r = find_feed_block item (fst (table w)))
     (save_rule E (updated_block item action c n r)) (\<lambda>_ w. mirror_inv E (insert (feed_key item) K) (table w))"
proof -
  have "mirror_inv E (insert (feed_key item) K) (table (w\<lparr>BlockRules := map (\<lambda>q. if br_id q = br_id (updated_block item action c n r)
      then updated_block item action c n r else q) (BlockRules w)\<rparr>))"
    if "mirror_inv E K (table w)" "Some r = find_feed_block item (fst (table w))" for w :: "'r world"
    using mirror_overwrite [OF that(1)] find_feed_block_Some [OF that(2) [symmetric]] by (simp add: updated_block_def)
  then have "gives (\<lambda>w :: 'r world. mirror_inv E K (table w) \<and> Some r = find_feed_block item (fst (table w)))
      (update_state (\<lambda>w. w\<lparr>BlockRules := map (\<lambda>q. if br_id q = br_id (updated_block item action c n r)
        then updated_block item action c n r else q) (BlockRules w)\<rparr>)) (\<lambda>_ w. mirror_inv E (insert (feed_key item) K) (table w))"
    by (intro gives_update) (elim conjE)
  from gives_db [OF assms, where P = "\<lambda>t. mirror_inv E K t \<and> Some r = find_feed_block item (fst t)", OF this]
  show ?thesis by (simp add: save_rule_def)
qed

lemma gives_insert_block:
  fixes E :: "'r env"
  assumes "sole_writer E"
  shows "gives (\<lambda>w. mirror_inv E K (table w)) (insert_block E (created_block E item action c n))
     (\<lambda>_ w. mirror_inv E (insert (feed_key item) K) (table w))"
  unfolding insert_block_def
  by (rule gives_db [OF assms]) (simp add: gives_def Let_def mirror_insert [OF assms _ refl])

lemma gives_write_block:
  fixes E :: "'r env"
  assumes "sole_writer E"
  shows "gives (\<lambda>w. mirror_inv E K (table w)) (write_block F E item action)
     (\<lambda>_ w. mirror_inv E (insert (feed_key item) K) (table w))"
  unfolding write_block_def
proof (rule gives_andThen [OF gives_find [OF assms]])
  fix x
  let ?K = "\<lambda>_ w. mirror_inv E (insert (feed_key item) K) (table w)"
  show "gives (\<lambda>w. mirror_inv E K (table w) \<and> x = find_feed_block item (fst (table w)))
     (case x of
        None \<Rightarrow> andThen (columns F item 0) (\<lambda>(confidence, reporters).
            andThen (insert_block E (created_block E item action confidence reporters)) (\<lambda>u.
            andThen (on_block_rule_save E u True) (\<lambda>_. ret True)))
      | Some r \<Rightarrow> andThen (columns F item (br_feed_reporters r)) (\<lambda>(confidence, reporters).
            andThen (save_rule E (updated_block item action confidence reporters r)) (\<lambda>_.
            andThen (on_block_rule_save E (br_id r) False) (\<lambda>_. ret False)))) ?K"
  proof (cases x)
    case None
    show ?thesis unfolding None option.case case_prod_unfold
      by (rule gives_pre, rule gives_andThen [OF gives_columns], rule gives_andThen [OF gives_insert_block [OF assms]],
          rule gives_andThen [OF gives_block_handler], rule gives_ret, assumption, erule conjunct1)
  next
    case (Some r)
    show ?thesis unfolding Some option.case case_prod_unfold
      by (rule gives_andThen [OF gives_columns], rule gives_andThen [OF gives_save_block [OF assms]],
          rule gives_andThen [OF gives_block_handler], rule gives_ret) simp
  qed
qed

lemma gives_write_allow:
  fixes E :: "'r env"
  assumes "sole_writer E"
  shows "gives (\<lambda>w. mirror_inv E K (table w)) (write_allow oc F E item v) (\<lambda>_ w. mirror_inv E K (table w))"
proof -
  let ?I = "\<lambda>w. mirror_inv E K (table w)"
  have find: "gives ?I (db E (read_state f)) (\<lambda>_. ?I)" for f :: "'r world \<Rightarrow> AllowRule option"
    by (rule gives_db [OF assms]) (simp add: gives_def)
  have save: "gives ?I (save_allow E r) (\<lambda>_. ?I)" for r
    unfolding save_allow_def by (rule gives_db [OF assms]) (simp add: gives_def)
  have ins: "gives ?I (insert_allow E row) (\<lambda>_. ?I)" for row
    unfolding insert_allow_def by (rule gives_db [OF assms]) (simp add: gives_def Let_def mirror_Suc)
  show ?thesis unfolding write_allow_def Let_def
  proof (rule gives_andThen [OF find])
    let ?q = "DJANGO_WAF_FEED_QUARANTINE_ALLOW_RULES oc" and ?t = "text_column F v"
    fix x
    show "gives ?I (case x of
        None \<Rightarrow> andThen (columns F item 0) (\<lambda>(confidence, reporters).
            andThen (insert_allow E (created_allow E item ?t (\<not> ?q) confidence reporters)) (\<lambda>u.
            andThen (on_allow_rule_save E u True) (\<lambda>_. ret True)))
      | Some r \<Rightarrow> andThen (columns F item (ar_feed_reporters r)) (\<lambda>(confidence, reporters).
            andThen (save_allow E (updated_allow item ?t ?q confidence reporters r)) (\<lambda>_.
            andThen (on_allow_rule_save E (ar_id r) False) (\<lambda>_. ret False)))) (\<lambda>_. ?I)"
      by (cases x; simp only: option.case case_prod_unfold)
        (rule gives_andThen [OF gives_columns], rule gives_andThen [OF ins] gives_andThen [OF save],
          rule gives_andThen [OF gives_allow_handler], rule gives_ret, assumption)+
  qed
qed

section \<open>The loop and the expiry\<close>

definition accepted_keys :: "feed_env \<Rightarrow> 'r env \<Rightarrow> rat \<Rightarrow> pyval list \<Rightarrow> (string \<times> string) set" where
  "accepted_keys F E threshold vs =
     {feed_key item | item action v. v \<in> set vs \<and> check_entry F E threshold v = Inr (Block_entry item action)}"

lemma accepted_keys_Cons:
  "accepted_keys F E threshold (v # vs) =
     (case check_entry F E threshold v of Inr (Block_entry item action) \<Rightarrow> {feed_key item} | _ \<Rightarrow> {}) \<union> accepted_keys F E threshold vs"
  by (auto simp: accepted_keys_def split: sum.splits verdict_of_entry.splits)

lemma seen_block_keys_count [simp]: "seen_block_keys (count_write c st) = seen_block_keys st"
  by (simp add: count_write_def)

lemma gives_sync_entries:
  fixes E :: "'r env"
  assumes "sole_writer E"
  shows "gives (\<lambda>w. mirror_inv E (set (seen_block_keys st)) (table w)) (sync_entries oc F E threshold vs st)
     (\<lambda>st' w. mirror_inv E (set (seen_block_keys st')) (table w) \<and>
        set (seen_block_keys st') = set (seen_block_keys st) \<union> accepted_keys F E threshold vs)"
proof (induction vs arbitrary: st)
  case Nil
  show ?case unfolding sync_entries.simps by (rule gives_ret) (simp add: accepted_keys_def)
next
  case (Cons v vs)
  show ?case
  proof (cases "check_entry F E threshold v")
    case (Inl e)
    then show ?thesis by (simp add: gives_def)
  next
    case (Inr res)
    show ?thesis
    proof (cases res)
      case Skip
      with Inr Cons.IH [of "st\<lparr>sy_skipped := sy_skipped st + 1\<rparr>"] show ?thesis by (simp add: accepted_keys_Cons)
    next
      case (Allow_entry item r)
      note step = gives_andThen [OF gives_write_allow [OF assms, where K = "set (seen_block_keys st)" and oc = oc and F = F and item = item and v = r]]
      have rest: "gives (\<lambda>w. mirror_inv E (set (seen_block_keys st)) (table w))
          (sync_entries oc F E threshold vs (count_write c (st\<lparr>seen_allow_keys := feed_key item # seen_allow_keys st\<rparr>)))
          (\<lambda>st' w. mirror_inv E (set (seen_block_keys st')) (table w) \<and>
            set (seen_block_keys st') = set (seen_block_keys st) \<union> accepted_keys F E threshold vs)" for c
        using Cons.IH [of "count_write c (st\<lparr>seen_allow_keys := feed_key item # seen_allow_keys st\<rparr>)"] by simp
      from step [OF rest] Allow_entry Inr show ?thesis by (simp add: accepted_keys_Cons)
    next
      case (Block_entry item a)
      note step = gives_andThen [OF gives_write_block [OF assms, where K = "set (seen_block_keys st)" and F = F and item = item and action = a]]
      have rest: "gives (\<lambda>w. mirror_inv E (insert (feed_key item) (set (seen_block_keys st))) (table w))
          (sync_entries oc F E threshold vs (count_write c (st\<lparr>seen_block_keys := feed_key item # seen_block_keys st\<rparr>)))
          (\<lambda>st' w. mirror_inv E (set (seen_block_keys st')) (table w) \<and>
            set (seen_block_keys st') = set (seen_block_keys st) \<union> ({feed_key item} \<union> accepted_keys F E threshold vs))" for c
        using Cons.IH [of "count_write c (st\<lparr>seen_block_keys := feed_key item # seen_block_keys st\<rparr>)"] by simp
      from step [OF rest] Block_entry Inr show ?thesis by (simp add: accepted_keys_Cons)
    qed
  qed
qed

definition switch_off :: "uuid set \<Rightarrow> BlockRule list \<Rightarrow> BlockRule list" where
  "switch_off ids rows = map (\<lambda>r. if br_id r \<in> ids then r\<lparr>br_is_active := False\<rparr> else r) rows"

lemma switch_off_switch_off: "switch_off ids (switch_off {u} rows) = switch_off (insert u ids) rows"
  by (simp add: switch_off_def)

lemma gives_deactivate:
  fixes E :: "'r env"
  assumes "sole_writer E"
  shows "gives (\<lambda>w. P (switch_off {u} (fst (table w)))) (deactivate_block E u) (\<lambda>_ w. P (fst (table w)))"
  unfolding deactivate_block_def
proof (rule gives_andThen [OF gives_db [OF assms, where P = "\<lambda>t. P (switch_off {u} (fst t))"]])
  show "gives (\<lambda>w. P (switch_off {u} (fst (table w)))) (\<lambda>w. if u \<in> br_id ` set (BlockRules w)
       then (Inr (), w\<lparr>BlockRules := map (\<lambda>r. if br_id r = u then r\<lparr>br_is_active := False\<rparr> else r) (BlockRules w)\<rparr>)
       else (Inl DatabaseError, w)) (\<lambda>_ w :: 'r world. P (fst (table w)))"
    by (auto simp: gives_def switch_off_def split: if_splits)
  show "gives (\<lambda>w. P (fst (table w))) (on_block_rule_save E u False) (\<lambda>_ w. P (fst (table w)))"
    by (rule gives_block_handler)
qed

lemma gives_each_deactivate:
  fixes E :: "'r env"
  assumes "sole_writer E"
  shows "gives (\<lambda>w. P (switch_off (br_id ` set rs) (fst (table w)))) (each (\<lambda>r. deactivate_block E (br_id r)) rs) (\<lambda>_ w. P (fst (table w)))"
proof (induction rs)
  case Nil
  show ?case unfolding each.simps by (rule gives_ret) (simp add: switch_off_def)
next
  case (Cons r rs)
  show ?case unfolding each.simps
  proof (rule gives_andThen [OF _ Cons.IH])
    show "gives (\<lambda>w. P (switch_off (br_id ` set (r # rs)) (fst (table w)))) (deactivate_block E (br_id r))
        (\<lambda>_ w. P (switch_off (br_id ` set rs) (fst (table w))))"
      using gives_deactivate [OF assms, where P = "\<lambda>rows. P (switch_off (br_id ` set rs) rows)" and u = "br_id r"]
      by (simp add: switch_off_switch_off)
  qed
qed

lemma gives_each_allow:
  fixes E :: "'r env"
  assumes "sole_writer E"
  shows "gives (\<lambda>w. P (fst (table w))) (each (\<lambda>r. deactivate_allow E (ar_id r)) rs) (\<lambda>_ w. P (fst (table w)))"
proof (induction rs)
  case Nil
  show ?case unfolding each.simps by (rule gives_ret)
next
  case (Cons r rs)
  have "gives (\<lambda>w. P (fst (table w))) (\<lambda>w. if ar_id r \<in> ar_id ` set (AllowRules w)
       then (Inr (), w\<lparr>AllowRules := map (\<lambda>q. if ar_id q = ar_id r then q\<lparr>ar_is_active := False\<rparr> else q) (AllowRules w)\<rparr>)
       else (Inl DatabaseError, w)) (\<lambda>_ w :: 'r world. P (fst (table w)))"
    by (auto simp: gives_def split: if_splits)
  from gives_db [OF assms, where P = "\<lambda>t. P (fst t)", OF this]
  have "gives (\<lambda>w. P (fst (table w))) (deactivate_allow E (ar_id r)) (\<lambda>_ w. P (fst (table w)))"
    unfolding deactivate_allow_def by (rule gives_andThen) (rule gives_allow_handler)
  then show ?case unfolding each.simps by (rule gives_andThen) (rule Cons.IH)
qed

lemma live_keys_switch_off:
  assumes "distinct (map br_id rows)" and "K \<subseteq> live_keys rows"
  shows "live_keys (switch_off (br_id ` {r \<in> set rows. br_source r = FEED \<and> br_is_active r \<and> block_key r \<notin> K}) rows) = K"
proof -
  let ?gone = "{r \<in> set rows. br_source r = FEED \<and> br_is_active r \<and> block_key r \<notin> K}"
  have same: "br_id r \<in> br_id ` ?gone \<longleftrightarrow> r \<in> ?gone" if "r \<in> set rows" for r
    using assms(1) that by (auto simp: distinct_map dest: inj_onD)
  have "live_keys (switch_off (br_id ` ?gone) rows) = block_key ` {r \<in> set rows. br_source r = FEED \<and> br_is_active r \<and> block_key r \<in> K}"
  proof -
    have "{q \<in> set (switch_off (br_id ` ?gone) rows). br_source q = FEED \<and> br_is_active q} =
        {r \<in> set rows. br_source r = FEED \<and> br_is_active r \<and> r \<notin> ?gone}"
      unfolding switch_off_def using same by (auto split: if_splits)
    then show ?thesis unfolding live_keys_def by auto
  qed
  also have "\<dots> = K" using assms(2) unfolding live_keys_def by blast
  finally show ?thesis .
qed

lemma gives_expire_absent:
  fixes E :: "'r env"
  assumes "sole_writer E"
  shows "gives (\<lambda>w. mirror_inv E (set (seen_block_keys st)) (table w)) (expire_absent E st)
     (\<lambda>_ w. live_keys (fst (table w)) = set (seen_block_keys st))"
proof -
  let ?K = "set (seen_block_keys st)"
  let ?gone = "\<lambda>rows. filter (\<lambda>r. br_source r = FEED \<and> br_is_active r \<and> block_key r \<notin> ?K) rows"
  let ?Q = "\<lambda>rows. live_keys rows = ?K"
  have off: "?Q (switch_off (br_id ` set (?gone (fst t))) (fst t))" if "mirror_inv E ?K t" for t
    using live_keys_switch_off [of "fst t" ?K] that by (cases t) (simp add: mirror_inv_def fresh_ids_def)
  have read: "gives (\<lambda>w. mirror_inv E ?K (table w)) (db E (read_state (\<lambda>w. ?gone (BlockRules w))))
      (\<lambda>blocks w. ?Q (switch_off (br_id ` set blocks) (fst (table w))))"
  proof (rule gives_db [OF assms])
    show "gives (\<lambda>w :: 'r world. mirror_inv E ?K (table w)) (read_state (\<lambda>w. ?gone (BlockRules w)))
        (\<lambda>blocks w. ?Q (switch_off (br_id ` set blocks) (fst (table w))))"
      by (rule gives_read) (drule off, simp only: fst_conv)
  qed
  have allows: "gives (\<lambda>w. ?Q (fst (table w))) (db E (read_state f)) (\<lambda>_ w. ?Q (fst (table w)))"
    for f :: "'r world \<Rightarrow> AllowRule list"
    by (rule gives_db [OF assms, where P = "\<lambda>t. ?Q (fst t)"]) (simp add: gives_def)
  show ?thesis unfolding expire_absent_def
    by (rule gives_andThen [OF read], rule gives_andThen [OF gives_each_deactivate [OF assms, where P = ?Q]],
        rule gives_andThen [OF allows], rule gives_andThen [OF gives_each_allow [OF assms, where P = ?Q]], rule gives_ret)
qed

text \<open>
  C25. The active block rules of the feed are the feed: when a synchronisation with a list of entries returns, the
  keys of the active block rules of the feed are exactly the keys of the entries that pass validation
  and the confidence threshold; rules that left the feed are switched off, and those
  that returned to it are on again. Nobody else writes meanwhile, and fresh identifiers are new.
\<close>

theorem active_feed_rules_are_the_feed:
  fixes E :: "'r env" and F :: feed_env
  assumes "sole_writer E" and "fresh_ids E (BlockRules w, uuids_used w)"
    and "DJANGO_WAF_FEED_ENABLED oc" and "fetch F (DJANGO_WAF_FEED_URL oc) = Inr (PList vs)"
    and "sync_threat_feed oc F E w = (Inr res, w')"
  shows "live_keys (BlockRules w') = accepted_keys F E (DJANGO_WAF_FEED_MIN_CONFIDENCE oc) vs"
proof -
  let ?st = "\<lparr>sy_created = 0, sy_updated = 0, sy_skipped = 0, seen_block_keys = [], seen_allow_keys = []\<rparr>"
  let ?K = "accepted_keys F E (DJANGO_WAF_FEED_MIN_CONFIDENCE oc) vs"
  let ?I = "\<lambda>w. mirror_inv E {} (table w)" and ?Q = "\<lambda>w. live_keys (fst (table w)) = ?K"
  have entries: "gives ?I (sync_entries oc F E (DJANGO_WAF_FEED_MIN_CONFIDENCE oc) vs ?st)
      (\<lambda>st w. mirror_inv E (set (seen_block_keys st)) (table w) \<and> set (seen_block_keys st) = ?K)"
    using gives_sync_entries [OF assms(1), of ?st oc F "DJANGO_WAF_FEED_MIN_CONFIDENCE oc" vs] by simp
  have expiry: "gives (\<lambda>w. mirror_inv E (set (seen_block_keys st)) (table w) \<and> set (seen_block_keys st) = ?K) (expire_absent E st) (\<lambda>_. ?Q)" for st
  proof (cases "set (seen_block_keys st) = ?K")
    case True
    with gives_expire_absent [OF assms(1), of st] show ?thesis by simp
  qed (simp add: gives_def)
  have sent: "gives ?Q (swallow (send E s)) (\<lambda>_. ?Q)" for s
    by (rule gives_frames [where g = "\<lambda>w. table w"]) (intro frames_swallow frames_send, simp)
  have feed: "sync_feed oc F E [] None = andThen (sync_entries oc F E (DJANGO_WAF_FEED_MIN_CONFIDENCE oc) vs ?st)
      (\<lambda>st. andThen (expire_absent E st)
      (\<lambda>expired. andThen (swallow (send E (Feed_synced (sy_created st) (sy_updated st) expired (sy_skipped st))))
      (\<lambda>_. ret \<lparr>sr_created = sy_created st, sr_updated = sy_updated st, sr_expired = expired, sr_skipped = sy_skipped st, sr_error = False\<rparr>)))"
    using assms(4) by (simp add: sync_feed_def feed_entries_def)
  have "gives ?I (sync_feed oc F E [] None) (\<lambda>_. ?Q)" unfolding feed
    by (rule gives_andThen [OF entries], rule gives_andThen [OF expiry], rule gives_andThen [OF sent], rule gives_ret)
  then have "gives ?I (andThen (sync_feed oc F E [] None) (\<lambda>r. ret (Some r))) (\<lambda>_. ?Q)"
    by (rule gives_andThen) (rule gives_ret)
  then have "gives ?I (sync_threat_feed oc F E) (\<lambda>_. ?Q)" using assms(3) by (simp add: sync_threat_feed_def)
  moreover have "?I w" using assms(2) by (simp add: mirror_inv_def)
  ultimately show ?thesis using assms(5) by (auto dest: givesD)
qed

theorem active_feed_rules_are_the_feed_witness:
  "live_keys (BlockRules (snd (sync_threat_feed feed_conf (demo_feed (PList [block_entry, crawler_entry])) demo_env empty_world))) =
     accepted_keys (demo_feed (PList [block_entry, crawler_entry])) demo_env (DJANGO_WAF_FEED_MIN_CONFIDENCE feed_conf) [block_entry, crawler_entry] \<and>
   map br_pattern (BlockRules (snd (sync_threat_feed feed_conf (demo_feed (PList [block_entry, crawler_entry])) demo_env empty_world))) = [''203.0.113.9'']"
proof
  let ?F = "demo_feed (PList [block_entry, crawler_entry])"
  have env: "sole_writer demo_env" "fresh_ids demo_env (table empty_world)" "DJANGO_WAF_FEED_ENABLED feed_conf"
    "fetch ?F (DJANGO_WAF_FEED_URL feed_conf) = Inr (PList [block_entry, crawler_entry])"
    by (simp_all add: sole_writer_def fresh_ids_def demo_env_def empty_world_def feed_conf_def demo_feed_def)
  have "\<not> isl (fst (sync_threat_feed feed_conf ?F demo_env empty_world))" by code_simp
  then obtain res where "sync_threat_feed feed_conf ?F demo_env empty_world = (Inr res, snd (sync_threat_feed feed_conf ?F demo_env empty_world))"
    by (cases "sync_threat_feed feed_conf ?F demo_env empty_world") (auto simp: isl_def split: sum.splits, metis old.sum.exhaust)
  from active_feed_rules_are_the_feed [OF env this]
  show "live_keys (BlockRules (snd (sync_threat_feed feed_conf ?F demo_env empty_world))) =
      accepted_keys ?F demo_env (DJANGO_WAF_FEED_MIN_CONFIDENCE feed_conf) [block_entry, crawler_entry]" .
  show "map br_pattern (BlockRules (snd (sync_threat_feed feed_conf ?F demo_env empty_world))) = [''203.0.113.9'']" by code_simp
qed

end
