(* ===== verification/Telemetry.thy ===== *)
theory Telemetry
  imports Blocklist
begin

text \<open>
  The reporting half of \<open>services/threat_feed.py\<close> and the task \<open>report_threat_telemetry\<close>: what an
  installation sends to the central feed about the traffic it saw, under which identifier.
  The request to the endpoint, the random identifier and the text of the period are outside the model.
\<close>

section \<open>The identifier of the installation\<close>

text \<open>Where the identifier of the installation is kept: the Django cache and a text file, which is
  absent (\<open>None\<close>), readable or not. A cache that does not answer raises.\<close>

record install_store =
  cache_up :: bool
  cached_id :: "string option"
  id_file :: "string option"
  file_readable :: bool
  file_writable :: bool

definition cache_set_id :: "string \<Rightarrow> (install_store, unit) py" where
  "cache_set_id v s = (if cache_up s then (Inr (), s\<lparr>cached_id := Some v\<rparr>) else (Inl CacheError, s))"

definition stored_id :: "install_store \<Rightarrow> string option" where
  "stored_id s = (case id_file s of
      None \<Rightarrow> None
    | Some content \<Rightarrow> (if file_readable s \<and> strip content \<noteq> [] then Some (strip content) else None))"

definition get_or_create_install_id :: "string \<Rightarrow> (install_store, string) py" where
  "get_or_create_install_id new_id s =
     (if \<not> cache_up s then (Inl CacheError, s)
      else (case cached_id s of
          Some (c # cs) \<Rightarrow> (Inr (c # cs), s)
        | _ \<Rightarrow> (case stored_id s of
              Some install_id \<Rightarrow> andThen (cache_set_id install_id) (\<lambda>_. ret install_id) s
            | None \<Rightarrow>
                (let s1 = (if file_writable s then s\<lparr>id_file := Some new_id\<rparr> else s)
                 in andThen (cache_set_id new_id) (\<lambda>_. ret new_id) s1))))"

record ua_hash =
  uh_sha256 :: string
  uh_action :: string
  uh_hits :: int

record subnet_count =
  sc_cidr :: string
  sc_action :: Verdict
  sc_hits :: int

record telemetry =
  tp_install_id :: string
  tp_period :: "rat \<times> rat"
  tp_ua_hashes :: "ua_hash list"
  tp_subnets :: "subnet_count list"
  tp_total_requests :: int
  tp_blocked :: int
  tp_challenged :: int
  tp_throttled :: int

definition ua_hashes :: "(string \<Rightarrow> string) \<Rightarrow> BlockRule list \<Rightarrow> ua_hash list" where
  "ua_hashes hash rows = map (\<lambda>r. \<lparr>uh_sha256 = hash (br_pattern r), uh_action = br_action r, uh_hits = br_hit_count r\<rparr>)
     (BlockRule_ordering (filter (\<lambda>r. br_source r \<in> {ADMIN, AUTO} \<and> br_rule_type r = ''ua'') rows))"

text \<open>The dictionary of subnets in insertion order: the first log of a subnet decides its action.\<close>

fun count_subnet :: "string \<Rightarrow> Verdict \<Rightarrow> subnet_count list \<Rightarrow> subnet_count list" where
  "count_subnet subnet verdict [] = [\<lparr>sc_cidr = subnet, sc_action = verdict, sc_hits = 1\<rparr>]"
| "count_subnet subnet verdict (c # cs) =
     (if sc_cidr c = subnet then c\<lparr>sc_hits := sc_hits c + 1\<rparr> # cs else c # count_subnet subnet verdict cs)"

definition count_log :: "RequestLog \<Rightarrow> subnet_count list \<Rightarrow> subnet_count list" where
  "count_log r counts = (case get_subnet_prefix (rl_ip_address r) of
      Inl _ \<Rightarrow> counts | Inr subnet \<Rightarrow> count_subnet subnet (rl_verdict r) counts)"

definition logs_in_period :: "rat \<Rightarrow> rat \<Rightarrow> RequestLog list \<Rightarrow> RequestLog list" where
  "logs_in_period period_start period_end rows =
     sort_key (\<lambda>r. - rl_timestamp r) (filter (\<lambda>r. period_start \<le> rl_timestamp r \<and> rl_timestamp r \<le> period_end) rows)"

definition verdict_count :: "Verdict \<Rightarrow> RequestLog list \<Rightarrow> int" where
  "verdict_count v logs = int (length (filter (\<lambda>r. rl_verdict r = v) logs))"

text \<open>The queries read one state of the tables.\<close>

definition build_telemetry_payload ::
  "(string \<Rightarrow> string) \<Rightarrow> string \<Rightarrow> BlockRule list \<Rightarrow> RequestLog list \<Rightarrow> rat \<Rightarrow> rat \<Rightarrow> (install_store, telemetry) py" where
  "build_telemetry_payload hash new_id rules rows period_start period_end =
     andThen (get_or_create_install_id new_id) (\<lambda>install_id.
       let logs = logs_in_period period_start period_end rows
       in ret \<lparr>tp_install_id = install_id, tp_period = (period_start, period_end), tp_ua_hashes = ua_hashes hash rules,
            tp_subnets = fold count_log logs [], tp_total_requests = int (length logs),
            tp_blocked = verdict_count BLOCKED logs, tp_challenged = verdict_count CHALLENGED logs,
            tp_throttled = verdict_count THROTTLED logs\<rparr>)"

text \<open>\<open>post\<close> stands for \<open>httpx.post\<close>: the status of the response or an exception.\<close>

definition submit_telemetry ::
  "ops_conf \<Rightarrow> (string \<Rightarrow> telemetry \<Rightarrow> strdict \<Rightarrow> py_exc + int) \<Rightarrow> telemetry \<Rightarrow> string \<Rightarrow> bool" where
  "submit_telemetry oc post payload report_url =
     (let url = (if report_url = [] then DJANGO_WAF_FEED_REPORT_URL oc else report_url);
          api_key = DJANGO_WAF_FEED_API_KEY oc;
          headers = [(''Content-Type'', ''application/json'')] @
            (if api_key = [] then [] else [(''Authorization'', ''Bearer '' @ api_key)])
      in case post url payload headers of Inl _ \<Rightarrow> False | Inr status \<Rightarrow> 200 \<le> status \<and> status \<le> 299)"

record report_result =
  rp_submitted :: bool
  rp_ua_hashes_count :: nat
  rp_subnets_count :: nat

definition report_threat_telemetry ::
  "ops_conf \<Rightarrow> 'r env \<Rightarrow> (string \<Rightarrow> telemetry \<Rightarrow> strdict \<Rightarrow> py_exc + int) \<Rightarrow> string \<Rightarrow> BlockRule list \<Rightarrow> RequestLog list \<Rightarrow>
     (install_store, report_result option) py" where
  "report_threat_telemetry oc E post new_id rules rows =
     (if \<not> DJANGO_WAF_FEED_REPORT oc then ret None
      else andThen (build_telemetry_payload (sha256 E) new_id rules rows (time_now E - 86400) (time_now E)) (\<lambda>payload.
        ret (Some \<lparr>rp_submitted = submit_telemetry oc post payload [], rp_ua_hashes_count = length (tp_ua_hashes payload),
          rp_subnets_count = length (tp_subnets payload)\<rparr>)))"

section \<open>What a report reveals\<close>

lemma insort_key_map: "map f (insort_key (\<lambda>x. g (f x)) a xs) = insort_key g (f a) (map f xs)"
  by (induction xs) auto

lemma sort_key_map: "map f (sort_key (\<lambda>x. g (f x)) xs) = sort_key g (map f xs)"
  by (induction xs) (simp_all add: insort_key_map)

lemma sort_key_same_projection:
  assumes "map f xs = map f ys" and "\<And>x. k x = g (f x)"
  shows "map f (sort_key k xs) = map f (sort_key k ys)"
proof -
  have "k = (\<lambda>x. g (f x))" using assms(2) by (rule ext)
  with assms(1) show ?thesis by (simp add: sort_key_map)
qed

lemma filter_same_projection:
  assumes "map f xs = map f ys" and "\<And>x. p x = q (f x)"
  shows "map f (filter p xs) = map f (filter p ys)"
proof -
  have "p = (\<lambda>x. q (f x))" using assms(2) by (rule ext)
  then have "map f (filter p zs) = filter q (map f zs)" for zs by (simp add: filter_map comp_def)
  with assms(1) show ?thesis by simp
qed

text \<open>What a report may depend on: of a request its time, its verdict and the network it came from; of
  a rule the hash of its pattern and the columns that select and order it.\<close>

definition log_trace :: "RequestLog \<Rightarrow> rat \<times> Verdict \<times> (py_exc + string)" where
  "log_trace r = (rl_timestamp r, rl_verdict r, get_subnet_prefix (rl_ip_address r))"

definition rule_trace :: "(string \<Rightarrow> string) \<Rightarrow> BlockRule \<Rightarrow> string \<times> string \<times> int \<times> int \<times> rat \<times> RuleSource \<times> bool" where
  "rule_trace hash r = (hash (br_pattern r), br_action r, br_hit_count r, br_priority r, br_created_at r, br_source r, br_rule_type r = ''ua'')"

lemma ua_hashes_trace:
  assumes "map (rule_trace hash) rules = map (rule_trace hash) rules'"
  shows "ua_hashes hash rules = ua_hashes hash rules'"
proof -
  let ?f = "rule_trace hash"
  let ?sel = "filter (\<lambda>r. br_source r \<in> {ADMIN, AUTO} \<and> br_rule_type r = ''ua'')"
  have "map ?f (?sel rules) = map ?f (?sel rules')"
    by (rule filter_same_projection [OF assms, where q = "\<lambda>(h, a, n, p, c, s, u). s \<in> {ADMIN, AUTO} \<and> u"])
      (simp add: rule_trace_def)
  then have "map ?f (BlockRule_ordering (?sel rules)) = map ?f (BlockRule_ordering (?sel rules'))"
    unfolding BlockRule_ordering_def
    by (intro sort_key_same_projection [where g = "\<lambda>(h, a, n, p, c, s, u). p"]
        sort_key_same_projection [where g = "\<lambda>(h, a, n, p, c, s, u). - c"]) (simp_all add: rule_trace_def)
  then have "map (\<lambda>(h, a, n, p, c, s, u). \<lparr>uh_sha256 = h, uh_action = a, uh_hits = n\<rparr>) (map ?f (BlockRule_ordering (?sel rules))) =
      map (\<lambda>(h, a, n, p, c, s, u). \<lparr>uh_sha256 = h, uh_action = a, uh_hits = n\<rparr>) (map ?f (BlockRule_ordering (?sel rules')))"
    by (rule arg_cong)
  then show ?thesis by (simp add: ua_hashes_def rule_trace_def comp_def)
qed

lemma count_log_trace: "count_log r = (case log_trace r of (t, v, p) \<Rightarrow> (\<lambda>counts. case p of Inl _ \<Rightarrow> counts | Inr subnet \<Rightarrow> count_subnet subnet v counts))"
  by (rule ext) (simp add: count_log_def log_trace_def)

lemma logs_trace:
  assumes "map log_trace rows = map log_trace rows'"
  shows "map log_trace (logs_in_period a b rows) = map log_trace (logs_in_period a b rows')"
  unfolding logs_in_period_def
  by (intro sort_key_same_projection [where g = "\<lambda>(t, v, p). - t"]
      filter_same_projection [OF assms, where q = "\<lambda>(t, v, p). a \<le> t \<and> t \<le> b"]) (simp_all add: log_trace_def)

lemma fold_count_trace:
  assumes "map log_trace rows = map log_trace rows'"
  shows "fold count_log rows acc = fold count_log rows' acc"
proof -
  let ?g = "\<lambda>(t, v, p). (\<lambda>counts. case p of Inl _ \<Rightarrow> counts | Inr subnet \<Rightarrow> count_subnet subnet v counts)"
  have "count_log = ?g \<circ> log_trace" by (rule ext) (simp only: comp_def count_log_trace)
  then have "fold count_log zs acc = fold ?g (map log_trace zs) acc" for zs
    by (simp add: fold_map)
  with assms show ?thesis by simp
qed

lemma verdict_count_trace:
  assumes "map log_trace rows = map log_trace rows'"
  shows "verdict_count v rows = verdict_count v rows'"
proof -
  have "map log_trace (filter (\<lambda>r. rl_verdict r = v) rows) = map log_trace (filter (\<lambda>r. rl_verdict r = v) rows')"
    by (rule filter_same_projection [OF assms, where q = "\<lambda>(t, u, p). u = v"]) (simp add: log_trace_def)
  then show ?thesis unfolding verdict_count_def by (metis length_map)
qed

text \<open>What the subnet of an address is: its first 24 bits, or 48 for IPv6.\<close>

lemma in_split: "x \<in> set s \<Longrightarrow> x \<noteq> c \<Longrightarrow> \<exists>p \<in> set (split c s). x \<in> set p"
proof (induction s)
  case (Cons y s)
  then show ?case by (cases "split c s") auto
qed simp

lemma all_some_parts: "all_some (map f xs) = Some ys \<Longrightarrow> x \<in> set xs \<Longrightarrow> f x \<noteq> None"
proof (induction xs arbitrary: ys)
  case (Cons z xs)
  then show ?case by (cases "f z") auto
qed simp

lemma address_no_slash:
  assumes "ip_address ip = Some x"
  shows "CHR ''/'' \<notin> set ip"
proof (cases "ipv4_int ip")
  case None
  with assms show ?thesis by (auto simp: ip_address_def parse_ipv6_def split: if_splits)
next
  case (Some n)
  then obtain ys where ys: "all_some (map parse_octet (split CHR ''.'' ip)) = Some ys"
    by (auto simp: ipv4_int_def Let_def split: if_splits)
  have "\<not> is_digit CHR ''/''" by code_simp
  then have "CHR ''/'' \<notin> set p" if "p \<in> set (split CHR ''.'' ip)" for p
    using all_some_parts [OF ys that] by (auto simp: parse_octet_def list_all_iff split: if_splits)
  then show ?thesis using in_split [of "CHR ''/''" ip "CHR ''.''"] by auto
qed

lemma get_subnet_prefix_V4:
  assumes "ip_address ip = Some (V4 a)"
  shows "get_subnet_prefix ip = Inr (compressed (V4 (a div 2 ^ 8 * 2 ^ 8)) @ ''/24'')"
proof -
  have p: "prefix4 ''24'' = Some 24" "str_nat 24 = ''24''" by code_simp+
  have "ipv4_int ip = Some a" using assms by (auto simp: ip_address_def parse_ipv6_def split: option.splits if_splits)
  then have "ip_network (ip @ ''/24'') = Some (Net4 (mask_low 8 a) 24)"
    using address_no_slash [OF assms] p by (simp add: ip_network_def split_append net4_def)
  then show ?thesis using assms p by (simp add: get_subnet_prefix_def mask_low_def)
qed

lemma get_subnet_prefix_V6:
  assumes "ip_address ip = Some (V6 a sc)"
  shows "get_subnet_prefix ip = Inr (compressed (V6 (a div 2 ^ 80 * 2 ^ 80) None) @ ''/48'')"
proof -
  have p: "prefix_from_string 128 ''48'' = Some 48" "str_nat 48 = ''48''" by code_simp+
  have "ipv4_int ip = None" "parse_ipv6 ip = Some (V6 a sc)" using assms by (auto simp: ip_address_def split: option.splits)
  then have "ip_network (ip @ ''/48'') = Some (Net6 (mask_low 80 a) 48)"
    using address_no_slash [OF assms] p by (simp add: ip_network_def split_append net4_def net6_def)
  then show ?thesis using assms p by (simp add: get_subnet_prefix_def mask_low_def)
qed

text \<open>
  C30. A telemetry report carries nothing about a client beyond its network: two installations whose logged
  requests agree in time, verdict and subnet, and whose rules agree in the hash of the pattern, action,
  hit count and order, send the same report to the endpoint and see the same result, whatever
  the full addresses, paths, user agents, referers and countries of the requests and the names
  and notes of the rules are. The subnet of an IPv4 address is the address with its last 8 bits cleared, that
  of an IPv6 address the address with its last 80 bits cleared and its zone dropped.
\<close>

theorem telemetry_reveals_only_networks:
  fixes E :: "'r env"
  assumes "map log_trace rows = map log_trace rows'" and "map (rule_trace (sha256 E)) rules = map (rule_trace (sha256 E)) rules'"
  shows "build_telemetry_payload (sha256 E) new_id rules rows t0 t1 = build_telemetry_payload (sha256 E) new_id rules' rows' t0 t1 \<and>
    report_threat_telemetry oc E post new_id rules rows = report_threat_telemetry oc E post new_id rules' rows' \<and>
    (ip_address ip = Some (V4 a) \<longrightarrow> get_subnet_prefix ip = Inr (compressed (V4 (a div 2 ^ 8 * 2 ^ 8)) @ ''/24'')) \<and>
    (ip_address ip = Some (V6 b zone) \<longrightarrow> get_subnet_prefix ip = Inr (compressed (V6 (b div 2 ^ 80 * 2 ^ 80) None) @ ''/48''))"
proof -
  have "length (logs_in_period a b rows) = length (logs_in_period a b rows')" for a b
    using logs_trace [OF assms(1)] by (metis length_map)
  then have "build_telemetry_payload (sha256 E) new_id rules rows a b = build_telemetry_payload (sha256 E) new_id rules' rows' a b" for a b
    unfolding build_telemetry_payload_def Let_def
    by (simp add: ua_hashes_trace [OF assms(2)] fold_count_trace [OF logs_trace [OF assms(1)]]
        verdict_count_trace [OF logs_trace [OF assms(1)]])
  then show ?thesis using get_subnet_prefix_V4 [of ip a] get_subnet_prefix_V6 [of ip b zone]
    by (simp add: report_threat_telemetry_def)
qed

theorem telemetry_reveals_only_networks_witness:
  "build_telemetry_payload (sha256 demo_env) ''id'' [] [example_log ''203.0.113.9'' ''a''] 0 2000 =
     build_telemetry_payload (sha256 demo_env) ''id'' [] [example_log ''203.0.113.8'' ''b''] 0 2000"
proof -
  have "get_subnet_prefix ''203.0.113.9'' = Inr ''203.0.113.0/24''" "get_subnet_prefix ''203.0.113.8'' = Inr ''203.0.113.0/24''"
    by code_simp+
  then have "map log_trace [example_log ''203.0.113.9'' ''a''] = map log_trace [example_log ''203.0.113.8'' ''b'']"
    by (simp add: log_trace_def example_log_def)
  from telemetry_reveals_only_networks [OF this refl, of demo_env] show ?thesis by blast
qed

section \<open>The identifier is stable\<close>

lemma install_id_kept:
  assumes "get_or_create_install_id new_id s = (Inr i, s')" and "new_id \<noteq> []" and "strip new_id = new_id"
    and "file_writable s" and "file_readable s" and "cached_id s \<in> {None, stored_id s}"
  shows "stored_id s' = Some i \<and> cached_id s' = Some i \<and> cache_up s' \<and> file_readable s'"
  using assms
  by (auto simp: get_or_create_install_id_def cache_set_id_def stored_id_def andThen_def Let_def
      split: option.splits if_splits list.splits)

text \<open>
  The identifier of an installation is stable: where the file can be written and read and the cache
  does not contradict it, the identifier of the first call is the identifier of every
  later call, also after the cache was emptied and whatever fresh identifier would be drawn then.
\<close>

theorem install_id_survives_restart:
  assumes "get_or_create_install_id new_id s = (Inr i, s')" and "new_id \<noteq> []" and "strip new_id = new_id"
    and "file_writable s" and "file_readable s" and "cached_id s \<in> {None, stored_id s}"
  shows "fst (get_or_create_install_id other s') = Inr i \<and> fst (get_or_create_install_id other (s'\<lparr>cached_id := None\<rparr>)) = Inr i"
proof -
  from install_id_kept [OF assms] have k: "stored_id s' = Some i" "cached_id s' = Some i" "cache_up s'" by blast+
  have "stored_id (s'\<lparr>cached_id := None\<rparr>) = stored_id s'" by (simp add: stored_id_def split: option.split)
  with k have "stored_id (s'\<lparr>cached_id := None\<rparr>) = Some i" by simp
  with k show ?thesis
    by (cases i) (simp_all add: get_or_create_install_id_def cache_set_id_def andThen_def)
qed

theorem install_id_survives_restart_witness:
  "fst (get_or_create_install_id ''cd'' \<lparr>cache_up = True, cached_id = None, id_file = Some ''ab'', file_readable = True, file_writable = True\<rparr>) = Inr ''ab''"
proof -
  let ?s = "\<lparr>cache_up = True, cached_id = None, id_file = None, file_readable = True, file_writable = True\<rparr>"
  have first: "get_or_create_install_id ''ab'' ?s = (Inr ''ab'', ?s\<lparr>id_file := Some ''ab'', cached_id := Some ''ab''\<rparr>)" by code_simp
  have "strip ''ab'' = ''ab''" by code_simp
  with install_id_survives_restart [OF first] show ?thesis by simp
qed

end
