(* ===== verification/Views.thy ===== *)
theory Views
  imports FormEntry ThreatFeed
begin

text \<open>
  \<open>views.py\<close>: the challenge page, the verification of a solution, the routed password form and the
  staff dashboard with the review of automatic rules. Django's class-based dispatch selects the
  method; \<open>json.loads\<close> of the body, \<open>str\<close> of a value that is no text, the text of an exception,
  templates, URL building and Django's \<open>redirect\<close> are the record \<open>view_env\<close>. A queryset of a panel runs when the template is rendered, after
  the \<open>try\<close> block that builds it.
\<close>

section \<open>Helpers\<close>

record view_env =
  json_body :: "pyval option"
  str_value :: "pyval \<Rightarrow> string"
  exc_text :: "py_exc \<Rightarrow> string"
  absolute_uri :: "request \<Rightarrow> string \<Rightarrow> string option"
  render_challenge :: "string \<Rightarrow> int \<Rightarrow> string \<Rightarrow> string \<Rightarrow> string"
  login_redirect :: "request \<Rightarrow> string"
  resolve_url :: "string \<Rightarrow> py_exc + string"

definition noindex :: "('w, HttpResponse) py \<Rightarrow> ('w, HttpResponse) py" where
  "noindex m = andThen m (\<lambda>response. ret (set_header ''X-Robots-Tag'' NOINDEX response))"

definition get_ip :: "conf \<Rightarrow> request \<Rightarrow> string" where
  "get_ip cf request = (let ip = resolve_client_ip cf request in if ip = [] then ''0.0.0.0'' else ip)"

text \<open>\<open>url_has_allowed_host_and_scheme\<close> strips its argument, which only a text has.\<close>

definition validate_next_url :: "'r app \<Rightarrow> request \<Rightarrow> pyval \<Rightarrow> py_exc + string" where
  "validate_next_url A request next_param =
     (if \<not> py_true next_param then Inr ''/''
      else (case req_host request of
          None \<Rightarrow> Inl DisallowedHost
        | Some host \<Rightarrow> (case next_param of
              PStr url \<Rightarrow> Inr (if url_allowed A url host (is_secure request) then url else ''/'')
            | _ \<Rightarrow> Inl AttributeError)))"

definition field_of :: "strdict \<Rightarrow> string \<Rightarrow> pyval" where
  "field_of d k = (case map_of d k of None \<Rightarrow> PNone | Some s \<Rightarrow> PStr s)"

definition value_text :: "view_env \<Rightarrow> pyval \<Rightarrow> string" where
  "value_text V v = (case v of PStr s \<Rightarrow> s | _ \<Rightarrow> str_value V v)"

definition json_response :: "int \<Rightarrow> strdict \<Rightarrow> HttpResponse" where
  "json_response status d = set_header ''Content-Type'' ''application/json''
     (http_response status (dumps (JDict (map (\<lambda>(k, v). (k, JStr v)) d))))"

text \<open>Django's \<open>redirect\<close> takes its target for the name of a view first. What is used of it: a text that names
  no view and has neither a slash nor a dot is no URL either, and \<open>NoReverseMatch\<close> is raised.\<close>

definition names_resolve :: "'r app \<Rightarrow> view_env \<Rightarrow> bool" where
  "names_resolve A V = (\<forall>dest. reverse_url A dest = None \<and> CHR ''/'' \<notin> set dest \<and> CHR ''.'' \<notin> set dest \<longrightarrow>
     resolve_url V dest = Inl NoReverseMatch)"

definition DASHBOARD_RANGES :: "string set" where
  "DASHBOARD_RANGES = {''today'', ''7d'', ''30d''}"

definition clean_range_param :: "request \<Rightarrow> string" where
  "clean_range_param request = (let r = dget (req_GET request) ''range'' ''today'' in if r \<in> DASHBOARD_RANGES then r else ''today'')"

definition range_since :: "rat \<Rightarrow> string \<Rightarrow> rat" where
  "range_since now range_param =
     (if range_param = ''7d'' then now - 7 * 86400
      else if range_param = ''30d'' then now - 30 * 86400
      else of_int \<lfloor>now / 86400\<rfloor> * 86400)"

section \<open>The challenge\<close>

definition add_form_replay :: "request \<Rightarrow> string \<Rightarrow> string" where
  "add_form_replay request next_url =
     (let form_replay = dget (req_GET request) ''form_replay'' [] in
      if form_replay = [] then next_url
      else next_url @ (if CHR ''?'' \<in> set next_url then ''&'' else ''?'') @ urlencode [(''form_replay'', form_replay)])"

definition ChallengeView_get ::
  "conf \<Rightarrow> 'r env \<Rightarrow> site \<Rightarrow> 'r app \<Rightarrow> view_env \<Rightarrow> string \<Rightarrow> request \<Rightarrow> ('r world, HttpResponse) py" where
  "ChallengeView_get cf E S A V token request = noindex
     (case validate_next_url A request (field_of (req_GET request) ''next'') of
        Inl e \<Rightarrow> raise e
      | Inr next_url \<Rightarrow> (case get_redis_client E of
            None \<Rightarrow> ret (http_response 503 ''This site is temporarily unavailable.'')
          | Some _ \<Rightarrow> andThen (issue_challenge cf E S token (get_ip cf request) (dget (META request) ''HTTP_USER_AGENT'' []))
              (\<lambda>challenge_token.
                 case (if DJANGO_WAF_VERIFY_URL cf \<noteq> [] then Some (DJANGO_WAF_VERIFY_URL cf) else reverse_url A ''django_waf:verify'') of
                   None \<Rightarrow> raise NoReverseMatch
                 | Some verify_path \<Rightarrow> (case absolute_uri V request verify_path of
                       None \<Rightarrow> raise DisallowedHost
                     | Some post_url \<Rightarrow> ret (set_header ''Cache-Control'' ''no-store'' (http_response 200
                         (render_challenge V (ct_token challenge_token) (ct_difficulty challenge_token)
                            (add_form_replay request next_url) post_url)))))))"

section \<open>The verification of a solution\<close>

definition verify_fields :: "view_env \<Rightarrow> request \<Rightarrow> py_exc + (pyval \<times> pyval \<times> pyval) option" where
  "verify_fields V request =
     (if contains_sub ''application/json'' (content_type request)
      then (case json_body V of
          None \<Rightarrow> Inr None
        | Some (PDict d) \<Rightarrow> Inr (Some (get_item d ''token'' PNone, get_item d ''nonce'' PNone, get_item d ''next'' PNone))
        | Some _ \<Rightarrow> Inl AttributeError)
      else Inr (Some (field_of (POST request) ''token'', field_of (POST request) ''nonce'', field_of (POST request) ''next'')))"

definition refuse_solution ::
  "conf \<Rightarrow> 'r env \<Rightarrow> site \<Rightarrow> view_env \<Rightarrow> string \<Rightarrow> request \<Rightarrow> string \<Rightarrow> py_exc \<Rightarrow> ('r world, HttpResponse) py" where
  "refuse_solution cf E S V new_token request ip e =
     andThen (attempt (issue_challenge cf E S new_token ip (dget (META request) ''HTTP_USER_AGENT'' []))) (\<lambda>t. case t of
        Some ct \<Rightarrow> ret (json_response 400 [(''error'', exc_text V e), (''new_token'', ct_token ct)])
      | None \<Rightarrow> ret (json_response 400 [(''error'', exc_text V e)]))"

definition mark_solved :: "'r env \<Rightarrow> string \<Rightarrow> ('r world, unit) py" where
  "mark_solved E ip = swallow (andThen (on_redis (r_exec (redis E) (SETEX (solved_key ip) 86400 ''1'')))
     (\<lambda>_. on_redis (r_exec (redis E) (DEL (challenged_key ip)))))"

definition register_browser :: "'r env \<Rightarrow> request \<Rightarrow> ('r world, unit) py" where
  "register_browser E request = swallow (on_redis (register_known_fingerprint (redis E) (compute_fingerprint (sha256 E) (META request))))"

definition let_through ::
  "conf \<Rightarrow> 'r env \<Rightarrow> site \<Rightarrow> 'r app \<Rightarrow> view_env \<Rightarrow> request \<Rightarrow> string \<Rightarrow> string \<Rightarrow> string \<Rightarrow> ('r world, HttpResponse) py" where
  "let_through cf E S A V request token ip next_url = (case resolve_url V next_url of
      Inl e \<Rightarrow> raise e
    | Inr url \<Rightarrow> ret (issue_pass_cookie cf S (time_now E) (redirect_to (iri_to_uri A url)) token ip (is_secure request)))"

definition settle_solution ::
  "conf \<Rightarrow> 'r env \<Rightarrow> site \<Rightarrow> 'r app \<Rightarrow> view_env \<Rightarrow> string \<Rightarrow> request \<Rightarrow> string \<Rightarrow> string \<Rightarrow> string \<Rightarrow> string \<Rightarrow> ('r world, HttpResponse) py" where
  "settle_solution cf E S A V new_token request token nonce ip next_url =
     andThen (try_except (andThen (verify_challenge_solution E S token nonce ip) (\<lambda>_. ret None))
        (\<lambda>e. if e \<in> {ChallengeExpiredError, ChallengeMismatchError, ChallengeInvalidError} then ret (Some e) else raise e))
       (\<lambda>refused. case refused of
          Some e \<Rightarrow> refuse_solution cf E S V new_token request ip e
        | None \<Rightarrow> andThen (mark_solved E ip) (\<lambda>_. andThen (register_browser E request)
            (\<lambda>_. let_through cf E S A V request token ip next_url)))"

definition VerifyView_post ::
  "conf \<Rightarrow> 'r env \<Rightarrow> site \<Rightarrow> 'r app \<Rightarrow> view_env \<Rightarrow> string \<Rightarrow> request \<Rightarrow> ('r world, HttpResponse) py" where
  "VerifyView_post cf E S A V new_token request = noindex
     (case verify_fields V request of
        Inl e \<Rightarrow> raise e
      | Inr None \<Rightarrow> ret (json_response 400 [(''error'', ''Invalid JSON in request body.'')])
      | Inr (Some (token, nonce, next_param)) \<Rightarrow>
          if \<not> py_true token \<or> \<not> py_true nonce then ret (json_response 400 [(''error'', ''Missing token or nonce.'')])
          else (case validate_next_url A request next_param of
              Inl e \<Rightarrow> raise e
            | Inr next_url \<Rightarrow> (case get_redis_client E of
                  None \<Rightarrow> ret (json_response 503 [(''error'', ''This site is temporarily unavailable.'')])
                | Some client \<Rightarrow> andThen (attempt (on_redis (check_verify_rate_limit cf client (time_now E) (get_ip cf request))))
                    (\<lambda>rate_result. case rate_result of
                        None \<Rightarrow> settle_solution cf E S A V new_token request (value_text V token) (value_text V nonce) (get_ip cf request) next_url
                      | Some rr \<Rightarrow>
                          if exceeded rr
                          then ret (set_header ''Retry-After'' (case retry_after rr of None \<Rightarrow> ''60'' | Some n \<Rightarrow> str_int n)
                            (json_response 429 [(''error'', ''Too many verification attempts. Please retry later.'')]))
                          else settle_solution cf E S A V new_token request (value_text V token) (value_text V nonce) (get_ip cf request) next_url))))"

section \<open>The routed password form\<close>

definition SitePasswordVerifyView_post ::
  "conf \<Rightarrow> 'r env \<Rightarrow> site \<Rightarrow> 'r app \<Rightarrow> view_env \<Rightarrow> request \<Rightarrow> ('r world, HttpResponse) py" where
  "SitePasswordVerifyView_post cf E S A V request = noindex
     (if \<not> is_gate_enabled cf \<or> is_misconfigured cf then ret (http_response 503 ''This site is temporarily unavailable.'')
      else (let next_param = dget (POST request) ''next'' [] in
        case check_password cf (dget (POST request) ''password'' []) of
          Inl e \<Rightarrow> raise e
        | Inr True \<Rightarrow> (case validate_next_url A request (PStr next_param) of
              Inl e \<Rightarrow> raise e
            | Inr safe_next \<Rightarrow> (case resolve_url V safe_next of
                  Inl e \<Rightarrow> raise e
                | Inr url \<Rightarrow> ret (set_verified_cookie cf S (time_now E) (redirect_to (iri_to_uri A url)) request)))
        | Inr False \<Rightarrow> andThen (record_guess_throttle_hit cf E (get_ip cf request)) (\<lambda>throttled.
            if throttled then ret (set_header ''Retry-After'' ''60'' (http_response 429 ''Too many attempts. Please retry later.''))
            else (case validate_next_url A request (PStr next_param) of
                Inl e \<Rightarrow> raise e
              | Inr next_url \<Rightarrow> ret (http_response 401 (render_site_password A (Some ''Incorrect password. Please try again.'')
                  next_url (req_path request)))))))"

section \<open>The dashboard\<close>

definition is_staff_request :: "request \<Rightarrow> py_exc + bool" where
  "is_staff_request request = (case req_user request of None \<Rightarrow> Inl AttributeError | Some u \<Rightarrow> Inr (is_authenticated u \<and> is_staff u))"

definition is_superuser_request :: "request \<Rightarrow> py_exc + bool" where
  "is_superuser_request request = (case req_user request of None \<Rightarrow> Inl AttributeError | Some u \<Rightarrow> Inr (is_authenticated u \<and> is_superuser u))"

text \<open>Django's \<open>handle_no_permission\<close>: a user who is logged in is refused, others go to the login page.\<close>

definition handle_no_permission :: "view_env \<Rightarrow> request \<Rightarrow> ('w, HttpResponse) py" where
  "handle_no_permission V request = (case req_user request of
      Some u \<Rightarrow> if is_authenticated u then raise PermissionDenied else ret (redirect_to (login_redirect V request))
    | None \<Rightarrow> raise AttributeError)"

definition StaffRequired :: "view_env \<Rightarrow> request \<Rightarrow> ('w, 'a) py \<Rightarrow> ('w, HttpResponse + 'a) py" where
  "StaffRequired V request m = (case is_staff_request request of
      Inl e \<Rightarrow> raise e
    | Inr False \<Rightarrow> andThen (handle_no_permission V request) (\<lambda>r. ret (Inl r))
    | Inr True \<Rightarrow> andThen m (\<lambda>x. ret (Inr x)))"

definition SuperuserRequired :: "view_env \<Rightarrow> request \<Rightarrow> ('w, HttpResponse) py \<Rightarrow> ('w, HttpResponse) py" where
  "SuperuserRequired V request m = (case is_superuser_request request of
      Inl e \<Rightarrow> raise e
    | Inr False \<Rightarrow> handle_no_permission V request
    | Inr True \<Rightarrow> m)"

record stats =
  s_total :: int
  s_blocked :: int
  s_challenged :: int
  s_throttled :: int
  s_allowed :: int
  s_passed :: int

definition db_stats :: "'r env \<Rightarrow> rat \<Rightarrow> ('r world, stats) py" where
  "db_stats E t0 = db E (read_state (\<lambda>w.
     let rows = filter (\<lambda>r. t0 \<le> rl_timestamp r) (RequestLogs w);
         n = (\<lambda>v. int (length (filter (\<lambda>r. rl_verdict r = v) rows)))
     in \<lparr>s_total = int (length rows), s_blocked = n BLOCKED, s_challenged = n CHALLENGED, s_throttled = n THROTTLED,
         s_allowed = n ALLOWED, s_passed = n PASSED\<rparr>))"

definition r_hgetall :: "'r redis \<Rightarrow> string \<Rightarrow> ('r, (string \<times> int) list) py" where
  "r_hgetall C k = andThen (r_call C (HGETALL k)) (\<lambda>rep. case rep of HashR h \<Rightarrow> ret h | _ \<Rightarrow> raise RedisError)"

definition snapshot_stats :: "(string \<times> int) list \<Rightarrow> stats" where
  "snapshot_stats raw = (let n = (\<lambda>k. case map_of raw k of None \<Rightarrow> 0 | Some i \<Rightarrow> i) in
     \<lparr>s_total = n ''total'', s_blocked = n ''blocked'', s_challenged = n ''challenged'', s_throttled = n ''throttled'',
      s_allowed = n ''allowed'', s_passed = n ''passed''\<rparr>)"

definition fetch_stats :: "'r env \<Rightarrow> string \<Rightarrow> ('r world, stats) py" where
  "fetch_stats E range_param =
     (if range_param \<noteq> ''today'' then db_stats E (range_since (time_now E) range_param)
      else (case get_redis_client E of
          None \<Rightarrow> db_stats E (range_since (time_now E) ''today'')
        | Some client \<Rightarrow> andThen (attempt (on_redis (r_hgetall client STATS_KEY))) (\<lambda>raw. case raw of
              None \<Rightarrow> db_stats E (range_since (time_now E) ''today'')
            | Some h \<Rightarrow> ret (snapshot_stats h))))"

definition DashboardStatsPanel :: "'r env \<Rightarrow> view_env \<Rightarrow> request \<Rightarrow> ('r world, HttpResponse + stats) py" where
  "DashboardStatsPanel E V request = StaffRequired V request (fetch_stats E (clean_range_param request))"

definition top_blocked_ips :: "rat \<Rightarrow> IPReputation list \<Rightarrow> IPReputation list" where
  "top_blocked_ips t0 rows = take 10 (sort_key (\<lambda>r. - ip_blocked_requests r)
     (filter (\<lambda>r. case ip_last_seen_at r of None \<Rightarrow> False | Some t \<Rightarrow> t0 \<le> t) rows))"

definition DashboardTopBlockedPanel :: "'r env \<Rightarrow> view_env \<Rightarrow> request \<Rightarrow> ('r world, HttpResponse + IPReputation list) py" where
  "DashboardTopBlockedPanel E V request = StaffRequired V request
     (db E (read_state (\<lambda>w. top_blocked_ips (range_since (time_now E) (clean_range_param request)) (IPReputations w))))"

definition top_rules :: "BlockRule list \<Rightarrow> BlockRule list" where
  "top_rules rows = take 10 (sort_key (\<lambda>r. - br_hit_count r) (filter (\<lambda>r. br_is_active r \<and> 0 < br_hit_count r) rows))"

definition unused_rules :: "BlockRule list \<Rightarrow> BlockRule list" where
  "unused_rules rows = take 20 (BlockRule_ordering (filter (\<lambda>r. br_is_active r \<and> br_hit_count r = 0) rows))"

definition DashboardRuleEffectivenessPanel ::
  "'r env \<Rightarrow> view_env \<Rightarrow> request \<Rightarrow> ('r world, HttpResponse + BlockRule list \<times> BlockRule list) py" where
  "DashboardRuleEffectivenessPanel E V request = StaffRequired V request
     (andThen (db E (read_state (\<lambda>w. top_rules (BlockRules w)))) (\<lambda>a.
      andThen (db E (read_state (\<lambda>w. unused_rules (BlockRules w)))) (\<lambda>b. ret (a, b))))"

definition recent_auto_rules :: "rat \<Rightarrow> BlockRule list \<Rightarrow> BlockRule list" where
  "recent_auto_rules cutoff rows = sort_key (\<lambda>r. if br_review_status r = PENDING_REVIEW then 0 else 1 :: int)
     (sort_key (\<lambda>r. - br_created_at r) (filter (\<lambda>r. br_source r = AUTO \<and> cutoff \<le> br_created_at r) rows))"

definition DashboardAnomalyPanel ::
  "'r env \<Rightarrow> view_env \<Rightarrow> request \<Rightarrow> ('r world, HttpResponse + BlockRule list \<times> review_counts option) py" where
  "DashboardAnomalyPanel E V request = StaffRequired V request
     (andThen (attempt (auto_rule_review_outcomes E 168)) (\<lambda>outcomes. case outcomes of
        None \<Rightarrow> ret ([], None)
      | Some counts \<Rightarrow> andThen (db E (read_state (\<lambda>w. recent_auto_rules (time_now E - 48 * 3600) (BlockRules w))))
          (\<lambda>rules. ret (rules, Some counts))))"

section \<open>Review\<close>

definition get_rule_or_404 :: "'r env \<Rightarrow> uuid \<Rightarrow> ('r world, BlockRule) py" where
  "get_rule_or_404 E u = andThen (db E (read_state (\<lambda>w. find (\<lambda>r. br_id r = u) (BlockRules w))))
     (\<lambda>r. case r of None \<Rightarrow> raise Http404 | Some r \<Rightarrow> ret r)"

text \<open>\<open>save(update_fields=...)\<close> writes these columns only; it is an error to update no row.\<close>

definition update_rule :: "'r env \<Rightarrow> uuid \<Rightarrow> (BlockRule \<Rightarrow> BlockRule) \<Rightarrow> ('r world, unit) py" where
  "update_rule E u f = andThen (db E (\<lambda>w. if u \<in> br_id ` set (BlockRules w)
       then (Inr (), w\<lparr>BlockRules := map (\<lambda>r. if br_id r = u then f r else r) (BlockRules w)\<rparr>)
       else (Inl DatabaseError, w)))
     (\<lambda>_. on_block_rule_save E u False)"

definition confirmed_rule :: "'r env \<Rightarrow> BlockRule \<Rightarrow> BlockRule" where
  "confirmed_rule E r = r\<lparr>br_source := ADMIN, br_expires_at := None, br_is_active := True,
     br_review_status := CONFIRMED, br_reviewed_at := Some (time_now E)\<rparr>"

definition DashboardAnomalyConfirmView_post ::
  "'r env \<Rightarrow> view_env \<Rightarrow> (BlockRule \<Rightarrow> string) \<Rightarrow> request \<Rightarrow> uuid \<Rightarrow> ('r world, HttpResponse) py" where
  "DashboardAnomalyConfirmView_post E V render_row request u = SuperuserRequired V request
     (andThen (get_rule_or_404 E u) (\<lambda>rule. andThen (update_rule E u (confirmed_rule E))
        (\<lambda>_. ret (http_response 200 (render_row (confirmed_rule E rule))))))"

definition rejected_rule :: "'r env \<Rightarrow> BlockRule \<Rightarrow> BlockRule" where
  "rejected_rule E r = r\<lparr>br_is_active := False, br_review_status := REJECTED, br_reviewed_at := Some (time_now E)\<rparr>"

definition DashboardAnomalyRejectView_post :: "'r env \<Rightarrow> view_env \<Rightarrow> request \<Rightarrow> uuid \<Rightarrow> ('r world, HttpResponse) py" where
  "DashboardAnomalyRejectView_post E V request u = SuperuserRequired V request
     (andThen (get_rule_or_404 E u) (\<lambda>_. andThen (update_rule E u (rejected_rule E)) (\<lambda>_. ret (http_response 200 []))))"

section \<open>Running the verification\<close>

text \<open>The pipeline of the rate limiter touches one key only.\<close>

lemma live_window_other:
  assumes "j \<noteq> k"
  shows "live (snd (run_cmds [ZADD k m t, ZREMRANGEBYSCORE k a b, ZCARD k, ZFIRST k, EXPIRE k n] s)) j = live s j"
proof -
  have one: "live (snd (run_cmd c s)) j = live s j"
    if "c \<in> {ZADD k m t, ZREMRANGEBYSCORE k a b, ZCARD k, ZFIRST k, EXPIRE k n}" for c s
    using that assms by (auto simp: Let_def zput_def live_remove live_put split: option.splits rval.splits)
  have "live (snd (run_cmds cs s)) j = live s j"
    if "set cs \<subseteq> {ZADD k m t, ZREMRANGEBYSCORE k a b, ZCARD k, ZFIRST k, EXPIRE k n}" for cs
    using that
  proof (induction cs arbitrary: s)
    case (Cons c cs)
    then show ?case using one [of c s] Cons.IH [of "snd (run_cmd c s)"] by (simp add: Let_def case_prod_unfold)
  qed simp
  note this [of "[ZADD k m t, ZREMRANGEBYSCORE k a b, ZCARD k, ZFIRST k, EXPIRE k n]"]
  then show ?thesis by (simp only: list.set subset_refl)
qed

lemma check_verify_other:
  assumes "redis_server C store_of" and "check_verify_rate_limit cf C now ip r = (Inr res, r')" and "j \<noteq> verify_key ip"
  shows "live (store_of r') j = live (store_of r) j"
proof -
  let ?w = "DJANGO_WAF_VERIFY_RATE_LIMIT_WINDOW_SECONDS cf" and ?k = "verify_key ip"
  let ?cs = "[ZADD ?k (float_text now) now, ZREMRANGEBYSCORE ?k 0 (now - of_int ?w), ZCARD ?k, ZFIRST ?k, EXPIRE ?k (?w + 10)]"
  obtain x r1 where x: "window_hit C ?k now ?w (?w + 10) r = (x, r1)" by fastforce
  with assms(2) obtain p where p: "x = Inr p" "r1 = r'"
    by (cases x) (auto simp: check_verify_rate_limit_def Let_def split: prod.splits if_splits)
  then have "\<exists>reps. C ?cs r = (Inr reps, r')" using x
    by (auto simp: window_hit_def split: prod.splits sum.splits list.splits redis_reply.splits)
  then obtain reps where "C ?cs r = (Inr reps, r')" ..
  from redis_server.documented [OF assms(1) this] have "store_of r' = snd (run_cmds ?cs (store_of r))" by simp
  then show ?thesis using live_window_other [OF assms(3)] by simp
qed

lemma verify_key_neq [simp]: "challenge_key t \<noteq> verify_key ip"
  by (simp add: challenge_key_def verify_key_def)

lemma attempt_Inr: "m w = (Inr x, w') \<Longrightarrow> attempt m w = (Inr (Some x), w')"
  by (simp add: attempt_def)

lemma settle_solution_good:
  assumes up: "redis_up (redis E) store_of" and dbok: "\<And>n. db_ok E n"
    and row: "find (\<lambda>r. ct_token r = token) (ChallengeTokens w) = Some r" "ct_status r = PENDING" "time_now E \<le> ct_expires_at r"
      "ct_ip_address r = ip"
    and lv: "live (store_of (server w)) (challenge_key token) = map_option RStr raw" "raw \<in> {None, Some (dumps (challenge_payload E0 ip (ct_difficulty r) t))}"
    and pow: "digest_has_leading_zero_bits (sha256_digest S (utf8 (token @ nonce))) (ct_difficulty r)"
  shows "\<exists>w'. settle_solution cf E S A V new_token request token nonce ip next_url w = let_through cf E S A V request token ip next_url w' \<and>
     ChallengeTokens w' = map (\<lambda>r. if ct_token r = token
        then r\<lparr>ct_status := SOLVED, ct_solved_at := Some (time_now E), ct_nonce := nonce\<rparr> else r) (ChallengeTokens w)"
proof -
  from verify_good [OF up dbok row lv pow] obtain w1 where
    w1: "verify_challenge_solution E S token nonce ip w = (Inr True, w1)"
    "ChallengeTokens w1 = map (\<lambda>r. if ct_token r = token
        then r\<lparr>ct_status := SOLVED, ct_solved_at := Some (time_now E), ct_nonce := nonce\<rparr> else r) (ChallengeTokens w)" by blast
  have run: "settle_solution cf E S A V new_token request token nonce ip next_url w =
      let_through cf E S A V request token ip next_url (snd (register_browser E request (snd (mark_solved E ip w1))))"
    using w1(1) by (simp add: settle_solution_def mark_solved_def register_browser_def swallow_state)
  have "frames ChallengeTokens (mark_solved E ip)" "frames ChallengeTokens (register_browser E request)"
    unfolding mark_solved_def register_browser_def by (intro frame_intros; simp)+
  then have "ChallengeTokens (snd (register_browser E request (snd (mark_solved E ip w1)))) = ChallengeTokens w1"
    by (simp add: frames_def)
  with run w1(2) show ?thesis by auto
qed

lemma VerifyView_settles:
  assumes "verify_fields V request = Inr (Some (PStr token, PStr nonce, next_param))" and "token \<noteq> []" and "nonce \<noteq> []"
    and "validate_next_url A request next_param = Inr next_url" and "backend E = Redis_backend"
    and "check_verify_rate_limit cf (redis E) (time_now E) (get_ip cf request) (server w) = (Inr rr, r1)" and "\<not> exceeded rr"
  shows "VerifyView_post cf E S A V new_token request w =
     noindex (settle_solution cf E S A V new_token request token nonce (get_ip cf request) next_url) (w\<lparr>server := r1\<rparr>)"
  using assms by (simp add: VerifyView_post_def noindex_def py_true_def get_redis_client_def attempt_def value_text_def andThen_def)

section \<open>From the challenge to the site\<close>

text \<open>A request that only the rules could stop.\<close>

definition reaches_rules :: "conf \<Rightarrow> 'r env \<Rightarrow> site \<Rightarrow> 'r app \<Rightarrow> request \<Rightarrow> bool" where
  "reaches_rules cf E S A request = (gate_open cf E S request \<and>
     (case DJANGO_WAF_ALLOWED_METHODS cf of None \<Rightarrow> True | Some allowed \<Rightarrow> req_method request \<in> set allowed) \<and>
     resolve_client_ip cf request \<noteq> [] \<and>
     (let country = lookup_country A (resolve_client_ip cf request)
      in country = [] \<or> upper country \<notin> upper ` set (DJANGO_WAF_BLOCKED_COUNTRIES cf)))"

lemma validate_nonempty: "\<not> validate_pass_cookie S now [] ip"
proof -
  have "rcut BAR [] = None" by code_simp
  then show ?thesis by (simp add: validate_pass_cookie_def unseal_def)
qed

lemma pass_cookie_skips_evaluation:
  assumes "reaches_rules cf E S A request" and "dget (COOKIES request) ''waf_pass'' [] \<noteq> []"
    and "validate_pass_cookie S (time_now E) (dget (COOKIES request) ''waf_pass'' []) (resolve_client_ip cf request)"
  shows "waf_call cf E S A request = get_response cf E S A request"
proof -
  have g: "gate_open cf E S request" "case DJANGO_WAF_ALLOWED_METHODS cf of None \<Rightarrow> True | Some allowed \<Rightarrow> req_method request \<in> set allowed"
    "resolve_client_ip cf request \<noteq> []"
    "let country = lookup_country A (resolve_client_ip cf request)
      in country = [] \<or> upper country \<notin> upper ` set (DJANGO_WAF_BLOCKED_COUNTRIES cf)"
    using assms(1) unfolding reaches_rules_def by blast+
  have "protect cf E S A request (path_info request) = get_response cf E S A request"
    unfolding protect_def Let_def country_passes [OF g(4)] using g(3) assms(2,3) by (simp split: option.splits)
  then show ?thesis using g(2) gate_passes [OF g(1)]
    by (cases "DJANGO_WAF_ALLOWED_METHODS cf") (simp_all add: waf_call_def Let_def)
qed

text \<open>
  C16. A client that solves its challenge gets to the site: the solution, submitted from the address the challenge
  was issued to before it expires, is answered with a redirect that sets a pass cookie, and from then on, for the
  lifetime of the cookie, every request from that address that carries it gets the response of the view, whatever the
  block rules, rate limits and scores say. This joins the verify view, the rate limiter, the
  challenge service, the cookie and the middleware.
\<close>

theorem solved_challenge_opens_the_site:
  fixes E :: "'r env" and A :: "'r app"
  assumes up: "redis_up (redis E) store_of" "backend E = Redis_backend" "\<And>n. db_ok E n"
    and h: "hex_signer (hmac_sign S)" and bar: "BAR \<notin> set token" "BAR \<notin> set (normalise_ip ip)"
    and range: "0 \<le> \<lfloor>time_now E\<rfloor> + DJANGO_WAF_CHALLENGE_COOKIE_TTL cf" "\<lfloor>time_now E\<rfloor> + DJANGO_WAF_CHALLENGE_COOKIE_TTL cf < 10 ^ 18"
    and posted: "verify_fields V request = Inr (Some (PStr token, PStr nonce, next_param))" "token \<noteq> []" "nonce \<noteq> []" "get_ip cf request = ip"
    and target: "validate_next_url A request next_param = Inr next_url" "resolve_url V next_url = Inr url"
    and rate: "check_verify_rate_limit cf (redis E) (time_now E) ip (server w) = (Inr rr, r1)" "\<not> exceeded rr"
    and row: "find (\<lambda>r. ct_token r = token) (ChallengeTokens w) = Some r" "ct_status r = PENDING" "time_now E \<le> ct_expires_at r"
      "ct_ip_address r = ip"
    and lv: "live (store_of (server w)) (challenge_key token) = map_option RStr raw" "raw \<in> {None, Some (dumps (challenge_payload E0 ip (ct_difficulty r) t))}"
    and pow: "digest_has_leading_zero_bits (sha256_digest S (utf8 (token @ nonce))) (ct_difficulty r)"
  shows "\<exists>response w' c. VerifyView_post cf E S A V new_token request w = (Inr response, w') \<and> status_code response = 302 \<and>
     map_of (headers response) ''Location'' = Some (iri_to_uri A url) \<and> map_of (cookies response) ''waf_pass'' = Some c \<and>
     (\<forall>(E2 :: 'r env) A2 request2. reaches_rules cf E2 S A2 request2 \<and> dget (COOKIES request2) ''waf_pass'' [] = cookie_value c \<and>
        normalise_ip (resolve_client_ip cf request2) = normalise_ip ip \<and>
        time_now E2 \<le> of_int (\<lfloor>time_now E\<rfloor> + DJANGO_WAF_CHALLENGE_COOKIE_TTL cf) \<longrightarrow>
        waf_call cf E2 S A2 request2 = get_response cf E2 S A2 request2)"
proof -
  let ?w = "w\<lparr>server := r1\<rparr>"
  have srv: "redis_server (redis E) store_of" using up(1) by (rule redis_up.axioms)
  have lv': "live (store_of (server ?w)) (challenge_key token) = map_option RStr raw"
    using check_verify_other [OF srv rate(1) verify_key_neq] lv(1) by simp
  have row': "find (\<lambda>r. ct_token r = token) (ChallengeTokens ?w) = Some r" using row(1) by simp
  from settle_solution_good [OF up(1,3) row' row(2-4) lv' lv(2) pow] obtain w' where
    run: "settle_solution cf E S A V new_token request token nonce ip next_url ?w = let_through cf E S A V request token ip next_url w'" by blast
  define resp where "resp = issue_pass_cookie cf S (time_now E) (redirect_to (iri_to_uri A url)) token ip (is_secure request)"
  obtain c where c: "map_of (cookies resp) ''waf_pass'' = Some c" unfolding resp_def issue_pass_cookie_def Let_def by simp
  have settled: "settle_solution cf E S A V new_token request token nonce ip next_url ?w = (Inr resp, w')"
    unfolding run using target(2) by (simp add: let_through_def resp_def)
  have "VerifyView_post cf E S A V new_token request w = (Inr (set_header ''X-Robots-Tag'' NOINDEX resp), w')"
    using VerifyView_settles [OF posted(1-3) target(1) up(2)] rate posted(4) settled
    by (simp add: noindex_def)
  moreover have "status_code (set_header ''X-Robots-Tag'' NOINDEX resp) = 302"
    "map_of (headers (set_header ''X-Robots-Tag'' NOINDEX resp)) ''Location'' = Some (iri_to_uri A url)"
    "map_of (cookies (set_header ''X-Robots-Tag'' NOINDEX resp)) ''waf_pass'' = Some c"
    using c by (simp_all add: resp_def issue_pass_cookie_def redirect_to_def set_header_def set_cookie_def http_response_def Let_def)
  moreover have "waf_call cf E2 S A2 request2 = get_response cf E2 S A2 request2"
    if "reaches_rules cf E2 S A2 request2" "dget (COOKIES request2) ''waf_pass'' [] = cookie_value c"
      "normalise_ip (resolve_client_ip cf request2) = normalise_ip ip"
      "time_now E2 \<le> of_int (\<lfloor>time_now E\<rfloor> + DJANGO_WAF_CHALLENGE_COOKIE_TTL cf)" for E2 :: "'r env" and A2 request2
  proof (rule pass_cookie_skips_evaluation [OF that(1)])
    show v: "validate_pass_cookie S (time_now E2) (dget (COOKIES request2) ''waf_pass'' []) (resolve_client_ip cf request2)"
      unfolding that(2) using pass_cookie_bound [OF h bar range c [unfolded resp_def]] that(3,4) by simp
    show "dget (COOKIES request2) ''waf_pass'' [] \<noteq> []" using v validate_nonempty by metis
  qed
  ultimately show ?thesis by blast
qed

definition views_app :: "store app" where
  "views_app = demo_app\<lparr>reverse_url := (\<lambda>_. None), url_allowed := (\<lambda>_ _ _. True)\<rparr>"

definition demo_views :: view_env where
  "demo_views = \<lparr>json_body = None, str_value = (\<lambda>_. []), exc_text = (\<lambda>_. ''refused''), absolute_uri = (\<lambda>_ p. Some p),
     render_challenge = (\<lambda>_ _ _ _. []), login_redirect = (\<lambda>_. ''/login/''),
     resolve_url = (\<lambda>dest. if CHR ''/'' \<notin> set dest \<and> CHR ''.'' \<notin> set dest then Inl NoReverseMatch else Inr dest)\<rparr>"

definition solver :: "strdict \<Rightarrow> request" where
  "solver d = (visitor [])\<lparr>req_method := ''POST'', POST := [(''token'', ''ab''), (''nonce'', ''1'')] @ d\<rparr>"

definition issued_world :: "store world" where
  "issued_world = snd (issue_challenge default_conf demo_env demo_site ''ab'' ''203.0.113.9'' [] empty_world)"

lemma issued_world_facts:
  "\<exists>r. find (\<lambda>r. ct_token r = ''ab'') (ChallengeTokens issued_world) = Some r \<and> ct_status r = PENDING \<and> time_now demo_env \<le> ct_expires_at r \<and>
     ct_ip_address r = ''203.0.113.9'' \<and> ct_difficulty r = 16 \<and>
     live (server issued_world) (challenge_key ''ab'') = map_option RStr (Some (dumps (challenge_payload demo_env ''203.0.113.9'' (ct_difficulty r) (ct_expires_at r))))"
proof -
  have "time_now demo_env = 1000" by (simp add: demo_env_def)
  then show ?thesis using demo_issued by (simp add: issued_world_def live_put fresh_store_def)
qed

lemma demo_solver:
  "redis_up (redis demo_env) (\<lambda>s. s)" "backend demo_env = Redis_backend" "db_ok demo_env n"
  "verify_fields demo_views (solver d) = Inr (Some (PStr ''ab'', PStr ''1'', field_of d ''next''))"
  "get_ip default_conf (solver d) = ''203.0.113.9''"
  "\<exists>r1. check_verify_rate_limit default_conf (redis demo_env) (time_now demo_env) ''203.0.113.9'' (server issued_world) = (Inr not_exceeded, r1)"
  "digest_has_leading_zero_bits (sha256_digest demo_site (utf8 (''ab'' @ ''1''))) 16"
proof -
  show "redis_up (redis demo_env) (\<lambda>s. s)" using mem.redis_up_axioms by (simp add: demo_env_def)
  show "backend demo_env = Redis_backend" "db_ok demo_env n" by (simp_all add: demo_env_def)
  show "verify_fields demo_views (solver d) = Inr (Some (PStr ''ab'', PStr ''1'', field_of d ''next''))"
    by (simp add: verify_fields_def solver_def visitor_def field_of_def)
  have "resolve_client_ip default_conf (solver d) = resolve_client_ip default_conf (visitor [])"
    by (simp add: resolve_client_ip_def solver_def Let_def)
  then show "get_ip default_conf (solver d) = ''203.0.113.9''" by (simp add: get_ip_def)
  have "fst (check_verify_rate_limit default_conf (redis demo_env) (time_now demo_env) ''203.0.113.9'' (server issued_world)) = Inr not_exceeded"
    by code_simp
  then show "\<exists>r1. check_verify_rate_limit default_conf (redis demo_env) (time_now demo_env) ''203.0.113.9'' (server issued_world) = (Inr not_exceeded, r1)"
    by (metis prod.collapse)
  show "digest_has_leading_zero_bits (sha256_digest demo_site (utf8 (''ab'' @ ''1''))) 16"
    unfolding leading_zero_bits_iff by (simp add: demo_site_def) code_simp
qed

theorem solved_challenge_opens_the_site_witness:
  "\<exists>response w' c. VerifyView_post default_conf demo_env demo_site views_app demo_views ''cd'' (solver []) issued_world = (Inr response, w') \<and>
     status_code response = 302 \<and> map_of (cookies response) ''waf_pass'' = Some c"
proof -
  from issued_world_facts obtain r where r: "find (\<lambda>r. ct_token r = ''ab'') (ChallengeTokens issued_world) = Some r" "ct_status r = PENDING"
    "time_now demo_env \<le> ct_expires_at r" "ct_ip_address r = ''203.0.113.9''" "ct_difficulty r = 16"
    "live (server issued_world) (challenge_key ''ab'') = map_option RStr (Some (dumps (challenge_payload demo_env ''203.0.113.9'' (ct_difficulty r) (ct_expires_at r))))"
    by blast
  have h: "hex_signer (hmac_sign demo_site)" by (rule demo_pass.hex_signer_axioms)
  have n: "normalise_ip ''203.0.113.9'' = ''203.0.113.9''" by code_simp
  have b: "BAR \<notin> set ''ab''" "BAR \<notin> set (normalise_ip ''203.0.113.9'')" unfolding n by (simp_all add: BAR_def)
  have t: "0 \<le> \<lfloor>time_now demo_env\<rfloor> + DJANGO_WAF_CHALLENGE_COOKIE_TTL default_conf"
    "\<lfloor>time_now demo_env\<rfloor> + DJANGO_WAF_CHALLENGE_COOKIE_TTL default_conf < 10 ^ 18" by (simp_all add: default_conf_def demo_env_def)
  have v: "validate_next_url views_app (solver []) (field_of [] ''next'') = Inr ''/''" "resolve_url demo_views ''/'' = Inr ''/''"
    by (simp_all add: validate_next_url_def field_of_def py_true_def demo_views_def)
  obtain r1 where r1: "check_verify_rate_limit default_conf (redis demo_env) (time_now demo_env) ''203.0.113.9'' (server issued_world) = (Inr not_exceeded, r1)"
    using demo_solver(6) by blast
  have ne: "''ab'' \<noteq> []" "''1'' \<noteq> []" "\<not> exceeded not_exceeded" by (simp_all add: not_exceeded_def)
  have p: "digest_has_leading_zero_bits (sha256_digest demo_site (utf8 (''ab'' @ ''1''))) (ct_difficulty r)" using demo_solver(7) r(5) by simp
  from solved_challenge_opens_the_site [OF demo_solver(1,2,3) h b t demo_solver(4) ne(1,2) demo_solver(5) v r1 ne(3) r(1-4) r(6) insertI2 [OF singletonI] p, of "''cd''"]
  show ?thesis by blast
qed

lemma find_map_token:
  assumes "\<And>r. ct_token (f r) = ct_token r" and "find (\<lambda>r. ct_token r = token) rows = Some r"
  shows "find (\<lambda>r. ct_token r = token) (map (\<lambda>r. if ct_token r = token then f r else r) rows) = Some (f r)"
  using assms(2) by (induction rows) (auto simp: assms(1) split: if_splits)

text \<open>
  C18. A solution can be lost to its landing page: a \<open>next\<close> that names no view and has neither a slash nor a dot passes the check of
  the redirect target, but the redirect raises, after the challenge was marked as solved and
  before the cookie is set, so the client gets an error and its solution cannot be used again.
\<close>

theorem unresolvable_target_loses_the_solution:
  assumes up: "redis_up (redis E) store_of" "backend E = Redis_backend" "\<And>n. db_ok E n"
    and posted: "verify_fields V request = Inr (Some (PStr token, PStr nonce, PStr next_url))" "token \<noteq> []" "nonce \<noteq> []" "get_ip cf request = ip"
    and target: "req_host request = Some host" "url_allowed A next_url host (is_secure request)" "next_url \<noteq> []" "reverse_url A next_url = None"
      "CHR ''/'' \<notin> set next_url" "CHR ''.'' \<notin> set next_url" and django: "names_resolve A V"
    and rate: "check_verify_rate_limit cf (redis E) (time_now E) ip (server w) = (Inr rr, r1)" "\<not> exceeded rr"
    and row: "find (\<lambda>r. ct_token r = token) (ChallengeTokens w) = Some r" "ct_status r = PENDING" "time_now E \<le> ct_expires_at r"
      "ct_ip_address r = ip"
    and lv: "live (store_of (server w)) (challenge_key token) = map_option RStr raw" "raw \<in> {None, Some (dumps (challenge_payload E0 ip (ct_difficulty r) t))}"
    and pow: "digest_has_leading_zero_bits (sha256_digest S (utf8 (token @ nonce))) (ct_difficulty r)"
  shows "\<exists>w' q. VerifyView_post cf E S A V new_token request w = (Inl NoReverseMatch, w') \<and>
     find (\<lambda>r. ct_token r = token) (ChallengeTokens w') = Some q \<and> ct_status q = SOLVED"
proof -
  let ?w = "w\<lparr>server := r1\<rparr>"
  have srv: "redis_server (redis E) store_of" using up(1) by (rule redis_up.axioms)
  have lv': "live (store_of (server ?w)) (challenge_key token) = map_option RStr raw"
    using check_verify_other [OF srv rate(1) verify_key_neq] lv(1) by simp
  have row': "find (\<lambda>r. ct_token r = token) (ChallengeTokens ?w) = Some r" using row(1) by simp
  from settle_solution_good [OF up(1,3) row' row(2-4) lv' lv(2) pow] obtain w' where
    run: "settle_solution cf E S A V new_token request token nonce ip next_url ?w = let_through cf E S A V request token ip next_url w'"
    "ChallengeTokens w' = map (\<lambda>r. if ct_token r = token
        then r\<lparr>ct_status := SOLVED, ct_solved_at := Some (time_now E), ct_nonce := nonce\<rparr> else r) (ChallengeTokens ?w)" by blast
  have "resolve_url V next_url = Inl NoReverseMatch" using django target(4-6) by (simp add: names_resolve_def)
  moreover have nx: "validate_next_url A request (PStr next_url) = Inr next_url" using target(1-3) by (simp add: validate_next_url_def py_true_def)
  ultimately have "VerifyView_post cf E S A V new_token request w = (Inl NoReverseMatch, w')"
    using VerifyView_settles [OF posted(1-3) nx up(2)] rate posted(4) run(1) by (simp add: noindex_def let_through_def)
  moreover have "find (\<lambda>r. ct_token r = token) (ChallengeTokens w') =
      Some (r\<lparr>ct_status := SOLVED, ct_solved_at := Some (time_now E), ct_nonce := nonce\<rparr>)"
    unfolding run(2) using row(1) by (simp add: find_map_token)
  ultimately show ?thesis by auto
qed

theorem unresolvable_target_loses_the_solution_witness:
  "\<exists>w'. VerifyView_post default_conf demo_env demo_site views_app demo_views ''cd'' (solver [(''next'', ''shop'')]) issued_world = (Inl NoReverseMatch, w')"
proof -
  from issued_world_facts obtain r where r: "find (\<lambda>r. ct_token r = ''ab'') (ChallengeTokens issued_world) = Some r" "ct_status r = PENDING"
    "time_now demo_env \<le> ct_expires_at r" "ct_ip_address r = ''203.0.113.9''" "ct_difficulty r = 16"
    "live (server issued_world) (challenge_key ''ab'') = map_option RStr (Some (dumps (challenge_payload demo_env ''203.0.113.9'' (ct_difficulty r) (ct_expires_at r))))"
    by blast
  obtain r1 where r1: "check_verify_rate_limit default_conf (redis demo_env) (time_now demo_env) ''203.0.113.9'' (server issued_world) = (Inr not_exceeded, r1)"
    using demo_solver(6) by blast
  have ne: "''ab'' \<noteq> []" "''1'' \<noteq> []" "\<not> exceeded not_exceeded" by (simp_all add: not_exceeded_def)
  have p: "digest_has_leading_zero_bits (sha256_digest demo_site (utf8 (''ab'' @ ''1''))) (ct_difficulty r)" using demo_solver(7) r(5) by simp
  have f: "verify_fields demo_views (solver [(''next'', ''shop'')]) = Inr (Some (PStr ''ab'', PStr ''1'', PStr ''shop''))"
    using demo_solver(4) [of "[(''next'', ''shop'')]"] by (simp add: field_of_def)
  have v: "req_host (solver [(''next'', ''shop'')]) = Some ''example.com''"
    "url_allowed views_app ''shop'' ''example.com'' (is_secure (solver [(''next'', ''shop'')]))" "''shop'' \<noteq> []" "reverse_url views_app ''shop'' = None"
    "CHR ''/'' \<notin> set ''shop''" "CHR ''.'' \<notin> set ''shop''" "names_resolve views_app demo_views"
    by (simp_all add: solver_def visitor_def views_app_def names_resolve_def demo_views_def)
  from unresolvable_target_loses_the_solution [OF demo_solver(1,2,3) f ne(1,2) demo_solver(5) v r1 ne(3) r(1-4) r(6) insertI2 [OF singletonI] p, of "''cd''"]
  show ?thesis by blast
qed

section \<open>Review by a superuser\<close>

text \<open>Redirects stay on the host: the target of a successful verification is the front page or passed the check.\<close>

lemma validate_next_url_safe:
  "validate_next_url A request v = Inr url \<Longrightarrow> url = ''/'' \<or> (\<exists>host. req_host request = Some host \<and> url_allowed A url host (is_secure request))"
  by (auto simp: validate_next_url_def split: if_splits option.splits pyval.splits)

text \<open>Nobody but a superuser changes anything through the review views.\<close>

lemma review_needs_superuser:
  assumes "is_superuser_request request \<noteq> Inr True"
  shows "snd (DashboardAnomalyConfirmView_post E V render_row request u w) = w" "snd (DashboardAnomalyRejectView_post E V request u w) = w"
  using assms
  by (auto simp: DashboardAnomalyConfirmView_post_def DashboardAnomalyRejectView_post_def SuperuserRequired_def handle_no_permission_def
      split: sum.splits bool.splits option.splits)

definition lookup_of :: "BlockRule \<Rightarrow> auto_lookup" where
  "lookup_of r = \<lparr>lk_rule_type = br_rule_type r, lk_pattern = br_pattern r, lk_action = br_action r\<rparr>"

lemma has_lookup_of: "has_key (lookup_of r) q \<longleftrightarrow> br_source q = AUTO \<and> auto_key q = auto_key r"
  by (auto simp: has_key_def lookup_of_def auto_key_def)

lemma rejected_rule_keeps [simp]:
  "br_id (rejected_rule E r) = br_id r" "br_source (rejected_rule E r) = br_source r" "auto_key (rejected_rule E r) = auto_key r"
  "\<not> br_is_active (rejected_rule E r)" "br_review_status (rejected_rule E r) = REJECTED"
  by (simp_all add: rejected_rule_def auto_key_def)

lemma decided_after_rejection:
  assumes "wf_table (BlockRules w)" and "r \<in> set (BlockRules w)" and "br_id r = u" and "br_source r = AUTO"
  shows "decided (lookup_of r) u False REJECTED (w\<lparr>BlockRules := map (\<lambda>q. if br_id q = u then rejected_rule E q else q) (BlockRules w)\<rparr>)"
proof -
  let ?f = "\<lambda>q. if br_id q = u then rejected_rule E q else q"
  have "keeps_rejection ?f" by (simp add: keeps_rejection_def)
  from wf_table_map [OF this assms(1)] have wf: "wf_table (map ?f (BlockRules w))" .
  have "has_key (lookup_of r) r" using assms(4) by (simp add: has_lookup_of)
  from filter_key_le1 [OF assms(1,2) this] have one: "filter (has_key (lookup_of r)) (BlockRules w) = [r]" .
  have "has_key (lookup_of r) (?f q) = has_key (lookup_of r) q" for q by (simp add: has_lookup_of)
  then have "filter (has_key (lookup_of r)) (map ?f (BlockRules w)) = [?f r]" using one by (simp add: filter_map comp_def)
  with wf assms(3) show ?thesis by (simp add: decided_def)
qed

lemma frames_rules_handler: "frames BlockRules (on_block_rule_save E u c)"
  by (rule frames_handlers(1)) simp_all

lemma rivals_keep_row:
  assumes "rivals_insert E" and "wf_table rows" and "r \<in> set rows"
  shows "r \<in> set (rivals E n rows) \<and> wf_table (rivals E n rows)"
  using assms unfolding rivals_insert_def by (metis Un_iff set_append)

text \<open>
  C17. An operator's rejection is final: after a superuser has rejected an automatic rule on the dashboard, no sequence of
  detector runs and maintenance tasks, with whatever settings, failures, clocks and rules inserted by other processes,
  activates the rule again, changes its review status or deletes it; and nobody else can reject through this view.
\<close>

theorem rejection_is_final:
  fixes E :: "'r env"
  assumes riv: "rivals_insert E" and wf: "wf_table (BlockRules w)" and r: "r \<in> set (BlockRules w)" "br_id r = u" "br_source r = AUTO"
    and run: "DashboardAnomalyRejectView_post E V request u w = (Inr response, v)" and ok: "status_code response = 200"
    and later: "maintained v v'"
  shows "is_superuser_request request = Inr True \<and>
    (\<exists>q\<in>set (BlockRules v'). br_id q = u \<and> br_source q = AUTO \<and> auto_key q = auto_key r \<and> \<not> br_is_active q \<and> br_review_status q = REJECTED)"
proof -
  have su: "is_superuser_request request = Inr True"
    using run ok by (auto simp: DashboardAnomalyRejectView_post_def SuperuserRequired_def handle_no_permission_def redirect_to_def
        split: sum.splits bool.splits option.splits if_splits)
  let ?P = "\<lambda>w. wf_table (BlockRules w) \<and> r \<in> set (BlockRules w)"
  obtain x w1 where get: "get_rule_or_404 E u w = (x, w1)" by fastforce
  have P1: "?P w1"
    using get wf r(1) rivals_keep_row [OF riv wf r(1)]
    by (auto simp: get_rule_or_404_def db_def Let_def andThen_def split: if_splits option.splits sum.splits)
  have "\<exists>w2. update_rule E u (rejected_rule E) w1 = (Inr (), w2) \<and> v = w2"
    using run get unfolding DashboardAnomalyRejectView_post_def SuperuserRequired_def su
    by (auto simp: andThen_def split: sum.splits prod.splits)
  then have up: "update_rule E u (rejected_rule E) w1 = (Inr (), v)" by blast
  let ?w = "w1\<lparr>BlockRules := rivals E (db_ops w1) (BlockRules w1), db_ops := Suc (db_ops w1)\<rparr>"
  have P2: "?P ?w" using rivals_keep_row [OF riv, of "BlockRules w1" r "db_ops w1"] P1 by simp
  have "BlockRules v = map (\<lambda>q. if br_id q = u then rejected_rule E q else q) (BlockRules ?w)"
    using up framesD [OF frames_rules_handler [of E u False]]
    by (auto simp: update_rule_def db_def Let_def andThen_def split: if_splits sum.splits prod.splits)
  with decided_after_rejection [OF _ _ r(2,3), of ?w E] P2 have "decided (lookup_of r) u False REJECTED v"
    by (simp add: decided_def)
  from maintained_decided [OF later this] obtain q where
    q: "filter (has_key (lookup_of r)) (BlockRules v') = [q]" "br_id q = u" "\<not> br_is_active q" "br_review_status q = REJECTED"
    by (auto simp: decided_def)
  have "q \<in> set (filter (has_key (lookup_of r)) (BlockRules v'))" unfolding q(1) by simp
  then have "q \<in> set (BlockRules v')" "br_source q = AUTO" "auto_key q = auto_key r" by (simp_all add: has_lookup_of)
  with q(2-4) su show ?thesis by blast
qed

definition superuser_request :: request where
  "superuser_request = (visitor [])\<lparr>req_method := ''POST'',
     req_user := Some \<lparr>is_authenticated = True, is_staff = True, is_superuser = True, user_pk = Some ''1''\<rparr>\<rparr>"

theorem rejection_is_final_witness:
  "list_ex (\<lambda>q. br_id q = 7 \<and> \<not> br_is_active q \<and> br_review_status q = REJECTED)
     (BlockRules (snd (expire_rules demo_env True (snd (DashboardAnomalyRejectView_post demo_env demo_views superuser_request 7
        (empty_world\<lparr>BlockRules := [example_rule]\<rparr>))))))"
proof -
  let ?w = "empty_world\<lparr>BlockRules := [example_rule]\<rparr>"
  let ?run = "DashboardAnomalyRejectView_post demo_env demo_views superuser_request 7 ?w"
  have riv: "rivals_insert demo_env" by (simp add: rivals_insert_def demo_env_def)
  have wf: "wf_table (BlockRules ?w)" by (simp add: wf_table_def)
  have r: "example_rule \<in> set (BlockRules ?w)" "br_id example_rule = 7" "br_source example_rule = AUTO" by (simp_all add: example_rule_def)
  have "(case fst ?run of Inl _ \<Rightarrow> 0 | Inr response \<Rightarrow> status_code response) = 200" by code_simp
  then obtain response where run: "?run = (Inr response, snd ?run)" "status_code response = 200"
    by (cases "fst ?run") (auto simp: prod_eq_iff)
  have "maintained (snd ?run) (snd (expire_rules demo_env True (snd ?run)))"
    by (rule maintained.expiry [OF maintained.start riv])
  from rejection_is_final [OF riv wf r run this] show ?thesis by (auto simp: list_ex_iff)
qed

end
