(* ===== verification/Spec2Isabelle.thy ===== *)
theory Spec2Isabelle
  imports Middleware FormEntry Detectors AccessLog FeedMirror Telemetry Views
begin

text \<open>
  Verification of django-waf, a web application firewall that runs as a Django middleware
  (package \<open>django_waf\<close> under \<open>src/src/django_waf/\<close>).

  \<^bold>\<open>The program.\<close> Every request goes through \<open>WafMiddleware\<close> (\<open>middleware.py\<close>): exemptions, the site
  password gate, the method filter, the country block, the staff and pass-cookie bypasses, and
  then \<open>evaluate_request\<close> (\<open>services/rule_engine.py\<close>), whose verdict becomes a response (403, 429,
  a redirect to the proof-of-work challenge, or the view's own) and a log row. The rule engine
  reads allow and block rules through a three-level cache (process, Redis, database), the rate
  limiter (\<open>services/rate_limiter.py\<close>), the HTTP fingerprint and User-Agent scores, and escalates
  unsolved challenges to blocks. Challenges and pass cookies live in
  \<open>services/challenge_service.py\<close>. Rules are changed by operators and by the anomaly detectors
  (\<open>services/anomaly_detector.py\<close>); receivers (\<open>handlers.py\<close>) invalidate the cache. Forms are
  protected separately (\<open>forms/\<close>): a form is rendered with a signed token and hidden fields, a
  chain of defences judges its submission, and a flagged submission can take a detour through the
  challenge and be replayed from the session. Periodic tasks (\<open>tasks.py\<close>) run the detectors, prune and
  expire rows, ingest the nginx access log, write rules as an nginx file and exchange rules
  and reports with a central feed.

  \<^bold>\<open>How it is modelled.\<close> Python code that only computes is a HOL function; code with effects is a
  program of type \<open>('s, 'a) py\<close>, a function from a state to a result (\<open>Inl\<close> an exception, \<open>Inr\<close> a
  value) and a new state, so every raise, except clause and early return of the source is a branch
  of the model. The state is the record \<open>world\<close> (Redis server, tables, process caches, signals
  sent, log). Code that is not in the repository is a parameter: the record \<open>env\<close> (Redis client,
  clock, hash functions, DNS, database failures, writes of other processes, receivers), the record
  \<open>site\<close> (secret key, HMAC, SHA-256, Django's signer) and the record \<open>app\<close> (view, URL resolution,
  templates, GeoIP reader). What is relied on is stated in locales and predicates
  (\<open>redis_server\<close>, \<open>redis_up\<close>, \<open>hex_signer\<close>, \<open>timestamp_signer\<close>, \<open>codec\<close>, \<open>token_format\<close>) and
  shown to be satisfiable by interpretations on a concrete deployment (\<open>demo_env\<close>, \<open>demo_site\<close>,
  \<open>demo_app\<close>), at which the witnesses evaluate.

  \<^bold>\<open>Theories.\<close>
  \<^item> \<open>Prelude\<close>: exceptions and programs, characters and string methods, integers as text, the locale
    \<open>codec\<close> of text formats that every signed or serialised value instantiates.
  \<^item> \<open>PyIpaddress\<close>, \<open>PyRegex\<close>, \<open>PyCodecs\<close>, \<open>Json\<close>: the parts of Python's \<open>ipaddress\<close>, \<open>re\<close>, UTF-8,
    \<open>base64\<close> and \<open>json\<close> that the package uses, with round trips and, for regular expressions, the
    language a search decides.
  \<^item> \<open>RedisStore\<close>: the commands the package sends, their documented meaning on an abstract store, and
    the locales of conforming and of available servers.
  \<^item> \<open>Models\<close>, \<open>Conf\<close>, \<open>World\<close>: \<open>models.py\<close>, \<open>enums.py\<close>, \<open>conf.py\<close> and the state; \<open>World\<close> also has the
    frame and preservation rules (\<open>frames\<close>, \<open>keeps\<close>) for programs.
  \<^item> \<open>PatternValidation\<close>, \<open>ClientIp\<close>, \<open>RateLimiter\<close>, \<open>UaAnalyser\<close>, \<open>Fingerprint\<close>: the services of these
    names. The rate limiter refines a specification on sets of time stamps.
  \<^item> \<open>Handlers\<close>, \<open>RuleCaching\<close>, \<open>RuleMatching\<close>, \<open>AutoRules\<close>, \<open>RuleEngine\<close>, \<open>Escalation\<close>: \<open>handlers.py\<close>,
    \<open>services/rule_engine.py\<close> and the rule-writing part of \<open>services/anomaly_detector.py\<close>. A rule
    change reaches the next load; the first matching rule decides; only allow rules pass; automatic
    rules respect an operator's review; escalation counts, blocks and lasts as configured.
  \<^item> \<open>Signing\<close>, \<open>ChallengeService\<close>, \<open>SiteAccess\<close>: cookies, signatures, \<open>services/challenge_service.py\<close>,
    \<open>services/site_password_service.py\<close>, \<open>services/trusted_user_service.py\<close>, \<open>receivers.py\<close>. A
    challenge is accepted again only by answers that overlap the first acceptance (rule induction over
    \<open>challenge_run\<close>, where the look-up and the save of an answer are separate steps), only from its
    address and with the proof of work, and can be solved; cookies are bound to address and time.
  \<^item> \<open>Middleware\<close>: \<open>middleware.py\<close> and the look-up of \<open>services/geoip.py\<close>. The theorems compose the
    theories above: a matching rule ends in a 403, denied requests never reach the view, the locked
    site stays locked.
  \<^item> \<open>FormBase\<close>, \<open>FormTokens\<close>, \<open>FormReplay\<close>, \<open>FormDefences\<close>, \<open>FormProtection\<close>, \<open>FormEntry\<close>: \<open>forms/\<close>. Tokens
    round-trip and are spent once, an honest submission passes, parked submissions are bounded and
    hold no secret (rule induction over \<open>session_reachable\<close>), the verdict is the sum of what
    the defences answered against the two thresholds; and where the code departs from its documentation a theorem says so.
  \<^item> \<open>Detectors\<close>: the six detectors of \<open>services/anomaly_detector.py\<close> with their queries. A run keeps
    what an operator decided about a rule, and every column of a rule that is not automatic (locale
    \<open>detector_invariant\<close>), a dry run changes nothing, and what each
    detector flags is characterised.
  \<^item> \<open>Tasks\<close>, \<open>AccessLog\<close>: \<open>tasks.py\<close>. Retention, expiry, reputation and the hit counters, with an invariant
    over every sequence of tasks (locale \<open>maintenance_invariant\<close>, rule induction over \<open>maintained\<close>); the
    ingestion of the nginx access log, which reads back what nginx writes and adds no line twice when
    it resumes at the start of a line.
  \<^item> \<open>Blocklist\<close>: \<open>services/blocklist_generator.py\<close> over a model of the disk: what the file lists, and that a
    refused candidate is rolled back.
  \<^item> \<open>ThreatFeed\<close>, \<open>FeedMirror\<close>, \<open>Telemetry\<close>: \<open>services/threat_feed.py\<close>. What a feed can and cannot bring in
    (locale \<open>feed_rows\<close>), that the active feed rules are the feed (triples for programs that
    return), and that a report reveals no more of a client than its network.
  \<^item> \<open>Views\<close>: \<open>views.py\<close>. The theorems join the views with the components below them: a solved challenge
    opens the site, a rejection on the dashboard is final, a bad landing page loses the solution.

  \<^bold>\<open>Bounds.\<close> Text is restricted to the first 256 code points; floats are rationals (the scores and
  time spans of the package are sums and comparisons that are exact in binary floating point or
  insensitive to rounding); a digest is a list of bytes of type \<open>8 word\<close>, Python's integers are
  \<open>int\<close>. The clock stands still within one request. Column widths matter where the code
  cuts a value to them; a value that the database refuses is one of its failures. No fuel is used: every loop of the modelled
  code is a recursion on a list or a string, and the recursive definitions are total.

  \<^bold>\<open>Not modelled.\<close> The probes (\<open>services/detector_probe.py\<close>, \<open>services/flush_probe.py\<close>), the boot-time
  \<open>checks.py\<close>, the download of the GeoIP database, the Django admin, the REST API, management
  commands, migrations and test helpers are glue around Django and the network and are left out.
\<close>

text \<open>The task that prunes challenge tokens is one of the steps that delete rows in the runs of challenges.\<close>

lemma pruning_is_a_challenge_step:
  assumes "challenge_run S n acc pend w"
  shows "challenge_run S (Suc n) acc pend (snd (prune_challenge_tokens E hours w))"
proof -
  have "\<exists>keep. ChallengeTokens (snd (prune_challenge_tokens E hours w)) = filter keep (ChallengeTokens w)"
  proof (cases "db_ok E (db_ops w)")
    case True
    then show ?thesis by (auto simp: prune_challenge_tokens_def db_def Let_def)
  next
    case False
    then show ?thesis by (intro exI [of _ "\<lambda>_. True"]) (simp add: prune_challenge_tokens_def db_def Let_def)
  qed
  then obtain keep where "ChallengeTokens (snd (prune_challenge_tokens E hours w)) = filter keep (ChallengeTokens w)" ..
  then show ?thesis by (rule challenge_run.delete [OF assms])
qed

end
